(* ===== verification/Prelude.thy ===== *)
theory Prelude
  imports Complex_Main "HOL-Library.Multiset"
begin

text \<open>
  Shared vocabulary of the development: the types that stand for Python values, exceptions
  as values, the string methods the sources call, the reachable states of a step relation,
  and the invariant interface that the components with concurrent steps instantiate.

  Python \<open>float\<close> seconds and scores are exact rationals (rounding of double arithmetic is
  not modelled), \<open>int\<close> is \<open>int\<close>, a \<open>datetime\<close> is its number of microseconds (naive UTC)
  since a fixed epoch, \<open>str\<close> is a list of code points below 256.
\<close>

named_theorems py_simps \<open>evaluation rules for the Python string and container helpers\<close>
named_theorems model_defs \<open>unfolding rules for the operations of the components\<close>

type_synonym seconds = rat
type_synonym datetime = int

definition micros_per_second :: int where
  "micros_per_second = 1000000"

subsection \<open>Exceptions as values\<close>

text \<open>
  One constructor per exception class that the sources raise or catch. \<open>CancelledError\<close> is
  a \<open>BaseException\<close>: \<open>except Exception\<close> does not catch it.
\<close>

datatype py_exn =
    CancelledError
  | TimeoutError string
  | ValueError string
  | KeyError string
  | IndexError string
  | TypeError string
  | AttributeError string
  | RuntimeError string
  | NotImplementedError string
  | AssertionError string
  | IntegrityError
  | JSONDecodeError string
  | HTTPError string
  | KafkaError string
  | CircuitOpenError string
  | HTTPException int string
  | OtherException string

type_synonym 'a outcome = "py_exn + 'a"

text \<open>\<open>except Exception\<close> catches every class but \<open>CancelledError\<close>.\<close>

definition is_Exception :: "py_exn \<Rightarrow> bool" where
  "is_Exception e \<longleftrightarrow> e \<noteq> CancelledError"

text \<open>\<open>JSONDecodeError\<close> is a subclass of \<open>ValueError\<close>.\<close>

fun is_ValueError :: "py_exn \<Rightarrow> bool" where
  "is_ValueError (ValueError m) = True"
| "is_ValueError (JSONDecodeError m) = True"
| "is_ValueError e = False"

fun is_KeyError :: "py_exn \<Rightarrow> bool" where
  "is_KeyError (KeyError m) = True"
| "is_KeyError e = False"

text \<open>\<open>str(exc)\<close>, for the classes that carry their message.\<close>

fun exn_str :: "py_exn \<Rightarrow> string" where
  "exn_str CancelledError = ''''"
| "exn_str (TimeoutError m) = m"
| "exn_str (ValueError m) = m"
| "exn_str (KeyError m) = m"
| "exn_str (IndexError m) = m"
| "exn_str (TypeError m) = m"
| "exn_str (AttributeError m) = m"
| "exn_str (RuntimeError m) = m"
| "exn_str (NotImplementedError m) = m"
| "exn_str (AssertionError m) = m"
| "exn_str IntegrityError = ''IntegrityError''"
| "exn_str (JSONDecodeError m) = m"
| "exn_str (HTTPError m) = m"
| "exn_str (KafkaError m) = m"
| "exn_str (CircuitOpenError m) = m"
| "exn_str (HTTPException c m) = m"
| "exn_str (OtherException m) = m"

text \<open>Sequencing: the first exception ends the computation.\<close>

definition try_bind :: "'a outcome \<Rightarrow> ('a \<Rightarrow> 'b outcome) \<Rightarrow> 'b outcome" where
  "try_bind m f = (case m of Inl e \<Rightarrow> Inl e | Inr v \<Rightarrow> f v)"

lemma try_bind_simps [simp]:
  "try_bind (Inl e) f = Inl e"
  "try_bind (Inr v) f = f v"
  by (simp_all add: try_bind_def)

lemma try_bind_Inr_iff: "try_bind m f = Inr r \<longleftrightarrow> (\<exists>v. m = Inr v \<and> f v = Inr r)"
  by (cases m) auto

subsection \<open>Lists\<close>

lemma length_filter_weaken:
  "(\<And>x. x \<in> set xs \<Longrightarrow> P x \<Longrightarrow> Q x) \<Longrightarrow> length (filter P xs) \<le> length (filter Q xs)"
  by (induction xs) (auto simp: le_SucI)

text \<open>Consecutive windows of a list.\<close>

lemma windows_tile: "concat (map (\<lambda>k. take l (drop (k * l) xs)) [0..<n]) = take (n * l) xs"
  by (induction n) (simp_all add: take_add add.commute [of l])

subsection \<open>Strings\<close>

text \<open>\<open>str.lower\<close> on the code points below 256: the ASCII and the Latin-1 capitals.\<close>

definition lower_char :: "char \<Rightarrow> char" where
  "lower_char c =
     (let n = (of_char c :: nat)
      in if 65 \<le> n \<and> n \<le> 90 \<or> 192 \<le> n \<and> n \<le> 222 \<and> n \<noteq> 215 then char_of (n + 32) else c)"

definition lower :: "string \<Rightarrow> string" where
  "lower s = map lower_char s"

text \<open>\<open>str.strip\<close>, \<open>str.isspace\<close>: the white space code points below 256.\<close>

definition is_space :: "char \<Rightarrow> bool" where
  "is_space c =
     (let n = (of_char c :: nat)
      in 9 \<le> n \<and> n \<le> 13 \<or> 28 \<le> n \<and> n \<le> 32 \<or> n = 133 \<or> n = 160)"

definition strip :: "string \<Rightarrow> string" where
  "strip s = rev (dropWhile is_space (rev (dropWhile is_space s)))"

text \<open>\<open>s.split(c)\<close> for a one-character separator; never empty.\<close>

fun split_on :: "char \<Rightarrow> string \<Rightarrow> string list" where
  "split_on c [] = [[]]"
| "split_on c (x # xs) =
     (if x = c then [] # split_on c xs
      else (case split_on c xs of [] \<Rightarrow> [[x]] | y # ys \<Rightarrow> (x # y) # ys))"

text \<open>\<open>s.partition(c)\<close> for a one-character separator.\<close>

definition partition_on :: "char \<Rightarrow> string \<Rightarrow> string \<times> string \<times> string" where
  "partition_on c s =
     (let h = takeWhile (\<lambda>x. x \<noteq> c) s; r = dropWhile (\<lambda>x. x \<noteq> c) s
      in (case r of [] \<Rightarrow> (h, [], []) | _ # t \<Rightarrow> (h, [c], t)))"

definition startswith :: "string \<Rightarrow> string \<Rightarrow> bool" where
  "startswith s p \<longleftrightarrow> take (length p) s = p"

text \<open>\<open>sep.join(parts)\<close>.\<close>

fun join_with :: "string \<Rightarrow> string list \<Rightarrow> string" where
  "join_with sep [] = []"
| "join_with sep [x] = x"
| "join_with sep (x # y # ys) = x @ sep @ join_with sep (y # ys)"

text \<open>A name between single quotes, as the messages have it.\<close>

definition quoted :: "string \<Rightarrow> string" where
  "quoted s = CHR 0x27 # s @ [CHR 0x27]"

text \<open>\<open>str(n)\<close> for an integer.\<close>

fun show_nat :: "nat \<Rightarrow> string" where
  "show_nat n =
     (if n < 10 then [char_of (48 + n)] else show_nat (n div 10) @ [char_of (48 + n mod 10)])"

declare show_nat.simps [simp del]

definition show_int :: "int \<Rightarrow> string" where
  "show_int i = (if i < 0 then CHR ''-'' # show_nat (nat (- i)) else show_nat (nat i))"

lemma split_on_ne [simp]: "split_on c s \<noteq> []"
  by (induction s) (auto split: list.splits)

lemma split_on_join: "join_with [c] (split_on c s) = s"
proof (induction s)
  case (Cons x xs)
  then show ?case
    by (cases "split_on c xs"; cases "tl (split_on c xs)") (auto split: list.splits)
qed simp

lemma split_on_no_sep: "p \<in> set (split_on c s) \<Longrightarrow> c \<notin> set p"
  by (induction s arbitrary: p) (auto split: list.splits if_splits)

lemma split_on_append: "c \<notin> set p \<Longrightarrow> split_on c (p @ c # s) = p # split_on c s"
  by (induction p) auto

lemma split_on_plain: "c \<notin> set p \<Longrightarrow> split_on c p = [p]"
  by (induction p) auto

lemma lower_char_idem [simp]: "lower_char (lower_char c) = lower_char c"
proof -
  have "(of_char c :: nat) < 256"
    by (cases c) simp
  then show ?thesis
    by (auto simp: lower_char_def Let_def)
qed

lemma lower_idem [simp]: "lower (lower s) = lower s"
  by (simp add: lower_def)

lemma length_lower [simp]: "length (lower s) = length s"
  by (simp add: lower_def)

lemma lower_Nil_iff [simp]: "lower s = [] \<longleftrightarrow> s = []"
  by (simp add: lower_def)

lemma is_space_lower [simp]: "is_space (lower_char c) = is_space c"
proof -
  have "(of_char c :: nat) < 256" by (cases c) simp
  then show ?thesis by (auto simp: lower_char_def is_space_def Let_def)
qed

lemma strip_lower: "strip (lower s) = lower (strip s)"
  by (simp add: strip_def lower_def dropWhile_map rev_map o_def)

lemma strip_idem [simp]: "strip (strip s) = strip s"
proof -
  let ?a = "dropWhile is_space s"
  let ?b = "dropWhile is_space (rev ?a)"
  have "rev ?b = [] \<or> \<not> is_space (hd (rev ?b))"
  proof (cases "?b = []")
    case False
    then have "last ?b = last (rev ?a)" by (metis last_appendR takeWhile_dropWhile_id)
    moreover have "?a \<noteq> []" using False by (metis dropWhile.simps(1) rev.simps(1))
    ultimately show ?thesis using hd_dropWhile [of is_space s] False by (simp add: hd_rev last_rev)
  qed simp
  then have "dropWhile is_space (rev ?b) = rev ?b" by (simp only: dropWhile_eq_self_iff)
  moreover have "dropWhile is_space ?b = ?b" by simp
  ultimately show ?thesis by (simp add: strip_def)
qed

subsection \<open>Runs of a step relation and the invariant interface\<close>

inductive reach :: "('s \<Rightarrow> bool) \<Rightarrow> ('s \<Rightarrow> 'e \<Rightarrow> 's \<Rightarrow> bool) \<Rightarrow> 's \<Rightarrow> bool"
  for init step where
  reach_init: "init s \<Longrightarrow> reach init step s"
| reach_step: "reach init step s \<Longrightarrow> step s e t \<Longrightarrow> reach init step t"

lemma reach_mono: "reach init step s \<Longrightarrow> (\<And>t. init t \<Longrightarrow> init' t) \<Longrightarrow> reach init' step s"
  by (induction rule: reach.induct) (auto intro: reach.intros)

text \<open>
  The contract between a component's operations and its safety lemmas: the invariant holds
  at the start and every step keeps it.
\<close>

locale invariant_system =
  fixes init :: "'s \<Rightarrow> bool"
    and step :: "'s \<Rightarrow> 'e \<Rightarrow> 's \<Rightarrow> bool"
    and inv :: "'s \<Rightarrow> bool"
  assumes inv_init: "init s \<Longrightarrow> inv s"
    and inv_step: "inv s \<Longrightarrow> step s e t \<Longrightarrow> inv t"
begin

lemma reachable_inv: "reach init step s \<Longrightarrow> inv s"
  by (induction rule: reach.induct) (auto intro: inv_init inv_step)

lemma reachable_implies: "reach init step s \<Longrightarrow> (\<And>t. inv t \<Longrightarrow> P t) \<Longrightarrow> P s"
  by (blast dest: reachable_inv)

end

end
