(* ===== verification/Circuit_Breaker.thy ===== *)
theory Circuit_Breaker
  imports Prelude
begin

text \<open>
  The circuit breaker of \<open>libs/platform/circuit_breaker.py\<close>: the state of
  \<open>_CircuitBreaker\<close>, its transitions, the two critical sections of \<open>call\<close> (the gate before
  the guarded function and the bookkeeping after it, each atomic under the lock), their
  sequential composition, and the step relation of several calls in flight at once. The
  clock reading of \<open>time.monotonic()\<close> is an argument of the operations that read it.
\<close>

datatype circuit_state = CLOSED | OPEN | HALF_OPEN

record breaker =
  cb_name :: string
  failure_threshold :: int
  recovery_timeout :: seconds
  cb_state :: circuit_state
  failure_count :: int
  last_failure_time :: "seconds option"

definition new_breaker :: "string \<Rightarrow> int \<Rightarrow> seconds \<Rightarrow> breaker" where
  "new_breaker nm th tmo =
     \<lparr>cb_name = nm, failure_threshold = th, recovery_timeout = tmo,
      cb_state = CLOSED, failure_count = 0, last_failure_time = None\<rparr>"

definition maybe_transition_to_half_open :: "seconds \<Rightarrow> breaker \<Rightarrow> breaker" where
  "maybe_transition_to_half_open now b =
     (if cb_state b = OPEN then
        let elapsed = now - (case last_failure_time b of None \<Rightarrow> 0 | Some t \<Rightarrow> t)
        in if recovery_timeout b \<le> elapsed then b\<lparr>cb_state := HALF_OPEN\<rparr> else b
      else b)"

definition on_success :: "breaker \<Rightarrow> breaker" where
  "on_success b = b\<lparr>cb_state := CLOSED, failure_count := 0, last_failure_time := None\<rparr>"

definition on_failure :: "seconds \<Rightarrow> breaker \<Rightarrow> breaker" where
  "on_failure now b =
     (let b1 = b\<lparr>failure_count := failure_count b + 1, last_failure_time := Some now\<rparr>
      in if failure_threshold b1 \<le> failure_count b1 \<or> cb_state b1 = HALF_OPEN
         then b1\<lparr>cb_state := OPEN\<rparr> else b1)"

text \<open>
  The gate: what \<open>call\<close> does under the lock before it awaits the function. The dash of the message is U+2014, beyond the
  strings of the model; a hyphen stands for it.
\<close>

definition call_enter :: "seconds \<Rightarrow> breaker \<Rightarrow> breaker \<times> unit outcome" where
  "call_enter now b =
     (let b1 = maybe_transition_to_half_open now b
      in if cb_state b1 = OPEN
         then (b1, Inl (CircuitOpenError
                (''Circuit '' @ quoted (cb_name b1) @ '' is OPEN - call rejected to protect downstream'')))
         else (b1, Inr ()))"

text \<open>
  The bookkeeping after the function: \<open>except Exception\<close> records a failure, \<open>else\<close> records a
  success, a \<open>CancelledError\<close> passes through both.
\<close>

definition call_finish :: "seconds \<Rightarrow> 'a outcome \<Rightarrow> breaker \<Rightarrow> breaker" where
  "call_finish now r b =
     (case r of
        Inl e \<Rightarrow> if is_Exception e then on_failure now b else b
      | Inr v \<Rightarrow> on_success b)"

text \<open>
  One whole call with nothing interleaved: \<open>f\<close> is the guarded function, acting on the
  downstream state; \<open>t0\<close> and \<open>t1\<close> are the clock readings at entry and exit.
\<close>

definition breaker_call ::
  "('s \<Rightarrow> 's \<times> 'a outcome) \<Rightarrow> seconds \<Rightarrow> seconds \<Rightarrow> breaker \<Rightarrow> 's \<Rightarrow> (breaker \<times> 's) \<times> 'a outcome"
where
  "breaker_call f t0 t1 b s =
     (case call_enter t0 b of
        (b1, Inl e) \<Rightarrow> ((b1, s), Inl e)
      | (b1, Inr u) \<Rightarrow> (case f s of (s1, r) \<Rightarrow> ((call_finish t1 r b1, s1), r)))"

text \<open>The defaults of the decorator factory \<open>circuit_breaker\<close>.\<close>

definition circuit_breaker_default :: "string \<Rightarrow> breaker" where
  "circuit_breaker_default qualname = new_breaker qualname 5 30"

lemmas breaker_ops [model_defs] =
  new_breaker_def maybe_transition_to_half_open_def on_success_def on_failure_def
  call_enter_def call_finish_def

subsection \<open>The configuration never changes\<close>

lemma call_enter_config [simp]:
  "failure_threshold (fst (call_enter t b)) = failure_threshold b"
  "recovery_timeout (fst (call_enter t b)) = recovery_timeout b"
  by (auto simp: model_defs Let_def)

lemma call_finish_config [simp]:
  "failure_threshold (call_finish t r b) = failure_threshold b"
  "recovery_timeout (call_finish t r b) = recovery_timeout b"
  by (auto simp: model_defs Let_def split: sum.splits)

subsection \<open>Interleaved calls\<close>

text \<open>
  The lock covers the two critical sections only, so between the entry and the exit of one
  call other calls may enter and exit. The state counts the calls whose function is running.
\<close>

record cb_sys =
  brk :: breaker
  inflight :: nat
  clk :: seconds

datatype cb_event = Enter seconds | Finish seconds "unit outcome"

inductive cb_step :: "cb_sys \<Rightarrow> cb_event \<Rightarrow> cb_sys \<Rightarrow> bool" where
  cb_admit: "clk s \<le> t \<Longrightarrow> call_enter t (brk s) = (b, Inr u) \<Longrightarrow>
     cb_step s (Enter t) (s\<lparr>brk := b, inflight := Suc (inflight s), clk := t\<rparr>)"
| cb_reject: "clk s \<le> t \<Longrightarrow> call_enter t (brk s) = (b, Inl e) \<Longrightarrow>
     cb_step s (Enter t) (s\<lparr>brk := b, clk := t\<rparr>)"
| cb_finish: "clk s \<le> t \<Longrightarrow> 0 < inflight s \<Longrightarrow>
     cb_step s (Finish t r)
       (s\<lparr>brk := call_finish t r (brk s), inflight := inflight s - 1, clk := t\<rparr>)"

inductive_cases cb_enterE: "cb_step s (Enter t) s'"
inductive_cases cb_finishE: "cb_step s (Finish t r) s'"

definition cb_init :: "string \<Rightarrow> int \<Rightarrow> seconds \<Rightarrow> cb_sys \<Rightarrow> bool" where
  "cb_init nm th tmo s \<longleftrightarrow> brk s = new_breaker nm th tmo \<and> inflight s = 0"

text \<open>
  What the code keeps true between its fields, for a positive threshold: a closed circuit is
  below its threshold, an open one has a failure on record, and no recorded failure is in the
  future.
\<close>

definition cb_inv :: "int \<Rightarrow> seconds \<Rightarrow> cb_sys \<Rightarrow> bool" where
  "cb_inv th tmo s \<longleftrightarrow>
     failure_threshold (brk s) = th \<and> recovery_timeout (brk s) = tmo \<and>
     (0 < th \<longrightarrow>
        0 \<le> failure_count (brk s) \<and>
        (cb_state (brk s) = CLOSED \<longrightarrow> failure_count (brk s) < th) \<and>
        (cb_state (brk s) \<noteq> CLOSED \<longrightarrow> 0 < failure_count (brk s)) \<and>
        (0 < failure_count (brk s) \<longrightarrow>
           (\<exists>t. last_failure_time (brk s) = Some t \<and> t \<le> clk s)))"

lemma cb_inv_init: "cb_init nm th tmo s \<Longrightarrow> cb_inv th tmo s"
  by (simp add: cb_inv_def cb_init_def new_breaker_def)

lemma cb_inv_step:
  assumes inv: "cb_inv th tmo s" and step: "cb_step s e t"
  shows "cb_inv th tmo t"
  using step
proof (cases rule: cb_step.cases)
  case (cb_admit t b u)
  then show ?thesis using inv
    by (auto simp: cb_inv_def call_enter_def maybe_transition_to_half_open_def Let_def
        split: if_splits option.splits)
next
  case (cb_reject t b e)
  then show ?thesis using inv
    by (auto simp: cb_inv_def call_enter_def maybe_transition_to_half_open_def Let_def
        split: if_splits option.splits)
next
  case (cb_finish t r)
  then show ?thesis using inv
    by (cases "cb_state (brk s)")
       (auto simp: cb_inv_def call_finish_def on_success_def on_failure_def Let_def
         split: if_splits sum.splits)
qed

interpretation cb: invariant_system "cb_init nm th tmo" cb_step "cb_inv th tmo"
  for nm th tmo
  by unfold_locales (erule cb_inv_init, erule (1) cb_inv_step)

lemmas cb_inv_reachable = cb.reachable_inv

subsection \<open>Sequences of calls\<close>

text \<open>Calls made one after the other, each with its entry and exit time.\<close>

fun run_calls ::
  "('s \<Rightarrow> 's \<times> 'a outcome) \<Rightarrow> (seconds \<times> seconds) list \<Rightarrow> breaker \<Rightarrow> 's \<Rightarrow> breaker \<times> 's"
where
  "run_calls f [] b s = (b, s)"
| "run_calls f ((t0, t1) # ts) b s =
     (case breaker_call f t0 t1 b s of ((b', s'), r) \<Rightarrow> run_calls f ts b' s')"

definition always_fails :: "('s \<Rightarrow> 's \<times> 'a outcome) \<Rightarrow> bool" where
  "always_fails f \<longleftrightarrow> (\<forall>s. \<exists>e. snd (f s) = Inl e \<and> is_Exception e)"

lemma closed_failing_call:
  assumes "always_fails f" "cb_state b = CLOSED"
  shows "fst (breaker_call f t0 t1 b s) = (on_failure t1 b, fst (f s))"
proof -
  obtain s1 e where "f s = (s1, Inl e)" "is_Exception e"
    using assms(1) unfolding always_fails_def by (metis prod.collapse)
  then show ?thesis
    using assms(2)
    by (simp add: breaker_call_def call_enter_def maybe_transition_to_half_open_def
        call_finish_def Let_def split: prod.splits)
qed

lemma run_failing_calls:
  assumes "always_fails f" "cb_state b = CLOSED" "ts \<noteq> []"
    and "failure_count b + int (length ts) = failure_threshold b"
  shows "\<exists>s'. run_calls f ts b s =
    (b\<lparr>cb_state := OPEN, failure_count := failure_threshold b,
       last_failure_time := Some (snd (last ts))\<rparr>, s')"
  using assms(2-)
proof (induction ts arbitrary: b s)
  case (Cons c ts)
  obtain t0 t1 where c: "c = (t0, t1)" by (cases c)
  have step: "fst (breaker_call f t0 t1 b s) = (on_failure t1 b, fst (f s))"
    by (rule closed_failing_call [OF assms(1) Cons.prems(1)])
  show ?case
  proof (cases "ts = []")
    case True
    with Cons.prems step show ?thesis
      by (cases "breaker_call f t0 t1 b s") (simp add: c on_failure_def Let_def)
  next
    case False
    let ?b = "on_failure t1 b"
    have b: "?b = b\<lparr>failure_count := failure_count b + 1, last_failure_time := Some t1\<rparr>"
      using False Cons.prems by (cases ts) (auto simp: on_failure_def Let_def)
    have "\<exists>s'. run_calls f ts ?b (fst (f s)) =
      (?b\<lparr>cb_state := OPEN, failure_count := failure_threshold ?b,
         last_failure_time := Some (snd (last ts))\<rparr>, s')"
      using Cons.prems False by (intro Cons.IH) (auto simp: b)
    with step False show ?thesis
      by (cases "breaker_call f t0 t1 b s") (auto simp: c b)
  qed
qed simp

subsection \<open>Properties\<close>

text \<open>
  C2. Tripping. Once a fresh breaker with a positive threshold has seen as many consecutive
  failing calls as the threshold, every call made before \<open>recovery_timeout\<close> has passed since
  the last failure is rejected with \<open>CircuitOpenError\<close>; the guarded function is not run (the
  downstream state is untouched) and the breaker does not change.
\<close>

theorem breaker_trips:
  assumes "0 < th" and "always_fails f" and "length ts = nat th"
    and "run_calls f ts (new_breaker nm th tmo) s = (b, s')"
    and "t < snd (last ts) + tmo"
  shows "\<exists>m. breaker_call g t t' b s' = ((b, s'), Inl (CircuitOpenError m))"
proof -
  let ?b0 = "new_breaker nm th tmo"
  have "ts \<noteq> []" "failure_count ?b0 + int (length ts) = failure_threshold ?b0"
    "cb_state ?b0 = CLOSED"
    using assms(1,3) by (auto simp: new_breaker_def)
  from run_failing_calls [OF assms(2) this(3,1,2)] assms(4)
  have "b = ?b0\<lparr>cb_state := OPEN, failure_count := failure_threshold ?b0,
       last_failure_time := Some (snd (last ts))\<rparr>"
    by (metis prod.inject)
  then show ?thesis
    using assms(5)
    by (auto simp: breaker_call_def call_enter_def maybe_transition_to_half_open_def
        new_breaker_def Let_def)
qed

definition tripped_example :: breaker where
  "tripped_example =
     \<lparr>cb_name = ''send'', failure_threshold = 2, recovery_timeout = 30,
      cb_state = OPEN, failure_count = 2, last_failure_time = Some 3\<rparr>"

theorem breaker_trips_witness:
  "\<exists>m. breaker_call (\<lambda>n. (n + 1, Inr ())) 31 32 tripped_example (2 :: nat)
     = ((tripped_example, 2), Inl (CircuitOpenError m))"
proof -
  let ?f = "\<lambda>n :: nat. (n + 1, Inl (KafkaError ''down'') :: unit outcome)"
  have run: "run_calls ?f [(0, 1), (2, 3)] (new_breaker ''send'' 2 30) 0 = (tripped_example, 2)"
    by (simp add: breaker_call_def breaker_ops is_Exception_def Let_def tripped_example_def)
  have "always_fails ?f" by (simp add: always_fails_def is_Exception_def)
  from breaker_trips [OF _ this _ run, of 31 "\<lambda>n. (n + 1, Inr ())" 32] show ?thesis
    by (simp add: tripped_example_def)
qed

text \<open>
  C3. Interleaved calls. However the entries and exits of concurrent calls interleave, for a
  positive threshold: a closed circuit has recorded fewer failures than the threshold, and a
  circuit that is open or half-open has a last failure, which is not in the future.
\<close>

theorem breaker_reachable:
  assumes "reach (cb_init nm th tmo) cb_step s" and "0 < th"
  shows "(cb_state (brk s) = CLOSED \<longrightarrow> 0 \<le> failure_count (brk s) \<and> failure_count (brk s) < th)
       \<and> (cb_state (brk s) \<noteq> CLOSED \<longrightarrow>
            (\<exists>t. last_failure_time (brk s) = Some t \<and> t \<le> clk s))"
  using cb_inv_reachable [OF assms(1)] assms(2) by (auto simp: cb_inv_def)

text \<open>
  C25. Recovery. In every reachable state that is open, a call made once \<open>recovery_timeout\<close> has
  passed since the recorded failure runs the function and returns its result; the circuit then
  closes with a zero count on success, opens again from that moment on an exception whatever
  the count, and stays half-open when the call is cancelled.
\<close>

theorem breaker_recovers:
  assumes "reach (cb_init nm th tmo) cb_step s" and "0 < th" and "cb_state (brk s) = OPEN"
    and "last_failure_time (brk s) = Some tf" and "tf + tmo \<le> t0"
  shows "\<exists>b. breaker_call f t0 t1 (brk s) d = ((b, fst (f d)), snd (f d)) \<and>
    (case snd (f d) of
       Inr v \<Rightarrow> b = (brk s)\<lparr>cb_state := CLOSED, failure_count := 0, last_failure_time := None\<rparr>
     | Inl e \<Rightarrow> if e = CancelledError then b = (brk s)\<lparr>cb_state := HALF_OPEN\<rparr>
               else cb_state b = OPEN \<and> last_failure_time b = Some t1)"
proof -
  have tmo: "recovery_timeout (brk s) = tmo"
    using cb_inv_reachable [OF assms(1)] by (simp add: cb_inv_def)
  have "call_enter t0 (brk s) = ((brk s)\<lparr>cb_state := HALF_OPEN\<rparr>, Inr ())"
    using assms(3-5) tmo by (simp add: call_enter_def maybe_transition_to_half_open_def)
  then show ?thesis
    by (cases "f d")
       (auto simp: breaker_call_def call_finish_def on_success_def on_failure_def
          is_Exception_def Let_def split: sum.splits)
qed

text \<open>A reachable open circuit: the five failures of the default breaker, all at time 0.\<close>

definition cb_conf :: "circuit_state \<Rightarrow> int \<Rightarrow> seconds option \<Rightarrow> nat \<Rightarrow> seconds \<Rightarrow> cb_sys" where
  "cb_conf st n l m c =
     \<lparr>brk = \<lparr>cb_name = ''f'', failure_threshold = 5, recovery_timeout = 30,
             cb_state = st, failure_count = n, last_failure_time = l\<rparr>,
      inflight = m, clk = c\<rparr>"

abbreviation default_reach :: "cb_sys \<Rightarrow> bool" where
  "default_reach \<equiv> reach (cb_init ''f'' 5 30) cb_step"

lemma reach_closed_enter:
  assumes "default_reach (cb_conf CLOSED n l m 0)"
  shows "default_reach (cb_conf CLOSED n l (Suc m) 0)"
proof -
  have "cb_step (cb_conf CLOSED n l m 0) (Enter 0) (cb_conf CLOSED n l (Suc m) 0)"
    using cb_admit [of "cb_conf CLOSED n l m 0" 0 "brk (cb_conf CLOSED n l m 0)"]
    by (simp add: cb_conf_def call_enter_def maybe_transition_to_half_open_def)
  with assms show ?thesis by (rule reach_step)
qed

lemma reach_half_enter:
  assumes "default_reach (cb_conf HALF_OPEN n l m 30)"
  shows "default_reach (cb_conf HALF_OPEN n l (Suc m) 30)"
proof -
  have "cb_step (cb_conf HALF_OPEN n l m 30) (Enter 30) (cb_conf HALF_OPEN n l (Suc m) 30)"
    using cb_admit [of "cb_conf HALF_OPEN n l m 30" 30 "brk (cb_conf HALF_OPEN n l m 30)"]
    by (simp add: cb_conf_def call_enter_def maybe_transition_to_half_open_def)
  with assms show ?thesis by (rule reach_step)
qed

lemma reach_fail:
  assumes "default_reach (cb_conf CLOSED n l (Suc m) 0)"
  shows "default_reach (cb_conf (if 4 \<le> n then OPEN else CLOSED) (n + 1) (Some 0) m 0)"
proof -
  have "cb_step (cb_conf CLOSED n l (Suc m) 0) (Finish 0 (Inl (KafkaError [])))
      (cb_conf (if 4 \<le> n then OPEN else CLOSED) (n + 1) (Some 0) m 0)"
    using cb_finish [of "cb_conf CLOSED n l (Suc m) 0" 0 "Inl (KafkaError [])"]
    by (auto simp: cb_conf_def call_finish_def on_failure_def is_Exception_def Let_def
        split: if_splits)
  with assms show ?thesis by (rule reach_step)
qed

lemma reach_open: "default_reach (cb_conf OPEN 5 (Some 0) 1 0)"
proof -
  have "default_reach (cb_conf CLOSED 0 None 0 0)"
    by (rule reach_init) (simp add: cb_init_def cb_conf_def new_breaker_def)
  then have "default_reach (cb_conf CLOSED 0 None 1 0)"
    by (simp add: reach_closed_enter)
  then have "default_reach (cb_conf CLOSED 0 None 6 0)"
    by (simp add: reach_closed_enter eval_nat_numeral)
  then have "default_reach (cb_conf CLOSED 1 (Some 0) 5 0)"
    using reach_fail [of 0 None 5] by (simp add: eval_nat_numeral)
  then have "default_reach (cb_conf CLOSED 2 (Some 0) 4 0)"
    using reach_fail [of 1 "Some 0" 4] by (simp add: eval_nat_numeral)
  then have "default_reach (cb_conf CLOSED 3 (Some 0) 3 0)"
    using reach_fail [of 2 "Some 0" 3] by (simp add: eval_nat_numeral)
  then have "default_reach (cb_conf CLOSED 4 (Some 0) 2 0)"
    using reach_fail [of 3 "Some 0" 2] by (simp add: eval_nat_numeral)
  then show ?thesis
    using reach_fail [of 4 "Some 0" 1] by (simp add: eval_nat_numeral)
qed

theorem breaker_reachable_witness:
  "cb_state (brk (cb_conf OPEN 5 (Some 0) 1 0)) = OPEN \<and>
   (\<exists>t. last_failure_time (brk (cb_conf OPEN 5 (Some 0) 1 0)) = Some t \<and> t \<le> 0)"
  using breaker_reachable [OF reach_open] by (simp add: cb_conf_def)

theorem breaker_recovers_witness:
  "\<exists>b. breaker_call (\<lambda>n. (n + 1, Inr ())) 30 31 (brk (cb_conf OPEN 5 (Some 0) 1 0)) (7 :: nat)
     = ((b, 8), Inr ()) \<and> cb_state b = CLOSED \<and> failure_count b = 0"
  using breaker_recovers [OF reach_open, of 0 30 "\<lambda>n. (n + 1, Inr ())" 31 "7 :: nat"]
  by (auto simp: cb_conf_def)

text \<open>
  Probing. The half-open gate does not limit the probes: with the decorator's defaults
  there are reachable half-open states with any number of calls running at once.
\<close>

theorem half_open_unbounded_probes:
  "\<exists>s. reach (cb_init ''f'' 5 30) cb_step s \<and> cb_state (brk s) = HALF_OPEN \<and> n \<le> inflight s"
proof -
  have "cb_step (cb_conf OPEN 5 (Some 0) 1 0) (Enter 30) (cb_conf HALF_OPEN 5 (Some 0) 2 30)"
    using cb_admit [of "cb_conf OPEN 5 (Some 0) 1 0" 30 "brk (cb_conf HALF_OPEN 5 (Some 0) 1 0)"]
    by (simp add: cb_conf_def call_enter_def maybe_transition_to_half_open_def eval_nat_numeral)
  with reach_open have "default_reach (cb_conf HALF_OPEN 5 (Some 0) 2 30)"
    by (rule reach_step)
  then have "default_reach (cb_conf HALF_OPEN 5 (Some 0) (n + 2) 30)"
    by (induction n) (auto simp: numeral_2_eq_2 intro: reach_half_enter)
  then show ?thesis
    by (intro exI [of _ "cb_conf HALF_OPEN 5 (Some 0) (n + 2) 30"]) (simp add: cb_conf_def)
qed

text \<open>
  A late success. A call admitted before the circuit opened and succeeding while it is open
  closes it at once, with no half-open probe and before \<open>recovery_timeout\<close> has passed.
\<close>

theorem open_closed_by_late_success:
  "\<exists>s t s'. reach (cb_init ''f'' 5 30) cb_step s \<and> cb_state (brk s) = OPEN \<and>
     last_failure_time (brk s) = Some 0 \<and> t < 30 \<and>
     cb_step s (Finish t (Inr ())) s' \<and> cb_state (brk s') = CLOSED \<and> failure_count (brk s') = 0"
proof -
  have "cb_step (cb_conf OPEN 5 (Some 0) 1 0) (Finish 1 (Inr ())) (cb_conf CLOSED 0 None 0 1)"
    using cb_finish [of "cb_conf OPEN 5 (Some 0) 1 0" 1 "Inr ()"]
    by (simp add: cb_conf_def call_finish_def on_success_def)
  with reach_open show ?thesis
    by (intro exI [of _ "cb_conf OPEN 5 (Some 0) 1 0"] exI [of _ 1]
        exI [of _ "cb_conf CLOSED 0 None 0 1"]) (simp add: cb_conf_def)
qed

end
