(* ===== verification/Codec.thy ===== *)
theory Codec
  imports Prelude "HOL-Library.Countable"
begin

text \<open>
  The codecs of the Python standard library that the sources call: \<open>json.loads\<close>,
  \<open>base64.b64encode\<close> and \<open>b64decode\<close>, \<open>bytes.decode("utf-8")\<close>, \<open>datetime.isoformat\<close> and
  \<open>datetime.fromisoformat\<close>, with the round trips that the cursors rest on.

  The domain is that of the model's strings: code points below 256. A text that would decode to
  a larger code point counts as a decoding error; so do the constants \<open>NaN\<close> and \<open>Infinity\<close> of
  \<open>json.loads\<close> and the ISO forms that \<open>isoformat\<close> of a naive datetime never prints (basic
  format, week dates, offsets).
\<close>

subsection \<open>JSON values\<close>

datatype json =
    JNull
  | JBool bool
  | JInt int
  | JFloat rat
  | JStr string
  | JList "json list"
  | JObj "(string \<times> json) list"

instance json :: countable
  by countable_datatype

text \<open>Looking up a key: a later pair of the same name replaces an earlier one.\<close>

definition obj_get :: "string \<Rightarrow> (string \<times> json) list \<Rightarrow> json option" where
  "obj_get k kvs = map_of (rev kvs) k"

text \<open>Truth value testing, \<open>bool(v)\<close>.\<close>

fun truthy :: "json \<Rightarrow> bool" where
  "truthy JNull = False"
| "truthy (JBool b) = b"
| "truthy (JInt i) = (i \<noteq> 0)"
| "truthy (JFloat q) = (q \<noteq> 0)"
| "truthy (JStr s) = (s \<noteq> [])"
| "truthy (JList vs) = (vs \<noteq> [])"
| "truthy (JObj kvs) = (kvs \<noteq> [])"

text \<open>\<open>type(v).__name__\<close>, as it appears in the messages of \<open>AttributeError\<close> and \<open>TypeError\<close>.\<close>

fun type_name :: "json \<Rightarrow> string" where
  "type_name JNull = ''NoneType''"
| "type_name (JBool b) = ''bool''"
| "type_name (JInt i) = ''int''"
| "type_name (JFloat q) = ''float''"
| "type_name (JStr s) = ''str''"
| "type_name (JList vs) = ''list''"
| "type_name (JObj kvs) = ''dict''"

text \<open>\<open>v.get(k)\<close>: only a dict has the method.\<close>

fun py_get :: "json \<Rightarrow> string \<Rightarrow> json outcome" where
  "py_get (JObj kvs) k = Inr (case obj_get k kvs of None \<Rightarrow> JNull | Some v \<Rightarrow> v)"
| "py_get v k = Inl (AttributeError (''object has no attribute get: '' @ type_name v))"

subsection \<open>Digits\<close>

definition is_digit :: "char \<Rightarrow> bool" where
  "is_digit c = (let n = (of_char c :: nat) in 48 \<le> n \<and> n \<le> 57)"

definition digit_val :: "char \<Rightarrow> nat" where
  "digit_val c = of_char c - 48"

definition digits_val :: "string \<Rightarrow> nat" where
  "digits_val s = foldl (\<lambda>a c. 10 * a + digit_val c) 0 s"

lemma digits_val_snoc [simp]: "digits_val (s @ [c]) = 10 * digits_val s + digit_val c"
  by (simp add: digits_val_def)

lemma digits_val_Nil [simp]: "digits_val [] = 0"
  by (simp add: digits_val_def)

lemma digit_char [simp]: "d < 10 \<Longrightarrow> is_digit (char_of (48 + d :: nat))"
  "d < 10 \<Longrightarrow> digit_val (char_of (48 + d)) = d"
  by (simp_all add: is_digit_def digit_val_def)

lemma show_nat_digits: "\<forall>c \<in> set (show_nat n). is_digit c"
  by (induction n rule: show_nat.induct) (subst show_nat.simps, auto)

lemma show_nat_ne [simp]: "show_nat n \<noteq> []"
  by (subst show_nat.simps) simp

lemma digits_val_show [simp]: "digits_val (show_nat n) = n"
proof (induction n rule: show_nat.induct)
  case (1 n)
  then show ?case
    by (subst show_nat.simps) (auto simp: digits_val_def [of "[c]" for c])
qed

lemma show_nat_hd: "hd (show_nat n) = CHR ''0'' \<longleftrightarrow> n = 0"
proof (induction n rule: show_nat.induct)
  case (1 n)
  have d: "char_of (48 + k :: nat) = CHR ''0'' \<longleftrightarrow> k = 0" if "k < 10" for k
  proof -
    have "digit_val (char_of (48 + k)) = k" using that by simp
    moreover have "digit_val CHR ''0'' = 0" by (simp add: digit_val_def)
    moreover have "char_of (48 + 0 :: nat) = CHR ''0''" by (rule iffD1 [OF of_char_eq_iff [where ?'a = nat]]) simp
    ultimately show ?thesis by metis
  qed
  show ?case
    using 1 d by (subst show_nat.simps) auto
qed


subsection \<open>json.loads\<close>

definition json_ws :: "char \<Rightarrow> bool" where
  "json_ws c = (let n = (of_char c :: nat) in n = 32 \<or> n = 9 \<or> n = 10 \<or> n = 13)"

definition hex_val :: "char \<Rightarrow> nat option" where
  "hex_val c =
     (let n = (of_char c :: nat)
      in if 48 \<le> n \<and> n \<le> 57 then Some (n - 48)
         else if 65 \<le> n \<and> n \<le> 70 then Some (n - 55)
         else if 97 \<le> n \<and> n \<le> 102 then Some (n - 87)
         else None)"

fun hex4 :: "char \<Rightarrow> char \<Rightarrow> char \<Rightarrow> char \<Rightarrow> char option" where
  "hex4 a b c d =
     (case (hex_val a, hex_val b, hex_val c, hex_val d) of
        (Some x, Some y, Some z, Some w) \<Rightarrow>
          (let n = ((x * 16 + y) * 16 + z) * 16 + w
           in if n < 256 then Some (char_of n) else None)
      | _ \<Rightarrow> None)"

definition escape_char :: "char \<Rightarrow> char option" where
  "escape_char c =
     (let n = (of_char c :: nat)
      in if n = 34 \<or> n = 92 \<or> n = 47 then Some c
         else if n = 98 then Some (char_of (8 :: nat))
         else if n = 102 then Some (char_of (12 :: nat))
         else if n = 110 then Some (char_of (10 :: nat))
         else if n = 114 then Some (char_of (13 :: nat))
         else if n = 116 then Some (char_of (9 :: nat))
         else None)"

definition cons_char :: "char \<Rightarrow> (string \<times> string) option \<Rightarrow> (string \<times> string) option" where
  "cons_char c r = map_option (\<lambda>(s, rest). (c # s, rest)) r"

text \<open>The rest of a string literal, after its opening quote (strict mode).\<close>

fun scan_str :: "string \<Rightarrow> (string \<times> string) option" where
  "scan_str [] = None"
| "scan_str (c # cs) =
     (if of_char c = (34 :: nat) then Some ([], cs)
      else if of_char c = (92 :: nat) then
        (case cs of
           [] \<Rightarrow> None
         | e # es \<Rightarrow>
             if of_char e = (117 :: nat) then
               (case es of
                  a1 # a2 # a3 # a4 # rest \<Rightarrow>
                    (case hex4 a1 a2 a3 a4 of
                       None \<Rightarrow> None
                     | Some d \<Rightarrow> cons_char d (scan_str rest))
                | _ \<Rightarrow> None)
             else
               (case escape_char e of
                  None \<Rightarrow> None
                | Some d \<Rightarrow> cons_char d (scan_str es)))
      else if of_char c < (32 :: nat) then None
      else cons_char c (scan_str cs))"

text \<open>A number: \<open>-?(0|[1-9][0-9]*)([.][0-9]+)?([eE][-+]?[0-9]+)?\<close>.\<close>

definition scan_frac :: "string \<Rightarrow> (string \<times> string)" where
  "scan_frac s =
     (case s of
        c # cs \<Rightarrow>
          if c = CHR ''.'' \<and> takeWhile is_digit cs \<noteq> []
          then (takeWhile is_digit cs, dropWhile is_digit cs) else ([], s)
      | [] \<Rightarrow> ([], s))"

definition scan_exp :: "string \<Rightarrow> (int option \<times> string)" where
  "scan_exp s =
     (case s of
        c # cs \<Rightarrow>
          if c = CHR ''e'' \<or> c = CHR ''E'' then
            (let (sg, ds) =
               (case cs of
                  d # r \<Rightarrow> if d = CHR ''-'' then (- 1, r) else if d = CHR ''+'' then (1, r) else (1, cs)
                | [] \<Rightarrow> (1, cs))
             in if takeWhile is_digit ds \<noteq> []
                then (Some (sg * int (digits_val (takeWhile is_digit ds))), dropWhile is_digit ds)
                else (None, s))
          else (None, s)
      | [] \<Rightarrow> (None, s))"

definition float_of :: "int \<Rightarrow> nat \<Rightarrow> string \<Rightarrow> int option \<Rightarrow> rat" where
  "float_of sg m fr ex =
     of_int sg * (of_nat m + of_nat (digits_val fr) / 10 ^ length fr) *
       (case ex of None \<Rightarrow> 1 | Some e \<Rightarrow> if 0 \<le> e then 10 ^ nat e else 1 / 10 ^ nat (- e))"

definition scan_num :: "string \<Rightarrow> (json \<times> string) option" where
  "scan_num s =
     (let (sg, t) = (case s of c # cs \<Rightarrow> if c = CHR ''-'' then (- 1 :: int, cs) else (1, s) | [] \<Rightarrow> (1, s));
          ds = takeWhile is_digit t
      in if ds = [] then None
         else
           let (m, r0) = (if hd ds = CHR ''0'' then (''0'', tl t) else (ds, dropWhile is_digit t));
               (fr, r1) = scan_frac r0;
               (ex, r2) = scan_exp r1
           in if fr = [] \<and> ex = None then Some (JInt (sg * int (digits_val m)), r0)
              else Some (JFloat (float_of sg (digits_val m) fr ex), r2))"

text \<open>\<open>n\<close> bounds the nesting and the number of elements; the length of the text is enough.\<close>

fun parse_value :: "nat \<Rightarrow> string \<Rightarrow> (json \<times> string) option"
and parse_items :: "nat \<Rightarrow> string \<Rightarrow> (json list \<times> string) option"
and parse_members :: "nat \<Rightarrow> string \<Rightarrow> ((string \<times> json) list \<times> string) option"
where
  "parse_value 0 s = None"
| "parse_value (Suc n) [] = None"
| "parse_value (Suc n) (c # cs) =
     (if of_char c = (34 :: nat) then map_option (\<lambda>(t, r). (JStr t, r)) (scan_str cs)
      else if c = CHR ''{'' then
        (case dropWhile json_ws cs of
           [] \<Rightarrow> None
         | d # ds \<Rightarrow>
             if d = CHR ''}'' then Some (JObj [], ds)
             else map_option (\<lambda>(kvs, r). (JObj kvs, r)) (parse_members n (d # ds)))
      else if c = CHR ''['' then
        (case dropWhile json_ws cs of
           [] \<Rightarrow> None
         | d # ds \<Rightarrow>
             if d = CHR '']'' then Some (JList [], ds)
             else map_option (\<lambda>(vs, r). (JList vs, r)) (parse_items n (d # ds)))
      else if take 4 (c # cs) = ''null'' then Some (JNull, drop 4 (c # cs))
      else if take 4 (c # cs) = ''true'' then Some (JBool True, drop 4 (c # cs))
      else if take 5 (c # cs) = ''false'' then Some (JBool False, drop 5 (c # cs))
      else scan_num (c # cs))"
| "parse_items 0 s = None"
| "parse_items (Suc n) s =
     (case parse_value n s of
        None \<Rightarrow> None
      | Some (v, r) \<Rightarrow>
          (case dropWhile json_ws r of
             [] \<Rightarrow> None
           | c # cs \<Rightarrow>
               if c = CHR '']'' then Some ([v], cs)
               else if c = CHR '','' then
                 map_option (\<lambda>(vs, r'). (v # vs, r')) (parse_items n (dropWhile json_ws cs))
               else None))"
| "parse_members 0 s = None"
| "parse_members (Suc n) s =
     (case s of
        [] \<Rightarrow> None
      | q # qs \<Rightarrow>
          if of_char q \<noteq> (34 :: nat) then None
          else
            (case scan_str qs of
               None \<Rightarrow> None
             | Some (k, r) \<Rightarrow>
                 (case dropWhile json_ws r of
                    [] \<Rightarrow> None
                  | c # cs \<Rightarrow>
                      if c \<noteq> CHR '':'' then None
                      else
                        (case parse_value n (dropWhile json_ws cs) of
                           None \<Rightarrow> None
                         | Some (v, r1) \<Rightarrow>
                             (case dropWhile json_ws r1 of
                                [] \<Rightarrow> None
                              | d # ds \<Rightarrow>
                                  if d = CHR ''}'' then Some ([(k, v)], ds)
                                  else if d = CHR '','' then
                                    map_option (\<lambda>(kvs, r'). ((k, v) # kvs, r'))
                                      (parse_members n (dropWhile json_ws ds))
                                  else None)))))"

definition json_loads :: "string \<Rightarrow> json outcome" where
  "json_loads s =
     (case parse_value (2 * length s + 2) (dropWhile json_ws s) of
        None \<Rightarrow> Inl (JSONDecodeError ''Expecting value'')
      | Some (v, r) \<Rightarrow>
          if dropWhile json_ws r = [] then Inr v else Inl (JSONDecodeError ''Extra data''))"

subsection \<open>base64\<close>

definition b64_char :: "nat \<Rightarrow> char" where
  "b64_char n =
     (if n < 26 then char_of (65 + n) else if n < 52 then char_of (71 + n)
      else if n < 62 then char_of (n - 4) else if n = 62 then CHR ''+'' else CHR ''/'')"

definition b64_val :: "char \<Rightarrow> nat option" where
  "b64_val c =
     (let n = (of_char c :: nat)
      in if 65 \<le> n \<and> n \<le> 90 then Some (n - 65)
         else if 97 \<le> n \<and> n \<le> 122 then Some (n - 71)
         else if 48 \<le> n \<and> n \<le> 57 then Some (n + 4)
         else if n = 43 then Some 62
         else if n = 47 then Some 63
         else None)"

fun b64encode :: "string \<Rightarrow> string" where
  "b64encode [] = []"
| "b64encode [a] =
     (let x = of_char a in [b64_char (x div 4), b64_char (x mod 4 * 16), CHR ''='', CHR ''=''])"
| "b64encode [a, b] =
     (let x = of_char a; y = of_char b
      in [b64_char (x div 4), b64_char (x mod 4 * 16 + y div 16), b64_char (y mod 16 * 4), CHR ''=''])"
| "b64encode (a # b # c # r) =
     (let x = of_char a; y = of_char b; z = of_char c
      in b64_char (x div 4) # b64_char (x mod 4 * 16 + y div 16)
         # b64_char (y mod 16 * 4 + z div 64) # b64_char (z mod 64) # b64encode r)"

text \<open>
  The decoder, in its lenient mode: the position in the quad, the bits left over and the padding
  seen so far. Characters outside the alphabet are skipped.
\<close>

fun b64_run :: "nat \<Rightarrow> nat \<Rightarrow> nat \<Rightarrow> string \<Rightarrow> string option" where
  "b64_run quad_pos left pads [] = (if quad_pos = 0 then Some [] else None)"
| "b64_run quad_pos left pads (c # cs) =
     (if c = CHR ''='' then
        (if 2 \<le> quad_pos then
           (if 4 \<le> quad_pos + Suc pads then Some [] else b64_run quad_pos left (Suc pads) cs)
         else b64_run quad_pos left pads cs)
      else
        (case b64_val c of
           None \<Rightarrow> b64_run quad_pos left pads cs
         | Some v \<Rightarrow>
             if quad_pos = 0 then b64_run 1 v 0 cs
             else if quad_pos = 1 then
               map_option ((#) (char_of (left * 4 + v div 16))) (b64_run 2 (v mod 16) 0 cs)
             else if quad_pos = 2 then
               map_option ((#) (char_of (left * 16 + v div 4))) (b64_run 3 (v mod 4) 0 cs)
             else map_option ((#) (char_of (left * 64 + v))) (b64_run 0 0 0 cs)))"

definition b64decode :: "string \<Rightarrow> string outcome" where
  "b64decode s =
     (if \<exists>c \<in> set s. 128 \<le> (of_char c :: nat)
      then Inl (ValueError ''string argument should contain only ASCII characters'')
      else (case b64_run 0 0 0 s of
              None \<Rightarrow> Inl (ValueError ''Incorrect padding'')
            | Some r \<Rightarrow> Inr r))"

lemma of_char_bound: "(of_char c :: nat) < 256"
  by (cases c) simp

lemma b64_char_cases:
  "n < 64 \<Longrightarrow> b64_val (b64_char n) = Some n \<and> b64_char n \<noteq> CHR ''='' \<and> of_char (b64_char n) < (128 :: nat)"
proof -
  assume "n < 64"
  then have "b64_val (b64_char n) = Some n" "of_char (b64_char n) < (128 :: nat)"
    by (auto simp: b64_val_def b64_char_def Let_def)
  moreover have "b64_val CHR ''='' = None" by (simp add: b64_val_def)
  ultimately show ?thesis by force
qed

lemma b64_val_char [simp]: "n < 64 \<Longrightarrow> b64_val (b64_char n) = Some n"
  and b64_char_not_pad [simp]: "n < 64 \<Longrightarrow> b64_char n \<noteq> CHR ''=''"
  and b64_char_ascii [simp]: "n < 64 \<Longrightarrow> of_char (b64_char n) < (128 :: nat)"
  using b64_char_cases by auto

lemma b64_bits:
  fixes x y z :: nat
  assumes "x < 256" "y < 256" "z < 256"
  shows "x div 4 < 64" "x mod 4 * 16 < 64" "x mod 4 * 16 + y div 16 < 64" "y mod 16 * 4 < 64"
    "y mod 16 * 4 + z div 64 < 64" "z mod 64 < 64"
proof -
  have "x mod 4 < 4" "y mod 16 < 16" "y div 16 < 16" "z div 64 < 4"
    using assms by (simp_all add: less_mult_imp_div_less)
  then show "x mod 4 * 16 < 64" "x mod 4 * 16 + y div 16 < 64" "y mod 16 * 4 < 64"
    "y mod 16 * 4 + z div 64 < 64" by linarith+
qed (use assms in \<open>simp_all add: less_mult_imp_div_less\<close>)

lemma b64_join:
  fixes x y z :: nat
  assumes "x < 256" "y < 256" "z < 256"
  shows "x div 4 * 4 + x mod 4 * 16 div 16 = x"
    "x div 4 * 4 + (x mod 4 * 16 + y div 16) div 16 = x"
    "(x mod 4 * 16 + y div 16) mod 16 * 16 + y mod 16 * 4 div 4 = y"
    "(x mod 4 * 16 + y div 16) mod 16 * 16 + (y mod 16 * 4 + z div 64) div 4 = y"
    "(y mod 16 * 4 + z div 64) mod 4 * 64 + z mod 64 = z"
proof -
  have "y div 16 < 16" "z div 64 < 4" using assms by (simp_all add: less_mult_imp_div_less)
  then show "x div 4 * 4 + x mod 4 * 16 div 16 = x"
    "x div 4 * 4 + (x mod 4 * 16 + y div 16) div 16 = x"
    "(x mod 4 * 16 + y div 16) mod 16 * 16 + y mod 16 * 4 div 4 = y"
    "(x mod 4 * 16 + y div 16) mod 16 * 16 + (y mod 16 * 4 + z div 64) div 4 = y"
    "(y mod 16 * 4 + z div 64) mod 4 * 64 + z mod 64 = z"
    by (simp_all add: mod_simps)
qed

lemma b64_run_encode: "b64_run 0 0 0 (b64encode s) = Some s"
proof (induction s rule: b64encode.induct)
  case (2 a)
  then show ?case
    using of_char_bound [of a] b64_bits [of "of_char a" 0 0] b64_join [of "of_char a" 0 0]
    by (simp add: Let_def)
next
  case (3 a b)
  then show ?case
    using of_char_bound [of a] of_char_bound [of b] b64_bits [of "of_char a" "of_char b" 0]
      b64_join [of "of_char a" "of_char b" 0]
    by (simp add: Let_def)
next
  case (4 a b c r)
  have "of_char b div 16 < (16 :: nat)"
    using of_char_bound [of b] by (simp add: less_mult_imp_div_less)
  then show ?case
    using 4 of_char_bound [of a] of_char_bound [of b] of_char_bound [of c]
      b64_bits [of "of_char a" "of_char b" "of_char c"]
      b64_join [of "of_char a" "of_char b" "of_char c"]
    by (simp add: Let_def)
qed simp

lemma b64encode_ascii: "c \<in> set (b64encode s) \<Longrightarrow> of_char c < (128 :: nat)"
proof (induction s rule: b64encode.induct)
  case (4 a b c r)
  then show ?case
    using of_char_bound [of a] of_char_bound [of b] of_char_bound [of c]
      b64_bits [of "of_char a" "of_char b" "of_char c"]
    by (auto simp: Let_def)
next
  case (3 a b)
  then show ?case
    using of_char_bound [of a] of_char_bound [of b] b64_bits [of "of_char a" "of_char b" 0]
    by (auto simp: Let_def)
next
  case (2 a)
  then show ?case
    using of_char_bound [of a] b64_bits [of "of_char a" 0 0] by (auto simp: Let_def)
qed simp

lemma b64decode_encode [simp]: "b64decode (b64encode s) = Inr s"
  by (force simp: b64decode_def b64_run_encode dest: b64encode_ascii)

lemma b64encode_Nil_iff [simp]: "b64encode s = [] \<longleftrightarrow> s = []"
  by (cases s rule: b64encode.cases) (auto simp: Let_def)

subsection \<open>UTF-8\<close>

fun utf8_decode :: "string \<Rightarrow> string outcome" where
  "utf8_decode [] = Inr []"
| "utf8_decode (c # cs) =
     (let n = (of_char c :: nat)
      in if n < 128 then map_sum id ((#) c) (utf8_decode cs)
         else if n = 194 \<or> n = 195 then
           (case cs of
              [] \<Rightarrow> Inl (ValueError ''unexpected end of data'')
            | d # ds \<Rightarrow>
                let m = (of_char d :: nat)
                in if 128 \<le> m \<and> m < 192
                   then map_sum id ((#) (char_of ((n - 192) * 64 + (m - 128)))) (utf8_decode ds)
                   else Inl (ValueError ''invalid continuation byte''))
         else Inl (ValueError ''invalid start byte''))"

definition utf8_encode :: "string \<Rightarrow> string" where
  "utf8_encode s = concat (map (\<lambda>c. let n = (of_char c :: nat)
     in if n < 128 then [c] else [char_of (192 + n div 64), char_of (128 + n mod 64)]) s)"

lemma utf8_ascii:
  "\<forall>c \<in> set s. of_char c < (128 :: nat) \<Longrightarrow> utf8_decode s = Inr s \<and> utf8_encode s = s"
  by (induction s) (auto simp: Let_def utf8_encode_def)

subsection \<open>ISO timestamps\<close>

text \<open>A naive datetime is the number of microseconds since 0001-01-01T00:00:00.\<close>

definition micros_per_day :: int where
  "micros_per_day = 86400000000"

definition valid_datetime :: "datetime \<Rightarrow> bool" where
  "valid_datetime t \<longleftrightarrow> 0 \<le> t \<and> t < 3652059 * micros_per_day"

definition leap :: "nat \<Rightarrow> bool" where
  "leap y \<longleftrightarrow> y mod 4 = 0 \<and> (y mod 100 \<noteq> 0 \<or> y mod 400 = 0)"

definition month_lengths :: "nat \<Rightarrow> nat list" where
  "month_lengths y = [31, if leap y then 29 else 28, 31, 30, 31, 30, 31, 31, 30, 31, 30, 31]"

definition days_before_year :: "nat \<Rightarrow> nat" where
  "days_before_year y = (y - 1) * 365 + (y - 1) div 4 - (y - 1) div 100 + (y - 1) div 400"

text \<open>Year and day of the year of a day number (0 is 0001-01-01).\<close>

definition split_year :: "nat \<Rightarrow> nat \<times> nat" where
  "split_year n =
     (let n400 = n div 146097; a = n mod 146097;
          n100 = min 3 (a div 36524); b = a - n100 * 36524;
          n4 = b div 1461; c = b mod 1461;
          n1 = min 3 (c div 365); d = c - n1 * 365
      in (400 * n400 + 100 * n100 + 4 * n4 + n1 + 1, d))"

fun find_month :: "nat \<Rightarrow> nat list \<Rightarrow> nat \<Rightarrow> nat \<times> nat" where
  "find_month m [] d = (m, d + 1)"
| "find_month m (l # ls) d = (if d < l then (m, d + 1) else find_month (m + 1) ls (d - l))"

definition ymd_of :: "nat \<Rightarrow> nat \<times> nat \<times> nat" where
  "ymd_of n = (let (y, d) = split_year n in (y, find_month 1 (month_lengths y) d))"

definition day_of :: "nat \<Rightarrow> nat \<Rightarrow> nat \<Rightarrow> nat" where
  "day_of y m d = days_before_year y + sum_list (take (m - 1) (month_lengths y)) + (d - 1)"

lemma split_year_bounds:
  assumes "split_year n = (y, d)"
  shows "days_before_year y + d = n \<and> 1 \<le> y \<and> d < (if leap y then 366 else 365) \<and> (n < 3652059 \<longrightarrow> y \<le> 9999)"
proof -
  define n400 a n100 b n4 c n1 where defs: "n400 = n div 146097" "a = n mod 146097"
    "n100 = min 3 (a div 36524)" "b = a - n100 * 36524" "n4 = b div 1461" "c = b mod 1461"
    "n1 = min 3 (c div 365)"
  have y: "y = 400 * n400 + 100 * n100 + 4 * n4 + n1 + 1" and d: "d = c - n1 * 365"
    using assms by (auto simp: split_year_def Let_def defs)
  have n: "n = 146097 * n400 + a" "a < 146097" by (auto simp: defs)
  have a: "a = 36524 * n100 + b" "n100 \<le> 3" "b \<le> 36524" "n100 < 3 \<Longrightarrow> b < 36524"
    using n(2) by (auto simp: defs(3,4) min_def)
  have b: "b = 1461 * n4 + c" "c < 1461" "n4 \<le> 24" using a(3) by (auto simp: defs(5,6))
  have c: "c = 365 * n1 + d" "n1 \<le> 3" "d \<le> 365" "n1 < 3 \<Longrightarrow> d < 365"
    using b(2) d by (auto simp: defs(7) min_def)
  have q: "(y - 1) div 4 = 100 * n400 + 25 * n100 + n4" "(y - 1) div 100 = 4 * n400 + n100"
    "(y - 1) div 400 = n400"
    using y b(3) c(2) a(2) by auto
  have 1: "days_before_year y + d = n"
    unfolding days_before_year_def q using y n a b c by simp
  have 2: "leap y" if "d = 365"
  proof -
    have n1: "n1 = 3" using c(2,4) that by linarith
    have c1: "c = 1460" using c(1) n1 that by simp
    have y4: "y = 4 * (100 * n400 + 25 * n100 + n4 + 1)" using y n1 by simp
    show ?thesis
    proof (cases "n4 = 24")
      case True
      then have "b = 36524" using b(1) c1 by simp
      then have "n100 = 3" using a(2,4) by linarith
      then have "y = 400 * (n400 + 1)" using y n1 True by simp
      then show ?thesis by (simp add: leap_def)
    next
      case False
      have "y = 4 * (n4 + 1) + 100 * (4 * n400 + n100)" using y n1 by simp
      then have "y mod 100 = 4 * (n4 + 1) mod 100" by (simp only: mod_mult_self2)
      then have "y mod 100 = 4 * (n4 + 1)" using False b(3) by simp
      then show ?thesis using y4 by (simp add: leap_def)
    qed
  qed
  have 3: "d < (if leap y then 366 else 365)" using 2 c(3) by (cases "d = 365") auto
  have 4: "n < 3652059 \<longrightarrow> y \<le> 9999"
  proof
    assume "n < 3652059"
    then have "n400 \<le> 24" using n by linarith
    then show "y \<le> 9999" using y c(1,2) a(2,3) b(1,3) n a(1) \<open>n < 3652059\<close> by linarith
  qed
  show ?thesis using 1 3 4 y by simp
qed

lemma find_month_inv:
  "d < sum_list ls \<Longrightarrow> find_month m ls d = (m', d') \<Longrightarrow>
   m \<le> m' \<and> m' < m + length ls \<and> 1 \<le> d' \<and> d' \<le> ls ! (m' - m) \<and>
   sum_list (take (m' - m) ls) + (d' - 1) = d"
proof (induction ls arbitrary: m d)
  case (Cons l ls)
  show ?case
  proof (cases "d < l")
    case True
    then show ?thesis using Cons.prems by auto
  next
    case False
    then have "find_month (m + 1) ls (d - l) = (m', d')" "d - l < sum_list ls"
      using Cons.prems by auto
    from Cons.IH [OF this(2,1)] have IH: "m + 1 \<le> m'" "m' < m + 1 + length ls" "1 \<le> d'"
      "d' \<le> ls ! (m' - (m + 1))" "sum_list (take (m' - (m + 1)) ls) + (d' - 1) = d - l"
      by auto
    have "m' - m = Suc (m' - (m + 1))" using IH(1) by simp
    then show ?thesis using IH False by simp
  qed
qed simp

lemma month_lengths_sum: "sum_list (month_lengths y) = (if leap y then 366 else 365)"
  by (simp add: month_lengths_def)

lemma ymd_of_inv:
  assumes "ymd_of n = (y, m, d)" and "n < 3652059"
  shows "day_of y m d = n \<and> 1 \<le> y \<and> y \<le> 9999 \<and> 1 \<le> m \<and> m \<le> 12 \<and> 1 \<le> d \<and>
    d \<le> month_lengths y ! (m - 1)"
proof -
  obtain k where k: "split_year n = (y, k)" "find_month 1 (month_lengths y) k = (m, d)"
    using assms(1) by (auto simp: ymd_of_def split: prod.splits)
  have y: "days_before_year y + k = n \<and> 1 \<le> y \<and> k < (if leap y then 366 else 365) \<and>
      (n < 3652059 \<longrightarrow> y \<le> 9999)"
    by (rule split_year_bounds [OF k(1)])
  then have "k < sum_list (month_lengths y)" by (simp add: month_lengths_sum)
  from find_month_inv [OF this k(2)] have
    "1 \<le> m \<and> m \<le> 12 \<and> 1 \<le> d \<and> d \<le> month_lengths y ! (m - 1) \<and>
     sum_list (take (m - 1) (month_lengths y)) + (d - 1) = k"
    by (simp add: month_lengths_def)
  moreover from this have "day_of y m d = n"
    using y unfolding day_of_def by linarith
  ultimately show ?thesis using y assms(2) by blast
qed

definition pad :: "nat \<Rightarrow> nat \<Rightarrow> string" where
  "pad k n = replicate (k - length (show_nat n)) (CHR ''0'') @ show_nat n"

definition isoformat :: "datetime \<Rightarrow> string" where
  "isoformat t =
     (let (y, m, d) = ymd_of (nat (t div micros_per_day));
          r = nat (t mod micros_per_day);
          s = r div 1000000; us = r mod 1000000
      in pad 4 y @ ''-'' @ pad 2 m @ ''-'' @ pad 2 d @ ''T'' @ pad 2 (s div 3600) @ '':'' @
         pad 2 (s div 60 mod 60) @ '':'' @ pad 2 (s mod 60) @
         (if us = 0 then [] else ''.'' @ pad 6 us))"

text \<open>A field of exactly \<open>k\<close> digits.\<close>

definition scan_field :: "nat \<Rightarrow> string \<Rightarrow> (nat \<times> string) option" where
  "scan_field k s =
     (if length (take k s) = k \<and> (\<forall>c \<in> set (take k s). is_digit c)
      then Some (digits_val (take k s), drop k s) else None)"

definition scan_char :: "char \<Rightarrow> string \<Rightarrow> string option" where
  "scan_char c s = (case s of [] \<Rightarrow> None | x # xs \<Rightarrow> if x = c then Some xs else None)"

text \<open>Seconds and their fraction; a fraction beyond six digits is cut off.\<close>

definition scan_micros :: "string \<Rightarrow> nat option" where
  "scan_micros s =
     (case s of
        [] \<Rightarrow> Some 0
      | c # cs \<Rightarrow>
          if (c = CHR ''.'' \<or> c = CHR '','') \<and> cs \<noteq> [] \<and> (\<forall>d \<in> set cs. is_digit d)
          then Some (digits_val (take 6 cs) * 10 ^ (6 - length (take 6 cs)))
          else None)"

definition scan_time :: "string \<Rightarrow> nat option" where
  "scan_time s =
     Option.bind (scan_field 2 s) (\<lambda>(hh, r1).
       if 24 \<le> hh then None
       else if r1 = [] then Some (hh * 3600000000)
       else Option.bind (scan_char (CHR '':'') r1) (\<lambda>r2. Option.bind (scan_field 2 r2) (\<lambda>(mm, r3).
         if 60 \<le> mm then None
         else if r3 = [] then Some ((hh * 60 + mm) * 60000000)
         else Option.bind (scan_char (CHR '':'') r3) (\<lambda>r4. Option.bind (scan_field 2 r4) (\<lambda>(ss, r5).
           if 60 \<le> ss then None
           else map_option (\<lambda>us. ((hh * 60 + mm) * 60 + ss) * 1000000 + us) (scan_micros r5))))))"

definition fromisoformat :: "string \<Rightarrow> datetime outcome" where
  "fromisoformat s =
     (case Option.bind (scan_field 4 s) (\<lambda>(y, r1). Option.bind (scan_char (CHR ''-'') r1)
          (\<lambda>r2. Option.bind (scan_field 2 r2) (\<lambda>(m, r3). Option.bind (scan_char (CHR ''-'') r3)
          (\<lambda>r4. Option.bind (scan_field 2 r4) (\<lambda>(d, r5).
            if 1 \<le> y \<and> 1 \<le> m \<and> m \<le> 12 \<and> 1 \<le> d \<and> d \<le> month_lengths y ! (m - 1)
            then map_option (\<lambda>us. int (day_of y m d) * micros_per_day + int us)
                   (case r5 of [] \<Rightarrow> Some 0 | sep # r6 \<Rightarrow> scan_time r6)
            else None)))))
      of None \<Rightarrow> Inl (ValueError ''Invalid isoformat string'') | Some t \<Rightarrow> Inr t)"

lemma length_show_nat: "n < 10 ^ k \<Longrightarrow> 0 < k \<Longrightarrow> length (show_nat n) \<le> k"
proof (induction k arbitrary: n)
  case (Suc k)
  show ?case
  proof (cases "n < 10")
    case True
    then show ?thesis by (subst show_nat.simps) simp
  next
    case False
    then have "0 < k" using Suc.prems by (cases k) auto
    moreover have "n div 10 < 10 ^ k" using Suc.prems by (simp add: less_mult_imp_div_less)
    ultimately show ?thesis using Suc.IH [of "n div 10"] False by (subst show_nat.simps) simp
  qed
qed simp

lemma length_pad: "n < 10 ^ k \<Longrightarrow> 0 < k \<Longrightarrow> length (pad k n) = k"
  using length_show_nat [of n k] by (simp add: pad_def)

lemma pad_digits: "\<forall>c \<in> set (pad k n). is_digit c"
  using show_nat_digits [of n] by (auto simp: pad_def is_digit_def)

lemma digits_val_zeros: "digits_val (replicate j (CHR ''0'') @ s) = digits_val s"
  by (induction j) (simp_all add: digits_val_def digit_val_def)

lemma digits_val_pad: "digits_val (pad k n) = n"
  by (simp add: pad_def digits_val_zeros)

lemma scan_field_pad:
  "n < 10 ^ k \<Longrightarrow> 0 < k \<Longrightarrow> scan_field k (pad k n @ r) = Some (n, r)"
  using length_pad [of n k] pad_digits [of k n] by (simp add: scan_field_def digits_val_pad)

lemma scan_micros_pad: "u < 1000000 \<Longrightarrow> scan_micros (if u = 0 then [] else ''.'' @ pad 6 u) = Some u"
  using length_pad [of u 6] pad_digits [of 6 u]
  by (auto simp: scan_micros_def digits_val_pad)

lemma scan_char_hit [simp]: "scan_char c (c # s) = Some s"
  by (simp add: scan_char_def)

lemma month_lengths_le: "1 \<le> m \<Longrightarrow> m \<le> 12 \<Longrightarrow> month_lengths y ! (m - 1) \<le> 31"
  by (auto simp: month_lengths_def nth_Cons split: nat.splits)

text \<open>The fields of a time of day.\<close>

lemma time_fields:
  fixes r :: nat
  assumes "r < 86400000000"
  shows "r div 1000000 div 3600 < 24" "r div 1000000 div 60 mod 60 < 60"
    "r div 1000000 mod 60 < 60" "r mod 1000000 < 1000000"
    "((r div 1000000 div 3600 * 60 + r div 1000000 div 60 mod 60) * 60 + r div 1000000 mod 60) *
       1000000 + r mod 1000000 = r"
proof -
  have "r div 1000000 < 86400" using assms by (simp add: less_mult_imp_div_less)
  then show "r div 1000000 div 3600 < 24" by (simp add: less_mult_imp_div_less)
  have "r div 1000000 div 3600 = r div 1000000 div 60 div 60" by (simp add: div_mult2_eq)
  then have "(r div 1000000 div 3600 * 60 + r div 1000000 div 60 mod 60) * 60 + r div 1000000 mod 60
      = r div 1000000"
    by (simp only: div_mult_mod_eq)
  then show "((r div 1000000 div 3600 * 60 + r div 1000000 div 60 mod 60) * 60 + r div 1000000 mod 60)
      * 1000000 + r mod 1000000 = r"
    by (simp only: div_mult_mod_eq)
qed simp_all

lemma scan_time_fields:
  assumes "hh < 24" "mm < 60" "ss < 60" "us < 1000000"
  shows "scan_time (pad 2 hh @ '':'' @ pad 2 mm @ '':'' @ pad 2 ss @
     (if us = 0 then [] else ''.'' @ pad 6 us)) = Some (((hh * 60 + mm) * 60 + ss) * 1000000 + us)"
proof -
  have "hh < 10 ^ 2" "mm < 10 ^ 2" "ss < 10 ^ 2" using assms by auto
  note f = this [THEN scan_field_pad]
  show ?thesis
    using assms scan_micros_pad [OF assms(4)] by (simp add: scan_time_def f)
qed

lemma scan_time_printed:
  assumes "r < 86400000000"
  shows "scan_time (pad 2 (r div 1000000 div 3600) @ '':'' @ pad 2 (r div 1000000 div 60 mod 60) @ '':'' @
     pad 2 (r div 1000000 mod 60) @ (if r mod 1000000 = 0 then [] else ''.'' @ pad 6 (r mod 1000000))) = Some r"
  by (subst scan_time_fields [OF time_fields(1-4) [OF assms]]) (simp only: time_fields(5) [OF assms])

lemma fromisoformat_isoformat:
  assumes "valid_datetime t"
  shows "fromisoformat (isoformat t) = Inr t"
proof -
  obtain y m d where ymd: "ymd_of (nat (t div micros_per_day)) = (y, m, d)"
    by (cases "ymd_of (nat (t div micros_per_day))")
  let ?r = "nat (t mod micros_per_day)"
  have "0 \<le> t div micros_per_day" "t div micros_per_day < 3652059"
    using assms by (auto simp: valid_datetime_def micros_per_day_def)
  moreover from this have "day_of y m d = nat (t div micros_per_day) \<and> 1 \<le> y \<and> y \<le> 9999 \<and> 1 \<le> m \<and> m \<le> 12
      \<and> 1 \<le> d \<and> d \<le> month_lengths y ! (m - 1)"
    using ymd_of_inv [OF ymd] by simp
  moreover from this month_lengths_le [of m y] have "d < 10 ^ 2" "m < 10 ^ 2" "y < 10 ^ 4" by auto
  moreover have "?r < 86400000000" by (simp add: micros_per_day_def nat_less_iff)
  moreover have "int ?r = t mod micros_per_day" by (simp add: micros_per_day_def)
  ultimately show ?thesis
    using scan_time_printed [of ?r]
    by (simp add: fromisoformat_def isoformat_def ymd Let_def scan_field_pad)
qed

subsection \<open>Parsing a printed cursor\<close>

text \<open>A character that a JSON string literal holds unescaped.\<close>

definition plain_char :: "char \<Rightarrow> bool" where
  "plain_char c = (let n = (of_char c :: nat) in 32 \<le> n \<and> n < 128 \<and> n \<noteq> 34 \<and> n \<noteq> 92)"

lemma scan_str_plain: "\<forall>c \<in> set s. plain_char c \<Longrightarrow> scan_str (s @ CHR 0x22 # r) = Some (s, r)"
  by (induction s) (auto simp: plain_char_def cons_char_def Let_def)

lemma scan_num_int:
  assumes "r = [] \<or> \<not> is_digit (hd r) \<and> hd r \<noteq> CHR ''.'' \<and> hd r \<noteq> CHR ''e'' \<and> hd r \<noteq> CHR ''E''"
  shows "scan_num (show_int i @ r) = Some (JInt i, r)"
proof -
  have tw: "takeWhile is_digit (show_nat n @ r) = show_nat n"
    "dropWhile is_digit (show_nat n @ r) = r" for n
    using show_nat_digits [of n] assms
    by (auto simp: takeWhile_append2 dropWhile_append2 takeWhile_eq_Nil_iff dropWhile_eq_self_iff)
  have z: "show_nat n = ''0''" if "n = 0" for n
    using that by (subst show_nat.simps) (simp, rule iffD1 [OF of_char_eq_iff [where ?'a = nat]], simp)
  have fr: "scan_frac r = ([], r)" "scan_exp r = (None, r)"
    using assms by (auto simp: scan_frac_def scan_exp_def split: list.splits)
  have nm: "hd (show_nat n @ r) \<noteq> CHR ''-''" for n
    using show_nat_digits [of n] by (cases "show_nat n") (auto simp: is_digit_def)
  have dz: "digits_val ''0'' = 0" "is_digit CHR ''0''"
    by (simp_all add: digits_val_def digit_val_def is_digit_def)
  have core: "(let ds = takeWhile is_digit (show_nat n @ r)
      in if ds = [] then None
         else let (m, r0) = (if hd ds = CHR ''0'' then (''0'', tl (show_nat n @ r)) else (ds, dropWhile is_digit (show_nat n @ r)));
               (fr, r1) = scan_frac r0; (ex, r2) = scan_exp r1
           in if fr = [] \<and> ex = None then Some (JInt (sg * int (digits_val m)), r0)
              else Some (JFloat (float_of sg (digits_val m) fr ex), r2)) = Some (JInt (sg * int n), r)" for n sg
    using z [of n] by (cases "n = 0") (auto simp: tw fr Let_def show_nat_hd dz)
  show ?thesis
  proof (cases "i < 0")
    case True
    then show ?thesis using core [of "nat (- i)" "- 1"] by (simp add: scan_num_def show_int_def Let_def)
  next
    case False
    have "(case show_nat (nat i) @ r of c # cs \<Rightarrow> if c = CHR ''-'' then (- 1 :: int, cs) else (1, show_nat (nat i) @ r)
        | [] \<Rightarrow> (1, show_nat (nat i) @ r)) = (1, show_nat (nat i) @ r)"
      using nm [of "nat i"] by (cases "show_nat (nat i) @ r") auto
    then show ?thesis using core [of "nat i" 1] False
      by (simp only: scan_num_def show_int_def Let_def if_False prod.case) simp
  qed
qed

text \<open>
  The text that \<open>json.dumps\<close> with the separators \<open>(",", ":")\<close> gives for a cursor's dict.
\<close>

definition cursor_json :: "int \<Rightarrow> datetime option \<Rightarrow> string" where
  "cursor_json record_id timestamp =
     ''{'' @ [CHR 0x22] @ ''id'' @ [CHR 0x22] @ '':'' @ show_int record_id @ '','' @
     [CHR 0x22] @ ''timestamp'' @ [CHR 0x22] @ '':'' @
     (case timestamp of
        None \<Rightarrow> ''null''
      | Some t \<Rightarrow> [CHR 0x22] @ isoformat t @ [CHR 0x22]) @ ''}''"

lemma digit_plain: "is_digit c \<Longrightarrow> plain_char c"
  by (auto simp: is_digit_def plain_char_def Let_def)

lemma pad_plain: "\<forall>c \<in> set (pad k n). plain_char c"
  using pad_digits [of k n] digit_plain by blast

lemma isoformat_plain: "\<forall>c \<in> set (isoformat t). plain_char c"
proof -
  have "plain_char CHR ''-''" "plain_char CHR ''T''" "plain_char CHR '':''" "plain_char CHR ''.''"
    by (simp_all add: plain_char_def)
  then show ?thesis
    using pad_plain by (auto simp: isoformat_def Let_def split: prod.splits)
qed

lemma show_int_chars: "\<forall>c \<in> set (show_int i). is_digit c \<or> c = CHR ''-''"
  using show_nat_digits by (auto simp: show_int_def)

lemma show_int_hd: "show_int i = c # cs \<Longrightarrow> is_digit c \<or> c = CHR ''-''"
  using show_int_chars [of i] by simp

lemma show_int_ne [simp]: "show_int i \<noteq> []"
  by (simp add: show_int_def)

lemma parse_int:
  assumes "r = [] \<or> \<not> is_digit (hd r) \<and> hd r \<noteq> CHR ''.'' \<and> hd r \<noteq> CHR ''e'' \<and> hd r \<noteq> CHR ''E''"
  shows "parse_value (Suc n) (show_int i @ r) = Some (JInt i, r)"
proof -
  obtain c cs where c: "show_int i = c # cs" by (cases "show_int i") auto
  have "of_char c \<noteq> (34 :: nat)" "c \<noteq> CHR ''{''" "c \<noteq> CHR ''[''" "c \<noteq> CHR ''n''"
    "c \<noteq> CHR ''t''" "c \<noteq> CHR ''f''"
    using show_int_hd [OF c] by (auto simp: is_digit_def Let_def)
  then show ?thesis using scan_num_int [OF assms, of i] by (simp add: c)
qed

lemma show_int_ws: "dropWhile json_ws (show_int i @ r) = show_int i @ r"
proof -
  obtain c cs where c: "show_int i = c # cs" by (cases "show_int i") auto
  then have "\<not> json_ws c"
    using show_int_hd [OF c] by (auto simp: is_digit_def json_ws_def Let_def)
  then show ?thesis by (simp add: c)
qed

lemma parse_members_int:
  assumes "\<forall>c \<in> set k. plain_char c" "r = CHR '','' # CHR 0x22 # r'"
    "parse_members (Suc n) (CHR 0x22 # r') = Some (kvs, rest)"
  shows "parse_members (Suc (Suc n)) (CHR 0x22 # k @ CHR 0x22 # CHR '':'' # show_int i @ r) =
    Some ((k, JInt i) # kvs, rest)"
  using assms scan_str_plain [OF assms(1)] parse_int [of r n i] show_int_ws [of i r]
  by (simp add: json_ws_def is_digit_def del: parse_value.simps)

lemma parse_members_last:
  assumes "\<forall>c \<in> set k. plain_char c"
  shows "\<forall>c \<in> set s. plain_char c \<Longrightarrow>
      parse_members (Suc (Suc n)) (CHR 0x22 # k @ CHR 0x22 # CHR '':'' # CHR 0x22 # s @ [CHR 0x22, CHR ''}'']) =
      Some ([(k, JStr s)], [])"
    and "parse_members (Suc (Suc n)) (CHR 0x22 # k @ CHR 0x22 # CHR '':'' # ''null}'') = Some ([(k, JNull)], [])"
  using scan_str_plain [OF assms] by (simp_all add: json_ws_def scan_str_plain)

lemma json_loads_cursor:
  "json_loads (cursor_json i (Some t)) =
     Inr (JObj [(''id'', JInt i), (''timestamp'', JStr (isoformat t))])"
  "json_loads (cursor_json i None) = Inr (JObj [(''id'', JInt i), (''timestamp'', JNull)])"
proof -
  have k: "\<forall>c \<in> set ''id''. plain_char c" "\<forall>c \<in> set ''timestamp''. plain_char c"
    by (simp_all add: plain_char_def)
  define N where "N = length (cursor_json i (Some t))"
  define M where "M = length (cursor_json i None)"
  obtain n where n: "2 * N + 2 = Suc (Suc (Suc (Suc n)))"
    by (rule that [of "2 * N - 2"]) (simp add: N_def cursor_json_def)
  obtain m where m: "2 * M + 2 = Suc (Suc (Suc (Suc m)))"
    by (rule that [of "2 * M - 2"]) (simp add: M_def cursor_json_def)
  note last = parse_members_last(1) [OF k(2) isoformat_plain [of t], of n] parse_members_last(2) [OF k(2), of m]
  note all = parse_members_int [OF k(1) refl last(1), of i] parse_members_int [OF k(1) refl last(2), of i]
  show "json_loads (cursor_json i (Some t)) =
     Inr (JObj [(''id'', JInt i), (''timestamp'', JStr (isoformat t))])"
    using all(1) unfolding json_loads_def N_def [symmetric] n
    by (simp add: cursor_json_def json_ws_def del: parse_members.simps)
  show "json_loads (cursor_json i None) = Inr (JObj [(''id'', JInt i), (''timestamp'', JNull)])"
    using all(2) unfolding json_loads_def M_def [symmetric] m
    by (simp add: cursor_json_def json_ws_def del: parse_members.simps)
qed

lemma cursor_json_ascii: "\<forall>c \<in> set (cursor_json i ts). of_char c < (128 :: nat)"
proof -
  have "of_char c < (128 :: nat)" if "c \<in> set (isoformat t)" for c t
    using isoformat_plain that by (fastforce simp: plain_char_def Let_def)
  moreover have "of_char c < (128 :: nat)" if "c \<in> set (show_int i)" for c
    using show_int_chars [of i] that by (fastforce simp: is_digit_def Let_def)
  ultimately show ?thesis by (auto simp: cursor_json_def split: option.splits)
qed

end
