(* ===== verification/Schemas.thy ===== *)
theory Schemas
  imports Codec
begin

text \<open>
  The request schemas of \<open>ingestor/schemas.py\<close> with the bounds of \<open>ingestor/constants.py\<close>:
  the Pydantic field constraints and the validators of \<open>RecordRequest\<close>, \<open>UpdateRecordRequest\<close>,
  \<open>BatchRecordsRequest\<close> and the query schemas. A body arrives here after Pydantic's type
  coercion; a validation error is the 422 answer of the framework. A datetime as parsed is its
  wall clock and its UTC offset, if it has one.
\<close>

definition SOURCE_MAX_LENGTH :: nat where "SOURCE_MAX_LENGTH = 255"
definition SOURCE_MIN_LENGTH :: nat where "SOURCE_MIN_LENGTH = 1"
definition TAGS_MAX_COUNT :: nat where "TAGS_MAX_COUNT = 10"
definition MAX_BATCH_SIZE :: nat where "MAX_BATCH_SIZE = 1000"
definition MIN_BATCH_SIZE :: nat where "MIN_BATCH_SIZE = 1"
definition MAX_PAGE_SIZE :: int where "MAX_PAGE_SIZE = 1000"
definition DEFAULT_PAGE_SIZE :: int where "DEFAULT_PAGE_SIZE = 100"
definition ENRICH_MAX_IDS :: nat where "ENRICH_MAX_IDS = 50"
definition ENRICH_MIN_IDS :: nat where "ENRICH_MIN_IDS = 1"
definition VECTOR_SEARCH_MIN_RECORD_IDS :: nat where "VECTOR_SEARCH_MIN_RECORD_IDS = 1"
definition VECTOR_SEARCH_MAX_RECORD_IDS :: nat where "VECTOR_SEARCH_MAX_RECORD_IDS = 100"
definition VECTOR_SEARCH_MAX_TOP_K :: int where "VECTOR_SEARCH_MAX_TOP_K = 25"

lemmas schema_bounds =
  SOURCE_MAX_LENGTH_def SOURCE_MIN_LENGTH_def TAGS_MAX_COUNT_def MAX_BATCH_SIZE_def
  MIN_BATCH_SIZE_def MAX_PAGE_SIZE_def DEFAULT_PAGE_SIZE_def ENRICH_MAX_IDS_def ENRICH_MIN_IDS_def
  VECTOR_SEARCH_MIN_RECORD_IDS_def VECTOR_SEARCH_MAX_RECORD_IDS_def VECTOR_SEARCH_MAX_TOP_K_def

subsection \<open>Datetimes with an offset\<close>

record py_datetime =
  wall_clock :: datetime
  tzinfo :: "int option"

definition strip_tz :: "py_datetime \<Rightarrow> py_datetime" where
  "strip_tz v = (if tzinfo v \<noteq> None then v\<lparr>tzinfo := None\<rparr> else v)"

text \<open>The instant that a datetime denotes, in UTC: a naive one is read as UTC.\<close>

definition instant :: "py_datetime \<Rightarrow> datetime" where
  "instant v = wall_clock v - (case tzinfo v of None \<Rightarrow> 0 | Some off \<Rightarrow> off)"

text \<open>\<open>not_in_future\<close>; \<open>now\<close> is \<open>datetime.now(UTC)\<close> with its offset stripped.\<close>

definition not_in_future :: "datetime \<Rightarrow> py_datetime \<Rightarrow> py_datetime outcome" where
  "not_in_future now v =
     (let v' = strip_tz v
      in if now < wall_clock v' then Inl (ValueError ''timestamp cannot be in the future'')
         else Inr v')"

definition forbidden_sources :: "string set" where
  "forbidden_sources = {''localhost'', ''127.0.0.1'', ''::1'', ''0.0.0.0'', ''::''}"

definition source_not_localhost :: "string \<Rightarrow> string outcome" where
  "source_not_localhost v =
     (if lower v \<in> forbidden_sources
      then Inl (ValueError (''source cannot be a reserved address ('' @ v @
                  ''). Use actual hostname or IP instead.''))
      else Inr v)"

definition lowercase_tags :: "string list \<Rightarrow> string list" where
  "lowercase_tags v = map lower v"

subsection \<open>RecordRequest\<close>

record raw_request =
  raw_source :: string
  raw_timestamp :: "py_datetime option"
  raw_data_in :: "(string \<times> json) list"
  raw_tags :: "string list"

record record_request =
  source :: string
  timestamp :: datetime
  data :: "(string \<times> json) list"
  tags :: "string list"

definition length_between :: "nat \<Rightarrow> nat \<Rightarrow> 'a list \<Rightarrow> bool" where
  "length_between lo hi xs \<longleftrightarrow> lo \<le> length xs \<and> length xs \<le> hi"

definition unprocessable :: py_exn where
  "unprocessable = HTTPException 422 ''Unprocessable Entity''"

definition validate_source :: "string \<Rightarrow> string outcome" where
  "validate_source s =
     (if length_between SOURCE_MIN_LENGTH SOURCE_MAX_LENGTH s then source_not_localhost s
      else Inl (ValueError ''String length''))"

text \<open>
  The timestamp: the default is not validated; a given one passes \<open>normalize_timestamp\<close>
  (before) and \<open>not_in_future\<close> (after).
\<close>

definition validate_timestamp :: "datetime \<Rightarrow> py_datetime option \<Rightarrow> datetime outcome" where
  "validate_timestamp now v =
     (case v of
        None \<Rightarrow> Inr now
      | Some t \<Rightarrow> map_sum id wall_clock (not_in_future now (strip_tz t)))"

definition validate_tags :: "string list \<Rightarrow> string list outcome" where
  "validate_tags ts =
     (if length ts \<le> TAGS_MAX_COUNT then Inr (lowercase_tags ts)
      else Inl (ValueError ''List should have at most 10 items''))"

definition validate_record_request :: "datetime \<Rightarrow> raw_request \<Rightarrow> record_request outcome" where
  "validate_record_request now r =
     (case (validate_source (raw_source r), validate_timestamp now (raw_timestamp r),
            validate_tags (raw_tags r)) of
        (Inr s, Inr t, Inr ts) \<Rightarrow>
          Inr \<lparr>source = s, timestamp = t, data = raw_data_in r, tags = ts\<rparr>
      | _ \<Rightarrow> Inl unprocessable)"

subsection \<open>UpdateRecordRequest\<close>

record raw_update =
  ru_source :: "string option"
  ru_timestamp :: "py_datetime option"
  ru_data :: "(string \<times> json) list option"
  ru_tags :: "string list option"

record update_request =
  u_source :: "string option"
  u_timestamp :: "datetime option"
  u_data :: "(string \<times> json) list option"
  u_tags :: "string list option"

definition optional :: "('a \<Rightarrow> 'b outcome) \<Rightarrow> 'a option \<Rightarrow> 'b option outcome" where
  "optional f v = (case v of None \<Rightarrow> Inr None | Some x \<Rightarrow> map_sum id Some (f x))"

definition validate_update :: "datetime \<Rightarrow> raw_update \<Rightarrow> update_request outcome" where
  "validate_update now r =
     (case (optional validate_source (ru_source r),
            optional (\<lambda>t. map_sum id wall_clock (not_in_future now (strip_tz t))) (ru_timestamp r),
            optional validate_tags (ru_tags r)) of
        (Inr s, Inr t, Inr ts) \<Rightarrow>
          Inr \<lparr>u_source = s, u_timestamp = t, u_data = ru_data r, u_tags = ts\<rparr>
      | _ \<Rightarrow> Inl unprocessable)"

subsection \<open>Batches, pages and id lists\<close>

definition traverse :: "('a \<Rightarrow> 'b outcome) \<Rightarrow> 'a list \<Rightarrow> 'b list outcome" where
  "traverse f xs =
     foldr (\<lambda>x acc. case (f x, acc) of
         (Inr y, Inr ys) \<Rightarrow> Inr (y # ys) | (Inl e, _) \<Rightarrow> Inl e | (_, Inl e) \<Rightarrow> Inl e) xs (Inr [])"

lemma traverse_Nil: "traverse f [] = Inr []"
  and traverse_Cons: "traverse f (x # xs) = try_bind (f x) (\<lambda>y. map_sum id ((#) y) (traverse f xs))"
  by (simp_all add: traverse_def try_bind_def split: sum.split)

lemma traverse_Inr_iff: "traverse f xs = Inr ys \<longleftrightarrow> list_all2 (\<lambda>x y. f x = Inr y) xs ys"
proof (induction xs arbitrary: ys)
  case (Cons x xs)
  show ?case
  proof (cases "f x")
    case (Inr y)
    then show ?thesis using Cons.IH by (cases "traverse f xs") (auto simp: traverse_Cons list_all2_Cons1)
  qed (simp add: traverse_Cons list_all2_Cons1)
qed (auto simp: traverse_Nil)

lemma traverse_fails: "x \<in> set xs \<Longrightarrow> f x = Inl e \<Longrightarrow> \<exists>e'. traverse f xs = Inl e'"
  by (induction xs) (auto simp: traverse_def split: sum.splits)

lemma traverse_all_ok: "(\<And>x. x \<in> set xs \<Longrightarrow> f x = Inr (g x)) \<Longrightarrow> traverse f xs = Inr (map g xs)"
  by (induction xs) (simp_all add: traverse_Nil traverse_Cons)

lemma traverse_length: "traverse f xs = Inr ys \<Longrightarrow> length ys = length xs"
  by (simp add: traverse_Inr_iff list_all2_lengthD)

definition validate_batch :: "datetime \<Rightarrow> raw_request list \<Rightarrow> record_request list outcome" where
  "validate_batch now rs =
     (if length_between MIN_BATCH_SIZE MAX_BATCH_SIZE rs
      then traverse (validate_record_request now) rs else Inl unprocessable)"

definition valid_enrich_ids :: "int list \<Rightarrow> bool" where
  "valid_enrich_ids ids = length_between ENRICH_MIN_IDS ENRICH_MAX_IDS ids"

definition valid_index_ids :: "int list \<Rightarrow> bool" where
  "valid_index_ids ids = length_between VECTOR_SEARCH_MIN_RECORD_IDS VECTOR_SEARCH_MAX_RECORD_IDS ids"

definition valid_page :: "int \<Rightarrow> int \<Rightarrow> bool" where
  "valid_page skip lmt \<longleftrightarrow> 0 \<le> skip \<and> 1 \<le> lmt \<and> lmt \<le> MAX_PAGE_SIZE"

subsection \<open>What a validated request satisfies\<close>

text \<open>The class invariant of \<open>RecordRequest\<close> at the moment \<open>now\<close>.\<close>

definition request_ok :: "datetime \<Rightarrow> record_request \<Rightarrow> bool" where
  "request_ok now r \<longleftrightarrow>
     1 \<le> length (source r) \<and> length (source r) \<le> 255 \<and> lower (source r) \<notin> forbidden_sources \<and>
     timestamp r \<le> now \<and> length (tags r) \<le> 10 \<and> (\<forall>t \<in> set (tags r). lower t = t)"

text \<open>The request sent again as a raw body.\<close>

definition as_raw :: "record_request \<Rightarrow> raw_request" where
  "as_raw r = \<lparr>raw_source = source r, raw_timestamp = Some \<lparr>wall_clock = timestamp r, tzinfo = None\<rparr>,
     raw_data_in = data r, raw_tags = tags r\<rparr>"

lemma validate_source_iff:
  "validate_source s = Inr t \<longleftrightarrow>
   t = s \<and> 1 \<le> length s \<and> length s \<le> 255 \<and> lower s \<notin> forbidden_sources"
  by (auto simp: validate_source_def source_not_localhost_def length_between_def schema_bounds)

lemma strip_tz_idem [simp]: "strip_tz (strip_tz v) = strip_tz v"
  by (auto simp: strip_tz_def)

lemma strip_tz_wall [simp]: "wall_clock (strip_tz v) = wall_clock v"
  by (simp add: strip_tz_def)

lemma validate_timestamp_iff:
  "validate_timestamp now v = Inr t \<longleftrightarrow>
   (case v of None \<Rightarrow> t = now | Some d \<Rightarrow> t = wall_clock d \<and> wall_clock d \<le> now)"
  by (auto simp: validate_timestamp_def not_in_future_def Let_def split: option.split)

lemma validate_tags_iff:
  "validate_tags ts = Inr us \<longleftrightarrow> us = lowercase_tags ts \<and> length ts \<le> 10"
  by (auto simp: validate_tags_def schema_bounds)

lemma validate_record_request_iff:
  "validate_record_request now r = Inr q \<longleftrightarrow>
     validate_source (raw_source r) = Inr (source q) \<and>
     validate_timestamp now (raw_timestamp r) = Inr (timestamp q) \<and>
     validate_tags (raw_tags r) = Inr (tags q) \<and> data q = raw_data_in r"
  by (auto simp: validate_record_request_def split: sum.splits)

text \<open>
  Validation is sound and stable. A body that passes the \<open>RecordRequest\<close> schema at time
  \<open>now\<close> satisfies the invariant of the class (source length and reserved addresses in any case,
  no future timestamp, at most ten lower-case tags), and validating the result again, now or
  later, gives it back unchanged.
\<close>

theorem record_request_valid:
  assumes "validate_record_request now r = Inr q" and "now \<le> later"
  shows "request_ok now q \<and> validate_record_request later (as_raw q) = Inr q"
  using assms
  by (auto simp: validate_record_request_iff validate_source_iff validate_timestamp_iff
      validate_tags_iff request_ok_def as_raw_def lowercase_tags_def o_def split: option.splits)

theorem record_request_valid_witness:
  "validate_record_request 100 \<lparr>raw_source = ''Sensor-1'',
      raw_timestamp = Some \<lparr>wall_clock = 90, tzinfo = None\<rparr>, raw_data_in = [],
      raw_tags = [''Hot'', ''lab'']\<rparr> =
    Inr \<lparr>source = ''Sensor-1'', timestamp = 90, data = [], tags = [''hot'', ''lab'']\<rparr> \<and>
   request_ok 100 \<lparr>source = ''Sensor-1'', timestamp = 90, data = [], tags = [''hot'', ''lab'']\<rparr>"
proof -
  have "validate_record_request 100 \<lparr>raw_source = ''Sensor-1'',
      raw_timestamp = Some \<lparr>wall_clock = 90, tzinfo = None\<rparr>, raw_data_in = [],
      raw_tags = [''Hot'', ''lab'']\<rparr> =
    Inr \<lparr>source = ''Sensor-1'', timestamp = 90, data = [], tags = [''hot'', ''lab'']\<rparr>"
    by code_simp
  from record_request_valid [OF this, of 100] this show ?thesis by simp
qed

text \<open>
  The offset of a timestamp is dropped and not converted. For every offset there is a moment
  and a datetime with that offset for which the stored naive timestamp is not the instant that
  the client sent; with a positive offset an instant of the past is rejected as a future one,
  with a negative offset an instant of the future is accepted.
\<close>

theorem offset_dropped:
  assumes "off \<noteq> 0"
  shows "\<exists>v. tzinfo v = Some off \<and>
    (if 0 < off
     then instant v \<le> now \<and> validate_timestamp now (Some v) =
            Inl (ValueError ''timestamp cannot be in the future'')
     else now < instant v \<and> validate_timestamp now (Some v) = Inr now)"
proof (cases "0 < off")
  case True
  then show ?thesis
    by (intro exI [of _ "\<lparr>wall_clock = now + 1, tzinfo = Some off\<rparr>"])
       (simp add: validate_timestamp_def not_in_future_def instant_def Let_def)
next
  case False
  then show ?thesis
    using assms by (intro exI [of _ "\<lparr>wall_clock = now, tzinfo = Some off\<rparr>"])
       (simp add: validate_timestamp_def not_in_future_def instant_def Let_def)
qed

theorem offset_dropped_witness:
  "\<exists>v. tzinfo v = Some 3600000000 \<and> instant v \<le> 0 \<and>
     validate_timestamp 0 (Some v) = Inl (ValueError ''timestamp cannot be in the future'')"
  using offset_dropped [of 3600000000 0] by simp

end
