(* ===== verification/Store.thy ===== *)
theory Store
  imports Schemas
begin

text \<open>
  The table \<open>records\<close> of \<open>ingestor/models.py\<close> as the CRUD code sees it. SQLAlchemy and the
  database are not part of the sources: an engine is a record of functions, a parameter of every
  operation that runs a statement. The statements are data, built by the CRUD functions as the
  sources build them. The locale \<open>record_store\<close> states what the code relies on: the primary key
  and the unique constraint on (source, timestamp), and the meaning of WHERE, ORDER BY, OFFSET and
  LIMIT. A reference engine that keeps the rows in a list satisfies the laws.
\<close>

subsection \<open>Rows and statements\<close>

record row =
  r_id :: int
  r_source :: string
  r_timestamp :: datetime
  r_raw_data :: "(string \<times> json) list"
  r_tags :: "string list"
  r_processed :: bool
  r_processed_at :: "datetime option"
  r_created_at :: datetime
  r_updated_at :: "datetime option"
  r_deleted_at :: "datetime option"

text \<open>
  The columns a \<open>Record(...)\<close> is created with; the id is assigned by the database. One reading of the clock stands for
  both timestamps and for all rows of a statement, where the code evaluates the default of \<open>created_at\<close> and of
  \<open>updated_at\<close> for each row: in the program they may lie microseconds apart.
\<close>

definition record_of :: "datetime \<Rightarrow> record_request \<Rightarrow> row" where
  "record_of now q =
     \<lparr>r_id = 0, r_source = source q, r_timestamp = timestamp q, r_raw_data = data q,
      r_tags = tags q, r_processed = False, r_processed_at = None, r_created_at = now,
      r_updated_at = Some now, r_deleted_at = None\<rparr>"

definition row_key :: "row \<Rightarrow> string \<times> datetime" where
  "row_key r = (r_source r, r_timestamp r)"

text \<open>A row without its id.\<close>

definition content :: "row \<Rightarrow> row" where
  "content r = r\<lparr>r_id := 0\<rparr>"

datatype cond =
    DeletedIsNull
  | SourceEq string
  | IdEq int
  | IdGt int
  | IdIn "int list"
  | TimestampEq datetime
  | TimestampGt datetime
  | TimestampGe datetime
  | TimestampLt datetime
  | CreatedGe datetime
  | CAnd cond cond
  | COr cond cond

fun holds :: "cond \<Rightarrow> row \<Rightarrow> bool" where
  "holds DeletedIsNull r \<longleftrightarrow> r_deleted_at r = None"
| "holds (SourceEq s) r \<longleftrightarrow> r_source r = s"
| "holds (IdEq i) r \<longleftrightarrow> r_id r = i"
| "holds (IdGt i) r \<longleftrightarrow> i < r_id r"
| "holds (IdIn is) r \<longleftrightarrow> r_id r \<in> set is"
| "holds (TimestampEq t) r \<longleftrightarrow> r_timestamp r = t"
| "holds (TimestampGt t) r \<longleftrightarrow> t < r_timestamp r"
| "holds (TimestampGe t) r \<longleftrightarrow> t \<le> r_timestamp r"
| "holds (TimestampLt t) r \<longleftrightarrow> r_timestamp r < t"
| "holds (CreatedGe t) r \<longleftrightarrow> t \<le> r_created_at r"
| "holds (CAnd a b) r \<longleftrightarrow> holds a r \<and> holds b r"
| "holds (COr a b) r \<longleftrightarrow> holds a r \<or> holds b r"

datatype column = ColId | ColTimestamp | ColCreatedAt

fun col_val :: "column \<Rightarrow> row \<Rightarrow> int" where
  "col_val ColId r = r_id r"
| "col_val ColTimestamp r = r_timestamp r"
| "col_val ColCreatedAt r = r_created_at r"

text \<open>An ORDER BY list; the flag marks a descending column.\<close>

type_synonym order_by = "(column \<times> bool) list"

fun ord_le :: "order_by \<Rightarrow> row \<Rightarrow> row \<Rightarrow> bool" where
  "ord_le [] r s \<longleftrightarrow> True"
| "ord_le ((c, desc) # os) r s \<longleftrightarrow>
     (let x = (if desc then col_val c s else col_val c r); y = (if desc then col_val c r else col_val c s)
      in x < y \<or> x = y \<and> ord_le os r s)"

record query =
  q_where :: "cond list"
  q_order :: order_by
  q_offset :: int
  q_limit :: "int option"

definition select_record :: "cond list \<Rightarrow> query" where
  "select_record cs = \<lparr>q_where = cs, q_order = [], q_offset = 0, q_limit = None\<rparr>"

definition matches :: "cond list \<Rightarrow> row \<Rightarrow> bool" where
  "matches cs r \<longleftrightarrow> (\<forall>c \<in> set cs. holds c r)"

definition window :: "query \<Rightarrow> 'a list \<Rightarrow> 'a list" where
  "window q xs =
     (let ys = drop (nat (q_offset q)) xs
      in (case q_limit q of None \<Rightarrow> ys | Some l \<Rightarrow> take (nat l) ys))"

lemma ord_le_refl [simp]: "ord_le os r r"
  by (induction os) auto

lemma ord_le_trans: "ord_le os a b \<Longrightarrow> ord_le os b c \<Longrightarrow> ord_le os a c"
  by (induction os) (auto simp: Let_def split: if_splits)

lemma ord_le_total: "ord_le os a b \<or> ord_le os b a"
  by (induction os) (auto simp: Let_def split: if_splits)

subsection \<open>Engines\<close>

record 'db engine =
  rows :: "'db \<Rightarrow> row list"
  db_ok :: "'db \<Rightarrow> bool"
  sql_insert :: "row list \<Rightarrow> 'db \<Rightarrow> (row list \<times> 'db) outcome"
  sql_select :: "query \<Rightarrow> 'db \<Rightarrow> row list outcome"
  sql_count :: "cond list \<Rightarrow> 'db \<Rightarrow> int outcome"
  sql_update :: "row \<Rightarrow> 'db \<Rightarrow> 'db outcome"
  sql_delete :: "int \<Rightarrow> 'db \<Rightarrow> 'db outcome"

definition selects :: "query \<Rightarrow> row list \<Rightarrow> row list \<Rightarrow> bool" where
  "selects q stored result \<longleftrightarrow>
     (\<exists>xs. mset xs = mset (filter (matches (q_where q)) stored) \<and>
        sorted_wrt (ord_le (q_order q)) xs \<and> result = window q xs)"

definition set_row :: "row \<Rightarrow> row list \<Rightarrow> row list" where
  "set_row r rs = map (\<lambda>x. if r_id x = r_id r then r else x) rs"

locale record_store =
  fixes E :: "'db engine"
  assumes keys_unique: "db_ok E db \<Longrightarrow> distinct (map r_id (rows E db)) \<and> distinct (map row_key (rows E db))"
    and insert_dup: "db_ok E db \<Longrightarrow>
      \<not> distinct (map row_key ns) \<or> row_key ` set ns \<inter> row_key ` set (rows E db) \<noteq> {} \<Longrightarrow>
      sql_insert E ns db = Inl IntegrityError"
    and insert_new: "db_ok E db \<Longrightarrow>
      distinct (map row_key ns) \<Longrightarrow> row_key ` set ns \<inter> row_key ` set (rows E db) = {} \<Longrightarrow>
      \<exists>out db'. sql_insert E ns db = Inr (out, db') \<and> db_ok E db' \<and>
        mset (rows E db') = mset (rows E db) + mset out \<and>
        mset (map content out) = mset (map content ns)"
    and select_meaning: "db_ok E db \<Longrightarrow> \<exists>out. sql_select E q db = Inr out \<and> selects q (rows E db) out"
    and count_meaning: "db_ok E db \<Longrightarrow>
      sql_count E cs db = Inr (int (length (filter (matches cs) (rows E db))))"
    and update_dup: "db_ok E db \<Longrightarrow> x \<in> set (rows E db) \<Longrightarrow> r_id x \<noteq> r_id r \<Longrightarrow> row_key x = row_key r \<Longrightarrow>
      sql_update E r db = Inl IntegrityError"
    and update_ok: "db_ok E db \<Longrightarrow>
      (\<forall>x \<in> set (rows E db). r_id x \<noteq> r_id r \<longrightarrow> row_key x \<noteq> row_key r) \<Longrightarrow>
      \<exists>db'. sql_update E r db = Inr db' \<and> db_ok E db' \<and> mset (rows E db') = mset (set_row r (rows E db))"
    and delete_meaning: "db_ok E db \<Longrightarrow>
      \<exists>db'. sql_delete E i db = Inr db' \<and> db_ok E db' \<and>
        mset (rows E db') = mset (filter (\<lambda>x. r_id x \<noteq> i) (rows E db))"
begin

lemma ids_unique: "db_ok E db \<Longrightarrow> x \<in> set (rows E db) \<Longrightarrow> y \<in> set (rows E db) \<Longrightarrow> r_id x = r_id y \<Longrightarrow> x = y"
  using keys_unique by (metis distinct_map inj_onD)

lemma row_keys_unique:
  "db_ok E db \<Longrightarrow> x \<in> set (rows E db) \<Longrightarrow> y \<in> set (rows E db) \<Longrightarrow> row_key x = row_key y \<Longrightarrow> x = y"
  using keys_unique by (metis distinct_map inj_onD)

lemma select_all:
  assumes "db_ok E db" and "q_offset q = 0" and "q_limit q = None"
  shows "\<exists>out. sql_select E q db = Inr out \<and> mset out = mset (filter (matches (q_where q)) (rows E db))
    \<and> sorted_wrt (ord_le (q_order q)) out"
  using select_meaning [OF assms(1), of q] assms(2,3) by (auto simp: selects_def window_def)

lemma select_set:
  assumes "db_ok E db" "q_offset q = 0" "q_limit q = None" "sql_select E q db = Inr out"
  shows "set out = {r \<in> set (rows E db). matches (q_where q) r}"
proof -
  have "mset out = mset (filter (matches (q_where q)) (rows E db))"
    using select_all [OF assms(1-3)] assms(4) by auto
  then show ?thesis by (simp only: mset_eq_setD [of out] set_filter)
qed

lemma select_unique:
  assumes "db_ok E db" and "q_offset q = 0" and "q_limit q = None"
    and "x \<in> set (rows E db)" and "matches (q_where q) x"
    and "\<And>y. y \<in> set (rows E db) \<Longrightarrow> matches (q_where q) y \<Longrightarrow> y = x"
  shows "sql_select E q db = Inr [x]"
proof -
  obtain out where out: "sql_select E q db = Inr out"
    "mset out = mset (filter (matches (q_where q)) (rows E db))"
    using select_all [OF assms(1-3)] by blast
  have "distinct (rows E db)" using keys_unique [OF assms(1)] by (simp add: distinct_map)
  then have d: "distinct out" using out(2) by (metis distinct_filter mset_eq_imp_distinct_iff)
  have "set out = set (filter (matches (q_where q)) (rows E db))"
    using out(2) by (rule mset_eq_setD)
  also have "\<dots> = {x}" unfolding set_filter using assms(4-6) by blast
  finally have "out = [x]" using d by (cases out; cases "tl out") auto
  then show ?thesis using out(1) by simp
qed

lemma select_none:
  assumes "db_ok E db" and "\<And>y. y \<in> set (rows E db) \<Longrightarrow> \<not> matches (q_where q) y"
  shows "sql_select E q db = Inr []"
proof -
  have "filter (matches (q_where q)) (rows E db) = []" using assms(2) by simp
  then show ?thesis
    using select_meaning [OF assms(1), of q] by (auto simp: selects_def window_def split: option.splits)
qed

end

subsection \<open>Sorted listings\<close>

fun insert_by :: "order_by \<Rightarrow> row \<Rightarrow> row list \<Rightarrow> row list" where
  "insert_by os r [] = [r]"
| "insert_by os r (x # xs) = (if ord_le os r x then r # x # xs else x # insert_by os r xs)"

fun sort_by :: "order_by \<Rightarrow> row list \<Rightarrow> row list" where
  "sort_by os [] = []"
| "sort_by os (x # xs) = insert_by os x (sort_by os xs)"

lemma insert_by_mset [simp]: "mset (insert_by os r xs) = add_mset r (mset xs)"
  by (induction xs) auto

lemma sort_by_mset [simp]: "mset (sort_by os xs) = mset xs"
  by (induction xs) auto

lemma sort_by_set [simp]: "set (sort_by os xs) = set xs"
  using sort_by_mset [of os xs] by (rule mset_eq_setD)

lemma insert_by_set: "set (insert_by os r xs) = insert r (set xs)"
  by (induction xs) auto

lemma sorted_insert_by: "sorted_wrt (ord_le os) xs \<Longrightarrow> sorted_wrt (ord_le os) (insert_by os r xs)"
proof (induction xs)
  case (Cons x xs)
  show ?case
  proof (cases "ord_le os r x")
    case True
    then show ?thesis using Cons.prems by (auto intro: ord_le_trans)
  next
    case False
    then have "ord_le os x r" using ord_le_total by blast
    then show ?thesis using False Cons by (auto simp: insert_by_set)
  qed
qed simp

lemma sorted_sort_by: "sorted_wrt (ord_le os) (sort_by os xs)"
  by (induction xs) (auto intro: sorted_insert_by)

lemma sorted_unique:
  assumes "sorted_wrt P xs" "sorted_wrt P ys" "mset xs = mset ys"
    and "\<And>a b. a \<in> set xs \<Longrightarrow> b \<in> set xs \<Longrightarrow> P a b \<Longrightarrow> P b a \<Longrightarrow> a = b"
  shows "xs = ys"
  using assms
proof (induction xs arbitrary: ys)
  case (Cons x xs)
  then obtain y ys' where ys: "ys = y # ys'" by (cases ys) auto
  have sets: "set (x # xs) = set (y # ys')" using Cons.prems(3) ys by (metis mset_eq_setD)
  have "x = y"
  proof (rule ccontr)
    assume "x \<noteq> y"
    then have "x \<in> set ys'" "y \<in> set xs" using sets by auto
    then have "P x y" "P y x" using Cons.prems(1,2) ys by auto
    then show False using Cons.prems(4) [of x y] \<open>y \<in> set xs\<close> \<open>x \<noteq> y\<close> by simp
  qed
  moreover have "xs = ys'"
    using Cons.prems ys \<open>x = y\<close> by (intro Cons.IH) auto
  ultimately show ?case using ys by simp
qed simp

lemma ord_le_antisym_id:
  "(ColId, d) \<in> set os \<Longrightarrow> ord_le os a b \<Longrightarrow> ord_le os b a \<Longrightarrow> r_id a = r_id b"
  by (induction os) (auto simp: Let_def split: if_splits)

text \<open>The rows that a query with a total order lists, before OFFSET and LIMIT.\<close>

definition listing :: "order_by \<Rightarrow> cond list \<Rightarrow> row list \<Rightarrow> row list" where
  "listing os cs rs = sort_by os (filter (matches cs) rs)"

lemma listing_set [simp]: "set (listing os cs rs) = {r \<in> set rs. matches cs r}"
  by (auto simp: listing_def)

lemma listing_sorted: "sorted_wrt (ord_le os) (listing os cs rs)"
  by (simp add: listing_def sorted_sort_by)

lemma listing_length: "length (listing os cs rs) = length (filter (matches cs) rs)"
  by (metis listing_def mset_eq_length sort_by_mset)

lemma listing_distinct: "distinct rs \<Longrightarrow> distinct (listing os cs rs)"
  by (metis distinct_filter listing_def mset_eq_imp_distinct_iff sort_by_mset)

context record_store
begin

lemma rows_distinct: "db_ok E db \<Longrightarrow> distinct (rows E db)"
  using keys_unique by (simp add: distinct_map)

lemma select_listing:
  assumes "db_ok E db" and "(ColId, d) \<in> set (q_order q)"
  shows "sql_select E q db = Inr (window q (listing (q_order q) (q_where q) (rows E db)))"
proof -
  obtain xs where xs: "mset xs = mset (filter (matches (q_where q)) (rows E db))"
    "sorted_wrt (ord_le (q_order q)) xs" "sql_select E q db = Inr (window q xs)"
    using select_meaning [OF assms(1), of q] by (auto simp: selects_def)
  have "xs = listing (q_order q) (q_where q) (rows E db)"
  proof (rule sorted_unique [OF xs(2) listing_sorted])
    show "mset xs = mset (listing (q_order q) (q_where q) (rows E db))"
      using xs(1) by (simp add: listing_def)
    fix a b
    assume "a \<in> set xs" "b \<in> set xs" "ord_le (q_order q) a b" "ord_le (q_order q) b a"
    moreover have "set xs \<subseteq> set (rows E db)" using mset_eq_setD [OF xs(1)] by auto
    ultimately show "a = b"
      using ids_unique [OF assms(1)] ord_le_antisym_id [OF assms(2)] by blast
  qed
  then show ?thesis using xs(3) by simp
qed

end

subsection \<open>The reference engine\<close>

text \<open>Rows in insertion order and the next value of the id sequence.\<close>

record mem_db =
  stored :: "row list"
  next_id :: int

definition mem_ok :: "mem_db \<Rightarrow> bool" where
  "mem_ok db \<longleftrightarrow> distinct (map r_id (stored db)) \<and> distinct (map row_key (stored db)) \<and>
     (\<forall>r \<in> set (stored db). r_id r < next_id db)"

fun number_from :: "int \<Rightarrow> row list \<Rightarrow> row list" where
  "number_from i [] = []"
| "number_from i (r # rs) = r\<lparr>r_id := i\<rparr> # number_from (i + 1) rs"

definition mem_insert :: "row list \<Rightarrow> mem_db \<Rightarrow> (row list \<times> mem_db) outcome" where
  "mem_insert ns db =
     (if distinct (map row_key (stored db @ ns))
      then let out = number_from (next_id db) ns
           in Inr (out, \<lparr>stored = stored db @ out, next_id = next_id db + int (length ns)\<rparr>)
      else Inl IntegrityError)"

definition mem_select :: "query \<Rightarrow> mem_db \<Rightarrow> row list outcome" where
  "mem_select q db = Inr (window q (sort_by (q_order q) (filter (matches (q_where q)) (stored db))))"

definition mem_count :: "cond list \<Rightarrow> mem_db \<Rightarrow> int outcome" where
  "mem_count cs db = Inr (int (length (filter (matches cs) (stored db))))"

definition mem_update :: "row \<Rightarrow> mem_db \<Rightarrow> mem_db outcome" where
  "mem_update r db =
     (if \<exists>x \<in> set (stored db). r_id x \<noteq> r_id r \<and> row_key x = row_key r then Inl IntegrityError
      else Inr (db\<lparr>stored := set_row r (stored db)\<rparr>))"

definition mem_delete :: "int \<Rightarrow> mem_db \<Rightarrow> mem_db outcome" where
  "mem_delete i db = Inr (db\<lparr>stored := filter (\<lambda>x. r_id x \<noteq> i) (stored db)\<rparr>)"

definition mem_engine :: "mem_db engine" where
  "mem_engine = \<lparr>rows = stored, db_ok = mem_ok, sql_insert = mem_insert, sql_select = mem_select,
     sql_count = mem_count, sql_update = mem_update, sql_delete = mem_delete\<rparr>"

lemmas mem_engine_defs =
  mem_engine_def mem_insert_def mem_select_def mem_count_def mem_update_def mem_delete_def

lemma number_from_keys [simp]:
  "map row_key (number_from i ns) = map row_key ns"
  "map content (number_from i ns) = map content ns"
  "length (number_from i ns) = length ns"
  by (induction ns arbitrary: i) (auto simp: row_key_def content_def)

lemma number_from_ids: "r \<in> set (number_from i ns) \<Longrightarrow> i \<le> r_id r \<and> r_id r < i + int (length ns)"
  by (induction ns arbitrary: i) force+

lemma number_from_distinct: "distinct (map r_id (number_from i ns))"
  by (induction ns arbitrary: i) (force dest: number_from_ids)+

lemma set_row_ids [simp]: "map r_id (set_row r rs) = map r_id rs"
  by (auto simp: set_row_def)

lemma set_row_keys_distinct:
  assumes "distinct (map r_id rs)" "distinct (map row_key rs)"
    and "\<forall>x \<in> set rs. r_id x \<noteq> r_id r \<longrightarrow> row_key x \<noteq> row_key r"
  shows "distinct (map row_key (set_row r rs))"
  using assms by (induction rs) (auto simp: set_row_def image_iff)

interpretation mem: record_store mem_engine
proof
  fix db :: mem_db and ns
  assume "db_ok mem_engine db" "distinct (map row_key ns)"
    "row_key ` set ns \<inter> row_key ` set (rows mem_engine db) = {}"
  then show "\<exists>out db'. sql_insert mem_engine ns db = Inr (out, db') \<and> db_ok mem_engine db' \<and>
      mset (rows mem_engine db') = mset (rows mem_engine db) + mset out \<and>
      mset (map content out) = mset (map content ns)"
    using number_from_distinct [of "next_id db" ns]
    by (force simp: mem_engine_defs mem_ok_def Let_def simp del: mset_map dest: number_from_ids)
next
  fix db :: mem_db and q
  show "\<exists>out. sql_select mem_engine q db = Inr out \<and> selects q (rows mem_engine db) out"
    by (auto simp: mem_engine_defs selects_def sorted_sort_by
        intro!: exI [of _ "sort_by (q_order q) (filter (matches (q_where q)) (stored db))"])
next
  fix db :: mem_db and r
  assume "db_ok mem_engine db"
    "\<forall>x \<in> set (rows mem_engine db). r_id x \<noteq> r_id r \<longrightarrow> row_key x \<noteq> row_key r"
  then show "\<exists>db'. sql_update mem_engine r db = Inr db' \<and> db_ok mem_engine db' \<and>
      mset (rows mem_engine db') = mset (set_row r (rows mem_engine db))"
    by (auto simp: mem_engine_defs mem_ok_def set_row_keys_distinct) (auto simp: set_row_def)
qed (auto simp: mem_engine_defs mem_ok_def intro: distinct_map_filter)

end
