(* ===== verification/Crud.thy ===== *)
theory Crud
  imports Store
begin

text \<open>
  The operations of \<open>ingestor/crud.py\<close>, one definition each, over an engine. A result is the
  outcome and the database after the last commit; a statement that raises leaves the database as
  it was at the last commit. Readings of the clock (\<open>_utcnow\<close>) are arguments, one per statement.
\<close>

subsection \<open>Session\<close>

text \<open>\<open>session.get(Record, id)\<close>: by primary key, archived rows included.\<close>

definition session_get :: "'db engine \<Rightarrow> int \<Rightarrow> 'db \<Rightarrow> row option outcome" where
  "session_get E i db =
     map_sum id (\<lambda>out. case out of [] \<Rightarrow> None | r # _ \<Rightarrow> Some r) (sql_select E (select_record [IdEq i]) db)"

definition refresh :: "'db engine \<Rightarrow> row \<Rightarrow> 'db \<Rightarrow> row outcome" where
  "refresh E r db =
     try_bind (session_get E (r_id r) db) (\<lambda>x. case x of
         None \<Rightarrow> Inl (OtherException ''InvalidRequestError: Could not refresh instance'')
       | Some r' \<Rightarrow> Inr r')"

text \<open>
  The flush of a loaded row: an UPDATE only when an attribute changed; \<open>onupdate\<close> sets
  \<open>updated_at\<close>.
\<close>

definition flush_dirty :: "'db engine \<Rightarrow> datetime \<Rightarrow> row \<Rightarrow> row \<Rightarrow> 'db \<Rightarrow> 'db outcome" where
  "flush_dirty E now old new db =
     (if new = old then Inr db else sql_update E (new\<lparr>r_updated_at := Some now\<rparr>) db)"

definition scalar_one_or_none :: "'a list \<Rightarrow> 'a option outcome" where
  "scalar_one_or_none out =
     (case out of
        [] \<Rightarrow> Inr None
      | [r] \<Rightarrow> Inr (Some r)
      | _ \<Rightarrow> Inl (OtherException ''MultipleResultsFound''))"

definition source_filter :: "string option \<Rightarrow> cond list" where
  "source_filter src = (case src of None \<Rightarrow> [] | Some s \<Rightarrow> if s = [] then [] else [SourceEq s])"

subsection \<open>Creating\<close>

definition create_record ::
  "'db engine \<Rightarrow> datetime \<Rightarrow> record_request \<Rightarrow> 'db \<Rightarrow> row outcome \<times> 'db"
where
  "create_record E now request db =
     (case sql_insert E [record_of now request] db of
        Inl e \<Rightarrow> (Inl e, db)
      | Inr (out, db') \<Rightarrow>
          (case out of
             [r] \<Rightarrow> (refresh E r db', db')
           | _ \<Rightarrow> (Inl (OtherException ''FlushError''), db')))"

definition create_records_batch ::
  "'db engine \<Rightarrow> datetime \<Rightarrow> record_request list \<Rightarrow> 'db \<Rightarrow> row list outcome \<times> 'db"
where
  "create_records_batch E now requests db =
     (if requests = [] then (Inr [], db)
      else (case sql_insert E (map (record_of now) requests) db of
              Inl e \<Rightarrow> (Inl e, db)
            | Inr (records, db') \<Rightarrow> (Inr records, db')))"

text \<open>The unit of work of \<open>add_all\<close>: one INSERT per object, in one transaction.\<close>

fun insert_each :: "'db engine \<Rightarrow> row list \<Rightarrow> 'db \<Rightarrow> (row list \<times> 'db) outcome" where
  "insert_each E [] db = Inr ([], db)"
| "insert_each E (n # ns) db =
     try_bind (sql_insert E [n] db) (\<lambda>(out, db1).
       map_sum id (\<lambda>(outs, db2). (out @ outs, db2)) (insert_each E ns db1))"

fun refresh_all :: "'db engine \<Rightarrow> row list \<Rightarrow> 'db \<Rightarrow> row list outcome" where
  "refresh_all E [] db = Inr []"
| "refresh_all E (r # rs) db =
     try_bind (refresh E r db) (\<lambda>r'. map_sum id ((#) r') (refresh_all E rs db))"

definition create_records_batch_naive ::
  "'db engine \<Rightarrow> datetime \<Rightarrow> record_request list \<Rightarrow> 'db \<Rightarrow> row list outcome \<times> 'db"
where
  "create_records_batch_naive E now requests db =
     (if requests = [] then (Inr [], db)
      else (case insert_each E (map (record_of now) requests) db of
              Inl e \<Rightarrow> (Inl e, db)
            | Inr (records, db') \<Rightarrow> (refresh_all E records db', db')))"

subsection \<open>Listing\<close>

definition get_records ::
  "'db engine \<Rightarrow> int \<Rightarrow> int \<Rightarrow> string option \<Rightarrow> 'db \<Rightarrow> (row list \<times> int) outcome"
where
  "get_records E skip lmt src db =
     (let conds = DeletedIsNull # source_filter src;
          data_q = \<lparr>q_where = conds, q_order = [(ColId, False)], q_offset = skip, q_limit = Some lmt\<rparr>
      in try_bind (sql_count E conds db) (\<lambda>total.
           map_sum id (\<lambda>records. (records, total)) (sql_select E data_q db)))"

definition encode_cursor :: "int \<Rightarrow> datetime option \<Rightarrow> string" where
  "encode_cursor record_id ts = b64encode (utf8_encode (cursor_json record_id ts))"

text \<open>The body of the \<open>try\<close> of \<open>_decode_cursor\<close>.\<close>

definition cursor_body :: "string \<Rightarrow> (json \<times> datetime option) outcome" where
  "cursor_body cursor =
     try_bind (b64decode cursor) (\<lambda>raw.
     try_bind (utf8_decode raw) (\<lambda>json_str.
     try_bind (json_loads json_str) (\<lambda>d.
     try_bind (py_get d ''id'') (\<lambda>record_id.
     try_bind (py_get d ''timestamp'') (\<lambda>ts_str.
       if truthy ts_str
       then (case ts_str of
               JStr s \<Rightarrow> map_sum id (\<lambda>t. (record_id, Some t)) (fromisoformat s)
             | _ \<Rightarrow> Inl (TypeError ''fromisoformat: argument must be str''))
       else Inr (record_id, None))))))"

definition decode_cursor :: "string option \<Rightarrow> (json \<times> datetime option) option outcome" where
  "decode_cursor cursor =
     (case cursor of
        None \<Rightarrow> Inr None
      | Some c \<Rightarrow>
          if c = [] then Inr None
          else (case cursor_body c of
                  Inr v \<Rightarrow> Inr (Some v)
                | Inl e \<Rightarrow> if is_ValueError e \<or> is_KeyError e then Inr None else Inl e))"

text \<open>
  The filter of a decoded cursor. Comparing a column with \<open>None\<close>, \<open>True\<close> or \<open>False\<close> by \<open>>\<close> is
  an \<open>ArgumentError\<close> of SQLAlchemy; a value of another type is refused by the driver.
\<close>

fun cursor_cond :: "json \<times> datetime option \<Rightarrow> cond outcome" where
  "cursor_cond (i, None) = Inl (OtherException ''ArgumentError'')"
| "cursor_cond (JInt i, Some t) = Inr (COr (TimestampGt t) (CAnd (TimestampEq t) (IdGt i)))"
| "cursor_cond (JNull, Some t) = Inl (OtherException ''ArgumentError'')"
| "cursor_cond (JBool b, Some t) = Inl (OtherException ''ArgumentError'')"
| "cursor_cond (v, Some t) = Inl (OtherException ''DataError'')"

definition page_query :: "cond list \<Rightarrow> string option \<Rightarrow> int \<Rightarrow> query" where
  "page_query after src lmt =
     \<lparr>q_where = DeletedIsNull # after @ source_filter src,
      q_order = [(ColTimestamp, False), (ColId, False)], q_offset = 0, q_limit = Some (lmt + 1)\<rparr>"

definition get_records_cursor_paginated ::
  "'db engine \<Rightarrow> string option \<Rightarrow> int \<Rightarrow> string option \<Rightarrow> 'db \<Rightarrow>
   (row list \<times> string option \<times> bool) outcome"
where
  "get_records_cursor_paginated E cursor lmt src db =
     try_bind (decode_cursor cursor) (\<lambda>cursor_data.
     try_bind (case cursor_data of None \<Rightarrow> Inr [] | Some c \<Rightarrow> map_sum id (\<lambda>x. [x]) (cursor_cond c)) (\<lambda>after.
     try_bind (sql_select E (page_query after src lmt) db) (\<lambda>records_all.
       let has_more = lmt < int (length records_all);
           records = take (nat lmt) records_all;
           next_cursor =
             (if records \<noteq> [] \<and> has_more
              then Some (encode_cursor (r_id (last records)) (Some (r_timestamp (last records))))
              else None)
       in Inr (records, next_cursor, has_more))))"

definition get_records_by_date_range ::
  "'db engine \<Rightarrow> datetime \<Rightarrow> datetime \<Rightarrow> string option \<Rightarrow> 'db \<Rightarrow> row list outcome"
where
  "get_records_by_date_range E start stop src db =
     sql_select E
       \<lparr>q_where = [DeletedIsNull, TimestampGe start, TimestampLt stop] @ source_filter src,
        q_order = [(ColTimestamp, True), (ColId, True)], q_offset = 0, q_limit = None\<rparr> db"

definition get_record :: "'db engine \<Rightarrow> int \<Rightarrow> 'db \<Rightarrow> row option outcome" where
  "get_record E record_id db =
     try_bind (sql_select E (select_record [IdEq record_id, DeletedIsNull]) db) scalar_one_or_none"

subsection \<open>Changing one record\<close>

definition set_processed :: "datetime \<Rightarrow> row \<Rightarrow> row" where
  "set_processed now r =
     (let r1 = r\<lparr>r_processed := True\<rparr>
      in if r_processed_at r1 = None then r1\<lparr>r_processed_at := Some now\<rparr> else r1)"

definition mark_processed :: "'db engine \<Rightarrow> datetime \<Rightarrow> int \<Rightarrow> 'db \<Rightarrow> row option outcome \<times> 'db" where
  "mark_processed E now record_id db =
     (case session_get E record_id db of
        Inl e \<Rightarrow> (Inl e, db)
      | Inr None \<Rightarrow> (Inr None, db)
      | Inr (Some r) \<Rightarrow>
          let r1 = set_processed now r
          in (case flush_dirty E now r r1 db of
                Inl e \<Rightarrow> (Inl e, db)
              | Inr db' \<Rightarrow> (map_sum id Some (refresh E r1 db'), db')))"

definition apply_update :: "update_request \<Rightarrow> row \<Rightarrow> row" where
  "apply_update request r =
     (let r1 = (case u_source request of None \<Rightarrow> r | Some s \<Rightarrow> r\<lparr>r_source := s\<rparr>);
          r2 = (case u_timestamp request of None \<Rightarrow> r1 | Some t \<Rightarrow> r1\<lparr>r_timestamp := t\<rparr>);
          r3 = (case u_data request of None \<Rightarrow> r2 | Some d \<Rightarrow> r2\<lparr>r_raw_data := d\<rparr>)
      in (case u_tags request of None \<Rightarrow> r3 | Some ts \<Rightarrow> r3\<lparr>r_tags := ts\<rparr>))"

definition update_record ::
  "'db engine \<Rightarrow> datetime \<Rightarrow> int \<Rightarrow> update_request \<Rightarrow> 'db \<Rightarrow> row option outcome \<times> 'db"
where
  "update_record E now record_id request db =
     (case session_get E record_id db of
        Inl e \<Rightarrow> (Inl e, db)
      | Inr None \<Rightarrow> (Inr None, db)
      | Inr (Some r) \<Rightarrow>
          (case flush_dirty E now r (apply_update request r) db of
             Inl e \<Rightarrow> (Inl e, db)
           | Inr db' \<Rightarrow> (map_sum id Some (refresh E (apply_update request r) db'), db')))"

definition delete_record :: "'db engine \<Rightarrow> int \<Rightarrow> 'db \<Rightarrow> row option outcome \<times> 'db" where
  "delete_record E record_id db =
     (case session_get E record_id db of
        Inl e \<Rightarrow> (Inl e, db)
      | Inr None \<Rightarrow> (Inr None, db)
      | Inr (Some r) \<Rightarrow>
          (case sql_delete E (r_id r) db of
             Inl e \<Rightarrow> (Inl e, db)
           | Inr db' \<Rightarrow> (Inr (Some r), db')))"

definition soft_delete_record :: "'db engine \<Rightarrow> datetime \<Rightarrow> int \<Rightarrow> 'db \<Rightarrow> row option outcome \<times> 'db" where
  "soft_delete_record E now record_id db =
     (case session_get E record_id db of
        Inl e \<Rightarrow> (Inl e, db)
      | Inr None \<Rightarrow> (Inr None, db)
      | Inr (Some r) \<Rightarrow>
          if r_deleted_at r \<noteq> None then (Inr None, db)
          else let r1 = r\<lparr>r_deleted_at := Some now\<rparr>
               in (case flush_dirty E now r r1 db of
                     Inl e \<Rightarrow> (Inl e, db)
                   | Inr db' \<Rightarrow> (map_sum id Some (refresh E r1 db'), db')))"

definition upsert_record ::
  "'db engine \<Rightarrow> datetime \<Rightarrow> record_request \<Rightarrow> 'db \<Rightarrow> (row \<times> bool) outcome \<times> 'db"
where
  "upsert_record E now request db =
     (case create_record E now request db of
        (Inr r, db') \<Rightarrow> (Inr (r, True), db')
      | (Inl e, db') \<Rightarrow>
          if e = IntegrityError then
            (try_bind (sql_select E (select_record
                 [SourceEq (source request), TimestampEq (timestamp request), DeletedIsNull]) db')
               (\<lambda>out. try_bind (scalar_one_or_none out) (\<lambda>existing.
                  case existing of
                    None \<Rightarrow> Inl (AssertionError ''Unique constraint violation'')
                  | Some r \<Rightarrow> Inr (r, False))), db')
          else (Inl e, db'))"

subsection \<open>Tag counts\<close>

record tag_count_row =
  tc_id :: int
  tc_source :: string
  tc_timestamp :: string
  tc_tag_count :: int

definition latest_query :: "int \<Rightarrow> query" where
  "latest_query lmt =
     \<lparr>q_where = [DeletedIsNull], q_order = [(ColId, True)], q_offset = 0, q_limit = Some lmt\<rparr>"

text \<open>The loop over the loaded records.\<close>

fun tag_count_loop :: "row list \<Rightarrow> tag_count_row list \<Rightarrow> tag_count_row list" where
  "tag_count_loop [] acc = acc"
| "tag_count_loop (r # rs) acc =
     (let tag_count = (if r_tags r \<noteq> [] then int (length (r_tags r)) else 0)
      in tag_count_loop rs (acc @ [\<lparr>tc_id = r_id r, tc_source = r_source r,
           tc_timestamp = isoformat (r_timestamp r), tc_tag_count = tag_count\<rparr>]))"

definition get_records_with_tag_counts_naive ::
  "'db engine \<Rightarrow> int \<Rightarrow> 'db \<Rightarrow> tag_count_row list outcome"
where
  "get_records_with_tag_counts_naive E lmt db =
     map_sum id (\<lambda>records. tag_count_loop records []) (sql_select E (latest_query lmt) db)"

text \<open>The columns of the optimised SELECT.\<close>

definition project :: "row \<Rightarrow> int \<times> string \<times> datetime \<times> string list" where
  "project r = (r_id r, r_source r, r_timestamp r, r_tags r)"

definition get_records_with_tag_counts :: "'db engine \<Rightarrow> int \<Rightarrow> 'db \<Rightarrow> tag_count_row list outcome" where
  "get_records_with_tag_counts E lmt db =
     map_sum id (\<lambda>out. map (\<lambda>(i, s, t, ts). \<lparr>tc_id = i, tc_source = s, tc_timestamp = isoformat t,
         tc_tag_count = (if ts \<noteq> [] then int (length ts) else 0)\<rparr>) (map project out))
       (sql_select E (latest_query lmt) db)"

subsection \<open>Enrichment\<close>

record enriched_record =
  er_record_id :: int
  er_source :: string
  er_title :: "string option"
  er_body :: "string option"
  er_enriched :: bool
  er_error :: "string option"

text \<open>A field of type \<open>str | None\<close>.\<close>

fun opt_str :: "json \<Rightarrow> string option outcome" where
  "opt_str JNull = Inr None"
| "opt_str (JStr s) = Inr (Some s)"
| "opt_str v = Inl (ValueError ''Input should be a valid string'')"

definition post_url :: "int \<Rightarrow> string" where
  "post_url record_id =
     (let post_id = (if record_id mod 100 \<noteq> 0 then record_id mod 100 else 1)
      in ''https://jsonplaceholder.typicode.com/posts/'' @ show_int post_id)"

text \<open>\<open>enrich_one\<close>: \<open>fetch\<close> is the answer of \<open>fetch_with_retry\<close> to this coroutine.\<close>

definition enrich_one ::
  "(int \<rightharpoonup> row) \<Rightarrow> (string \<Rightarrow> json outcome) \<Rightarrow> int \<Rightarrow> enriched_record outcome"
where
  "enrich_one records_by_id fetch record_id =
     (case records_by_id record_id of
        None \<Rightarrow> Inr \<lparr>er_record_id = record_id, er_source = ''unknown'', er_title = None, er_body = None,
                  er_enriched = False, er_error = Some (''Record '' @ show_int record_id @ '' not found'')\<rparr>
      | Some record \<Rightarrow>
          (case try_bind (fetch (post_url record_id)) (\<lambda>d.
                  try_bind (py_get d ''title'') (\<lambda>t. try_bind (py_get d ''body'') (\<lambda>b.
                  try_bind (opt_str t) (\<lambda>t'. try_bind (opt_str b) (\<lambda>b'. Inr (t', b')))))) of
             Inr (t, b) \<Rightarrow> Inr \<lparr>er_record_id = record_id, er_source = r_source record, er_title = t,
                  er_body = b, er_enriched = True, er_error = None\<rparr>
           | Inl e \<Rightarrow>
               if is_Exception e
               then Inr \<lparr>er_record_id = record_id, er_source = r_source record, er_title = None,
                  er_body = None, er_enriched = False, er_error = Some (exn_str e)\<rparr>
               else Inl e))"

text \<open>\<open>asyncio.gather\<close> keeps the order of its arguments; \<open>fetch n\<close> answers coroutine \<open>n\<close>.\<close>

definition enrich_records_concurrent ::
  "'db engine \<Rightarrow> (nat \<Rightarrow> string \<Rightarrow> json outcome) \<Rightarrow> int list \<Rightarrow> 'db \<Rightarrow> enriched_record list outcome"
where
  "enrich_records_concurrent E fetch record_ids db =
     try_bind (sql_select E (select_record [IdIn record_ids, DeletedIsNull]) db) (\<lambda>out.
       traverse (\<lambda>(n, i). enrich_one (map_of (rev (map (\<lambda>r. (r_id r, r)) out))) (fetch n) i)
         (enumerate 0 record_ids))"

subsection \<open>The operations over a lawful engine\<close>

lemma matches_simps [simp]:
  "matches [] r" "matches (c # cs) r \<longleftrightarrow> holds c r \<and> matches cs r"
  "matches (cs @ ds) r \<longleftrightarrow> matches cs r \<and> matches ds r"
  by (auto simp: matches_def)

lemma content_simps [simp]:
  "row_key (content r) = row_key r" "r_deleted_at (content r) = r_deleted_at r"
  "content (record_of now q) = record_of now q"
  "row_key (record_of now q) = (source q, timestamp q)"
  "r_deleted_at (record_of now q) = None"
  by (simp_all add: content_def row_key_def record_of_def)

lemma set_processed_simps [simp]:
  "r_id (set_processed now r) = r_id r" "row_key (set_processed now r) = row_key r"
  "r_processed (set_processed now r)" "r_processed_at (set_processed now r) \<noteq> None"
  "r_processed_at r \<noteq> None \<Longrightarrow> r_processed_at (set_processed now r) = r_processed_at r"
  "r_processed r \<Longrightarrow> r_processed_at r \<noteq> None \<Longrightarrow> set_processed now r = r"
  by (auto simp: set_processed_def row_key_def Let_def)

lemma content_row_key: "content r = content s \<Longrightarrow> row_key r = row_key s"
  by (metis content_simps(1))

context record_store
begin

lemma session_get_some:
  "db_ok E db \<Longrightarrow> r \<in> set (rows E db) \<Longrightarrow> session_get E (r_id r) db = Inr (Some r)"
  using select_unique [of db "select_record [IdEq (r_id r)]" r] ids_unique [of db _ r]
  by (simp add: session_get_def select_record_def)

lemma session_get_none:
  "db_ok E db \<Longrightarrow> (\<forall>r \<in> set (rows E db). r_id r \<noteq> i) \<Longrightarrow> session_get E i db = Inr None"
  using select_none [of db "select_record [IdEq i]"] by (simp add: session_get_def select_record_def)

lemma refresh_some: "db_ok E db \<Longrightarrow> r \<in> set (rows E db) \<Longrightarrow> r_id s = r_id r \<Longrightarrow> refresh E s db = Inr r"
  by (simp add: refresh_def session_get_some)

lemma refresh_all_rows: "db_ok E db \<Longrightarrow> set rs \<subseteq> set (rows E db) \<Longrightarrow> refresh_all E rs db = Inr rs"
  by (induction rs) (auto simp: refresh_some)

lemma insert_one:
  assumes "db_ok E db" and "row_key n \<notin> row_key ` set (rows E db)"
  shows "\<exists>r db'. sql_insert E [n] db = Inr ([r], db') \<and> db_ok E db' \<and>
    mset (rows E db') = add_mset r (mset (rows E db)) \<and> content r = content n"
proof -
  obtain out db' where *: "sql_insert E [n] db = Inr (out, db')" "db_ok E db'"
    "mset (rows E db') = mset (rows E db) + mset out" "mset (map content out) = {#content n#}"
    using insert_new [of db "[n]"] assms by auto
  then obtain r where "out = [r]" "content r = content n"
    by (cases out) (auto simp del: mset_map)
  with * show ?thesis by auto
qed

lemma create_record_new:
  assumes "db_ok E db" and "(source q, timestamp q) \<notin> row_key ` set (rows E db)"
  shows "\<exists>r db'. create_record E now q db = (Inr r, db') \<and> db_ok E db' \<and>
    mset (rows E db') = add_mset r (mset (rows E db)) \<and> content r = record_of now q"
proof -
  obtain r db' where *: "sql_insert E [record_of now q] db = Inr ([r], db')" "db_ok E db'"
    "mset (rows E db') = add_mset r (mset (rows E db))" "content r = record_of now q"
    using insert_one [of db "record_of now q"] assms by auto
  then have "r \<in> set (rows E db')" by (metis set_mset_mset union_single_eq_member)
  with * show ?thesis by (auto simp: create_record_def refresh_some)
qed

lemma create_record_dup:
  "db_ok E db \<Longrightarrow> (source q, timestamp q) \<in> row_key ` set (rows E db) \<Longrightarrow>
   create_record E now q db = (Inl IntegrityError, db)"
  using insert_dup [of db "[record_of now q]"] by (simp add: create_record_def)

lemma get_record_active:
  assumes "db_ok E db" "r \<in> set (rows E db)" "r_deleted_at r = None"
  shows "get_record E (r_id r) db = Inr (Some r)"
  using select_unique [of db "select_record [IdEq (r_id r), DeletedIsNull]" r]
    ids_unique [OF assms(1) _ assms(2)] assms
  by (simp add: get_record_def select_record_def scalar_one_or_none_def)

lemma get_record_absent:
  "db_ok E db \<Longrightarrow> \<forall>r \<in> set (rows E db). r_id r = i \<longrightarrow> r_deleted_at r \<noteq> None \<Longrightarrow>
   get_record E i db = Inr None"
  using select_none [of db "select_record [IdEq i, DeletedIsNull]"]
  by (auto simp: get_record_def select_record_def scalar_one_or_none_def)

lemma set_row_mset_cases:
  assumes "db_ok E db" "r \<in> set (rows E db)" "r_id s = r_id r"
  shows "mset (set_row s (rows E db)) = add_mset s (mset (rows E db) - {#r#})"
proof -
  have "mset (set_row s rs) = add_mset s (mset rs - {#r#})"
    if "distinct (map r_id rs)" "r \<in> set rs" for rs
    using that
  proof (induction rs)
    case (Cons x rs)
    show ?case
    proof (cases "r_id x = r_id r")
      case True
      then have "x = r" using Cons.prems by (auto simp: image_iff)
      moreover have "r_id y \<noteq> r_id s" if "y \<in> set rs" for y
      proof -
        have "r_id x \<notin> r_id ` set rs" using Cons.prems(1) by simp
        then show ?thesis using that True assms(3) by (metis imageI)
      qed
      then have "set_row s rs = rs" unfolding set_row_def by (intro map_idI) simp
      ultimately show ?thesis using True assms(3) by (simp add: set_row_def)
    next
      case False
      then show ?thesis
        using Cons assms(3) by (auto simp: set_row_def add_mset_commute diff_union_swap2)
    qed
  qed simp
  then show ?thesis using assms keys_unique by blast
qed

text \<open>A change that keeps the key of a row goes through and replaces the row.\<close>

lemma flush_same_key:
  assumes "db_ok E db" "r \<in> set (rows E db)" "r_id s = r_id r" "row_key s = row_key r"
  shows "\<exists>db' s'. flush_dirty E now r s db = Inr db' \<and> db_ok E db' \<and>
    mset (rows E db') = add_mset s' (mset (rows E db) - {#r#}) \<and>
    s' = (if s = r then r else s\<lparr>r_updated_at := Some now\<rparr>)"
proof (cases "s = r")
  case True
  then show ?thesis using assms by (simp add: flush_dirty_def)
next
  case False
  let ?s = "s\<lparr>r_updated_at := Some now\<rparr>"
  have "row_key x \<noteq> row_key ?s" if "x \<in> set (rows E db)" "r_id x \<noteq> r_id ?s" for x
    using row_keys_unique [OF assms(1) that(1) assms(2)] that assms(3,4)
    by (auto simp: row_key_def)
  then obtain db' where "sql_update E ?s db = Inr db'" "db_ok E db'"
    "mset (rows E db') = mset (set_row ?s (rows E db))"
    using update_ok [OF assms(1), of ?s] by blast
  then show ?thesis
    using set_row_mset_cases [OF assms(1,2), of ?s] assms(3) False by (simp add: flush_dirty_def)
qed

end

end
