(* ===== verification/Crud_Laws.thy ===== *)
theory Crud_Laws
  imports Crud
begin

text \<open>
  What the operations of \<open>ingestor/crud.py\<close> promise over any lawful engine: the two batch
  inserts agree, upserts and \<open>mark_processed\<close> are idempotent, archived rows disappear from
  reads, the two tag-count queries agree, enrichment answers every id in order.
\<close>

subsection \<open>Batches\<close>

context record_store
begin

lemma insert_each_ok:
  assumes "db_ok E db" "distinct (map row_key ns)" "row_key ` set ns \<inter> row_key ` set (rows E db) = {}"
  shows "\<exists>outs db'. insert_each E ns db = Inr (outs, db') \<and> db_ok E db' \<and>
    mset (rows E db') = mset (rows E db) + mset outs \<and> map content outs = map content ns"
  using assms
proof (induction ns arbitrary: db)
  case (Cons n ns)
  obtain r db1 where 1: "sql_insert E [n] db = Inr ([r], db1)" "db_ok E db1"
    "mset (rows E db1) = add_mset r (mset (rows E db))" "content r = content n"
    using insert_one [of db n] Cons.prems by auto
  have "set (rows E db1) = insert r (set (rows E db))"
    using 1(3) by (metis set_mset_add_mset_insert set_mset_mset)
  then have "row_key ` set ns \<inter> row_key ` set (rows E db1) = {}"
    using Cons.prems content_row_key [OF 1(4)] by auto
  with Cons.IH [OF 1(2)] Cons.prems(2) obtain outs db' where
    "insert_each E ns db1 = Inr (outs, db')" "db_ok E db'"
    "mset (rows E db') = mset (rows E db1) + mset outs" "map content outs = map content ns"
    by auto
  with 1 show ?case by auto
qed simp

lemma insert_each_dup:
  assumes "db_ok E db" "\<not> distinct (map row_key ns) \<or> row_key ` set ns \<inter> row_key ` set (rows E db) \<noteq> {}"
  shows "insert_each E ns db = Inl IntegrityError"
  using assms
proof (induction ns arbitrary: db)
  case (Cons n ns)
  show ?case
  proof (cases "row_key n \<in> row_key ` set (rows E db)")
    case True
    then show ?thesis using insert_dup [OF Cons.prems(1), of "[n]"] by simp
  next
    case False
    then obtain r db1 where 1: "sql_insert E [n] db = Inr ([r], db1)" "db_ok E db1"
      "mset (rows E db1) = add_mset r (mset (rows E db))" "content r = content n"
      using insert_one [OF Cons.prems(1)] by blast
    have "set (rows E db1) = insert r (set (rows E db))"
      using 1(3) by (metis set_mset_add_mset_insert set_mset_mset)
    then have "\<not> distinct (map row_key ns) \<or> row_key ` set ns \<inter> row_key ` set (rows E db1) \<noteq> {}"
      using Cons.prems(2) False content_row_key [OF 1(4)] by auto
    then show ?thesis using Cons.IH [OF 1(2)] 1(1) by simp
  qed
qed simp

lemma mset_subset_rows: "mset (rows E db') = A + mset outs \<Longrightarrow> set outs \<subseteq> set (rows E db')"
  by (metis mset_subset_eq_add_right set_mset_mono set_mset_mset)

end

definition batch_fits :: "'db engine \<Rightarrow> record_request list \<Rightarrow> 'db \<Rightarrow> bool" where
  "batch_fits E qs db \<longleftrightarrow> distinct (map (\<lambda>q. (source q, timestamp q)) qs) \<and>
     (\<forall>q \<in> set qs. (source q, timestamp q) \<notin> row_key ` set (rows E db))"

text \<open>
  C27. The two batch inserts have one contract. Over a lawful engine, when the keys of the batch are
  new and distinct, both return one row per request and leave databases with the same contents
  up to the assigned ids, the naive one in the order of the requests; otherwise both raise
  \<open>IntegrityError\<close> and neither inserts anything.
\<close>

theorem batch_inserts_agree:
  assumes "record_store E" and "db_ok E db"
  shows "if batch_fits E qs db
    then \<exists>out db1 out' db2. create_records_batch E now qs db = (Inr out, db1) \<and>
        create_records_batch_naive E now qs db = (Inr out', db2) \<and> db_ok E db1 \<and> db_ok E db2 \<and>
        map content out' = map (record_of now) qs \<and>
        mset (map content out) = mset (map (record_of now) qs) \<and>
        mset (rows E db1) = mset (rows E db) + mset out \<and> mset (rows E db2) = mset (rows E db) + mset out'
    else create_records_batch E now qs db = (Inl IntegrityError, db) \<and>
        create_records_batch_naive E now qs db = (Inl IntegrityError, db)"
proof (cases "qs = []")
  case True
  then show ?thesis
    using assms by (simp add: batch_fits_def create_records_batch_def create_records_batch_naive_def)
next
  case False
  let ?ns = "map (record_of now) qs"
  have keys: "map row_key ?ns = map (\<lambda>q. (source q, timestamp q)) qs" by simp
  have img: "row_key ` set ?ns = (\<lambda>q. (source q, timestamp q)) ` set qs" by force
  have con: "map content ?ns = ?ns" by simp
  show ?thesis
  proof (cases "batch_fits E qs db")
    case True
    then have fits: "distinct (map row_key ?ns)" "row_key ` set ?ns \<inter> row_key ` set (rows E db) = {}"
      unfolding keys img by (auto simp: batch_fits_def)
    obtain out db1 where 1: "sql_insert E ?ns db = Inr (out, db1)" "db_ok E db1"
      "mset (rows E db1) = mset (rows E db) + mset out" "mset (map content out) = mset (map content ?ns)"
      using record_store.insert_new [OF assms fits] by blast
    obtain out' db2 where 2: "insert_each E ?ns db = Inr (out', db2)" "db_ok E db2"
      "mset (rows E db2) = mset (rows E db) + mset out'" "map content out' = map content ?ns"
      using record_store.insert_each_ok [OF assms fits] by blast
    have "refresh_all E out' db2 = Inr out'"
      using record_store.refresh_all_rows [OF assms(1) 2(2)]
        record_store.mset_subset_rows [OF assms(1) 2(3)] by blast
    with 1 2 False True show ?thesis
      unfolding con by (simp add: create_records_batch_def create_records_batch_naive_def)
  next
    case False
    then have "\<not> distinct (map row_key ?ns) \<or> row_key ` set ?ns \<inter> row_key ` set (rows E db) \<noteq> {}"
      unfolding keys img by (auto simp: batch_fits_def)
    then show ?thesis
      using False \<open>qs \<noteq> []\<close> record_store.insert_dup [OF assms] record_store.insert_each_dup [OF assms]
      by (simp add: create_records_batch_def create_records_batch_naive_def)
  qed
qed

definition req :: "string \<Rightarrow> datetime \<Rightarrow> record_request" where
  "req s t = \<lparr>source = s, timestamp = t, data = [], tags = []\<rparr>"

definition empty_db :: mem_db where
  "empty_db = \<lparr>stored = [], next_id = 1\<rparr>"

lemma mem_ok_empty [simp]: "db_ok mem_engine empty_db"
  by (simp add: mem_engine_def mem_ok_def empty_db_def)

theorem batch_inserts_agree_witness:
  "batch_fits mem_engine [req ''a'' 1, req ''b'' 1] empty_db \<and>
   (\<exists>out db1 out' db2.
      create_records_batch mem_engine 9 [req ''a'' 1, req ''b'' 1] empty_db = (Inr out, db1) \<and>
      create_records_batch_naive mem_engine 9 [req ''a'' 1, req ''b'' 1] empty_db = (Inr out', db2) \<and>
      map r_source out' = [''a'', ''b'']) \<and>
   create_records_batch_naive mem_engine 9 [req ''a'' 1, req ''a'' 1] empty_db =
      (Inl IntegrityError, empty_db)"
proof -
  have fits: "batch_fits mem_engine [req ''a'' 1, req ''b'' 1] empty_db"
    and dup: "\<not> batch_fits mem_engine [req ''a'' 1, req ''a'' 1] empty_db"
    by (simp_all add: batch_fits_def req_def mem_engine_def empty_db_def)
  have src: "map r_source out' = [''a'', ''b'']"
    if "map content out' = map (record_of 9) [req ''a'' 1, req ''b'' 1]" for out'
  proof -
    have "map r_source (map content out') = [''a'', ''b'']" by (simp add: that record_of_def req_def)
    then show ?thesis by (simp add: o_def content_def)
  qed
  obtain out db1 out' db2 where
    "create_records_batch mem_engine 9 [req ''a'' 1, req ''b'' 1] empty_db = (Inr out, db1)"
    "create_records_batch_naive mem_engine 9 [req ''a'' 1, req ''b'' 1] empty_db = (Inr out', db2)"
    "map content out' = map (record_of 9) [req ''a'' 1, req ''b'' 1]"
    using batch_inserts_agree [OF mem.record_store_axioms mem_ok_empty, of "[req ''a'' 1, req ''b'' 1]" 9]
      fits by (simp only: if_True) blast
  moreover have "create_records_batch_naive mem_engine 9 [req ''a'' 1, req ''a'' 1] empty_db =
      (Inl IntegrityError, empty_db)"
    using batch_inserts_agree [OF mem.record_store_axioms mem_ok_empty, of "[req ''a'' 1, req ''a'' 1]" 9]
      dup by (simp only: if_False)
  ultimately show ?thesis using fits src by blast
qed

subsection \<open>Upserts\<close>

lemma upsert_conflict:
  assumes "record_store E" "db_ok E db" "r \<in> set (rows E db)" "row_key r = (source q, timestamp q)"
  shows "upsert_record E now q db =
    (if r_deleted_at r = None then Inr (r, False) else Inl (AssertionError ''Unique constraint violation''), db)"
proof -
  let ?q = "select_record [SourceEq (source q), TimestampEq (timestamp q), DeletedIsNull]"
  have dup: "create_record E now q db = (Inl IntegrityError, db)"
    using record_store.create_record_dup [OF assms(1,2), of q now] assms(3,4) by force
  have only: "y = r" if "y \<in> set (rows E db)" "matches (q_where ?q) y" for y
  proof -
    have "row_key y = row_key r" using that(2) assms(4) by (simp add: select_record_def row_key_def)
    then show ?thesis by (rule record_store.row_keys_unique [OF assms(1,2) that(1) assms(3)])
  qed
  show ?thesis
  proof (cases "r_deleted_at r = None")
    case True
    then have "matches (q_where ?q) r" using assms(4) by (simp add: select_record_def row_key_def)
    then have "sql_select E ?q db = Inr [r]"
      by (intro record_store.select_unique [OF assms(1,2)] assms(3) only) (simp_all add: select_record_def)
    then show ?thesis using dup True by (simp add: upsert_record_def scalar_one_or_none_def)
  next
    case False
    have "\<not> matches (q_where ?q) y" if "y \<in> set (rows E db)" for y
    proof
      assume m: "matches (q_where ?q) y"
      then have "y = r" by (rule only [OF that])
      with m False show False by (simp add: select_record_def)
    qed
    then have "sql_select E ?q db = Inr []"
      by (intro record_store.select_none [OF assms(1,2)]) auto
    then show ?thesis using dup False by (simp add: upsert_record_def scalar_one_or_none_def)
  qed
qed

text \<open>
  C6. Upserts are idempotent. Over a lawful engine, whenever an upsert returns a record, repeating it
  at any later time with the same source and timestamp (and any other payload) returns that very
  record with \<open>created = False\<close> and changes nothing.
\<close>

theorem upsert_idempotent:
  assumes "record_store E" and "db_ok E db" and "upsert_record E now q db = (Inr (r, c), db')"
    and "source q' = source q" and "timestamp q' = timestamp q"
  shows "upsert_record E later q' db' = (Inr (r, False), db')"
proof -
  have "db_ok E db' \<and> r \<in> set (rows E db') \<and> row_key r = (source q, timestamp q) \<and> r_deleted_at r = None"
  proof (cases "(source q, timestamp q) \<in> row_key ` set (rows E db)")
    case True
    then obtain x where "x \<in> set (rows E db)" "row_key x = (source q, timestamp q)" by force
    with upsert_conflict [OF assms(1,2) this, of now] assms(2,3) show ?thesis
      by (auto split: if_splits)
  next
    case False
    obtain x db1 where x: "create_record E now q db = (Inr x, db1)" "db_ok E db1"
      "mset (rows E db1) = add_mset x (mset (rows E db))" "content x = record_of now q"
      using record_store.create_record_new [OF assms(1,2) False] by blast
    then have "x \<in> set (rows E db1)" by (metis set_mset_mset union_single_eq_member)
    moreover have "row_key x = (source q, timestamp q)" "r_deleted_at x = None"
      using x(4) content_simps(1,2) [of x] by simp_all
    ultimately show ?thesis using x(1,2) assms(3) by (auto simp: upsert_record_def)
  qed
  then show ?thesis using upsert_conflict [OF assms(1), of db' r q' later] assms(4,5) by simp
qed

definition mem_row :: "int \<Rightarrow> string \<Rightarrow> datetime \<Rightarrow> datetime option \<Rightarrow> row" where
  "mem_row i s t del = (record_of 0 (req s t))\<lparr>r_id := i, r_deleted_at := del\<rparr>"

definition one_db :: "datetime option \<Rightarrow> mem_db" where
  "one_db del = \<lparr>stored = [mem_row 1 ''a'' 5 del], next_id = 2\<rparr>"

lemma mem_ok_one [simp]: "db_ok mem_engine (one_db del)"
  by (simp add: mem_engine_def mem_ok_def one_db_def mem_row_def)

lemma one_db_row: "mem_row 1 ''a'' 5 del \<in> set (rows mem_engine (one_db del))"
  "row_key (mem_row 1 ''a'' 5 del) = (source (req ''a'' 5), timestamp (req ''a'' 5))"
  "r_deleted_at (mem_row 1 ''a'' 5 del) = del" "r_id (mem_row 1 ''a'' 5 del) = 1"
  by (simp_all add: mem_engine_def one_db_def mem_row_def row_key_def record_of_def req_def)

theorem upsert_idempotent_witness:
  "upsert_record mem_engine 7 (req ''a'' 5) (one_db None) =
    (Inr (mem_row 1 ''a'' 5 None, False), one_db None)"
proof -
  have "upsert_record mem_engine 6 (req ''a'' 5) (one_db None) =
    (Inr (mem_row 1 ''a'' 5 None, False), one_db None)"
    using upsert_conflict [OF mem.record_store_axioms mem_ok_one one_db_row(1,2), of 6 None]
    by (simp add: one_db_row)
  from upsert_idempotent [OF mem.record_store_axioms mem_ok_one this] show ?thesis by simp
qed

text \<open>
  An archived record blocks its key for ever: while a soft-deleted row holds (source,
  timestamp), every upsert of that key raises \<open>AssertionError\<close> and changes nothing, without any
  race, whatever the payload and the time.
\<close>

theorem upsert_archived_fails:
  assumes "record_store E" and "db_ok E db" and "r \<in> set (rows E db)"
    and "row_key r = (source q, timestamp q)" and "r_deleted_at r \<noteq> None"
  shows "\<exists>m. upsert_record E now q db = (Inl (AssertionError m), db)"
  using upsert_conflict [OF assms(1-4), of now] assms(5) by simp

theorem upsert_archived_fails_witness:
  "\<exists>m. upsert_record mem_engine 7 (req ''a'' 5) (one_db (Some 6)) = (Inl (AssertionError m), one_db (Some 6))"
  by (rule upsert_archived_fails [OF mem.record_store_axioms mem_ok_one one_db_row(1,2)])
     (simp add: one_db_row)

subsection \<open>Marking, archiving, deleting\<close>

lemma replaced_row:
  "mset ys = add_mset s (mset xs - {#r#}) \<Longrightarrow> r \<in> set xs \<Longrightarrow>
   s \<in> set ys \<and> set xs \<subseteq> insert r (set ys) \<and> set ys \<subseteq> insert s (set xs)"
proof -
  assume "mset ys = add_mset s (mset xs - {#r#})" "r \<in> set xs"
  then have "set ys = insert s (set_mset (mset xs - {#r#}))" "set xs = insert r (set_mset (mset xs - {#r#}))"
    by (metis set_mset_add_mset_insert set_mset_mset,
        metis insert_DiffM in_multiset_in_set set_mset_add_mset_insert set_mset_mset)
  then show ?thesis by auto
qed

text \<open>Changing attributes of a stored row other than its id and its key, and loading it again.\<close>

lemma change_row:
  assumes "record_store E" "db_ok E db" "r \<in> set (rows E db)" "r_id s = r_id r" "row_key s = row_key r"
  shows "\<exists>db' s'. flush_dirty E now r s db = Inr db' \<and> db_ok E db' \<and> refresh E s db' = Inr s' \<and>
    s' \<in> set (rows E db') \<and> mset (rows E db') = add_mset s' (mset (rows E db) - {#r#}) \<and>
    s' = (if s = r then r else s\<lparr>r_updated_at := Some now\<rparr>)"
proof -
  obtain db' s' where f: "flush_dirty E now r s db = Inr db'" "db_ok E db'"
    "mset (rows E db') = add_mset s' (mset (rows E db) - {#r#})"
    "s' = (if s = r then r else s\<lparr>r_updated_at := Some now\<rparr>)"
    using record_store.flush_same_key [OF assms] by blast
  have s': "s' \<in> set (rows E db')" using replaced_row [OF f(3) assms(3)] by blast
  have "r_id s = r_id s'" using f(4) assms(4) by auto
  then show ?thesis using f s' record_store.refresh_some [OF assms(1) f(2) s'] by blast
qed

lemma mark_processed_stored:
  assumes "record_store E" "db_ok E db" "r \<in> set (rows E db)"
  shows "\<exists>db' s'. mark_processed E now (r_id r) db = (Inr (Some s'), db') \<and> db_ok E db' \<and>
    s' \<in> set (rows E db') \<and> r_id s' = r_id r \<and> r_processed s' \<and> r_deleted_at s' = r_deleted_at r"
proof -
  obtain db' s' where *: "flush_dirty E now r (set_processed now r) db = Inr db'" "db_ok E db'"
    "refresh E (set_processed now r) db' = Inr s'" "s' \<in> set (rows E db')"
    "s' = (if set_processed now r = r then r else (set_processed now r)\<lparr>r_updated_at := Some now\<rparr>)"
    using change_row [OF assms, of "set_processed now r" now] by auto
  have del: "r_deleted_at (set_processed now r) = r_deleted_at r"
    by (simp add: set_processed_def Let_def)
  have "r_processed s'"
    using *(5) set_processed_simps(3) [of now r]
    by (cases "set_processed now r = r") (simp_all del: set_processed_simps(3))
  moreover have "r_id s' = r_id r" "r_deleted_at s' = r_deleted_at r" using *(5) del by auto
  ultimately show ?thesis
    using * record_store.session_get_some [OF assms]
    by (intro exI [of _ db'] exI [of _ s']) (simp add: mark_processed_def)
qed

lemma soft_delete_stored:
  assumes "record_store E" "db_ok E db" "r \<in> set (rows E db)" "r_deleted_at r = None"
  shows "\<exists>db' s'. soft_delete_record E now (r_id r) db = (Inr (Some s'), db') \<and> db_ok E db' \<and>
    s' \<in> set (rows E db') \<and> r_id s' = r_id r \<and> r_deleted_at s' = Some now"
proof -
  let ?s = "r\<lparr>r_deleted_at := Some now\<rparr>"
  have id: "r_id ?s = r_id r" "row_key ?s = row_key r" by (simp_all add: row_key_def)
  obtain db' s' where *: "flush_dirty E now r ?s db = Inr db'" "db_ok E db'"
    "refresh E ?s db' = Inr s'" "s' \<in> set (rows E db')"
    "s' = (if ?s = r then r else ?s\<lparr>r_updated_at := Some now\<rparr>)"
    using change_row [OF assms(1-3) id(1,2), of now] by blast
  have "?s \<noteq> r" using assms(4) by (metis option.distinct(1) row.select_convs(10) row.surjective row.update_convs(10))
  then have "r_id s' = r_id r \<and> r_deleted_at s' = Some now" using *(5) by simp
  then show ?thesis
    using * record_store.session_get_some [OF assms(1-3)] assms(4)
    by (intro exI [of _ db'] exI [of _ s']) (simp add: soft_delete_record_def Let_def)
qed

text \<open>An update whose new source and time no other row has is stored.\<close>

definition updated :: "datetime \<Rightarrow> update_request \<Rightarrow> row \<Rightarrow> row" where
  "updated now u r = (if apply_update u r = r then r else (apply_update u r)\<lparr>r_updated_at := Some now\<rparr>)"

lemma apply_update_keeps [simp]:
  "r_id (apply_update u r) = r_id r" "r_deleted_at (apply_update u r) = r_deleted_at r"
  by (auto simp: apply_update_def Let_def split: option.splits)

lemma update_stored:
  assumes "record_store E" "db_ok E db" "r \<in> set (rows E db)"
    and "\<forall>x \<in> set (rows E db). r_id x \<noteq> r_id r \<longrightarrow> row_key x \<noteq> row_key (apply_update u r)"
  shows "\<exists>db'. update_record E now (r_id r) u db = (Inr (Some (updated now u r)), db') \<and> db_ok E db' \<and>
    updated now u r \<in> set (rows E db')"
proof -
  let ?s = "updated now u r"
  have id: "r_id ?s = r_id r" "row_key ?s = row_key (apply_update u r)" by (auto simp: updated_def row_key_def)
  obtain db' where f: "flush_dirty E now r (apply_update u r) db = Inr db'" "db_ok E db'" "?s \<in> set (rows E db')"
  proof (cases "apply_update u r = r")
    case True
    then show ?thesis using that [of db] assms(2,3) by (simp add: flush_dirty_def updated_def)
  next
    case False
    have "\<forall>x \<in> set (rows E db). r_id x \<noteq> r_id ?s \<longrightarrow> row_key x \<noteq> row_key ?s" using assms(4) id by simp
    from record_store.update_ok [OF assms(1,2) this] obtain db' where db': "sql_update E ?s db = Inr db'" "db_ok E db'"
      "mset (rows E db') = mset (set_row ?s (rows E db))" by blast
    have "?s \<in> set (set_row ?s (rows E db))" using assms(3) id(1) by (force simp: set_row_def)
    then have "?s \<in> set (rows E db')" using mset_eq_setD [OF db'(3)] by simp
    then show ?thesis using that [of db'] db'(1,2) False by (simp add: flush_dirty_def updated_def)
  qed
  have "refresh E (apply_update u r) db' = Inr ?s"
    using record_store.refresh_some [OF assms(1) f(2,3), of "apply_update u r"] id(1) by simp
  then show ?thesis
    using f record_store.session_get_some [OF assms(1-3)] by (simp add: update_record_def)
qed

lemma delete_stored:
  assumes "record_store E" "db_ok E db" "r \<in> set (rows E db)"
  shows "\<exists>db'. delete_record E (r_id r) db = (Inr (Some r), db') \<and> db_ok E db' \<and>
    (\<forall>x \<in> set (rows E db'). r_id x \<noteq> r_id r)"
proof -
  obtain db' where "sql_delete E (r_id r) db = Inr db'" "db_ok E db'"
    "mset (rows E db') = mset (filter (\<lambda>x. r_id x \<noteq> r_id r) (rows E db))"
    using record_store.delete_meaning [OF assms(1,2)] by blast
  moreover from this(3) have "set (rows E db') = set (filter (\<lambda>x. r_id x \<noteq> r_id r) (rows E db))"
    by (rule mset_eq_setD)
  ultimately show ?thesis
    using record_store.session_get_some [OF assms] by (simp add: delete_record_def)
qed

text \<open>
  Marking is idempotent. Over a lawful engine, \<open>mark_processed\<close> of a stored row succeeds, the
  row it returns is processed and has a time, and marking it again at any later time returns
  the same row, with the same \<open>processed_at\<close> and \<open>updated_at\<close>, and leaves the database as it is.
\<close>

theorem mark_processed_idempotent:
  assumes "record_store E" and "db_ok E db" and "r \<in> set (rows E db)"
  shows "\<exists>r' db'. mark_processed E now (r_id r) db = (Inr (Some r'), db') \<and>
    r_processed r' \<and> r_processed_at r' \<noteq> None \<and>
    (r_processed_at r \<noteq> None \<longrightarrow> r_processed_at r' = r_processed_at r) \<and>
    mark_processed E later (r_id r) db' = (Inr (Some r'), db')"
proof -
  let ?s = "set_processed now r"
  have get: "session_get E (r_id r) db = Inr (Some r)"
    by (rule record_store.session_get_some [OF assms])
  obtain db' s' where f: "flush_dirty E now r ?s db = Inr db'" "db_ok E db'"
    "mset (rows E db') = add_mset s' (mset (rows E db) - {#r#})"
    "s' = (if ?s = r then r else ?s\<lparr>r_updated_at := Some now\<rparr>)"
    using record_store.flush_same_key [OF assms, of ?s now] by auto
  have s': "s' \<in> set (rows E db')" using replaced_row [OF f(3) assms(3)] by blast
  have s_eq: "r_id s' = r_id r" "r_processed s' = r_processed ?s" "r_processed_at s' = r_processed_at ?s"
    by (cases "?s = r"; simp add: f(4) del: set_processed_simps(3-6))+
  have "mark_processed E now (r_id r) db = (Inr (Some s'), db')"
    using get f(1) record_store.refresh_some [OF assms(1) f(2) s', of ?s] s_eq(1)
    by (simp add: mark_processed_def)
  moreover have "mark_processed E later (r_id r) db' = (Inr (Some s'), db')"
    using record_store.session_get_some [OF assms(1) f(2) s'] s_eq
      record_store.refresh_some [OF assms(1) f(2) s', of s'] set_processed_simps(3,4) [of now r]
    by (simp add: mark_processed_def flush_dirty_def)
  ultimately show ?thesis
    using s_eq by (intro exI [of _ s'] exI [of _ db']) simp
qed

theorem mark_processed_idempotent_witness:
  "\<exists>r' db'. mark_processed mem_engine 3 1 (one_db None) = (Inr (Some r'), db') \<and>
    r_processed r' \<and> mark_processed mem_engine 8 1 db' = (Inr (Some r'), db')"
  using mark_processed_idempotent [OF mem.record_store_axioms mem_ok_one one_db_row(1), of 3 None 8]
  by (auto simp: one_db_row)

text \<open>
  Archiving hides a record and nothing else. Over a lawful engine, archiving an active row
  returns it with its deletion time; afterwards \<open>get_record\<close> does not find it, a second archive
  finds nothing to do, and every other row is still stored unchanged.
\<close>

theorem archive_hides:
  assumes "record_store E" and "db_ok E db" and "r \<in> set (rows E db)" and "r_deleted_at r = None"
  shows "\<exists>r' db'. soft_delete_record E now (r_id r) db = (Inr (Some r'), db') \<and>
    r_deleted_at r' = Some now \<and> get_record E (r_id r) db' = Inr None \<and>
    soft_delete_record E later (r_id r) db' = (Inr None, db') \<and>
    mset (rows E db') = add_mset r' (mset (rows E db) - {#r#})"
proof -
  let ?s = "r\<lparr>r_deleted_at := Some now\<rparr>"
  have ne: "?s \<noteq> r" using assms(4) by (metis option.distinct(1) row.select_convs(10) row.surjective row.update_convs(10))
  have get: "session_get E (r_id r) db = Inr (Some r)"
    by (rule record_store.session_get_some [OF assms(1-3)])
  obtain db' s' where f: "flush_dirty E now r ?s db = Inr db'" "db_ok E db'"
    "mset (rows E db') = add_mset s' (mset (rows E db) - {#r#})"
    "s' = ?s\<lparr>r_updated_at := Some now\<rparr>"
    using record_store.flush_same_key [OF assms(1-3), of ?s now] ne by (auto simp: row_key_def)
  have s': "s' \<in> set (rows E db')" using replaced_row [OF f(3) assms(3)] by blast
  have id: "r_id s' = r_id r" "r_deleted_at s' = Some now" using f(4) by auto
  have "soft_delete_record E now (r_id r) db = (Inr (Some s'), db')"
    using get f(1) assms(4) record_store.refresh_some [OF assms(1) f(2) s', of ?s] id
    by (simp add: soft_delete_record_def Let_def)
  moreover have "get_record E (r_id r) db' = Inr None"
    using record_store.ids_unique [OF assms(1) f(2) _ s'] id
    by (intro record_store.get_record_absent [OF assms(1) f(2)]) auto
  moreover have "soft_delete_record E later (r_id r) db' = (Inr None, db')"
    using record_store.session_get_some [OF assms(1) f(2) s'] id
    by (simp add: soft_delete_record_def)
  ultimately show ?thesis using id(2) f(3) by blast
qed

theorem archive_hides_witness:
  "\<exists>r' db'. soft_delete_record mem_engine 3 1 (one_db None) = (Inr (Some r'), db') \<and>
    get_record mem_engine 1 db' = Inr None \<and> soft_delete_record mem_engine 4 1 db' = (Inr None, db')"
  using archive_hides [OF mem.record_store_axioms mem_ok_one one_db_row(1), of None 3 4]
  by (auto simp: one_db_row)

subsection \<open>Listings\<close>

lemma tag_count_loop_map:
  "tag_count_loop rs acc = acc @ map (\<lambda>r. \<lparr>tc_id = r_id r, tc_source = r_source r,
     tc_timestamp = isoformat (r_timestamp r),
     tc_tag_count = (if r_tags r \<noteq> [] then int (length (r_tags r)) else 0)\<rparr>) rs"
  by (induction rs arbitrary: acc) (simp_all add: Let_def)

text \<open>
  The two tag-count functions are equal on every engine, lawful or not: the same rows in the
  same order with the same counts, and the same exception.
\<close>

theorem tag_counts_equal:
  "get_records_with_tag_counts E lmt db = get_records_with_tag_counts_naive E lmt db"
  by (cases "sql_select E (latest_query lmt) db")
     (simp_all add: get_records_with_tag_counts_def get_records_with_tag_counts_naive_def
       tag_count_loop_map project_def o_def)

text \<open>
  Offset pages tile the listing. Over a lawful engine, \<open>get_records\<close> returns the window
  \<open>[skip, skip + limit)\<close> of the active rows of the source in the order of their ids and the number of
  all of them, so that consecutive pages of an unchanged table give every such row exactly once.
\<close>

theorem get_records_window:
  assumes "record_store E" and "db_ok E db" and "0 \<le> skip" and "0 \<le> lmt"
  shows "\<exists>xs. get_records E skip lmt src db = Inr (take (nat lmt) (drop (nat skip) xs), int (length xs)) \<and>
    distinct xs \<and> sorted_wrt (\<lambda>a b. r_id a \<le> r_id b) xs \<and>
    set xs = {r \<in> set (rows E db). r_deleted_at r = None \<and>
      (\<forall>s. src = Some s \<longrightarrow> s \<noteq> [] \<longrightarrow> r_source r = s)} \<and>
    concat (map (\<lambda>k. take (nat lmt) (drop (k * nat lmt) xs)) [0..<n]) = take (n * nat lmt) xs"
proof -
  let ?cs = "DeletedIsNull # source_filter src"
  let ?xs = "listing [(ColId, False)] ?cs (rows E db)"
  have "get_records E skip lmt src db = Inr (take (nat lmt) (drop (nat skip) ?xs), int (length ?xs))"
    using assms(3,4) by (simp add: get_records_def Let_def record_store.count_meaning [OF assms(1,2)]
        record_store.select_listing [OF assms(1,2), of False] window_def listing_length)
  moreover have "distinct ?xs"
    by (intro listing_distinct record_store.rows_distinct [OF assms(1,2)])
  moreover have "sorted_wrt (\<lambda>a b. r_id a \<le> r_id b) ?xs"
    by (rule sorted_wrt_mono_rel [OF _ listing_sorted [of "[(ColId, False)]"]]) (auto simp: Let_def)
  moreover have "set ?xs = {r \<in> set (rows E db). r_deleted_at r = None \<and>
      (\<forall>s. src = Some s \<longrightarrow> s \<noteq> [] \<longrightarrow> r_source r = s)}"
    by (auto simp: source_filter_def split: option.splits if_splits)
  moreover have "concat (map (\<lambda>k. take (nat lmt) (drop (k * nat lmt) ?xs)) [0..<n]) = take (n * nat lmt) ?xs"
    by (rule windows_tile)
  ultimately show ?thesis by blast
qed

theorem get_records_window_witness:
  "\<exists>xs. get_records mem_engine 0 2 None (one_db None) = Inr (take 2 xs, int (length xs)) \<and>
     set xs = {mem_row 1 ''a'' 5 None}"
proof -
  obtain xs where xs: "get_records mem_engine 0 2 None (one_db None) =
      Inr (take (nat 2) (drop (nat 0) xs), int (length xs))"
    "set xs = {r \<in> set (rows mem_engine (one_db None)). r_deleted_at r = None \<and>
      (\<forall>s. (None :: string option) = Some s \<longrightarrow> s \<noteq> [] \<longrightarrow> r_source r = s)}"
    using get_records_window [OF mem.record_store_axioms mem_ok_one, of 0 2 None None 1] by auto
  have "set xs = {mem_row 1 ''a'' 5 None}"
    unfolding xs(2) using one_db_row(1,3) [of None] by (auto simp: mem_engine_def one_db_def)
  then show ?thesis using xs(1) by auto
qed

subsection \<open>Enrichment\<close>

lemma py_get_not_cancelled: "py_get d k \<noteq> Inl CancelledError"
  by (cases d) auto

lemma opt_str_not_cancelled: "opt_str d \<noteq> Inl CancelledError"
  by (cases d) auto

lemma enrich_one_result:
  assumes "fetch (post_url i) \<noteq> Inl CancelledError"
  shows "\<exists>x. enrich_one d fetch i = Inr x \<and> er_record_id x = i \<and>
    (er_enriched x \<longrightarrow> er_error x = None \<and> (\<exists>r. d i = Some r \<and> er_source x = r_source r)) \<and>
    (\<forall>r e. d i = Some r \<longrightarrow> fetch (post_url i) = Inl e \<longrightarrow>
       \<not> er_enriched x \<and> er_error x = Some (exn_str e))"
proof (cases "d i")
  case None
  then show ?thesis by (simp add: enrich_one_def)
next
  case (Some r)
  let ?body = "try_bind (fetch (post_url i)) (\<lambda>d.
     try_bind (py_get d ''title'') (\<lambda>t. try_bind (py_get d ''body'') (\<lambda>b.
     try_bind (opt_str t) (\<lambda>t'. try_bind (opt_str b) (\<lambda>b'. Inr (t', b'))))))"
  have "?body \<noteq> Inl CancelledError"
    using assms py_get_not_cancelled opt_str_not_cancelled
    by (auto simp: try_bind_def split: sum.splits)
  then show ?thesis
    using Some by (auto simp: enrich_one_def is_Exception_def split: sum.split)
qed

lemma enrich_lookup:
  assumes "record_store E" "db_ok E db"
    and "sql_select E (select_record [IdIn ids, DeletedIsNull]) db = Inr out" "i \<in> set ids"
  shows "get_record E i db = Inr (map_of (rev (map (\<lambda>r. (r_id r, r)) out)) i)"
proof -
  let ?m = "map_of (rev (map (\<lambda>r. (r_id r, r)) out))"
  have "set out = {r \<in> set (rows E db). r_id r \<in> set ids \<and> r_deleted_at r = None}"
    using record_store.select_set [OF assms(1,2) _ _ assms(3)] by (simp add: select_record_def)
  then have out: "r \<in> set out \<longleftrightarrow> r \<in> set (rows E db) \<and> r_id r \<in> set ids \<and> r_deleted_at r = None" for r
    by simp
  show ?thesis
  proof (cases "?m i")
    case None
    then have "\<forall>r \<in> set (rows E db). r_id r = i \<longrightarrow> r_deleted_at r \<noteq> None"
      using out assms(4) by (force simp: map_of_eq_None_iff)
    then show ?thesis using None record_store.get_record_absent [OF assms(1,2)] by simp
  next
    case (Some r)
    then have "(i, r) \<in> set (rev (map (\<lambda>r. (r_id r, r)) out))" by (rule map_of_SomeD)
    then show ?thesis
      using Some out record_store.get_record_active [OF assms(1,2), of r] by auto
  qed
qed

text \<open>
  Enrichment answers every id. Over a lawful engine, when no fetch is cancelled,
  \<open>enrich_records_concurrent\<close> returns one result per requested id, in the order of the request; a
  result is marked enriched only for an active record, and an exception of one fetch is the
  error text of that result alone.
\<close>

theorem enrich_answers_all:
  assumes "record_store E" and "db_ok E db"
    and "\<And>n u. fetch n u \<noteq> Inl CancelledError"
  shows "\<exists>results. enrich_records_concurrent E fetch ids db = Inr results \<and>
    map er_record_id results = ids \<and>
    (\<forall>x \<in> set results. er_enriched x \<longrightarrow> er_error x = None \<and>
       (\<exists>r. get_record E (er_record_id x) db = Inr (Some r) \<and> er_source x = r_source r)) \<and>
    (\<forall>n e r. n < length ids \<longrightarrow> get_record E (ids ! n) db = Inr (Some r) \<longrightarrow>
       fetch n (post_url (ids ! n)) = Inl e \<longrightarrow>
       \<not> er_enriched (results ! n) \<and> er_error (results ! n) = Some (exn_str e))"
proof -
  obtain out where out: "sql_select E (select_record [IdIn ids, DeletedIsNull]) db = Inr out"
    using record_store.select_meaning [OF assms(1,2)] by blast
  let ?m = "map_of (rev (map (\<lambda>r. (r_id r, r)) out))"
  define res where "res = (\<lambda>(n, i). case enrich_one ?m (fetch n) i of Inr x \<Rightarrow> x)"
  have res: "enrich_one ?m (fetch n) i = Inr (res (n, i)) \<and> er_record_id (res (n, i)) = i \<and>
    (er_enriched (res (n, i)) \<longrightarrow> er_error (res (n, i)) = None \<and>
       (\<exists>r. ?m i = Some r \<and> er_source (res (n, i)) = r_source r)) \<and>
    (\<forall>r e. ?m i = Some r \<longrightarrow> fetch n (post_url i) = Inl e \<longrightarrow>
       \<not> er_enriched (res (n, i)) \<and> er_error (res (n, i)) = Some (exn_str e))" for n i
    using enrich_one_result [of "fetch n" i ?m] assms(3) by (auto simp: res_def)
  have get: "get_record E i db = Inr (?m i)" if "i \<in> set ids" for i
    by (rule enrich_lookup [OF assms(1,2) out that])
  let ?results = "map res (enumerate 0 ids)"
  have "enrich_records_concurrent E fetch ids db = Inr ?results"
    unfolding enrich_records_concurrent_def out try_bind_simps
    by (rule traverse_all_ok) (use res in auto)
  moreover have "map er_record_id ?results = ids"
  proof -
    have "er_record_id (res p) = snd p" for p using res [of "fst p" "snd p"] by simp
    then show ?thesis by (simp add: o_def)
  qed
  moreover have "er_error x = None \<and>
      (\<exists>r. get_record E (er_record_id x) db = Inr (Some r) \<and> er_source x = r_source r)"
    if "x \<in> set ?results" "er_enriched x" for x
  proof -
    note mem = that(1)
    obtain p where p: "x = res p" "p \<in> set (enumerate 0 ids)"
      by (rule imageE [OF mem [unfolded set_map]])
    obtain n i where ni: "p = (n, i)" by (cases p)
    have "snd p \<in> set (map snd (enumerate 0 ids))" using p(2) by (auto simp del: map_snd_enumerate)
    then have x: "x = res (n, i)" "i \<in> set ids" using p(1) ni by simp_all
    then show ?thesis using res [of n i] get [OF x(2)] that(2) by auto
  qed
  moreover have "\<not> er_enriched (?results ! n) \<and> er_error (?results ! n) = Some (exn_str e)"
    if "n < length ids" "get_record E (ids ! n) db = Inr (Some r)"
      "fetch n (post_url (ids ! n)) = Inl e" for n e r
  proof -
    have "?m (ids ! n) = Some r" using get [of "ids ! n"] that(1,2) by simp
    then show ?thesis using res [of n "ids ! n"] that(1,3) by (simp add: nth_enumerate_eq)
  qed
  ultimately show ?thesis by blast
qed

theorem enrich_answers_all_witness:
  "\<exists>results. enrich_records_concurrent mem_engine (\<lambda>n u. Inl (HTTPError ''503'')) [1, 9] (one_db None) =
      Inr results \<and> map er_record_id results = [1, 9] \<and> er_error (results ! 0) = Some ''503''"
proof -
  have "get_record mem_engine 1 (one_db None) = Inr (Some (mem_row 1 ''a'' 5 None))"
    using mem.get_record_active [OF mem_ok_one one_db_row(1), of None] by (simp add: one_db_row)
  then show ?thesis
    using enrich_answers_all [OF mem.record_store_axioms mem_ok_one,
        of "\<lambda>n u. Inl (HTTPError ''503'')" "[1, 9]" None] by force
qed

end
