(* ===== verification/Cache.thy ===== *)
theory Cache
  imports Crud
begin

text \<open>
  \<open>ingestor/cache.py\<close>: the Redis cache of single records, fail-open. The Redis client and
  Pydantic's JSON are parameters; the module's \<open>_client\<close> is the state (\<open>None\<close>: not connected),
  together with the counter of \<open>cache_errors_total\<close>.
\<close>

definition CACHE_TTL_RECORD :: int where
  "CACHE_TTL_RECORD = 3600"

definition cache_key :: "int \<Rightarrow> string" where
  "cache_key record_id = ''dp:record:'' @ show_int record_id"

text \<open>\<open>RecordResponse\<close> of \<open>ingestor/schemas.py\<close>, built from a row by \<open>model_validate\<close>.\<close>

record record_response =
  rr_id :: int
  rr_source :: string
  rr_timestamp :: datetime
  rr_raw_data :: "(string \<times> json) list"
  rr_tags :: "string list"
  rr_processed :: bool
  rr_created_at :: datetime
  rr_updated_at :: "datetime option"
  rr_deleted_at :: "datetime option"

definition response_of :: "row \<Rightarrow> record_response" where
  "response_of r =
     \<lparr>rr_id = r_id r, rr_source = r_source r, rr_timestamp = r_timestamp r, rr_raw_data = r_raw_data r,
      rr_tags = r_tags r, rr_processed = r_processed r, rr_created_at = r_created_at r,
      rr_updated_at = r_updated_at r, rr_deleted_at = r_deleted_at r\<rparr>"

text \<open>The client: \<open>get\<close> may expire keys, every call may raise; \<open>model_dump_json\<close> and its inverse.\<close>

record 'rd redis =
  rd_open :: "string \<Rightarrow> 'rd outcome"
  rd_ping :: "'rd \<Rightarrow> unit outcome \<times> 'rd"
  rd_close :: "'rd \<Rightarrow> unit outcome \<times> 'rd"
  rd_get :: "seconds \<Rightarrow> string \<Rightarrow> 'rd \<Rightarrow> string option outcome \<times> 'rd"
  rd_setex :: "seconds \<Rightarrow> string \<Rightarrow> int \<Rightarrow> string \<Rightarrow> 'rd \<Rightarrow> unit outcome \<times> 'rd"
  rd_delete :: "string \<Rightarrow> 'rd \<Rightarrow> unit outcome \<times> 'rd"
  dump_json :: "record_response \<Rightarrow> string"
  load_json :: "string \<Rightarrow> record_response outcome"

record 'rd cache_state =
  client :: "'rd option"
  cache_errors :: "string list"

text \<open>The client is stored before the ping that may fail, and kept when closing it fails.\<close>

definition connect_cache :: "'rd redis \<Rightarrow> string \<Rightarrow> 'rd cache_state \<Rightarrow> unit outcome \<times> 'rd cache_state" where
  "connect_cache R url cs =
     (case rd_open R url of
        Inl e \<Rightarrow> (Inl e, cs)
      | Inr c \<Rightarrow> (case rd_ping R c of (r, c') \<Rightarrow> (r, cs\<lparr>client := Some c'\<rparr>)))"

definition disconnect_cache :: "'rd redis \<Rightarrow> 'rd cache_state \<Rightarrow> unit outcome \<times> 'rd cache_state" where
  "disconnect_cache R cs =
     (case client cs of
        None \<Rightarrow> (Inr (), cs)
      | Some c \<Rightarrow> (case rd_close R c of
                     (Inr u, c') \<Rightarrow> (Inr u, cs\<lparr>client := None\<rparr>)
                   | (Inl e, c') \<Rightarrow> (Inl e, cs\<lparr>client := Some c'\<rparr>)))"

text \<open>The handler \<open>except Exception\<close> of the three operations: count the error, give the default.\<close>

definition fail_open ::
  "string \<Rightarrow> 'a \<Rightarrow> 'a outcome \<times> 'rd cache_state \<Rightarrow> 'a outcome \<times> 'rd cache_state"
where
  "fail_open op dflt res =
     (case res of
        (Inl e, cs) \<Rightarrow>
          if is_Exception e then (Inr dflt, cs\<lparr>cache_errors := op # cache_errors cs\<rparr>) else (Inl e, cs)
      | (Inr v, cs) \<Rightarrow> (Inr v, cs))"

definition cache_get ::
  "'rd redis \<Rightarrow> seconds \<Rightarrow> int \<Rightarrow> 'rd cache_state \<Rightarrow> record_response option outcome \<times> 'rd cache_state"
where
  "cache_get R now record_id cs =
     (case client cs of
        None \<Rightarrow> (Inr None, cs)
      | Some c \<Rightarrow> fail_open ''get'' None
          (case rd_get R now (cache_key record_id) c of
             (r, c') \<Rightarrow>
               (try_bind r (\<lambda>cached_json. case cached_json of
                    None \<Rightarrow> Inr None
                  | Some j \<Rightarrow> map_sum id Some (load_json R j)),
                cs\<lparr>client := Some c'\<rparr>)))"

definition cache_set ::
  "'rd redis \<Rightarrow> seconds \<Rightarrow> int \<Rightarrow> record_response \<Rightarrow> int \<Rightarrow> 'rd cache_state \<Rightarrow>
   unit outcome \<times> 'rd cache_state"
where
  "cache_set R now record_id rec ttl cs =
     (case client cs of
        None \<Rightarrow> (Inr (), cs)
      | Some c \<Rightarrow> fail_open ''set'' ()
          (case rd_setex R now (cache_key record_id) ttl (dump_json R rec) c of
             (r, c') \<Rightarrow> (r, cs\<lparr>client := Some c'\<rparr>)))"

definition cache_invalidate :: "'rd redis \<Rightarrow> int \<Rightarrow> 'rd cache_state \<Rightarrow> unit outcome \<times> 'rd cache_state" where
  "cache_invalidate R record_id cs =
     (case client cs of
        None \<Rightarrow> (Inr (), cs)
      | Some c \<Rightarrow> fail_open ''invalidate'' ()
          (case rd_delete R (cache_key record_id) c of
             (r, c') \<Rightarrow> (r, cs\<lparr>client := Some c'\<rparr>)))"

lemmas cache_ops = cache_get_def cache_set_def cache_invalidate_def fail_open_def

text \<open>What the code relies on while the server is up.\<close>

locale redis_server =
  fixes R :: "'rd redis"
    and up :: "'rd \<Rightarrow> bool"
    and entry :: "'rd \<Rightarrow> string \<Rightarrow> (string \<times> seconds) option"
  assumes get_meaning: "up c \<Longrightarrow> \<exists>c'. rd_get R now k c =
      (Inr (case entry c k of None \<Rightarrow> None | Some (v, until) \<Rightarrow> if now < until then Some v else None), c') \<and>
      up c' \<and> (\<forall>j. case entry c j of
          None \<Rightarrow> entry c' j = None
        | Some (v, until) \<Rightarrow> entry c' j = Some (v, until) \<or> until \<le> now \<and> entry c' j = None)"
    and setex_meaning: "up c \<Longrightarrow> 0 < ttl \<Longrightarrow> \<exists>c'. rd_setex R now k ttl v c = (Inr (), c') \<and> up c' \<and>
      entry c' = (entry c)(k \<mapsto> (v, now + of_int ttl))"
    and delete_meaning: "up c \<Longrightarrow> \<exists>c'. rd_delete R k c = (Inr (), c') \<and> up c' \<and> entry c' = (entry c)(k := None)"
    and json_roundtrip: "load_json R (dump_json R r) = Inr r"
begin

text \<open>The live entry of a record in a connected, healthy cache.\<close>

definition holds_entry :: "int \<Rightarrow> record_response \<Rightarrow> seconds \<Rightarrow> 'rd cache_state \<Rightarrow> bool" where
  "holds_entry i r until cs \<longleftrightarrow>
     (\<exists>c. client cs = Some c \<and> up c \<and> entry c (cache_key i) = Some (dump_json R r, until))"

definition no_entry :: "int \<Rightarrow> 'rd cache_state \<Rightarrow> bool" where
  "no_entry i cs \<longleftrightarrow> (\<exists>c. client cs = Some c \<and> up c \<and> entry c (cache_key i) = None)"

lemma get_hit:
  assumes "holds_entry i r until cs" "now < until"
  shows "\<exists>cs'. cache_get R now i cs = (Inr (Some r), cs') \<and> holds_entry i r until cs'"
proof -
  obtain c where c: "client cs = Some c" "up c" "entry c (cache_key i) = Some (dump_json R r, until)"
    using assms(1) by (auto simp: holds_entry_def)
  obtain c' where c': "rd_get R now (cache_key i) c = (Inr (Some (dump_json R r)), c')" "up c'"
    "entry c' (cache_key i) = Some (dump_json R r, until)"
    using get_meaning [OF c(2), of now "cache_key i"] c(3) assms(2)
    by (auto dest!: spec [of _ "cache_key i"])
  then show ?thesis
    using c(1) by (auto simp: cache_ops holds_entry_def json_roundtrip)
qed

lemma get_miss:
  assumes "no_entry i cs"
  shows "\<exists>cs'. cache_get R now i cs = (Inr None, cs') \<and> no_entry i cs'"
proof -
  obtain c where c: "client cs = Some c" "up c" "entry c (cache_key i) = None"
    using assms by (auto simp: no_entry_def)
  obtain c' where "rd_get R now (cache_key i) c = (Inr None, c')" "up c'" "entry c' (cache_key i) = None"
    using get_meaning [OF c(2), of now "cache_key i"] c(3)
    by (auto dest!: spec [of _ "cache_key i"])
  then show ?thesis using c(1) by (auto simp: cache_ops no_entry_def)
qed

lemma set_entry:
  assumes "no_entry i cs \<or> holds_entry i x u cs"
  shows "\<exists>cs'. cache_set R now i r CACHE_TTL_RECORD cs = (Inr (), cs') \<and> holds_entry i r (now + 3600) cs'"
proof -
  obtain c where c: "client cs = Some c" "up c"
    using assms by (auto simp: no_entry_def holds_entry_def)
  obtain c' where "rd_setex R now (cache_key i) CACHE_TTL_RECORD (dump_json R r) c = (Inr (), c')" "up c'"
    "entry c' = (entry c)(cache_key i \<mapsto> (dump_json R r, now + of_int CACHE_TTL_RECORD))"
    using setex_meaning [OF c(2), of CACHE_TTL_RECORD now "cache_key i" "dump_json R r"]
    by (auto simp: CACHE_TTL_RECORD_def)
  then show ?thesis using c(1) by (auto simp: cache_ops holds_entry_def CACHE_TTL_RECORD_def)
qed

lemma invalidate_entry:
  assumes "client cs = Some c" "up c"
  shows "\<exists>cs'. cache_invalidate R i cs = (Inr (), cs') \<and> no_entry i cs'"
  using delete_meaning [OF assms(2), of "cache_key i"] assms(1)
  by (auto simp: cache_ops no_entry_def)

end

subsection \<open>Fail-open\<close>

lemma fail_open_only: "fst (fail_open op d res) = Inl e \<Longrightarrow> e = CancelledError"
  by (auto simp: fail_open_def is_Exception_def split: prod.splits sum.splits if_splits)

text \<open>
  The cache never fails a request. Whatever Redis and the JSON layer do, connected or not, a
  lookup, a store and an invalidation raise nothing but a cancellation; a lookup that meets an
  exception is a miss and is counted as an error.
\<close>

theorem cache_fails_open:
  "(\<forall>e. fst (cache_get R now i cs) = Inl e \<longrightarrow> e = CancelledError) \<and>
   (\<forall>e. fst (cache_set R now i r ttl cs) = Inl e \<longrightarrow> e = CancelledError) \<and>
   (\<forall>e. fst (cache_invalidate R i cs) = Inl e \<longrightarrow> e = CancelledError) \<and>
   (\<forall>c e. client cs = Some c \<longrightarrow> fst (rd_get R now (cache_key i) c) = Inl e \<longrightarrow> e \<noteq> CancelledError \<longrightarrow>
      fst (cache_get R now i cs) = Inr None \<and>
      cache_errors (snd (cache_get R now i cs)) = ''get'' # cache_errors cs)"
proof (intro conjI allI impI)
  fix c e
  assume "client cs = Some c" "fst (rd_get R now (cache_key i) c) = Inl e" "e \<noteq> CancelledError"
  then show "fst (cache_get R now i cs) = Inr None"
    "cache_errors (snd (cache_get R now i cs)) = ''get'' # cache_errors cs"
    by (cases "rd_get R now (cache_key i) c"; simp add: cache_ops is_Exception_def)+
qed (auto simp: cache_get_def cache_set_def cache_invalidate_def dest: fail_open_only split: option.splits)

subsection \<open>A server in memory\<close>

record mem_redis =
  reachable :: bool
  entries :: "string \<rightharpoonup> string \<times> seconds"

definition response_fields where
  "response_fields r = ((rr_id r, rr_source r, rr_timestamp r, rr_raw_data r, rr_tags r),
     (rr_processed r, rr_created_at r, rr_updated_at r, rr_deleted_at r))"

definition refused :: py_exn where
  "refused = OtherException ''ConnectionError''"

definition mem_redis_lib :: "mem_redis redis" where
  "mem_redis_lib = \<lparr>
     rd_open = (\<lambda>url. Inr \<lparr>reachable = True, entries = Map.empty\<rparr>),
     rd_ping = (\<lambda>c. (if reachable c then Inr () else Inl (OtherException ''ConnectionError''), c)),
     rd_close = (\<lambda>c. (Inr (), c)),
     rd_get = (\<lambda>now k c. if reachable c
        then (Inr (case entries c k of None \<Rightarrow> None | Some (v, until) \<Rightarrow> if now < until then Some v else None), c)
        else (Inl refused, c)),
     rd_setex = (\<lambda>now k ttl v c. if reachable c
        then (Inr (), c\<lparr>entries := (entries c)(k \<mapsto> (v, now + of_int ttl))\<rparr>) else (Inl refused, c)),
     rd_delete = (\<lambda>k c. if reachable c
        then (Inr (), c\<lparr>entries := (entries c)(k := None)\<rparr>) else (Inl refused, c)),
     dump_json = (\<lambda>r. show_nat (to_nat (response_fields r))),
     load_json = (\<lambda>s. case from_nat (digits_val s) of ((i, src, t, d, ts), (p, c, u, del)) \<Rightarrow>
        Inr \<lparr>rr_id = i, rr_source = src, rr_timestamp = t, rr_raw_data = d, rr_tags = ts,
             rr_processed = p, rr_created_at = c, rr_updated_at = u, rr_deleted_at = del\<rparr>)\<rparr>"

interpretation mr: redis_server mem_redis_lib reachable entries
  by unfold_locales (auto simp: mem_redis_lib_def response_fields_def split: option.splits)

theorem cache_fails_open_witness:
  "fst (cache_get mem_redis_lib 0 7
      \<lparr>client = Some \<lparr>reachable = False, entries = Map.empty\<rparr>, cache_errors = []\<rparr>) = Inr None \<and>
   cache_errors (snd (cache_get mem_redis_lib 0 7
      \<lparr>client = Some \<lparr>reachable = False, entries = Map.empty\<rparr>, cache_errors = []\<rparr>)) = [''get'']"
  using cache_fails_open [where R = mem_redis_lib and now = 0 and i = 7
      and cs = "\<lparr>client = Some \<lparr>reachable = False, entries = Map.empty\<rparr>, cache_errors = []\<rparr>"]
  by (simp add: mem_redis_lib_def refused_def)

end
