(* ===== verification/Events.thy ===== *)
theory Events
  imports Circuit_Breaker Codec
begin

text \<open>
  The Kafka producer of \<open>ingestor/events.py\<close> and the envelope of \<open>libs/contracts/events.py\<close>. The
  module state is the producer (\<open>None\<close>: not connected) and the circuit breaker that guards
  \<open>_send_to_kafka\<close>; aiokafka is a parameter. A message is the JSON value that \<open>json.dumps\<close>
  serialises.
\<close>

definition EVENT_RECORD_CREATED :: string where "EVENT_RECORD_CREATED = ''record.created''"
definition EVENT_DOC_SCRAPED :: string where "EVENT_DOC_SCRAPED = ''doc.scraped''"
definition TOPIC_RECORD_CREATED :: string where "TOPIC_RECORD_CREATED = ''records.events''"
definition TOPIC_SCRAPED :: string where "TOPIC_SCRAPED = ''scraped.events''"

record event_payload =
  event_type :: string
  payload :: "(string \<times> json) list"

definition event_to_dict :: "event_payload \<Rightarrow> json" where
  "event_to_dict ev = JObj [(''event_type'', JStr (event_type ev)), (''payload'', JObj (payload ev))]"

record 'k kafka =
  k_new :: "string \<Rightarrow> 'k"
  k_start :: "'k \<Rightarrow> 'k \<times> unit outcome"
  k_stop :: "'k \<Rightarrow> 'k \<times> unit outcome"
  k_send :: "string \<Rightarrow> json \<Rightarrow> 'k \<Rightarrow> 'k \<times> unit outcome"

record 'k event_state =
  producer :: "'k option"
  kafka_breaker :: breaker

definition initial_events :: "'k event_state" where
  "initial_events = \<lparr>producer = None, kafka_breaker = new_breaker ''_send_to_kafka'' 5 30\<rparr>"

text \<open>The producer is stored before it is started, and kept when stopping it fails.\<close>

definition connect_producer :: "'k kafka \<Rightarrow> string \<Rightarrow> 'k event_state \<Rightarrow> unit outcome \<times> 'k event_state" where
  "connect_producer K servers es = (case k_start K (k_new K servers) of (k, r) \<Rightarrow> (r, es\<lparr>producer := Some k\<rparr>))"

definition disconnect_producer :: "'k kafka \<Rightarrow> 'k event_state \<Rightarrow> unit outcome \<times> 'k event_state" where
  "disconnect_producer K es =
     (case producer es of
        None \<Rightarrow> (Inr (), es)
      | Some k \<Rightarrow> (case k_stop K k of
                     (k', Inr u) \<Rightarrow> (Inr u, es\<lparr>producer := None\<rparr>)
                   | (k', Inl e) \<Rightarrow> (Inl e, es\<lparr>producer := Some k'\<rparr>)))"

text \<open>The undecorated \<open>_send_to_kafka\<close>, on the producer.\<close>

definition raw_send :: "'k kafka \<Rightarrow> string \<Rightarrow> json \<Rightarrow> 'k option \<Rightarrow> 'k option \<times> unit outcome" where
  "raw_send K topic msg p =
     (case p of
        None \<Rightarrow> (None, Inr ())
      | Some k \<Rightarrow> (case k_send K topic msg k of (k', r) \<Rightarrow> (Some k', r)))"

definition send_to_kafka ::
  "'k kafka \<Rightarrow> seconds \<Rightarrow> seconds \<Rightarrow> string \<Rightarrow> json \<Rightarrow> 'k event_state \<Rightarrow> 'k event_state \<times> unit outcome"
where
  "send_to_kafka K t0 t1 topic msg es =
     (case breaker_call (raw_send K topic msg) t0 t1 (kafka_breaker es) (producer es) of
        ((b, p), r) \<Rightarrow> (es\<lparr>producer := p, kafka_breaker := b\<rparr>, r))"

fun kafka_or_open :: "py_exn \<Rightarrow> bool" where
  "kafka_or_open (KafkaError m) = True"
| "kafka_or_open (CircuitOpenError m) = True"
| "kafka_or_open e = False"

definition publish ::
  "'k kafka \<Rightarrow> seconds \<Rightarrow> seconds \<Rightarrow> string \<Rightarrow> event_payload \<Rightarrow> 'k event_state \<Rightarrow> 'k event_state \<times> unit outcome"
where
  "publish K t0 t1 topic ev es =
     (if producer es = None then (es, Inr ())
      else (case send_to_kafka K t0 t1 topic (event_to_dict ev) es of
              (es', Inr u) \<Rightarrow> (es', Inr ())
            | (es', Inl e) \<Rightarrow> if kafka_or_open e then (es', Inr ()) else (es', Inl e)))"

definition publish_record_created ::
  "'k kafka \<Rightarrow> seconds \<Rightarrow> seconds \<Rightarrow> int \<Rightarrow> (string \<times> json) list \<Rightarrow> 'k event_state \<Rightarrow>
   'k event_state \<times> unit outcome"
where
  "publish_record_created K t0 t1 record_id p es =
     publish K t0 t1 TOPIC_RECORD_CREATED
       \<lparr>event_type = EVENT_RECORD_CREATED, payload = (''record_id'', JInt record_id) # p\<rparr> es"

definition publish_doc_scraped ::
  "'k kafka \<Rightarrow> seconds \<Rightarrow> seconds \<Rightarrow> string \<Rightarrow> int \<Rightarrow> 'k event_state \<Rightarrow> 'k event_state \<times> unit outcome"
where
  "publish_doc_scraped K t0 t1 src n es =
     publish K t0 t1 TOPIC_SCRAPED
       \<lparr>event_type = EVENT_DOC_SCRAPED, payload = [(''source'', JStr src), (''count'', JInt n)]\<rparr> es"

subsection \<open>Fail-open publishing\<close>

text \<open>A broker that never raises anything but a \<open>KafkaError\<close>.\<close>

definition kafka_errors_only :: "'k kafka \<Rightarrow> bool" where
  "kafka_errors_only K \<longleftrightarrow> (\<forall>t m k e. snd (k_send K t m k) = Inl e \<longrightarrow> kafka_or_open e)"

lemma send_error_kind:
  assumes "kafka_errors_only K" "snd (send_to_kafka K t0 t1 topic msg es) = Inl e"
  shows "kafka_or_open e"
proof (cases "call_enter t0 (kafka_breaker es)")
  case (Pair b r)
  show ?thesis
  proof (cases r)
    case (Inl e')
    then have "kafka_or_open e'" using Pair
      by (auto simp: call_enter_def Let_def split: if_splits)
    then show ?thesis using assms(2) Pair Inl by (simp add: send_to_kafka_def breaker_call_def)
  next
    case (Inr u)
    then show ?thesis
      using assms Pair by (auto simp: send_to_kafka_def breaker_call_def raw_send_def kafka_errors_only_def
          split: option.splits prod.splits) (metis snd_conv)
  qed
qed

lemma publish_never_raises: "kafka_errors_only K \<Longrightarrow> snd (publish K t0 t1 topic ev es) = Inr ()"
  using send_error_kind [of K t0 t1 topic "event_to_dict ev" es]
  by (auto simp: publish_def split: prod.splits sum.splits)

text \<open>Publishing over and over, each call with its two clock readings.\<close>

fun publish_all :: "'k kafka \<Rightarrow> ((seconds \<times> seconds) \<times> int) list \<Rightarrow> 'k event_state \<Rightarrow> 'k event_state" where
  "publish_all K [] es = es"
| "publish_all K (((t0, t1), i) # xs) es =
     publish_all K xs (fst (publish_record_created K t0 t1 i [] es))"

text \<open>A broker that counts the sends that reach it and refuses them all.\<close>

definition dead_broker :: "nat kafka" where
  "dead_broker = \<lparr>k_new = (\<lambda>s. 0), k_start = (\<lambda>n. (n, Inr ())), k_stop = (\<lambda>n. (n, Inr ())), k_send = (\<lambda>t m n. (Suc n, Inl (KafkaError ''down'')))\<rparr>"

definition connected :: "nat \<Rightarrow> nat event_state" where
  "connected n = \<lparr>producer = Some n, kafka_breaker = new_breaker ''_send_to_kafka'' 5 30\<rparr>"

text \<open>The state after \<open>n\<close> refused sends, the last of them at time \<open>t\<close>.\<close>

definition after_failures :: "nat \<Rightarrow> seconds \<Rightarrow> nat event_state" where
  "after_failures n t =
     (if n = 0 then connected 0
      else \<lparr>producer = Some n, kafka_breaker = (new_breaker ''_send_to_kafka'' 5 30)
              \<lparr>cb_state := (if n < 5 then CLOSED else OPEN), failure_count := int n,
               last_failure_time := Some t\<rparr>\<rparr>)"

lemma publish_dead:
  assumes "n < 5"
  shows "publish_record_created dead_broker t0 t1 i [] (after_failures n t) =
    (after_failures (Suc n) t1, Inr ())"
  using assms
  by (auto simp: publish_record_created_def publish_def send_to_kafka_def breaker_call_def breaker_ops
      raw_send_def after_failures_def connected_def dead_broker_def is_Exception_def Let_def)

lemma publish_rejected:
  assumes "t0 < t + 30"
  shows "publish_record_created dead_broker t0 t1 i [] (after_failures 5 t) = (after_failures 5 t, Inr ())"
  using assms
  by (auto simp: publish_record_created_def publish_def send_to_kafka_def breaker_call_def breaker_ops
      after_failures_def Let_def)

lemma publish_all_append: "publish_all K (xs @ ys) es = publish_all K ys (publish_all K xs es)"
  by (induction xs arbitrary: es) auto

lemma publish_all_dead:
  "n + length xs \<le> 5 \<Longrightarrow> publish_all dead_broker xs (after_failures n t) =
     after_failures (n + length xs) (if xs = [] then t else snd (fst (last xs)))"
proof (induction xs arbitrary: n t)
  case (Cons x xs)
  obtain t0 t1 i where x: "x = ((t0, t1), i)" by (cases x) auto
  then show ?case
    using Cons.IH [of "Suc n" t1] Cons.prems by (auto simp: publish_dead)
qed simp

lemma publish_all_rejected:
  "\<forall>x \<in> set xs. fst (fst x) < t + 30 \<Longrightarrow> publish_all dead_broker xs (after_failures 5 t) = after_failures 5 t"
proof (induction xs)
  case (Cons x xs)
  then show ?case by (cases x) (auto simp: publish_rejected)
qed simp

text \<open>
  C32. Publishing is fail-open and spares a dead broker. A publication never raises while the producer
  raises only Kafka errors; and when the broker refuses every message, a sequence of publications
  of which every one after the fifth starts within 30 seconds of the fifth failure reaches the
  broker at most five times.
\<close>

theorem publish_spares_dead_broker:
  assumes "kafka_errors_only K"
    and "\<forall>x \<in> set (drop 5 xs). fst (fst x) < snd (fst (xs ! 4)) + 30"
  shows "snd (publish_record_created K t0 t1 i p es) = Inr () \<and>
    producer (publish_all dead_broker xs (connected 0)) = Some (min 5 (length xs))"
proof -
  have c0: "connected 0 = after_failures 0 0" by (simp add: after_failures_def)
  have "producer (publish_all dead_broker xs (connected 0)) = Some (min 5 (length xs))"
  proof (cases "length xs \<le> 5")
    case True
    then show ?thesis unfolding c0
      using publish_all_dead [of 0 xs 0] by (auto simp: after_failures_def connected_def)
  next
    case False
    let ?t = "snd (fst (xs ! 4))"
    have l: "last (take 5 xs) = xs ! 4" using False by (subst last_conv_nth) (auto simp: min_def)
    have "publish_all dead_broker (take 5 xs) (after_failures 0 0) = after_failures 5 ?t"
      using publish_all_dead [of 0 "take 5 xs" 0] False l by auto
    moreover have "publish_all dead_broker (drop 5 xs) (after_failures 5 ?t) = after_failures 5 ?t"
      using assms(2) by (rule publish_all_rejected)
    ultimately have "publish_all dead_broker xs (connected 0) = after_failures 5 ?t"
      unfolding c0 by (metis append_take_drop_id publish_all_append)
    then show ?thesis using False by (simp add: after_failures_def)
  qed
  then show ?thesis using publish_never_raises [OF assms(1)] by (simp add: publish_record_created_def)
qed

theorem publish_spares_dead_broker_witness:
  "producer (publish_all dead_broker (replicate 8 ((1, 2), 7)) (connected 0)) = Some 5"
  using publish_spares_dead_broker [of dead_broker "replicate 8 ((1, 2), 7)" 0 0 0 "[]" "connected 0"]
  by (simp add: kafka_errors_only_def dead_broker_def)

end
