(* ===== verification/Auth.thy ===== *)
theory Auth
  imports Codec
begin

text \<open>
  \<open>ingestor/auth.py\<close>: Basic credentials for the docs, the static bearer token, the in-memory
  session store, role extraction and guards, and the JWT layer. The module's global store is the
  state; \<open>settings\<close> is a record; \<open>uuid4\<close>, the clock and PyJWT are arguments. A session is its
  fields in insertion order and its \<open>expires_at\<close> (no caller passes an \<open>expires_at\<close> of its own).
\<close>

record auth_settings =
  docs_username :: "string option"
  docs_password :: "string option"
  api_v1_bearer_token :: "string option"
  token_expiry_hours :: int
  jwt_secret :: string
  jwt_algorithm :: string
  jwt_expiry_minutes :: int
  app_name :: string

text \<open>\<open>not s\<close> for an optional string.\<close>

definition blank :: "string option \<Rightarrow> bool" where
  "blank v \<longleftrightarrow> v = None \<or> v = Some []"

definition DEFAULT_ROLE :: string where
  "DEFAULT_ROLE = ''viewer''"

subsection \<open>Docs and bearer token\<close>

definition verify_docs_credentials ::
  "auth_settings \<Rightarrow> string \<times> string \<Rightarrow> (string \<times> string) outcome"
where
  "verify_docs_credentials st creds =
     (if blank (docs_username st) \<or> blank (docs_password st) then Inr creds
      else if Some (fst creds) \<noteq> docs_username st then Inl (HTTPException 403 ''Invalid credentials'')
      else if Some (snd creds) \<noteq> docs_password st then Inl (HTTPException 403 ''Invalid credentials'')
      else Inr creds)"

text \<open>The part that the bearer and the JWT check share: scheme and credentials of the header.\<close>

definition bearer_credentials :: "string option \<Rightarrow> string outcome" where
  "bearer_credentials authorization =
     (case authorization of
        None \<Rightarrow> Inl (HTTPException 401 ''Missing Authorization header'')
      | Some a \<Rightarrow>
          if a = [] then Inl (HTTPException 401 ''Missing Authorization header'')
          else (case partition_on (CHR '' '') a of
                  (scheme, _, credentials) \<Rightarrow>
                    if lower scheme \<noteq> ''bearer''
                    then Inl (HTTPException 401
                      ''Invalid authentication scheme. Use: Authorization: Bearer <token>'')
                    else Inr credentials))"

definition verify_bearer_token :: "auth_settings \<Rightarrow> string option \<Rightarrow> string outcome" where
  "verify_bearer_token st authorization =
     (if blank (api_v1_bearer_token st) then Inr ''public''
      else try_bind (bearer_credentials authorization) (\<lambda>credentials.
        if Some credentials \<noteq> api_v1_bearer_token st
        then Inl (HTTPException 403 ''Invalid bearer token'') else Inr credentials))"

subsection \<open>Sessions\<close>

record session_data =
  sd_fields :: "(string \<times> json) list"
  expires_at :: "datetime option"

type_synonym session_store = "string \<rightharpoonup> session_data"

definition verify_session ::
  "datetime \<Rightarrow> string option \<Rightarrow> session_store \<Rightarrow> session_data outcome \<times> session_store"
where
  "verify_session now session_id st =
     (if blank session_id then (Inl (HTTPException 401 ''Missing session cookie''), st)
      else
        let sid = the session_id
        in (case st sid of
              None \<Rightarrow> (Inl (HTTPException 401 ''Invalid or expired session''), st)
            | Some d \<Rightarrow>
                (case expires_at d of
                   None \<Rightarrow> (Inl (HTTPException 401 ''Session expired''), st(sid := None))
                 | Some e \<Rightarrow>
                     if e < now then (Inl (HTTPException 401 ''Session expired''), st(sid := None))
                     else (Inr d, st))))"

definition micros_per_hour :: int where
  "micros_per_hour = 3600000000"

definition create_session ::
  "auth_settings \<Rightarrow> datetime \<Rightarrow> string \<Rightarrow> string \<Rightarrow> (string \<times> json) list \<Rightarrow> session_store \<Rightarrow>
   (string \<times> string) \<times> session_store"
where
  "create_session st now uuid user_id custom_data store =
     (let d = \<lparr>sd_fields = [(''user_id'', JStr user_id), (''role'', JStr DEFAULT_ROLE),
                 (''created_at'', JStr (isoformat now @ ''+00:00''))] @ custom_data,
               expires_at = Some (now + token_expiry_hours st * micros_per_hour)\<rparr>
      in ((uuid, uuid), store(uuid \<mapsto> d)))"

subsection \<open>Roles\<close>

text \<open>\<open>py_str\<close> is \<open>str(role)\<close> of a role that is not a string.\<close>

definition role_text :: "(json \<Rightarrow> string) \<Rightarrow> json \<Rightarrow> string" where
  "role_text py_str v = (case v of JStr s \<Rightarrow> s | _ \<Rightarrow> py_str v)"

fun normalize_roles :: "(json \<Rightarrow> string) \<Rightarrow> json option \<Rightarrow> string set" where
  "normalize_roles py_str None = {}"
| "normalize_roles py_str (Some JNull) = {}"
| "normalize_roles py_str (Some (JStr s)) = (if strip s \<noteq> [] then {lower (strip s)} else {})"
| "normalize_roles py_str (Some (JList vs)) =
     (\<lambda>v. lower (strip (role_text py_str v))) ` {v \<in> set vs. strip (role_text py_str v) \<noteq> []}"
| "normalize_roles py_str (Some (JObj kvs)) =
     (\<lambda>k. lower (strip k)) ` {k \<in> set (map fst kvs). strip k \<noteq> []}"
| "normalize_roles py_str (Some v) = {}"

definition extract_roles :: "(json \<Rightarrow> string) \<Rightarrow> (string \<times> json) list \<Rightarrow> string set" where
  "extract_roles py_str ctx =
     (let roles = normalize_roles py_str (obj_get ''roles'' ctx) \<union> normalize_roles py_str (obj_get ''role'' ctx)
      in if roles = {} \<and> obj_get ''scope'' ctx = Some (JStr ''records:write'')
         then {''writer''} else roles)"

definition require_roles :: "string set \<Rightarrow> string set \<Rightarrow> unit outcome" where
  "require_roles required_roles current_roles =
     (if required_roles \<inter> current_roles = {} then Inl (HTTPException 403 ''Insufficient role permissions'')
      else Inr ())"

definition session_role_guard ::
  "(json \<Rightarrow> string) \<Rightarrow> string list \<Rightarrow> datetime \<Rightarrow> string option \<Rightarrow> session_store \<Rightarrow>
   session_data outcome \<times> session_store"
where
  "session_role_guard py_str required now session_id st =
     (case verify_session now session_id st of
        (Inl e, st') \<Rightarrow> (Inl e, st')
      | (Inr d, st') \<Rightarrow>
          (map_sum id (\<lambda>_. d) (require_roles (lower ` set required) (extract_roles py_str (sd_fields d))), st'))"

subsection \<open>JWT\<close>

text \<open>The exceptions of PyJWT that the code tells apart.\<close>

datatype jwt_error = ExpiredSignature | InvalidSignature | JwtDecodeError string | OtherJwtError string

text \<open>
  PyJWT: \<open>jwt_encode payload iat exp secret algorithm\<close> and \<open>jwt_decode now token secret algorithms\<close>;
  times are microseconds, the payload is the other claims.
\<close>

record jwt_lib =
  jwt_encode :: "(string \<times> json) list \<Rightarrow> datetime \<Rightarrow> datetime \<Rightarrow> string \<Rightarrow> string \<Rightarrow> string"
  jwt_decode :: "datetime \<Rightarrow> string \<Rightarrow> string \<Rightarrow> string list \<Rightarrow> jwt_error + (string \<times> json) list"

definition micros_per_minute :: int where
  "micros_per_minute = 60000000"

definition create_jwt_token ::
  "jwt_lib \<Rightarrow> auth_settings \<Rightarrow> datetime \<Rightarrow> string \<Rightarrow> (string \<times> json) list \<Rightarrow> string"
where
  "create_jwt_token lib st now sub custom_claims =
     jwt_encode lib ([(''sub'', JStr sub), (''iss'', JStr (app_name st))] @ custom_claims)
       now (now + jwt_expiry_minutes st * micros_per_minute) (jwt_secret st) (jwt_algorithm st)"

definition verify_jwt_token ::
  "jwt_lib \<Rightarrow> auth_settings \<Rightarrow> datetime \<Rightarrow> string option \<Rightarrow> (string \<times> json) list outcome"
where
  "verify_jwt_token lib st now authorization =
     try_bind (bearer_credentials authorization) (\<lambda>credentials.
       case jwt_decode lib now credentials (jwt_secret st) [jwt_algorithm st] of
         Inr payload \<Rightarrow> Inr payload
       | Inl ExpiredSignature \<Rightarrow> Inl (HTTPException 401 ''Token expired'')
       | Inl InvalidSignature \<Rightarrow> Inl (HTTPException 401 ''Invalid token signature'')
       | Inl (JwtDecodeError m) \<Rightarrow> Inl (HTTPException 401 ''Invalid token format'')
       | Inl (OtherJwtError m) \<Rightarrow> Inl (OtherException m))"

definition jwt_role_guard ::
  "(json \<Rightarrow> string) \<Rightarrow> jwt_lib \<Rightarrow> auth_settings \<Rightarrow> string list \<Rightarrow> datetime \<Rightarrow> string option \<Rightarrow>
   (string \<times> json) list outcome"
where
  "jwt_role_guard py_str lib st required now authorization =
     try_bind (verify_jwt_token lib st now authorization) (\<lambda>claims.
       map_sum id (\<lambda>_. claims) (require_roles (lower ` set required) (extract_roles py_str claims)))"

subsection \<open>Login\<close>

text \<open>\<open>login_session\<close> of \<open>ingestor/routers/records.py\<close>: the answer's body; no cookie is set.\<close>

definition login_session ::
  "auth_settings \<Rightarrow> datetime \<Rightarrow> string \<Rightarrow> string \<Rightarrow> string \<Rightarrow> session_store \<Rightarrow>
   (string \<times> string) \<times> session_store"
where
  "login_session st now uuid user_id role store =
     (let normalized_role = (if strip role \<noteq> [] then lower (strip role) else DEFAULT_ROLE);
          ((session_id, cookie_value), store') =
            create_session st now uuid user_id [(''role'', JStr normalized_role)] store
      in ((session_id, ''Session created''), store'))"

definition issue_jwt_token :: "jwt_lib \<Rightarrow> auth_settings \<Rightarrow> datetime \<Rightarrow> string \<Rightarrow> string \<times> string" where
  "issue_jwt_token lib st now user_id =
     (create_jwt_token lib st now user_id
        [(''scope'', JStr ''records:write''), (''roles'', JList [JStr ''writer''])], ''bearer'')"

subsection \<open>Sessions: the history of the store\<close>

datatype session_op =
    Login datetime string string string
  | Verify datetime "string option"

fun session_step :: "auth_settings \<Rightarrow> session_op \<Rightarrow> session_store \<Rightarrow> session_store" where
  "session_step st (Login now uuid user role) s = snd (login_session st now uuid user role s)"
| "session_step st (Verify now sid) s = snd (verify_session now sid s)"

fun op_now :: "session_op \<Rightarrow> datetime" where
  "op_now (Login now u v w) = now"
| "op_now (Verify now sid) = now"

text \<open>The newest login under a session id, in a history with the newest operation first.\<close>

fun last_login :: "string \<Rightarrow> session_op list \<Rightarrow> (datetime \<times> string) option" where
  "last_login sid [] = None"
| "last_login sid (Login now uuid user role # ops) =
     (if uuid = sid then Some (now, role) else last_login sid ops)"
| "last_login sid (Verify now s # ops) = last_login sid ops"

definition effective_role :: "string \<Rightarrow> string" where
  "effective_role role = (if strip role \<noteq> [] then lower (strip role) else DEFAULT_ROLE)"

text \<open>
  The simulation: a stored session is the newest login under its id, and a missing one was never
  created or has expired.
\<close>

fun entry_sim :: "auth_settings \<Rightarrow> datetime \<Rightarrow> session_data option \<Rightarrow> (datetime \<times> string) option \<Rightarrow> bool" where
  "entry_sim st now (Some d) m \<longleftrightarrow> (\<exists>t role. m = Some (t, role) \<and>
      expires_at d = Some (t + token_expiry_hours st * micros_per_hour) \<and>
      obj_get ''role'' (sd_fields d) = Some (JStr (effective_role role)) \<and>
      obj_get ''roles'' (sd_fields d) = None)"
| "entry_sim st now None None \<longleftrightarrow> True"
| "entry_sim st now None (Some (t, role)) \<longleftrightarrow> t + token_expiry_hours st * micros_per_hour < now"

definition session_sim :: "auth_settings \<Rightarrow> datetime \<Rightarrow> session_op list \<Rightarrow> session_store \<Rightarrow> bool" where
  "session_sim st now rops s \<longleftrightarrow> (\<forall>sid. entry_sim st now (s sid) (last_login sid rops))"

lemma entry_sim_mono: "entry_sim st now e m \<Longrightarrow> now \<le> t \<Longrightarrow> entry_sim st t e m"
  by (cases "(st, now, e, m)" rule: entry_sim.cases) auto

lemma session_sim_mono: "session_sim st now rops s \<Longrightarrow> now \<le> t \<Longrightarrow> session_sim st t rops s"
  unfolding session_sim_def by (blast intro: entry_sim_mono)

lemma login_fields:
  "login_session st now uuid user role s = ((uuid, ''Session created''),
     s(uuid \<mapsto> \<lparr>sd_fields = [(''user_id'', JStr user), (''role'', JStr DEFAULT_ROLE),
         (''created_at'', JStr (isoformat now @ ''+00:00'')), (''role'', JStr (effective_role role))],
       expires_at = Some (now + token_expiry_hours st * micros_per_hour)\<rparr>))"
  by (simp add: login_session_def create_session_def effective_role_def Let_def)

lemma session_sim_step:
  assumes "session_sim st now rops s" "now \<le> op_now x"
  shows "session_sim st (op_now x) (x # rops) (session_step st x s)"
proof -
  have sim: "session_sim st (op_now x) rops s" using assms by (rule session_sim_mono)
  show ?thesis
  proof (cases x)
    case (Login t uuid user role)
    then show ?thesis
      using sim by (simp add: session_sim_def login_fields obj_get_def)
  next
    case (Verify t sid)
    have "entry_sim st t (snd (verify_session t sid s) k) (last_login k rops)" for k
    proof -
      have k: "entry_sim st t (s k) (last_login k rops)"
        using sim Verify by (simp add: session_sim_def)
      show ?thesis
      proof (cases "snd (verify_session t sid s) k = s k")
        case True
        then show ?thesis using k by simp
      next
        case False
        then obtain d where d: "s k = Some d" "snd (verify_session t sid s) k = None"
          "expires_at d = None \<or> the (expires_at d) < t"
          by (auto simp: verify_session_def Let_def split: if_splits option.splits)
        then show ?thesis using k by (auto split: option.splits)
      qed
    qed
    then show ?thesis using Verify by (simp add: session_sim_def)
  qed
qed

fun ops_from :: "datetime \<Rightarrow> session_op list \<Rightarrow> bool" where
  "ops_from t [] \<longleftrightarrow> True"
| "ops_from t (x # xs) \<longleftrightarrow> t \<le> op_now x \<and> ops_from (op_now x) xs"

fun ops_end :: "datetime \<Rightarrow> session_op list \<Rightarrow> datetime" where
  "ops_end t [] = t"
| "ops_end t (x # xs) = ops_end (op_now x) xs"

lemma session_sim_run:
  "session_sim st t rops s \<Longrightarrow> ops_from t xs \<Longrightarrow>
   session_sim st (ops_end t xs) (rev xs @ rops) (fold (session_step st) xs s)"
proof (induction xs arbitrary: t rops s)
  case (Cons x xs)
  then have "session_sim st (op_now x) (x # rops) (session_step st x s)"
    by (intro session_sim_step) auto
  from Cons.IH [OF this] Cons.prems show ?case by simp
qed simp

text \<open>
  C9. Sessions live exactly as long as they should. After any history of logins and checks with a
  clock that does not go back, a cookie is accepted at time \<open>now\<close> exactly when there was a login
  under that id and its lifetime has not passed, and the role a guard then sees is the
  normalised role that the newest login under the id asked for.
\<close>

theorem session_lifetime:
  assumes "ops_from t0 ops" and "ops_end t0 ops \<le> now" and "sid \<noteq> []"
    and "0 \<le> token_expiry_hours st"
  defines "store \<equiv> fold (session_step st) ops Map.empty"
  shows "case last_login sid (rev ops) of
      Some (t, role) \<Rightarrow>
        if now \<le> t + token_expiry_hours st * micros_per_hour
        then \<exists>d. fst (verify_session now (Some sid) store) = Inr d \<and>
          fst (session_role_guard py_str required now (Some sid) store) =
            (if effective_role role \<in> lower ` set required then Inr d
             else Inl (HTTPException 403 ''Insufficient role permissions''))
        else \<exists>m. fst (verify_session now (Some sid) store) = Inl (HTTPException 401 m)
    | None \<Rightarrow> \<exists>m. fst (verify_session now (Some sid) store) = Inl (HTTPException 401 m)"
proof -
  have "session_sim st t0 [] Map.empty" by (simp add: session_sim_def)
  from session_sim_run [OF this assms(1)]
  have sim: "session_sim st now (rev ops) store"
    using session_sim_mono assms(2) unfolding store_def by (metis append_Nil2)
  have b: "\<not> blank (Some sid)" using assms(3) by (simp add: blank_def)
  show ?thesis
  proof (cases "store sid")
    case None
    then have v: "\<exists>m. fst (verify_session now (Some sid) store) = Inl (HTTPException 401 m)"
      using b by (simp add: verify_session_def)
    have "t + token_expiry_hours st * micros_per_hour < now" if "last_login sid (rev ops) = Some (t, role)" for t role
      using sim None that unfolding session_sim_def by (metis entry_sim.simps(3))
    then show ?thesis using v by (force split: option.split)
  next
    case (Some d)
    then obtain t role where l: "last_login sid (rev ops) = Some (t, role)"
      "expires_at d = Some (t + token_expiry_hours st * micros_per_hour)"
      "obj_get ''role'' (sd_fields d) = Some (JStr (effective_role role))"
      "obj_get ''roles'' (sd_fields d) = None"
      using sim unfolding session_sim_def by (metis entry_sim.simps(1))
    have e: "lower (strip (effective_role role)) = effective_role role" "strip (effective_role role) \<noteq> []"
      by (auto simp: effective_role_def strip_lower DEFAULT_ROLE_def) (simp_all add: strip_def is_space_def lower_def lower_char_def)
    show ?thesis
      using Some b l e by (auto simp: verify_session_def session_role_guard_def extract_roles_def
          require_roles_def)
  qed
qed

definition demo_settings :: auth_settings where
  "demo_settings = \<lparr>docs_username = None, docs_password = None, api_v1_bearer_token = Some ''s3cret'',
     token_expiry_hours = 1, jwt_secret = ''key'', jwt_algorithm = ''HS256'', jwt_expiry_minutes = 60,
     app_name = ''app''\<rparr>"

theorem session_lifetime_witness:
  "(\<exists>d. fst (session_role_guard (\<lambda>_. []) [''Admin''] 5 (Some ''u1'')
      (fold (session_step demo_settings) [Login 0 ''u1'' ''eve'' '' ADMIN ''] Map.empty)) = Inr d) \<and>
   (\<exists>m. fst (verify_session 3600000001 (Some ''u1'')
      (fold (session_step demo_settings) [Login 0 ''u1'' ''eve'' '' ADMIN ''] Map.empty)) =
      Inl (HTTPException 401 m))"
proof -
  have "effective_role '' ADMIN '' \<in> lower ` set [''Admin'']" by code_simp
  then show ?thesis
    using session_lifetime [of 0 "[Login 0 ''u1'' ''eve'' '' ADMIN '']" 5 "''u1''" demo_settings
        "\<lambda>_. []" "[''Admin'']"]
      session_lifetime [of 0 "[Login 0 ''u1'' ''eve'' '' ADMIN '']" 3600000001 "''u1''" demo_settings
        "\<lambda>_. []" "[''Admin'']"]
    by (auto simp: demo_settings_def micros_per_hour_def)
qed

subsection \<open>The bearer token\<close>

lemma partition_on_hit: "c \<notin> set h \<Longrightarrow> partition_on c (h @ c # r) = (h, [c], r)"
proof -
  assume "c \<notin> set h"
  then have "takeWhile (\<lambda>x. x \<noteq> c) (h @ c # r) = h \<and> dropWhile (\<lambda>x. x \<noteq> c) (h @ c # r) = c # r"
    by (induction h) auto
  then show ?thesis by (simp add: partition_on_def Let_def)
qed

lemma partition_on_miss: "c \<notin> set s \<Longrightarrow> partition_on c s = (s, [], [])"
proof -
  assume "c \<notin> set s"
  then have "takeWhile (\<lambda>x. x \<noteq> c) s = s \<and> dropWhile (\<lambda>x. x \<noteq> c) s = []"
    by (induction s) auto
  then show ?thesis by (elim conjE) (simp only: partition_on_def Let_def list.case)
qed

lemma partition_on_iff:
  "partition_on c s = (h, sep, r) \<longleftrightarrow>
   c \<notin> set h \<and> (sep = [c] \<and> s = h @ c # r \<or> sep = [] \<and> r = [] \<and> s = h)"
proof (cases "c \<in> set s")
  case True
  then obtain h' r' where s: "s = h' @ c # r'" "c \<notin> set h'" by (metis split_list_first)
  then have p: "partition_on c s = (h', [c], r')" by (simp add: partition_on_hit)
  show ?thesis
  proof
    assume "partition_on c s = (h, sep, r)"
    then show "c \<notin> set h \<and> (sep = [c] \<and> s = h @ c # r \<or> sep = [] \<and> r = [] \<and> s = h)"
      using p s by simp
  next
    assume "c \<notin> set h \<and> (sep = [c] \<and> s = h @ c # r \<or> sep = [] \<and> r = [] \<and> s = h)"
    then show "partition_on c s = (h, sep, r)"
      using True by (elim conjE disjE) (simp_all add: partition_on_hit)
  qed
next
  case False
  then show ?thesis by (auto simp: partition_on_miss)
qed

text \<open>
  The bearer check is exact. With a token configured, the only header that passes is the scheme
  \<open>bearer\<close> in any case, one blank and exactly the token, and the check returns the token; without one,
  every request passes as \<open>public\<close>.
\<close>

theorem bearer_token_exact:
  "verify_bearer_token st h = Inr c \<longleftrightarrow>
    (if blank (api_v1_bearer_token st) then c = ''public''
     else api_v1_bearer_token st = Some c \<and>
       (\<exists>scheme. h = Some (scheme @ '' '' @ c) \<and> lower scheme = ''bearer''))"
proof (cases "blank (api_v1_bearer_token st)")
  case True
  then show ?thesis by (auto simp: verify_bearer_token_def)
next
  case False
  have sp: "CHR '' '' \<notin> set scheme" if "lower scheme = ''bearer''" for scheme
  proof
    assume "CHR '' '' \<in> set scheme"
    then have "lower_char CHR '' '' \<in> set (lower scheme)" by (simp add: lower_def)
    then show False using that by (simp add: lower_char_def)
  qed
  have tok: "api_v1_bearer_token st = Some c \<Longrightarrow> c \<noteq> []" using False by (auto simp: blank_def)
  have "verify_bearer_token st h = Inr c \<longleftrightarrow> (\<exists>a scheme sep. h = Some a \<and> a \<noteq> [] \<and>
      partition_on CHR '' '' a = (scheme, sep, c) \<and> lower scheme = ''bearer'' \<and>
      api_v1_bearer_token st = Some c)"
    using False by (auto simp: verify_bearer_token_def bearer_credentials_def try_bind_def
        split: option.splits prod.splits sum.splits if_splits)
  also have "\<dots> \<longleftrightarrow> api_v1_bearer_token st = Some c \<and>
      (\<exists>scheme. h = Some (scheme @ '' '' @ c) \<and> lower scheme = ''bearer'')"
    using tok sp by (auto simp: partition_on_iff)
  finally show ?thesis using False by simp
qed

subsection \<open>The JWT layer over PyJWT\<close>

text \<open>
  What the code relies on: a token decodes with its secret and algorithm to its claims from its
  issue until the second of its expiry, and raises \<open>ExpiredSignatureError\<close> from then on.
\<close>

locale jwt_provider =
  fixes lib :: jwt_lib
  assumes decode_fresh: "iat \<le> now \<Longrightarrow> now div 1000000 < expiry div 1000000 \<Longrightarrow>
      jwt_decode lib now (jwt_encode lib payload iat expiry secret alg) secret [alg] = Inr payload"
    and decode_expired: "iat \<le> now \<Longrightarrow> expiry div 1000000 \<le> now div 1000000 \<Longrightarrow>
      jwt_decode lib now (jwt_encode lib payload iat expiry secret alg) secret [alg] = Inl ExpiredSignature"
begin

lemma bearer_header: "bearer_credentials (Some (''Bearer '' @ tok)) = Inr tok"
proof -
  have "partition_on (CHR '' '') (''Bearer '' @ tok) = (''Bearer'', '' '', tok)"
    by (simp add: partition_on_def)
  moreover have "lower ''Bearer'' = ''bearer''" by code_simp
  ultimately show ?thesis by (simp add: bearer_credentials_def)
qed

lemma verify_issued:
  assumes "iat \<le> now"
  shows "verify_jwt_token lib st now (Some (''Bearer '' @ create_jwt_token lib st iat sub cs)) =
    (if now div 1000000 < (iat + jwt_expiry_minutes st * micros_per_minute) div 1000000
     then Inr ([(''sub'', JStr sub), (''iss'', JStr (app_name st))] @ cs)
     else Inl (HTTPException 401 ''Token expired''))"
  using assms unfolding verify_jwt_token_def bearer_header try_bind_simps create_jwt_token_def
  by (simp add: decode_fresh decode_expired)

end

text \<open>A codec that stands in for PyJWT: the token holds everything it was made from.\<close>

definition plain_jwt :: jwt_lib where
  "plain_jwt = \<lparr>
     jwt_encode = (\<lambda>payload iat expiry secret alg. show_nat (to_nat (payload, iat, expiry, secret, alg))),
     jwt_decode = (\<lambda>now token secret algs.
       (case from_nat (digits_val token) of (payload, iat, expiry, s, alg) \<Rightarrow>
          if s \<noteq> secret then Inl InvalidSignature
          else if \<not> List.member algs alg then Inl (OtherJwtError ''InvalidAlgorithmError'')
          else if now < (iat :: int) then Inl (OtherJwtError ''ImmatureSignatureError'')
          else if (expiry :: int) div 1000000 \<le> now div 1000000 then Inl ExpiredSignature
          else Inr payload))\<rparr>"

interpretation pj: jwt_provider plain_jwt
  by unfold_locales (simp_all add: plain_jwt_def)

text \<open>
  C31. Issued tokens authorise writers until they expire. Over a lawful PyJWT, the token that the token
  endpoint issues passes the guard for writers and admins, with the user as its subject, until the
  second in which it expires, is rejected with 401 from then on, and never passes a guard for
  admins alone.
\<close>

theorem issued_token_authorises:
  fixes st :: auth_settings and user :: string
  assumes "jwt_provider lib" and "iat \<le> now"
  defines "header \<equiv> Some (''Bearer '' @ fst (issue_jwt_token lib st iat user))"
  shows "if now div 1000000 < (iat + jwt_expiry_minutes st * micros_per_minute) div 1000000
    then (\<exists>claims. jwt_role_guard py_str lib st [''writer'', ''admin''] now header = Inr claims \<and>
        obj_get ''sub'' claims = Some (JStr user)) \<and>
      jwt_role_guard py_str lib st [''admin''] now header =
        Inl (HTTPException 403 ''Insufficient role permissions'')
    else jwt_role_guard py_str lib st required now header = Inl (HTTPException 401 ''Token expired'')"
proof -
  let ?cs = "[(''scope'', JStr ''records:write''), (''roles'', JList [JStr ''writer''])]"
  note v = jwt_provider.verify_issued [OF assms(1,2), of st user ?cs]
  have l: "lower ''writer'' = ''writer''" "lower ''admin'' = ''admin''" "strip ''writer'' = ''writer''"
    by code_simp+
  show ?thesis
    unfolding header_def issue_jwt_token_def fst_conv jwt_role_guard_def v
    by (auto simp: extract_roles_def obj_get_def require_roles_def role_text_def l)
qed

theorem issued_token_authorises_witness:
  "\<exists>claims. jwt_role_guard (\<lambda>_. []) plain_jwt demo_settings [''writer'', ''admin''] 5000000
     (Some (''Bearer '' @ fst (issue_jwt_token plain_jwt demo_settings 0 ''ann''))) = Inr claims"
  using issued_token_authorises [OF pj.jwt_provider_axioms, of 0 5000000 demo_settings "\<lambda>_. []" "''ann''"]
  by (auto simp: demo_settings_def micros_per_minute_def)

end
