(* ===== verification/Records_Routes.thy ===== *)
theory Records_Routes
  imports Crud_Laws Cache Events Auth
begin

text \<open>
  The endpoints of \<open>ingestor/routers/records.py\<close> over the CRUD operations, the cache, the event
  producer and the session store. FastAPI's part is the order it documents: the body and the query
  are validated and the dependencies run before the endpoint; an exception that is not an
  \<open>HTTPException\<close> is a 500 answer. The decision of slowapi's limiter is an argument.
\<close>

subsection \<open>Application state\<close>

text \<open>The libraries and the settings that every request uses.\<close>

record ('db, 'rd, 'k) env =
  eng :: "'db engine"
  redis_lib :: "'rd redis"
  kafka_lib :: "'k kafka"
  auth_cfg :: auth_settings
  str_of :: "json \<Rightarrow> string"

record ('db, 'rd, 'k) app =
  a_db :: 'db
  a_cache :: "'rd cache_state"
  a_events :: "'k event_state"
  a_sessions :: session_store
  a_metrics :: "(string \<times> int) list"

text \<open>The clocks of one request: the wall clock, and the monotonic one before and after a send.\<close>

record req_clock =
  wall :: datetime
  redis_now :: seconds
  send_start :: seconds
  send_end :: seconds

definition count_metric :: "string \<Rightarrow> int \<Rightarrow> ('db, 'rd, 'k) app \<Rightarrow> ('db, 'rd, 'k) app" where
  "count_metric m n a = a\<lparr>a_metrics := (m, n) # a_metrics a\<rparr>"

definition not_found :: py_exn where
  "not_found = HTTPException 404 ''Record not found''"

definition not_found_archived :: py_exn where
  "not_found_archived = HTTPException 404 ''Record not found or already archived''"

text \<open>A database operation inside a request.\<close>

definition on_db ::
  "('db \<Rightarrow> 'a outcome \<times> 'db) \<Rightarrow> ('db, 'rd, 'k) app \<Rightarrow> 'a outcome \<times> ('db, 'rd, 'k) app"
where
  "on_db f a = (case f (a_db a) of (r, db') \<Rightarrow> (r, a\<lparr>a_db := db'\<rparr>))"

definition on_cache ::
  "('rd cache_state \<Rightarrow> 'a outcome \<times> 'rd cache_state) \<Rightarrow> ('db, 'rd, 'k) app \<Rightarrow>
   'a outcome \<times> ('db, 'rd, 'k) app"
where
  "on_cache f a = (case f (a_cache a) of (r, cs) \<Rightarrow> (r, a\<lparr>a_cache := cs\<rparr>))"

text \<open>Sequencing with state: the first exception ends the request, its effects stay.\<close>

definition then_do :: "'a outcome \<times> 's \<Rightarrow> ('a \<Rightarrow> 's \<Rightarrow> 'b outcome \<times> 's) \<Rightarrow> 'b outcome \<times> 's" where
  "then_do m f = (case m of (Inl e, s) \<Rightarrow> (Inl e, s) | (Inr v, s) \<Rightarrow> f v s)"

lemma then_do_simps [simp]:
  "then_do (Inl e, s) f = (Inl e, s)"
  "then_do (Inr v, s) f = f v s"
  by (simp_all add: then_do_def)

subsection \<open>Creating and listing\<close>

definition route_create_record ::
  "('db, 'rd, 'k) env \<Rightarrow> req_clock \<Rightarrow> bool \<Rightarrow> raw_request \<Rightarrow> ('db, 'rd, 'k) app \<Rightarrow>
   record_response outcome \<times> ('db, 'rd, 'k) app"
where
  "route_create_record V t within_limit raw a =
     (case validate_record_request (wall t) raw of
        Inl e \<Rightarrow> (Inl e, a)
      | Inr body \<Rightarrow>
          if \<not> within_limit then (Inl (HTTPException 429 ''Rate limit exceeded''), a)
          else then_do (on_db (create_record (eng V) (wall t) body) a) (\<lambda>record a1.
            let a2 = count_metric ''records_created_total.single'' 1 a1
            in (case publish_record_created (kafka_lib V) (send_start t) (send_end t) (r_id record)
                       [(''source'', JStr (r_source record))] (a_events a2) of
                  (es, Inl e) \<Rightarrow> (Inl e, a2\<lparr>a_events := es\<rparr>)
                | (es, Inr u) \<Rightarrow> (Inr (response_of record), a2\<lparr>a_events := es\<rparr>))))"

record batch_response =
  created :: int
  impl :: string

definition route_create_records_batch ::
  "('db, 'rd, 'k) env \<Rightarrow> req_clock \<Rightarrow> string \<Rightarrow> raw_request list \<Rightarrow> ('db, 'rd, 'k) app \<Rightarrow>
   batch_response outcome \<times> ('db, 'rd, 'k) app"
where
  "route_create_records_batch V t which raws a =
     (case validate_batch (wall t) raws of
        Inl e \<Rightarrow> (Inl e, a)
      | Inr body \<Rightarrow>
          if which \<noteq> ''optimized'' \<and> which \<noteq> ''naive'' then (Inl unprocessable, a)
          else
            let impl_fn = (if which = ''optimized'' then create_records_batch else create_records_batch_naive)
            in then_do (on_db (impl_fn (eng V) (wall t) body) a) (\<lambda>records a1.
                 (Inr \<lparr>created = int (length records), impl = which\<rparr>,
                  count_metric ''records_created_total.batch'' (int (length records))
                    (count_metric ''batch_size_histogram'' (int (length records)) a1))))"

record list_response =
  lr_records :: "record_response list"
  lr_total :: int
  lr_skip :: int
  lr_limit :: int
  lr_has_more :: bool

definition route_list_records ::
  "('db, 'rd, 'k) env \<Rightarrow> int \<Rightarrow> int \<Rightarrow> string option \<Rightarrow> ('db, 'rd, 'k) app \<Rightarrow>
   list_response outcome \<times> ('db, 'rd, 'k) app"
where
  "route_list_records V skip lmt src a =
     (if \<not> valid_page skip lmt then (Inl unprocessable, a)
      else (map_sum id (\<lambda>(records, total).
              \<lparr>lr_records = map response_of records, lr_total = total, lr_skip = skip, lr_limit = lmt,
               lr_has_more = skip + lmt < total\<rparr>) (get_records (eng V) skip lmt src (a_db a)), a))"

subsection \<open>One record\<close>

definition route_get_record ::
  "('db, 'rd, 'k) env \<Rightarrow> req_clock \<Rightarrow> int \<Rightarrow> ('db, 'rd, 'k) app \<Rightarrow>
   record_response outcome \<times> ('db, 'rd, 'k) app"
where
  "route_get_record V t record_id a =
     then_do (on_cache (cache_get (redis_lib V) (redis_now t) record_id) a) (\<lambda>cached_record a1.
       case cached_record of
         Some r \<Rightarrow> (Inr r, count_metric ''cache_hits_total.get'' 1 a1)
       | None \<Rightarrow>
           then_do (get_record (eng V) record_id (a_db a1), a1) (\<lambda>record a2.
             case record of
               None \<Rightarrow> (Inl not_found, a2)
             | Some r \<Rightarrow>
                 then_do (on_cache (cache_set (redis_lib V) (redis_now t) record_id (response_of r)
                            CACHE_TTL_RECORD) a2) (\<lambda>_ a3.
                   (Inr (response_of r), count_metric ''cache_misses_total.get'' 1 a3))))"

definition route_update_record ::
  "('db, 'rd, 'k) env \<Rightarrow> req_clock \<Rightarrow> int \<Rightarrow> raw_update \<Rightarrow> ('db, 'rd, 'k) app \<Rightarrow>
   record_response outcome \<times> ('db, 'rd, 'k) app"
where
  "route_update_record V t record_id raw a =
     (case validate_update (wall t) raw of
        Inl e \<Rightarrow> (Inl e, a)
      | Inr body \<Rightarrow>
          then_do (on_db (update_record (eng V) (wall t) record_id body) a) (\<lambda>record a1.
            case record of None \<Rightarrow> (Inl not_found, a1) | Some r \<Rightarrow> (Inr (response_of r), a1)))"

definition route_process_record ::
  "('db, 'rd, 'k) env \<Rightarrow> req_clock \<Rightarrow> int \<Rightarrow> ('db, 'rd, 'k) app \<Rightarrow>
   record_response outcome \<times> ('db, 'rd, 'k) app"
where
  "route_process_record V t record_id a =
     then_do (on_db (mark_processed (eng V) (wall t) record_id) a) (\<lambda>record a1.
       case record of
         None \<Rightarrow> (Inl not_found, a1)
       | Some r \<Rightarrow> then_do (on_cache (cache_invalidate (redis_lib V) record_id) a1)
                    (\<lambda>_ a2. (Inr (response_of r), a2)))"

definition route_archive_record ::
  "('db, 'rd, 'k) env \<Rightarrow> req_clock \<Rightarrow> int \<Rightarrow> ('db, 'rd, 'k) app \<Rightarrow>
   record_response outcome \<times> ('db, 'rd, 'k) app"
where
  "route_archive_record V t record_id a =
     then_do (on_db (soft_delete_record (eng V) (wall t) record_id) a) (\<lambda>record a1.
       case record of None \<Rightarrow> (Inl not_found_archived, a1) | Some r \<Rightarrow> (Inr (response_of r), a1))"

definition route_delete_record ::
  "('db, 'rd, 'k) env \<Rightarrow> int \<Rightarrow> ('db, 'rd, 'k) app \<Rightarrow> unit outcome \<times> ('db, 'rd, 'k) app"
where
  "route_delete_record V record_id a =
     then_do (on_db (delete_record (eng V) record_id) a) (\<lambda>record a1.
       case record of
         None \<Rightarrow> (Inl not_found, a1)
       | Some r \<Rightarrow> on_cache (cache_invalidate (redis_lib V) record_id) a1)"

subsection \<open>Guarded endpoints\<close>

text \<open>The dependencies: the session store may lose an expired session.\<close>

definition with_session ::
  "('db, 'rd, 'k) env \<Rightarrow> req_clock \<Rightarrow> string list option \<Rightarrow> string option \<Rightarrow> ('db, 'rd, 'k) app \<Rightarrow>
   session_data outcome \<times> ('db, 'rd, 'k) app"
where
  "with_session V t required cookie a =
     (case (case required of
              None \<Rightarrow> verify_session (wall t) cookie (a_sessions a)
            | Some rs \<Rightarrow> session_role_guard (str_of V) rs (wall t) cookie (a_sessions a)) of
        (r, ss) \<Rightarrow> (r, a\<lparr>a_sessions := ss\<rparr>))"

definition route_get_record_secured ::
  "('db, 'rd, 'k) env \<Rightarrow> req_clock \<Rightarrow> string option \<Rightarrow> int \<Rightarrow> ('db, 'rd, 'k) app \<Rightarrow>
   record_response outcome \<times> ('db, 'rd, 'k) app"
where
  "route_get_record_secured V t cookie record_id a =
     then_do (with_session V t None cookie a) (\<lambda>session a1.
       then_do (get_record (eng V) record_id (a_db a1), a1) (\<lambda>record a2.
         case record of None \<Rightarrow> (Inl not_found, a2) | Some r \<Rightarrow> (Inr (response_of r), a2)))"

definition route_archive_record_secured ::
  "('db, 'rd, 'k) env \<Rightarrow> req_clock \<Rightarrow> string option \<Rightarrow> int \<Rightarrow> ('db, 'rd, 'k) app \<Rightarrow>
   record_response outcome \<times> ('db, 'rd, 'k) app"
where
  "route_archive_record_secured V t cookie record_id a =
     then_do (with_session V t (Some [''writer'', ''admin'']) cookie a) (\<lambda>session a1.
       then_do (on_db (soft_delete_record (eng V) (wall t) record_id) a1) (\<lambda>record a2.
         case record of None \<Rightarrow> (Inl not_found_archived, a2) | Some r \<Rightarrow> (Inr (response_of r), a2)))"

definition route_delete_record_secured ::
  "('db, 'rd, 'k) env \<Rightarrow> req_clock \<Rightarrow> string option \<Rightarrow> int \<Rightarrow> ('db, 'rd, 'k) app \<Rightarrow>
   unit outcome \<times> ('db, 'rd, 'k) app"
where
  "route_delete_record_secured V t cookie record_id a =
     then_do (with_session V t (Some [''admin'']) cookie a) (\<lambda>session a1.
       then_do (on_db (delete_record (eng V) record_id) a1) (\<lambda>record a2.
         case record of
           None \<Rightarrow> (Inl not_found, a2)
         | Some r \<Rightarrow> on_cache (cache_invalidate (redis_lib V) record_id) a2))"

definition route_create_records_batch_protected ::
  "('db, 'rd, 'k) env \<Rightarrow> req_clock \<Rightarrow> string option \<Rightarrow> raw_request list \<Rightarrow> ('db, 'rd, 'k) app \<Rightarrow>
   batch_response outcome \<times> ('db, 'rd, 'k) app"
where
  "route_create_records_batch_protected V t authorization raws a =
     (case verify_bearer_token (auth_cfg V) authorization of
        Inl e \<Rightarrow> (Inl e, a)
      | Inr token \<Rightarrow>
          (case validate_batch (wall t) raws of
             Inl e \<Rightarrow> (Inl e, a)
           | Inr body \<Rightarrow>
               then_do (on_db (create_records_batch (eng V) (wall t) body) a) (\<lambda>records a1.
                 (Inr \<lparr>created = int (length records), impl = ''optimized''\<rparr>, a1))))"

definition route_login_session ::
  "('db, 'rd, 'k) env \<Rightarrow> req_clock \<Rightarrow> string \<Rightarrow> string \<Rightarrow> string \<Rightarrow> ('db, 'rd, 'k) app \<Rightarrow>
   (string \<times> string) outcome \<times> ('db, 'rd, 'k) app"
where
  "route_login_session V t uuid user_id role a =
     (case login_session (auth_cfg V) (wall t) uuid user_id role (a_sessions a) of
        (resp, ss) \<Rightarrow> (Inr resp, a\<lparr>a_sessions := ss\<rparr>))"

lemmas route_defs [model_defs] =
  route_create_record_def route_get_record_def route_update_record_def route_process_record_def
  route_archive_record_def route_delete_record_def with_session_def on_db_def on_cache_def
  count_metric_def

subsection \<open>The cache and the table together\<close>

text \<open>A connected cache on a healthy server.\<close>

definition cache_up :: "('rd \<Rightarrow> bool) \<Rightarrow> ('db, 'rd, 'k) app \<Rightarrow> bool" where
  "cache_up up a \<longleftrightarrow> (\<exists>c. client (a_cache a) = Some c \<and> up c)"

definition uncached ::
  "('rd \<Rightarrow> bool) \<Rightarrow> ('rd \<Rightarrow> string \<Rightarrow> (string \<times> seconds) option) \<Rightarrow> int \<Rightarrow> ('db, 'rd, 'k) app \<Rightarrow> bool"
where
  "uncached up ent i a \<longleftrightarrow> (\<exists>c. client (a_cache a) = Some c \<and> up c \<and> ent c (cache_key i) = None)"

lemma get_uncached:
  assumes "record_store (eng V)" "redis_server (redis_lib V) up ent" "db_ok (eng V) (a_db a)"
    and "uncached up ent i a"
  shows "case get_record (eng V) i (a_db a) of
      Inr (Some r) \<Rightarrow> \<exists>a'. route_get_record V t i a = (Inr (response_of r), a') \<and> a_db a' = a_db a \<and>
        redis_server.holds_entry (redis_lib V) up ent i (response_of r) (redis_now t + 3600) (a_cache a')
    | Inr None \<Rightarrow> \<exists>a'. route_get_record V t i a = (Inl not_found, a')
    | Inl e \<Rightarrow> True"
proof -
  have no: "redis_server.no_entry up ent i (a_cache a)"
    using assms(4) by (simp add: uncached_def redis_server.no_entry_def [OF assms(2)])
  obtain cs where cs: "cache_get (redis_lib V) (redis_now t) i (a_cache a) = (Inr None, cs)"
    "redis_server.no_entry up ent i cs"
    using redis_server.get_miss [OF assms(2) no] by blast
  then obtain cs' where cs': "\<And>r. cache_set (redis_lib V) (redis_now t) i r CACHE_TTL_RECORD cs =
      (Inr (), cs' r)" "\<And>r. redis_server.holds_entry (redis_lib V) up ent i r (redis_now t + 3600) (cs' r)"
    using redis_server.set_entry [OF assms(2)] by metis
  show ?thesis
    using cs(1) cs' by (auto simp: route_get_record_def on_cache_def count_metric_def
        split: sum.split option.split)
qed

lemma get_cached:
  assumes "redis_server (redis_lib V) up ent"
    and "redis_server.holds_entry (redis_lib V) up ent i x until (a_cache a)" "redis_now t < until"
  shows "\<exists>a'. route_get_record V t i a = (Inr x, a')"
  using redis_server.get_hit [OF assms] by (auto simp: route_get_record_def on_cache_def)

lemma invalidate_up:
  assumes "redis_server (redis_lib V) up ent" "cache_up up a"
  shows "\<exists>a'. on_cache (cache_invalidate (redis_lib V) i) a = (Inr (), a') \<and> a_db a' = a_db a \<and> uncached up ent i a'"
  using assms(2) redis_server.invalidate_entry [OF assms(1), of "a_cache a" _ i]
  by (auto simp: cache_up_def on_cache_def uncached_def redis_server.no_entry_def [OF assms(1)])

text \<open>
  C7. Reads are fresh after a process and after a delete. With a lawful engine and a healthy cache in
  any state, processing an active record and reading it returns the processed record, and deleting a
  record and reading it is a 404, whatever the cache held before.
\<close>

theorem fresh_after_process_and_delete:
  assumes "record_store (eng V)" and "redis_server (redis_lib V) up ent" and "db_ok (eng V) (a_db a)"
    and "r \<in> set (rows (eng V) (a_db a))" and "r_deleted_at r = None" and "cache_up up a"
  shows "(\<exists>x a1 a2. route_process_record V t (r_id r) a = (Inr x, a1) \<and> rr_processed x \<and>
      route_get_record V t' (r_id r) a1 = (Inr x, a2)) \<and>
    (\<exists>a1 a2. route_delete_record V (r_id r) a = (Inr (), a1) \<and>
      route_get_record V t' (r_id r) a1 = (Inl not_found, a2))"
proof
  obtain db' s where m: "mark_processed (eng V) (wall t) (r_id r) (a_db a) = (Inr (Some s), db')"
    "db_ok (eng V) db'" "s \<in> set (rows (eng V) db')" "r_id s = r_id r" "r_processed s" "r_deleted_at s = None"
    using mark_processed_stored [OF assms(1,3,4)] assms(5) by metis
  have "cache_up up (a\<lparr>a_db := db'\<rparr>)" using assms(6) by (simp add: cache_up_def)
  from invalidate_up [OF assms(2) this, of "r_id r"] obtain a1 where
    a1: "on_cache (cache_invalidate (redis_lib V) (r_id r)) (a\<lparr>a_db := db'\<rparr>) = (Inr (), a1)"
      "a_db a1 = db'" "uncached up ent (r_id r) a1" by auto
  have p: "route_process_record V t (r_id r) a = (Inr (response_of s), a1)"
    using m(1) a1(1) by (simp add: route_process_record_def on_db_def)
  have "get_record (eng V) (r_id r) (a_db a1) = Inr (Some s)"
    using record_store.get_record_active [OF assms(1) m(2,3,6)] m(4) a1(2) by simp
  then obtain a2 where "route_get_record V t' (r_id r) a1 = (Inr (response_of s), a2)"
    using get_uncached [OF assms(1,2) _ a1(3), of t'] m(2) a1(2) by auto
  then show "\<exists>x a1 a2. route_process_record V t (r_id r) a = (Inr x, a1) \<and> rr_processed x \<and>
      route_get_record V t' (r_id r) a1 = (Inr x, a2)"
    using p m(5) by (auto simp: response_of_def)
next
  obtain db' where d: "delete_record (eng V) (r_id r) (a_db a) = (Inr (Some r), db')"
    "db_ok (eng V) db'" "\<forall>x \<in> set (rows (eng V) db'). r_id x \<noteq> r_id r"
    using delete_stored [OF assms(1,3,4)] by blast
  have "cache_up up (a\<lparr>a_db := db'\<rparr>)" using assms(6) by (simp add: cache_up_def)
  from invalidate_up [OF assms(2) this, of "r_id r"] obtain a1 where
    a1: "on_cache (cache_invalidate (redis_lib V) (r_id r)) (a\<lparr>a_db := db'\<rparr>) = (Inr (), a1)"
      "a_db a1 = db'" "uncached up ent (r_id r) a1" by auto
  have p: "route_delete_record V (r_id r) a = (Inr (), a1)"
    using d(1) a1(1) by (simp add: route_delete_record_def on_db_def)
  have "get_record (eng V) (r_id r) (a_db a1) = Inr None"
    using record_store.get_record_absent [OF assms(1) d(2)] d(3) a1(2) by auto
  then show "\<exists>a1 a2. route_delete_record V (r_id r) a = (Inr (), a1) \<and>
      route_get_record V t' (r_id r) a1 = (Inl not_found, a2)"
    using get_uncached [OF assms(1,2) _ a1(3), of t'] d(2) a1(2) p by auto
qed

lemma updated_differs: "apply_update u r \<noteq> r \<Longrightarrow> response_of (updated now u r) \<noteq> response_of r"
  by (auto simp: updated_def response_of_def apply_update_def Let_def split: option.splits)

text \<open>
  C30. Reads are stale after an update and after an archive. Neither endpoint invalidates the cache: a
  record that was read (and so cached) and then updated or archived is still returned in its old
  form, an archived one as active, by every read within the hour. The update is any valid body that gives no other record's
  source and time: it is stored and answered with, and it differs from what is read after it unless it changes nothing.
\<close>

theorem stale_after_update_and_archive:
  assumes "record_store (eng V)" and "redis_server (redis_lib V) up ent" and "db_ok (eng V) (a_db a)"
    and "r \<in> set (rows (eng V) (a_db a))" and "r_deleted_at r = None" and "uncached up ent (r_id r) a"
    and "redis_now t'' < redis_now t + 3600"
    and "validate_update (wall t') raw = Inr u"
    and "\<forall>x \<in> set (rows (eng V) (a_db a)). r_id x \<noteq> r_id r \<longrightarrow> row_key x \<noteq> row_key (apply_update u r)"
  shows "\<exists>a1. route_get_record V t (r_id r) a = (Inr (response_of r), a1) \<and>
    (\<exists>x a2 a3. route_update_record V t' (r_id r) raw a1 = (Inr x, a2) \<and> x = response_of (updated (wall t') u r) \<and>
       updated (wall t') u r \<in> set (rows (eng V) (a_db a2)) \<and> (apply_update u r \<noteq> r \<longrightarrow> x \<noteq> response_of r) \<and>
       route_get_record V t'' (r_id r) a2 = (Inr (response_of r), a3)) \<and>
    (\<exists>x a2 a3. route_archive_record V t' (r_id r) a1 = (Inr x, a2) \<and> rr_deleted_at x = Some (wall t') \<and>
       route_get_record V t'' (r_id r) a2 = (Inr (response_of r), a3) \<and> rr_deleted_at (response_of r) = None)"
proof -
  have "get_record (eng V) (r_id r) (a_db a) = Inr (Some r)"
    by (rule record_store.get_record_active [OF assms(1,3,4,5)])
  then obtain a1 where a1: "route_get_record V t (r_id r) a = (Inr (response_of r), a1)" "a_db a1 = a_db a"
    "redis_server.holds_entry (redis_lib V) up ent (r_id r) (response_of r) (redis_now t + 3600) (a_cache a1)"
    using get_uncached [OF assms(1,2,3,6), of t] by auto
  have hit: "\<exists>a3. route_get_record V t'' (r_id r) (a1\<lparr>a_db := db'\<rparr>) = (Inr (response_of r), a3)" for db'
    by (rule get_cached [OF assms(2) _ assms(7)]) (simp add: a1(3))
  obtain db1 where u: "update_record (eng V) (wall t') (r_id r) u (a_db a) = (Inr (Some (updated (wall t') u r)), db1)"
    "updated (wall t') u r \<in> set (rows (eng V) db1)"
    using update_stored [OF assms(1,3,4,9), of "wall t'"] by blast
  have up: "route_update_record V t' (r_id r) raw a1 = (Inr (response_of (updated (wall t') u r)), a1\<lparr>a_db := db1\<rparr>)"
    using u(1) assms(8) a1(2) by (simp add: route_update_record_def on_db_def)
  obtain db2 s2 where d: "soft_delete_record (eng V) (wall t') (r_id r) (a_db a) = (Inr (Some s2), db2)"
    "r_deleted_at s2 = Some (wall t')"
    using soft_delete_stored [OF assms(1,3,4,5), of "wall t'"] by blast
  have ar: "route_archive_record V t' (r_id r) a1 = (Inr (response_of s2), a1\<lparr>a_db := db2\<rparr>)"
    using d(1) a1(2) by (simp add: route_archive_record_def on_db_def)
  have "rr_deleted_at (response_of r) = None" "rr_deleted_at (response_of s2) = Some (wall t')"
    using assms(5) d(2) by (simp_all add: response_of_def)
  moreover have "apply_update u r \<noteq> r \<longrightarrow> response_of (updated (wall t') u r) \<noteq> response_of r"
    using updated_differs by blast
  ultimately show ?thesis
    using a1(1) up ar hit [of db1] hit [of db2] u(2) by auto
qed

subsection \<open>A small deployment\<close>

definition demo_env :: "(mem_db, mem_redis, nat) env" where
  "demo_env = \<lparr>eng = mem_engine, redis_lib = mem_redis_lib, kafka_lib = dead_broker,
     auth_cfg = demo_settings, str_of = (\<lambda>_. [])\<rparr>"

definition demo_app :: "(mem_db, mem_redis, nat) app" where
  "demo_app = \<lparr>a_db = one_db None, a_cache = \<lparr>client = Some \<lparr>reachable = True, entries = Map.empty\<rparr>,
     cache_errors = []\<rparr>, a_events = initial_events, a_sessions = Map.empty, a_metrics = []\<rparr>"

definition clock_at :: "datetime \<Rightarrow> req_clock" where
  "clock_at s = \<lparr>wall = s, redis_now = of_int s, send_start = of_int s, send_end = of_int s\<rparr>"

lemma demo_lawful:
  "record_store (eng demo_env)" "redis_server (redis_lib demo_env) reachable entries"
  "db_ok (eng demo_env) (a_db demo_app)"
  "mem_row 1 ''a'' 5 None \<in> set (rows (eng demo_env) (a_db demo_app))"
  "r_deleted_at (mem_row 1 ''a'' 5 None) = None" "cache_up reachable demo_app"
  "uncached reachable entries (r_id (mem_row 1 ''a'' 5 None)) demo_app"
  using mem.record_store_axioms mr.redis_server_axioms one_db_row
  by (simp_all add: demo_env_def demo_app_def cache_up_def uncached_def)

theorem fresh_after_process_and_delete_witness:
  "\<exists>x a1 a2. route_process_record demo_env (clock_at 9) 1 demo_app = (Inr x, a1) \<and> rr_processed x \<and>
     route_get_record demo_env (clock_at 10) 1 a1 = (Inr x, a2)"
  using fresh_after_process_and_delete [OF demo_lawful(1-6), of "clock_at 9" "clock_at 10"] one_db_row(4) [of None]
  by simp

theorem stale_after_update_and_archive_witness:
  "\<exists>a1 x a2 a3 y a4 a5. route_get_record demo_env (clock_at 9) 1 demo_app =
      (Inr (response_of (mem_row 1 ''a'' 5 None)), a1) \<and>
    route_update_record demo_env (clock_at 10) 1
      \<lparr>ru_source = Some ''b'', ru_timestamp = None, ru_data = None, ru_tags = None\<rparr> a1 = (Inr y, a4) \<and> rr_source y = ''b'' \<and>
    route_get_record demo_env (clock_at 11) 1 a4 = (Inr (response_of (mem_row 1 ''a'' 5 None)), a5) \<and>
    route_archive_record demo_env (clock_at 10) 1 a1 = (Inr x, a2) \<and> rr_deleted_at x = Some 10 \<and>
    route_get_record demo_env (clock_at 11) 1 a2 = (Inr (response_of (mem_row 1 ''a'' 5 None)), a3)"
proof -
  let ?u = "\<lparr>u_source = Some ''b'', u_timestamp = None, u_data = None, u_tags = None\<rparr>" and ?r = "mem_row 1 ''a'' 5 None"
  have v: "validate_update (wall (clock_at 10)) \<lparr>ru_source = Some ''b'', ru_timestamp = None, ru_data = None, ru_tags = None\<rparr> = Inr ?u"
    by code_simp
  have free: "\<forall>x \<in> set (rows (eng demo_env) (a_db demo_app)). r_id x \<noteq> r_id ?r \<longrightarrow> row_key x \<noteq> row_key (apply_update ?u ?r)"
    by (simp add: demo_env_def demo_app_def mem_engine_def one_db_def mem_row_def)
  have "redis_now (clock_at 11) < redis_now (clock_at 9) + 3600" by (simp add: clock_at_def)
  from stale_after_update_and_archive [OF demo_lawful(1-5,7) this v free] obtain a1 where
    "route_get_record demo_env (clock_at 9) (r_id ?r) demo_app = (Inr (response_of ?r), a1)"
    "\<exists>a4 a5. route_update_record demo_env (clock_at 10) (r_id ?r)
      \<lparr>ru_source = Some ''b'', ru_timestamp = None, ru_data = None, ru_tags = None\<rparr> a1 =
        (Inr (response_of (updated (wall (clock_at 10)) ?u ?r)), a4) \<and>
      route_get_record demo_env (clock_at 11) (r_id ?r) a4 = (Inr (response_of ?r), a5)"
    "\<exists>x a2 a3. route_archive_record demo_env (clock_at 10) (r_id ?r) a1 = (Inr x, a2) \<and> rr_deleted_at x = Some (wall (clock_at 10)) \<and>
       route_get_record demo_env (clock_at 11) (r_id ?r) a2 = (Inr (response_of ?r), a3)"
    by blast
  moreover have "rr_source (response_of (updated now ?u ?r)) = ''b''" for now
    by (simp add: updated_def response_of_def apply_update_def Let_def mem_row_def)
      (simp add: record_of_def req_def)
  moreover have "wall (clock_at 10) = 10" by (simp add: clock_at_def)
  ultimately show ?thesis using one_db_row(4) [of None] by metis
qed

text \<open>
  Roles are what the caller says they are. Whatever the sessions are, a caller who logs in with
  \<open>role=admin\<close> gets a session with which the endpoint for admins deletes any stored record.
\<close>

theorem self_assigned_admin_deletes:
  assumes "record_store (eng V)" and "db_ok (eng V) (a_db a)" and "r \<in> set (rows (eng V) (a_db a))"
    and "uuid \<noteq> []" and "0 \<le> token_expiry_hours (auth_cfg V)"
  shows "\<exists>sid msg a1 res a2. route_login_session V t uuid user ''admin'' a = (Inr (sid, msg), a1) \<and>
    route_delete_record_secured V t (Some sid) (r_id r) a1 = (res, a2) \<and>
    (\<forall>x \<in> set (rows (eng V) (a_db a2)). r_id x \<noteq> r_id r)"
proof -
  obtain a1 where l: "route_login_session V t uuid user ''admin'' a = (Inr (uuid, ''Session created''), a1)"
    "a_db a1 = a_db a" "a_sessions a1 = (a_sessions a)(uuid \<mapsto>
       \<lparr>sd_fields = [(''user_id'', JStr user), (''role'', JStr DEFAULT_ROLE),
         (''created_at'', JStr (isoformat (wall t) @ ''+00:00'')), (''role'', JStr (effective_role ''admin''))],
       expires_at = Some (wall t + token_expiry_hours (auth_cfg V) * micros_per_hour)\<rparr>)"
    by (simp add: route_login_session_def login_fields)
  have adm: "effective_role ''admin'' = ''admin''" "strip ''admin'' = ''admin''" "lower ''admin'' = ''admin''"
    by code_simp+
  have ok: "fst (with_session V t (Some [''admin'']) (Some uuid) a1) \<in> range Inr"
    "a_db (snd (with_session V t (Some [''admin'']) (Some uuid) a1)) = a_db a"
    using assms(4,5) l(2,3) adm
    by (simp_all add: with_session_def session_role_guard_def verify_session_def blank_def
        extract_roles_def obj_get_def require_roles_def micros_per_hour_def)
  then obtain d a2 where w: "with_session V t (Some [''admin'']) (Some uuid) a1 = (Inr d, a2)" "a_db a2 = a_db a"
    by (cases "with_session V t (Some [''admin'']) (Some uuid) a1") auto
  obtain db' where del: "delete_record (eng V) (r_id r) (a_db a) = (Inr (Some r), db')"
    "\<forall>x \<in> set (rows (eng V) db'). r_id x \<noteq> r_id r"
    using delete_stored [OF assms(1-3)] by blast
  have "\<exists>res a3. route_delete_record_secured V t (Some uuid) (r_id r) a1 = (res, a3) \<and> a_db a3 = db'"
    using w del(1) by (simp add: route_delete_record_secured_def on_db_def on_cache_def split: prod.split)
  then show ?thesis using l(1) del(2) by blast
qed

theorem self_assigned_admin_deletes_witness:
  "\<exists>sid msg a1 res a2. route_login_session demo_env (clock_at 9) ''u'' ''eve'' ''admin'' demo_app = (Inr (sid, msg), a1) \<and>
    route_delete_record_secured demo_env (clock_at 9) (Some sid) 1 a1 = (res, a2) \<and>
    (\<forall>x \<in> set (rows mem_engine (a_db a2)). r_id x \<noteq> 1)"
proof -
  have "0 \<le> token_expiry_hours (auth_cfg demo_env)" by (simp add: demo_env_def demo_settings_def)
  from self_assigned_admin_deletes [OF demo_lawful(1,3,4) _ this, of "''u''" "clock_at 9" "''eve''"]
  show ?thesis by (simp add: one_db_row) (simp add: demo_env_def)
qed

end
