(* ===== verification/Retry.thy ===== *)
theory Retry
  imports Prelude
begin

text \<open>
  The retry policies of \<open>libs/platform/retry.py\<close>: the loop of the \<open>exponential_backoff\<close>
  decorator with its jittered delays, and the in-memory \<open>IdempotencyKeyTracker\<close>.
  \<open>random.uniform(a, b)\<close> is \<open>a + (b - a) * u\<close> for the draw \<open>u\<close> of \<open>random.random()\<close>, which
  is an argument; so are the readings of \<open>time.time()\<close>.
\<close>

subsection \<open>Exponential backoff\<close>

record backoff_cfg =
  max_retries :: int
  base_delay :: seconds
  max_delay :: seconds
  jitter :: bool

definition uniform :: "rat \<Rightarrow> rat \<Rightarrow> rat \<Rightarrow> rat" where
  "uniform a b u = a + (b - a) * u"

definition apply_jitter_offset :: "seconds \<Rightarrow> seconds \<Rightarrow> seconds \<Rightarrow> rat \<Rightarrow> seconds" where
  "apply_jitter_offset base_value min_jitter max_jitter u =
     base_value + uniform min_jitter max_jitter u"

definition backoff_delay :: "backoff_cfg \<Rightarrow> rat \<Rightarrow> nat \<Rightarrow> seconds" where
  "backoff_delay cfg u attempt =
     (let delay = min (base_delay cfg * 2 ^ attempt) (max_delay cfg)
      in if jitter cfg
         then let jitter_amount = delay * (1 / 5)
              in apply_jitter_offset delay (- jitter_amount) jitter_amount u
         else delay)"

text \<open>
  The \<open>for attempt in range(max_retries + 1)\<close> loop. \<open>f\<close> is the wrapped function acting on a
  state, \<open>rnd n\<close> the random draw after attempt \<open>n\<close>, \<open>cancelled n\<close> says that the task is
  cancelled in the sleep after attempt \<open>n\<close>. The result holds the state, the delays slept
  and the outcome.
\<close>

function backoff_loop ::
  "backoff_cfg \<Rightarrow> ('s \<Rightarrow> 's \<times> 'a outcome) \<Rightarrow> (nat \<Rightarrow> rat) \<Rightarrow> (nat \<Rightarrow> bool) \<Rightarrow>
   nat \<Rightarrow> py_exn option \<Rightarrow> 's \<Rightarrow> 's \<times> seconds list \<times> 'a outcome"
where
  "backoff_loop cfg f rnd cancelled attempt last_exception s =
     (if int attempt < max_retries cfg + 1 then
        case f s of
          (s1, Inr v) \<Rightarrow> (s1, [], Inr v)
        | (s1, Inl e) \<Rightarrow>
            if e = CancelledError then (s1, [], Inl CancelledError)
            else if int attempt < max_retries cfg then
              let delay = backoff_delay cfg (rnd attempt) attempt
              in if cancelled attempt then (s1, [delay], Inl CancelledError)
                 else (case backoff_loop cfg f rnd cancelled (Suc attempt) (Some e) s1 of
                         (s2, ds, r) \<Rightarrow> (s2, delay # ds, r))
            else backoff_loop cfg f rnd cancelled (Suc attempt) (Some e) s1
      else (case last_exception of
              None \<Rightarrow> (s, [], Inl (AssertionError []))
            | Some e \<Rightarrow> (s, [], Inl e)))"
  by pat_completeness auto
termination
  by (relation "measure (\<lambda>(cfg, f, rnd, cancelled, attempt, le, s).
        nat (max_retries cfg + 1 - int attempt))") auto

declare backoff_loop.simps [simp del]

definition exponential_backoff ::
  "backoff_cfg \<Rightarrow> ('s \<Rightarrow> 's \<times> 'a outcome) \<Rightarrow> (nat \<Rightarrow> rat) \<Rightarrow> (nat \<Rightarrow> bool) \<Rightarrow> 's \<Rightarrow>
   's \<times> seconds list \<times> 'a outcome"
where
  "exponential_backoff cfg f rnd cancelled s = backoff_loop cfg f rnd cancelled 0 None s"

text \<open>The defaults of the decorator factory.\<close>

definition default_backoff :: backoff_cfg where
  "default_backoff = \<lparr>max_retries = 3, base_delay = 1, max_delay = 60, jitter = True\<rparr>"

subsection \<open>Attempts read off a script\<close>

text \<open>The wrapped function as a script: attempt number \<open>n\<close> has the outcome \<open>scr n\<close>.\<close>

definition scripted :: "(nat \<Rightarrow> 'a outcome) \<Rightarrow> nat \<Rightarrow> nat \<times> 'a outcome" where
  "scripted scr n = (Suc n, scr n)"

definition fails_with_exception :: "'a outcome \<Rightarrow> bool" where
  "fails_with_exception r \<longleftrightarrow> (\<exists>e. r = Inl e \<and> is_Exception e)"

lemma backoff_loop_failing_step:
  assumes "fails_with_exception (scr n)" "int n < max_retries cfg" "\<not> cancelled n"
  shows "\<exists>e. scr n = Inl e \<and> backoff_loop cfg (scripted scr) rnd cancelled n le n =
    (case backoff_loop cfg (scripted scr) rnd cancelled (Suc n) (Some e) (Suc n) of
       (s2, ds, r) \<Rightarrow> (s2, backoff_delay cfg (rnd n) n # ds, r))"
  using assms
  by (auto simp: fails_with_exception_def is_Exception_def scripted_def
      backoff_loop.simps [of cfg _ rnd cancelled n le n])

lemma backoff_loop_prefix:
  assumes "n \<le> k" "int k \<le> max_retries cfg"
    and "\<And>i. n \<le> i \<Longrightarrow> i < k \<Longrightarrow> fails_with_exception (scr i) \<and> \<not> cancelled i"
  shows "\<exists>le'. backoff_loop cfg (scripted scr) rnd cancelled n le n =
    (case backoff_loop cfg (scripted scr) rnd cancelled k le' k of
       (s2, ds, r) \<Rightarrow> (s2, map (\<lambda>i. backoff_delay cfg (rnd i) i) [n..<k] @ ds, r))"
  using assms(1,3)
proof (induction "k - n" arbitrary: n le)
  case 0
  then show ?case by (intro exI [of _ le]) simp
next
  case (Suc d)
  then have n: "n < k" "int n < max_retries cfg" using assms(2) by auto
  obtain e where step: "backoff_loop cfg (scripted scr) rnd cancelled n le n =
    (case backoff_loop cfg (scripted scr) rnd cancelled (Suc n) (Some e) (Suc n) of
       (s2, ds, r) \<Rightarrow> (s2, backoff_delay cfg (rnd n) n # ds, r))"
    using backoff_loop_failing_step [of scr n cfg cancelled] n Suc.prems by fastforce
  from Suc.hyps(1) [of "Suc n" "Some e"] Suc.hyps(2) n Suc.prems obtain le' where
    "backoff_loop cfg (scripted scr) rnd cancelled (Suc n) (Some e) (Suc n) =
      (case backoff_loop cfg (scripted scr) rnd cancelled k le' k of
         (s2, ds, r) \<Rightarrow> (s2, map (\<lambda>i. backoff_delay cfg (rnd i) i) [Suc n..<k] @ ds, r))"
    by fastforce
  then show ?case using step n(1) by (intro exI [of _ le']) (simp add: upt_conv_Cons split: prod.split)
qed

text \<open>
  C34. The retry contract. Whatever the outcomes of the attempts, let \<open>k\<close> be the first attempt, counted from 0, whose
  outcome is not an ordinary exception (a success or a cancellation) or whose following sleep is cancelled, if there is
  one among the first \<open>max_retries\<close>, and the attempt \<open>max_retries\<close> otherwise. Then exactly \<open>k + 1\<close> attempts are made, so
  that \<open>max_retries + 1\<close> failures exhaust them; the delays slept are those of attempts \<open>0 .. k - 1\<close> in order, and that of \<open>k\<close>
  where it was cancelled; and the decorator raises the cancellation in that case, and otherwise returns or raises the
  outcome of attempt \<open>k\<close>.
\<close>

theorem backoff_contract:
  assumes "0 \<le> max_retries cfg"
    and "\<And>i. i < k \<Longrightarrow> fails_with_exception (scr i) \<and> \<not> cancelled i"
    and "int k = max_retries cfg \<or> int k < max_retries cfg \<and> (fails_with_exception (scr k) \<longrightarrow> cancelled k)"
  shows "exponential_backoff cfg (scripted scr) rnd cancelled 0 =
    (if int k < max_retries cfg \<and> fails_with_exception (scr k)
     then (Suc k, map (\<lambda>i. backoff_delay cfg (rnd i) i) [0..<Suc k], Inl CancelledError)
     else (Suc k, map (\<lambda>i. backoff_delay cfg (rnd i) i) [0..<k], scr k))"
proof -
  have k: "int k \<le> max_retries cfg" using assms(3) by auto
  obtain le where le: "backoff_loop cfg (scripted scr) rnd cancelled 0 None 0 =
    (case backoff_loop cfg (scripted scr) rnd cancelled k le k of
       (s2, ds, r) \<Rightarrow> (s2, map (\<lambda>i. backoff_delay cfg (rnd i) i) [0..<k] @ ds, r))"
    using backoff_loop_prefix [OF le0 k, of scr cancelled rnd None] assms(2) by auto
  have last: "backoff_loop cfg (scripted scr) rnd cancelled k le k =
    (if int k < max_retries cfg \<and> fails_with_exception (scr k) then (Suc k, [backoff_delay cfg (rnd k) k], Inl CancelledError)
     else (Suc k, [], scr k))"
    using assms(3)
    by (auto simp: backoff_loop.simps [of cfg _ rnd cancelled k le k] backoff_loop.simps [of cfg _ rnd cancelled "Suc k" _ "Suc k"]
        scripted_def fails_with_exception_def is_Exception_def Let_def split: sum.split)
  show ?thesis by (simp add: exponential_backoff_def le last)
qed

theorem backoff_contract_witness:
  "exponential_backoff default_backoff
     (scripted (\<lambda>n. if n < 2 then Inl (HTTPError ''503'') else Inr ''ok'')) (\<lambda>_. 1 / 2) (\<lambda>_. False) 0
   = (3, [1, 2], Inr ''ok'') \<and>
   exponential_backoff default_backoff
     (scripted (\<lambda>n. Inl (HTTPError ''503'') :: string outcome)) (\<lambda>_. 1 / 2) (\<lambda>i. i = 1) 0
   = (2, [1, 2], Inl CancelledError)"
  using backoff_contract [of default_backoff 2
      "\<lambda>n. if n < 2 then Inl (HTTPError ''503'') else Inr ''ok''" "\<lambda>_. False" "\<lambda>_. 1 / 2"]
    backoff_contract [of default_backoff 1 "\<lambda>n. Inl (HTTPError ''503'') :: string outcome" "\<lambda>i. i = 1" "\<lambda>_. 1 / 2"]
  by (simp add: default_backoff_def fails_with_exception_def is_Exception_def upt_rec
      backoff_delay_def apply_jitter_offset_def uniform_def)

lemma uniform_bounds:
  "a \<le> b \<Longrightarrow> 0 \<le> u \<Longrightarrow> u \<le> 1 \<Longrightarrow> a \<le> uniform a b u \<and> uniform a b u \<le> b"
  using mult_left_le [of u "b - a"] by (simp add: uniform_def)

text \<open>
  Delay bounds. With non-negative delays and a random draw in the unit interval, every delay
  lies within 20 percent of the capped exponential \<open>min(base_delay * 2 ** attempt, max_delay)\<close>,
  so it is never negative and never above \<open>1.2 * max_delay\<close>.
\<close>

theorem backoff_delay_bounds:
  assumes "0 \<le> base_delay cfg" and "0 \<le> max_delay cfg" and "0 \<le> u" and "u \<le> 1"
  shows "4 / 5 * min (base_delay cfg * 2 ^ n) (max_delay cfg) \<le> backoff_delay cfg u n \<and>
    backoff_delay cfg u n \<le> 6 / 5 * min (base_delay cfg * 2 ^ n) (max_delay cfg) \<and>
    backoff_delay cfg u n \<le> 6 / 5 * max_delay cfg"
proof -
  let ?d = "min (base_delay cfg * 2 ^ n) (max_delay cfg)"
  have d: "0 \<le> ?d" using assms(1,2) by simp
  then have "- (?d * (1 / 5)) \<le> uniform (- (?d * (1 / 5))) (?d * (1 / 5)) u \<and>
      uniform (- (?d * (1 / 5))) (?d * (1 / 5)) u \<le> ?d * (1 / 5)"
    using assms(3,4) by (intro uniform_bounds) auto
  then have "4 / 5 * ?d \<le> backoff_delay cfg u n \<and> backoff_delay cfg u n \<le> 6 / 5 * ?d"
    using d unfolding backoff_delay_def apply_jitter_offset_def Let_def by (simp split: if_splits)
  moreover have "6 / 5 * ?d \<le> 6 / 5 * max_delay cfg" by (rule mult_left_mono) auto
  ultimately show ?thesis by (meson order_trans)
qed

theorem backoff_delay_bounds_witness:
  "4 / 5 * 60 \<le> backoff_delay default_backoff 1 6 \<and> backoff_delay default_backoff 1 6 = 72"
  using backoff_delay_bounds [of default_backoff 1 6]
  by (simp add: default_backoff_def backoff_delay_def apply_jitter_offset_def uniform_def)

text \<open>
  The cap is not a maximum: with the default configuration there is an attempt and a draw
  below one for which the delay slept is above \<open>max_delay\<close>.
\<close>

theorem backoff_exceeds_max_delay:
  "\<exists>n u. 0 \<le> u \<and> u < 1 \<and> max_delay default_backoff < backoff_delay default_backoff u n"
  by (rule exI [of _ 6], rule exI [of _ "3 / 4"])
     (simp add: default_backoff_def backoff_delay_def apply_jitter_offset_def uniform_def)

subsection \<open>The idempotency key tracker\<close>

record tracker =
  seen :: "string \<rightharpoonup> seconds"
  ttl_seconds :: seconds

definition new_tracker :: "seconds \<Rightarrow> tracker" where
  "new_tracker ttl = \<lparr>seen = Map.empty, ttl_seconds = ttl\<rparr>"

definition is_duplicate :: "seconds \<Rightarrow> string \<Rightarrow> tracker \<Rightarrow> bool \<times> tracker" where
  "is_duplicate now key tr =
     (case seen tr key of
        None \<Rightarrow> (False, tr)
      | Some v \<Rightarrow>
          let age = now - v
          in if ttl_seconds tr < age then (False, tr\<lparr>seen := (seen tr)(key := None)\<rparr>)
             else (True, tr))"

definition mark_seen :: "seconds \<Rightarrow> string \<Rightarrow> tracker \<Rightarrow> tracker" where
  "mark_seen now key tr = tr\<lparr>seen := (seen tr)(key \<mapsto> now)\<rparr>"

definition cleanup_expired :: "seconds \<Rightarrow> tracker \<Rightarrow> tracker" where
  "cleanup_expired now tr =
     tr\<lparr>seen := (\<lambda>k. case seen tr k of
                      None \<Rightarrow> None
                    | Some v \<Rightarrow> if ttl_seconds tr < now - v then None else Some v)\<rparr>"

text \<open>
  The abstract tracker: the history of the marks, newest first. A key is a duplicate when its
  newest mark is at most \<open>ttl_seconds\<close> old.
\<close>

datatype tracker_op = Check seconds string | Mark seconds string | Cleanup seconds

fun op_time :: "tracker_op \<Rightarrow> seconds" where
  "op_time (Check t k) = t"
| "op_time (Mark t k) = t"
| "op_time (Cleanup t) = t"

fun tracker_step :: "tracker_op \<Rightarrow> tracker \<Rightarrow> tracker" where
  "tracker_step (Check t k) tr = snd (is_duplicate t k tr)"
| "tracker_step (Mark t k) tr = mark_seen t k tr"
| "tracker_step (Cleanup t) tr = cleanup_expired t tr"

definition tracker_run :: "seconds \<Rightarrow> tracker_op list \<Rightarrow> tracker" where
  "tracker_run ttl ops = fold tracker_step ops (new_tracker ttl)"

fun last_mark :: "string \<Rightarrow> tracker_op list \<Rightarrow> seconds option" where
  "last_mark key [] = None"
| "last_mark key (Mark t k # rev_ops) = (if k = key then Some t else last_mark key rev_ops)"
| "last_mark key (_ # rev_ops) = last_mark key rev_ops"

definition spec_duplicate :: "seconds \<Rightarrow> seconds \<Rightarrow> string \<Rightarrow> tracker_op list \<Rightarrow> bool" where
  "spec_duplicate ttl now key ops =
     (case last_mark key (rev ops) of None \<Rightarrow> False | Some t \<Rightarrow> now - t \<le> ttl)"

text \<open>The simulation: an entry of the tracker is the newest mark, and a missing one has expired.\<close>

fun key_sim :: "seconds \<Rightarrow> seconds \<Rightarrow> seconds option \<Rightarrow> seconds option \<Rightarrow> bool" where
  "key_sim ttl now (Some v) m \<longleftrightarrow> m = Some v"
| "key_sim ttl now None None \<longleftrightarrow> True"
| "key_sim ttl now None (Some v) \<longleftrightarrow> ttl < now - v"

definition tracker_sim :: "seconds \<Rightarrow> seconds \<Rightarrow> tracker_op list \<Rightarrow> tracker \<Rightarrow> bool" where
  "tracker_sim ttl now rops tr \<longleftrightarrow>
     ttl_seconds tr = ttl \<and> (\<forall>k. key_sim ttl now (seen tr k) (last_mark k rops))"

lemma key_sim_mono: "key_sim ttl now a m \<Longrightarrow> now \<le> t \<Longrightarrow> key_sim ttl t a m"
  by (cases "(ttl, now, a, m)" rule: key_sim.cases) auto

lemma key_sim_expire: "key_sim ttl now (Some v) m \<Longrightarrow> ttl < now - v \<Longrightarrow> key_sim ttl now None m"
  by simp

lemma tracker_sim_step:
  assumes sim: "tracker_sim ttl now rops tr" and now: "now \<le> op_time x"
  shows "tracker_sim ttl (op_time x) (x # rops) (tracker_step x tr)"
proof -
  have ks: "key_sim ttl (op_time x) (seen tr k) (last_mark k rops)" for k
    using sim now by (auto simp: tracker_sim_def intro: key_sim_mono)
  have ttl: "ttl_seconds tr = ttl" using sim by (simp add: tracker_sim_def)
  show ?thesis
  proof (cases x)
    case (Check t k)
    then show ?thesis
      using ks ttl by (auto simp: tracker_sim_def is_duplicate_def Let_def split: option.split)
        (metis key_sim_expire op_time.simps(1))
  next
    case (Mark t k)
    then show ?thesis
      using ks ttl by (simp add: tracker_sim_def mark_seen_def)
  next
    case (Cleanup t)
    have "key_sim ttl t (seen (cleanup_expired t tr) k) (last_mark k rops)" for k
      using ks [of k] ttl Cleanup by (auto simp: cleanup_expired_def split: option.split)
    then show ?thesis
      using ttl Cleanup by (simp add: tracker_sim_def cleanup_expired_def)
  qed
qed

fun times_from :: "seconds \<Rightarrow> tracker_op list \<Rightarrow> bool" where
  "times_from now [] \<longleftrightarrow> True"
| "times_from now (x # xs) \<longleftrightarrow> now \<le> op_time x \<and> times_from (op_time x) xs"

fun end_time :: "seconds \<Rightarrow> tracker_op list \<Rightarrow> seconds" where
  "end_time now [] = now"
| "end_time now (x # xs) = end_time (op_time x) xs"

lemma tracker_sim_run:
  "tracker_sim ttl now rops tr \<Longrightarrow> times_from now xs \<Longrightarrow>
   tracker_sim ttl (end_time now xs) (rev xs @ rops) (fold tracker_step xs tr)"
proof (induction xs arbitrary: now rops tr)
  case (Cons x xs)
  have "tracker_sim ttl (op_time x) (x # rops) (tracker_step x tr)"
    using Cons.prems by (intro tracker_sim_step) auto
  from Cons.IH [OF this] Cons.prems show ?case by simp
qed simp

lemma is_duplicate_sim:
  "tracker_sim ttl now rops tr \<Longrightarrow> now \<le> t \<Longrightarrow>
   fst (is_duplicate t k tr) = (case last_mark k rops of None \<Rightarrow> False | Some v \<Rightarrow> t - v \<le> ttl)"
  unfolding tracker_sim_def is_duplicate_def Let_def
  by (elim conjE allE [of _ k]) (cases "seen tr k"; cases "last_mark k rops"; auto)

text \<open>
  C12. The tracker implements its specification. After any sequence of checks, marks and cleanups
  with a clock that does not go back, \<open>is_duplicate\<close> answers as the history of marks says: true
  exactly when the key was marked and its newest mark is at most \<open>ttl_seconds\<close> old. Evictions
  by \<open>is_duplicate\<close> itself and by \<open>cleanup_expired\<close> change no later answer.
\<close>

theorem tracker_refines_history:
  assumes "times_from t0 ops" and "end_time t0 ops \<le> now"
  shows "fst (is_duplicate now key (tracker_run ttl ops)) = spec_duplicate ttl now key ops"
proof -
  have "tracker_sim ttl t0 [] (new_tracker ttl)"
    by (simp add: tracker_sim_def new_tracker_def)
  from tracker_sim_run [OF this assms(1)] is_duplicate_sim [OF _ assms(2)]
  show ?thesis by (simp add: tracker_run_def spec_duplicate_def)
qed

theorem tracker_refines_history_witness:
  "fst (is_duplicate 20 ''k'' (tracker_run 10 [Mark 0 ''k'', Check 5 ''k'', Mark 10 ''k'', Cleanup 15]))
   \<and> \<not> fst (is_duplicate 21 ''k'' (tracker_run 10 [Mark 0 ''k'', Check 5 ''k'', Mark 10 ''k'', Cleanup 15]))"
  using tracker_refines_history
    [of 0 "[Mark 0 ''k'', Check 5 ''k'', Mark 10 ''k'', Cleanup 15]" 20 "''k''" 10]
    tracker_refines_history
    [of 0 "[Mark 0 ''k'', Check 5 ''k'', Mark 10 ''k'', Cleanup 15]" 21 "''k''" 10]
  by (simp add: spec_duplicate_def)

end
