(* ===== verification/Rate_Limits.thy ===== *)
theory Rate_Limits
  imports Retry
begin

text \<open>
  The in-memory rate limiters of \<open>ingestor/rate_limiting_advanced.py\<close>: \<open>TokenBucketLimiter\<close>
  and \<open>SlidingWindowLimiter\<close>. Every reading of \<open>time.monotonic()\<close> is an argument; each
  operation is atomic under the limiter's lock. A locale states what makes a limiter keyed: a
  request only reads and writes the entry of its own key. Both limiters interpret it.
\<close>

subsection \<open>Keyed limiters\<close>

fun answers :: "('r \<Rightarrow> 's \<Rightarrow> bool \<times> 's) \<Rightarrow> 'r list \<Rightarrow> 's \<Rightarrow> ('r \<times> bool) list" where
  "answers d [] s = []"
| "answers d (r # rs) s = (r, fst (d r s)) # answers d rs (snd (d r s))"

fun final :: "('r \<Rightarrow> 's \<Rightarrow> bool \<times> 's) \<Rightarrow> 'r list \<Rightarrow> 's \<Rightarrow> 's" where
  "final d [] s = s"
| "final d (r # rs) s = final d rs (snd (d r s))"

lemma answers_append: "answers d (xs @ ys) s = answers d xs s @ answers d ys (final d xs s)"
  by (induction xs arbitrary: s) auto

locale keyed_limiter =
  fixes decide :: "'r \<Rightarrow> 'st \<Rightarrow> bool \<times> 'st"
    and key_of :: "'r \<Rightarrow> string"
    and view :: "string \<Rightarrow> 'st \<Rightarrow> 'v"
    and decide1 :: "'r \<Rightarrow> 'v \<Rightarrow> bool \<times> 'v"
  assumes own_answer: "fst (decide r st) = fst (decide1 r (view (key_of r) st))"
    and own_entry: "view (key_of r) (snd (decide r st)) = snd (decide1 r (view (key_of r) st))"
    and frame: "k \<noteq> key_of r \<Longrightarrow> view k (snd (decide r st)) = view k st"
begin

lemma isolation:
  "filter (\<lambda>(r, a). key_of r = k) (answers decide rs st) =
   answers decide1 (filter (\<lambda>r. key_of r = k) rs) (view k st)"
  by (induction rs arbitrary: st) (auto simp: own_answer own_entry frame)

lemma final_view:
  "view k (final decide rs st) = final decide1 (filter (\<lambda>r. key_of r = k) rs) (view k st)"
  by (induction rs arbitrary: st) (auto simp: own_entry frame)

end

subsection \<open>Token bucket\<close>

text \<open>\<open>apply_jitter\<close> of this module clamps at zero; \<open>u\<close> is the random draw.\<close>

definition apply_jitter :: "seconds \<Rightarrow> seconds \<Rightarrow> seconds \<Rightarrow> rat \<Rightarrow> seconds" where
  "apply_jitter base_value min_jitter max_jitter u =
     (let offset = uniform min_jitter max_jitter u in max 0 (base_value + offset))"

record token_bucket =
  capacity :: int
  refill_per_second :: rat
  buckets :: "string \<rightharpoonup> rat \<times> seconds"

definition new_token_bucket :: "int \<Rightarrow> rat \<Rightarrow> token_bucket" where
  "new_token_bucket cap rate =
     \<lparr>capacity = cap, refill_per_second = rate, buckets = Map.empty\<rparr>"

text \<open>
  \<open>consume\<close>: \<open>t0\<close> is the clock read by the \<open>defaultdict\<close> factory when the key is new, \<open>now\<close>
  the one read next.
\<close>

definition consume ::
  "seconds \<Rightarrow> seconds \<Rightarrow> string \<Rightarrow> int \<Rightarrow> token_bucket \<Rightarrow> (bool \<times> rat) \<times> token_bucket"
where
  "consume t0 now key tokens tb =
     (let (current0, last_refill) =
            (case buckets tb key of None \<Rightarrow> (of_int (capacity tb), t0) | Some b \<Rightarrow> b);
          elapsed = now - last_refill;
          current = min (of_int (capacity tb)) (current0 + elapsed * refill_per_second tb)
      in if of_int tokens \<le> current
         then let current' = current - of_int tokens
              in ((True, current'), tb\<lparr>buckets := (buckets tb)(key \<mapsto> (current', now))\<rparr>)
         else ((False, current), tb\<lparr>buckets := (buckets tb)(key \<mapsto> (current, now))\<rparr>))"

text \<open>
  \<open>seconds_until_token\<close>: \<open>t0\<close> is the clock read for the default of \<open>get\<close>, \<open>now\<close> the next
  reading. A zero refill rate raises \<open>ZeroDivisionError\<close>.
\<close>

definition seconds_until_token ::
  "seconds \<Rightarrow> seconds \<Rightarrow> string \<Rightarrow> seconds \<Rightarrow> seconds \<Rightarrow> rat \<Rightarrow> token_bucket \<Rightarrow> seconds outcome"
where
  "seconds_until_token t0 now key min_jitter max_jitter u tb =
     (let (current0, last_refill) =
            (case buckets tb key of None \<Rightarrow> (of_int (capacity tb), t0) | Some b \<Rightarrow> b);
          elapsed = now - last_refill;
          current = min (of_int (capacity tb)) (current0 + elapsed * refill_per_second tb);
          deficit = 1 - current
      in if deficit \<le> 0 then Inr 0
         else if refill_per_second tb = 0 then Inl (OtherException ''float division by zero'')
         else Inr (apply_jitter (deficit / refill_per_second tb) min_jitter max_jitter u))"

text \<open>A request to the limiter, and the entry of one key as the request sees it.\<close>

record tb_request =
  tb_t0 :: seconds
  tb_now :: seconds
  tb_key :: string
  tb_tokens :: int

definition tb_decide :: "tb_request \<Rightarrow> token_bucket \<Rightarrow> bool \<times> token_bucket" where
  "tb_decide r tb =
     (let res = consume (tb_t0 r) (tb_now r) (tb_key r) (tb_tokens r) tb
      in (fst (fst res), snd res))"

type_synonym bucket_view = "int \<times> rat \<times> (rat \<times> seconds) option"

definition tb_view :: "string \<Rightarrow> token_bucket \<Rightarrow> bucket_view" where
  "tb_view k tb = (capacity tb, refill_per_second tb, buckets tb k)"

fun tb_level :: "tb_request \<Rightarrow> bucket_view \<Rightarrow> rat" where
  "tb_level r (cap, rate, None) = min (of_int cap) (of_int cap + (tb_now r - tb_t0 r) * rate)"
| "tb_level r (cap, rate, Some (c, t)) = min (of_int cap) (c + (tb_now r - t) * rate)"

fun tb_decide1 :: "tb_request \<Rightarrow> bucket_view \<Rightarrow> bool \<times> bucket_view" where
  "tb_decide1 r (cap, rate, b) =
     (let l = tb_level r (cap, rate, b)
      in if of_int (tb_tokens r) \<le> l
         then (True, (cap, rate, Some (l - of_int (tb_tokens r), tb_now r)))
         else (False, (cap, rate, Some (l, tb_now r))))"

interpretation tb: keyed_limiter tb_decide tb_key tb_view tb_decide1
  by unfold_locales
     (auto simp: tb_decide_def tb_view_def consume_def Let_def split: option.splits prod.splits)

text \<open>The tokens granted by a list of answers.\<close>

definition granted :: "(tb_request \<times> bool) list \<Rightarrow> int" where
  "granted as = sum_list (map (\<lambda>(r, a). if a then tb_tokens r else 0) as)"

lemma granted_simps [simp]:
  "granted [] = 0"
  "granted ((r, a) # as) = (if a then tb_tokens r else 0) + granted as"
  by (auto simp: granted_def)

fun tb_times_from :: "seconds \<Rightarrow> tb_request list \<Rightarrow> bool" where
  "tb_times_from t [] \<longleftrightarrow> True"
| "tb_times_from t (r # rs) \<longleftrightarrow> t \<le> tb_t0 r \<and> tb_t0 r \<le> tb_now r \<and> tb_times_from (tb_now r) rs"

fun tb_now_from :: "seconds \<Rightarrow> tb_request list \<Rightarrow> bool" where
  "tb_now_from t [] \<longleftrightarrow> True"
| "tb_now_from t (r # rs) \<longleftrightarrow> t \<le> tb_now r \<and> tb_now_from (tb_now r) rs"

fun tb_end :: "seconds \<Rightarrow> tb_request list \<Rightarrow> seconds" where
  "tb_end t [] = t"
| "tb_end t (r # rs) = tb_end (tb_now r) rs"

lemma tb_now_from_mono: "tb_now_from t rs \<Longrightarrow> t' \<le> t \<Longrightarrow> tb_now_from t' rs"
  by (cases rs) auto

lemma tb_times_now: "tb_times_from t rs \<Longrightarrow> tb_now_from t rs"
  by (induction rs arbitrary: t) auto

lemma tb_now_from_filter: "tb_now_from t rs \<Longrightarrow> tb_now_from t (filter P rs)"
  by (induction rs arbitrary: t) (auto intro: tb_now_from_mono)

lemma tb_end_ge: "tb_now_from t rs \<Longrightarrow> t \<le> tb_end t rs"
  by (induction rs arbitrary: t) force+

lemma tb_end_filter: "tb_now_from t rs \<Longrightarrow> tb_end t (filter P rs) \<le> tb_end t rs"
proof (induction rs arbitrary: t)
  case (Cons r rs)
  have "tb_now_from t rs" using Cons.prems by (auto intro: tb_now_from_mono)
  moreover have "tb_end t rs \<le> tb_end (tb_now r) rs"
    using Cons.prems by (cases rs) auto
  ultimately show ?case using Cons by force
qed simp

text \<open>
  From an entry with \<open>c\<close> tokens at time \<open>t\<close>, a run that ends at time \<open>e\<close> is granted at most
  \<open>c + rate * (e - t)\<close> tokens: what is granted is paid for by the level or by the refill.
\<close>

lemma granted_from_entry:
  assumes "0 \<le> rate" "tb_now_from t rs"
  shows "of_int (granted (answers tb_decide1 rs (cap, rate, Some (c, t)))) \<le>
    (if rs = [] then 0 else max 0 (c + rate * (tb_end t rs - t)))"
  using assms(2)
proof (induction rs arbitrary: c t)
  case (Cons r rs)
  let ?l = "min (of_int cap) (c + (tb_now r - t) * rate)"
  let ?t' = "tb_now r"
  let ?e = "tb_end ?t' rs"
  have ts: "tb_now_from ?t' rs" "t \<le> ?t'" using Cons.prems by auto
  have e: "?t' \<le> ?e" using ts(1) by (rule tb_end_ge)
  have pos: "0 \<le> rate * (?e - ?t')" using assms(1) e by simp
  have split: "rate * (?e - t) = (?t' - t) * rate + rate * (?e - ?t')"
    by (simp add: algebra_simps)
  have l: "?l \<le> c + (?t' - t) * rate" by simp
  show ?case
  proof (cases "of_int (tb_tokens r) \<le> ?l")
    case True
    define g where
      "g = granted (answers tb_decide1 rs (cap, rate, Some (?l - of_int (tb_tokens r), ?t')))"
    have "of_int g \<le> ?l - of_int (tb_tokens r) + rate * (?e - ?t')"
      using Cons.IH [OF ts(1), of "?l - of_int (tb_tokens r)"] pos True
      by (cases "rs = []") (auto simp: g_def max_def split: if_splits)
    then have "of_int (tb_tokens r) + of_int g \<le> c + rate * (?e - t)"
      using split l by linarith
    moreover have "granted (answers tb_decide1 (r # rs) (cap, rate, Some (c, t))) = tb_tokens r + g"
      using True by (simp add: Let_def g_def)
    ultimately show ?thesis by simp
  next
    case False
    define g where "g = granted (answers tb_decide1 rs (cap, rate, Some (?l, ?t')))"
    have "of_int g \<le> max 0 (?l + rate * (?e - ?t'))"
      using Cons.IH [OF ts(1), of ?l]
      by (cases "rs = []") (auto simp: g_def max_def split: if_splits)
    also have "\<dots> \<le> max 0 (c + rate * (?e - t))"
      using split l by (intro max.mono) auto
    finally have "of_int g \<le> max 0 (c + rate * (?e - t))" .
    moreover have "granted (answers tb_decide1 (r # rs) (cap, rate, Some (c, t))) = g"
      using False unfolding g_def by (auto simp: Let_def)
    ultimately show ?thesis by simp
  qed
qed simp

definition entry_ok :: "bucket_view \<Rightarrow> bool" where
  "entry_ok v \<longleftrightarrow> (case v of (cap, rate, b) \<Rightarrow>
     case b of None \<Rightarrow> True | Some (c, t) \<Rightarrow> c \<le> of_int cap)"

lemma tb_level_le: "tb_level r (cap, rate, b) \<le> of_int cap"
  by (cases b) auto

lemma entry_ok_step: "0 \<le> tb_tokens r \<Longrightarrow> entry_ok (snd (tb_decide1 r (cap, rate, b)))"
  using tb_level_le [of r cap rate b] by (auto simp: entry_ok_def Let_def)

lemma tb_config_final:
  "final tb_decide1 rs (cap, rate, b) = (cap, rate, snd (snd (final tb_decide1 rs (cap, rate, b))))"
  by (induction rs arbitrary: b) (auto simp: Let_def)

lemma granted_segment:
  assumes "0 \<le> cap" "0 \<le> rate" "tb_now_from s rs"
  shows "of_int (granted (answers tb_decide1 rs (cap, rate, b))) \<le> of_int cap + rate * (tb_end s rs - s)"
proof (cases rs)
  case Nil
  then show ?thesis using assms by simp
next
  case (Cons r rs')
  let ?l = "tb_level r (cap, rate, b)"
  have "tb_level r (cap, rate, Some (?l, tb_now r)) = ?l"
    using tb_level_le [of r cap rate b] by simp
  then have eq: "answers tb_decide1 rs (cap, rate, b) =
      answers tb_decide1 rs (cap, rate, Some (?l, tb_now r))"
    by (simp only: Cons answers.simps tb_decide1.simps)
  have "tb_now_from (tb_now r) rs" and s: "s \<le> tb_now r" and e: "tb_now r \<le> tb_end s rs"
    using assms(3) tb_end_ge [of "tb_now r" rs'] by (auto simp: Cons)
  from granted_from_entry [OF assms(2) this(1)]
  have "of_int (granted (answers tb_decide1 rs (cap, rate, b)))
      \<le> max 0 (?l + rate * (tb_end s rs - tb_now r))"
    by (simp only: eq) (simp add: Cons)
  also have "\<dots> \<le> max 0 (of_int cap + rate * (tb_end s rs - s))"
    using tb_level_le [of r cap rate b] assms(2) s
    by (intro max.mono add_mono mult_left_mono) auto
  also have "\<dots> = of_int cap + rate * (tb_end s rs - s)"
    using assms(1,2) s e by (intro max_absorb2 add_nonneg_nonneg mult_nonneg_nonneg) auto
  finally show ?thesis .
qed

text \<open>
  C10. The token bucket's rate. Take any sequence of requests of any clients from a fresh
  limiter, and any segment of it that starts at time \<open>s\<close>: the tokens granted to one key in the
  segment are at most the capacity plus the refill rate times the length of the segment,
  whatever the other keys do.
\<close>

theorem token_bucket_rate:
  assumes "0 \<le> cap" and "0 \<le> rate" and "tb_times_from s seg"
  shows "of_int (granted (filter (\<lambda>(r, a). tb_key r = k)
      (answers tb_decide seg (final tb_decide pre (new_token_bucket cap rate)))))
    \<le> of_int cap + rate * (tb_end s seg - s)"
proof -
  let ?v = "tb_view k (final tb_decide pre (new_token_bucket cap rate))"
  let ?seg = "filter (\<lambda>r. tb_key r = k) seg"
  obtain b where v: "?v = (cap, rate, b)"
  proof -
    have "?v = final tb_decide1 (filter (\<lambda>r. tb_key r = k) pre) (cap, rate, None)"
      by (simp add: tb.final_view) (simp add: tb_view_def new_token_bucket_def)
    then show ?thesis using that by (metis tb_config_final)
  qed
  have now: "tb_now_from s seg" using assms(3) by (rule tb_times_now)
  have "of_int (granted (answers tb_decide1 ?seg (cap, rate, b)))
      \<le> of_int cap + rate * (tb_end s ?seg - s)"
    using assms now by (intro granted_segment tb_now_from_filter)
  also have "\<dots> \<le> of_int cap + rate * (tb_end s seg - s)"
    using assms(2) tb_end_filter [OF now] by (simp add: mult_left_mono)
  finally show ?thesis by (simp add: tb.isolation v)
qed

definition tb_req :: "seconds \<Rightarrow> string \<Rightarrow> tb_request" where
  "tb_req t k = \<lparr>tb_t0 = t, tb_now = t, tb_key = k, tb_tokens = 1\<rparr>"

theorem token_bucket_rate_witness:
  "of_int (granted (filter (\<lambda>(r, a). tb_key r = ''a'')
      (answers tb_decide [tb_req 0 ''a'', tb_req 0 ''b'', tb_req 0 ''a'', tb_req 4 ''a'']
        (new_token_bucket 1 (1 / 2))))) \<le> (3 :: rat)
   \<and> granted (filter (\<lambda>(r, a). tb_key r = ''a'')
      (answers tb_decide [tb_req 0 ''a'', tb_req 0 ''b'', tb_req 0 ''a'', tb_req 4 ''a'']
        (new_token_bucket 1 (1 / 2)))) = 2"
  using token_bucket_rate [of 1 "1 / 2" 0
      "[tb_req 0 ''a'', tb_req 0 ''b'', tb_req 0 ''a'', tb_req 4 ''a'']" "''a''" "[]"]
  by (simp add: tb_req_def tb_decide_def consume_def new_token_bucket_def)

text \<open>
  The retry estimate is exact. For a limiter with capacity at least one and a positive
  refill rate, asked without jitter at time \<open>now\<close>, \<open>seconds_until_token\<close> returns a wait \<open>w\<close>
  such that a request for one token at a later time is granted exactly when \<open>w\<close> seconds have
  passed (no request of that key in between).
\<close>

theorem seconds_until_token_exact:
  assumes "1 \<le> capacity tb" and "0 < refill_per_second tb" and "t0 \<le> now"
    and "now \<le> t1" and "t1 \<le> t2"
  shows "\<exists>w. seconds_until_token t0 now key 0 0 u tb = Inr w \<and>
    (fst (fst (consume t1 t2 key 1 tb)) \<longleftrightarrow> w \<le> t2 - now)"
proof (cases "buckets tb key")
  case None
  then show ?thesis
    using assms by (simp add: seconds_until_token_def consume_def min_def Let_def)
next
  case (Some b)
  obtain c l where b: "b = (c, l)" by (cases b)
  let ?r = "refill_per_second tb"
  let ?x = "c + (now - l) * ?r"
  have grow: "c + (t2 - l) * ?r = ?x + (t2 - now) * ?r" by (simp add: algebra_simps)
  have pos: "0 \<le> (t2 - now) * ?r" using assms by simp
  have cap: "1 \<le> (of_int (capacity tb) :: rat)" using assms(1) by simp
  have consume: "fst (fst (consume t1 t2 key 1 tb)) \<longleftrightarrow> 1 \<le> c + (t2 - l) * ?r"
    using Some b cap by (simp add: consume_def Let_def)
  show ?thesis
  proof (cases "1 \<le> ?x")
    case True
    then have "1 \<le> c + (t2 - l) * ?r" using grow pos by linarith
    with True Some b assms consume cap show ?thesis
      by (simp add: seconds_until_token_def Let_def)
  next
    case False
    then have "min (of_int (capacity tb)) ?x = ?x" using cap by linarith
    then have "seconds_until_token t0 now key 0 0 u tb = Inr ((1 - ?x) / ?r)"
      using False Some b assms(2)
      by (simp add: seconds_until_token_def Let_def apply_jitter_def uniform_def max_def)
    moreover have "(1 - ?x) / ?r \<le> t2 - now \<longleftrightarrow> 1 - ?x \<le> (t2 - now) * ?r"
      using assms(2) by (simp add: pos_divide_le_eq)
    ultimately show ?thesis
      using consume grow by (intro exI [of _ "(1 - ?x) / ?r"]) (simp, linarith)
  qed
qed

theorem seconds_until_token_exact_witness:
  "seconds_until_token 10 10 ''a'' 0 0 0
     \<lparr>capacity = 20, refill_per_second = 1 / 6, buckets = [''a'' \<mapsto> (0, 10)]\<rparr> = Inr 6 \<and>
   \<not> fst (fst (consume 15 15 ''a'' 1
     \<lparr>capacity = 20, refill_per_second = 1 / 6, buckets = [''a'' \<mapsto> (0, 10)]\<rparr>)) \<and>
   fst (fst (consume 16 16 ''a'' 1
     \<lparr>capacity = 20, refill_per_second = 1 / 6, buckets = [''a'' \<mapsto> (0, 10)]\<rparr>))"
proof -
  let ?tb = "\<lparr>capacity = 20, refill_per_second = 1 / 6, buckets = [''a'' \<mapsto> (0, 10)]\<rparr>"
  have w: "seconds_until_token 10 10 ''a'' 0 0 0 ?tb = Inr 6"
    by (simp add: seconds_until_token_def apply_jitter_def uniform_def)
  then show ?thesis
    using seconds_until_token_exact [of ?tb 10 10 15 15 "''a''" 0]
      seconds_until_token_exact [of ?tb 10 10 16 16 "''a''" 0] by simp
qed

subsection \<open>Sliding window\<close>

record sliding_window =
  sw_limit :: int
  window_seconds :: int
  windows :: "string \<rightharpoonup> seconds list"

definition new_sliding_window :: "int \<Rightarrow> int \<Rightarrow> sliding_window" where
  "new_sliding_window lmt secs = \<lparr>sw_limit = lmt, window_seconds = secs, windows = Map.empty\<rparr>"

text \<open>The eviction loop \<open>while window and window[0] < cutoff: window.popleft()\<close>.\<close>

fun evict :: "seconds \<Rightarrow> seconds list \<Rightarrow> seconds list" where
  "evict cutoff [] = []"
| "evict cutoff (t # ts) = (if t < cutoff then evict cutoff ts else t # ts)"

definition is_allowed :: "seconds \<Rightarrow> string \<Rightarrow> sliding_window \<Rightarrow> (bool \<times> int) \<times> sliding_window" where
  "is_allowed now key sw =
     (let window0 = (case windows sw key of None \<Rightarrow> [] | Some w \<Rightarrow> w);
          cutoff = now - of_int (window_seconds sw);
          window = evict cutoff window0;
          current_count = int (length window)
      in if current_count < sw_limit sw
         then ((True, sw_limit sw - current_count - 1),
               sw\<lparr>windows := (windows sw)(key \<mapsto> window @ [now])\<rparr>)
         else ((False, 0), sw\<lparr>windows := (windows sw)(key \<mapsto> window)\<rparr>))"

definition reset_in :: "seconds \<Rightarrow> string \<Rightarrow> seconds \<Rightarrow> seconds \<Rightarrow> rat \<Rightarrow> sliding_window \<Rightarrow> seconds" where
  "reset_in now key min_jitter max_jitter u sw =
     (case windows sw key of
        None \<Rightarrow> 0
      | Some [] \<Rightarrow> 0
      | Some (oldest # ts) \<Rightarrow>
          let reset_at = oldest + of_int (window_seconds sw);
              base = max 0 (reset_at - now)
          in apply_jitter base min_jitter max_jitter u)"

text \<open>A request is its time and its key.\<close>

definition sw_decide :: "seconds \<times> string \<Rightarrow> sliding_window \<Rightarrow> bool \<times> sliding_window" where
  "sw_decide r sw = (let res = is_allowed (fst r) (snd r) sw in (fst (fst res), snd res))"

type_synonym window_view = "int \<times> int \<times> seconds list"

definition sw_view :: "string \<Rightarrow> sliding_window \<Rightarrow> window_view" where
  "sw_view k sw =
     (sw_limit sw, window_seconds sw, case windows sw k of None \<Rightarrow> [] | Some w \<Rightarrow> w)"

fun sw_decide1 :: "seconds \<times> string \<Rightarrow> window_view \<Rightarrow> bool \<times> window_view" where
  "sw_decide1 (now, k) (lmt, secs, w) =
     (let w' = evict (now - of_int secs) w
      in if int (length w') < lmt then (True, (lmt, secs, w' @ [now])) else (False, (lmt, secs, w')))"

interpretation sw: keyed_limiter sw_decide snd sw_view sw_decide1
  by unfold_locales
     (auto simp: sw_decide_def sw_view_def is_allowed_def Let_def split: option.splits prod.splits)

text \<open>The times at which a key was admitted, and those of them since a moment.\<close>

definition admitted :: "string \<Rightarrow> ((seconds \<times> string) \<times> bool) list \<Rightarrow> seconds list" where
  "admitted k as = map (\<lambda>(r, a). fst r) (filter (\<lambda>(r, a). a \<and> snd r = k) as)"

fun sw_times_from :: "seconds \<Rightarrow> (seconds \<times> string) list \<Rightarrow> bool" where
  "sw_times_from t [] \<longleftrightarrow> True"
| "sw_times_from t (r # rs) \<longleftrightarrow> t \<le> fst r \<and> sw_times_from (fst r) rs"

lemma sw_times_from_mono: "sw_times_from t rs \<Longrightarrow> t' \<le> t \<Longrightarrow> sw_times_from t' rs"
  by (cases rs) auto

lemma sw_times_from_filter: "sw_times_from t rs \<Longrightarrow> sw_times_from t (filter P rs)"
  by (induction rs arbitrary: t) (auto intro: sw_times_from_mono)

lemma sw_times_from_all: "sw_times_from t rs \<Longrightarrow> r \<in> set rs \<Longrightarrow> t \<le> fst r"
  by (induction rs arbitrary: t) force+

lemma evict_filter: "sorted w \<Longrightarrow> evict c w = filter (\<lambda>t. c \<le> t) w"
  by (induction w) (auto simp: not_less intro!: filter_True [symmetric] intro: order_trans)

lemma evict_suffix: "\<exists>d. w = d @ evict c w \<and> (\<forall>t \<in> set d. t < c)"
proof (induction w)
  case (Cons t w)
  then obtain d where "w = d @ evict c w" "\<forall>t \<in> set d. t < c" by blast
  then show ?case
    by (cases "t < c") (auto intro!: exI [of _ "t # d"])
qed simp

text \<open>
  The window of a key always holds its admitted times since the last cutoff: a local run from a
  sorted history of admissions.
\<close>

lemma sw_run_window:
  assumes "sw_times_from t rs" "sorted adm" "\<forall>x \<in> set adm. x \<le> t" "0 \<le> secs"
    and "w = filter (\<lambda>x. c \<le> x) adm" "c \<le> t - of_int secs" "\<forall>r \<in> set rs. snd r = k"
  shows "\<exists>c' t'. final sw_decide1 rs (lmt, secs, w) =
      (lmt, secs, filter (\<lambda>x. c' \<le> x) (adm @ admitted k (answers sw_decide1 rs (lmt, secs, w)))) \<and>
    sorted (adm @ admitted k (answers sw_decide1 rs (lmt, secs, w))) \<and>
    (\<forall>now. sw_times_from t (rs @ [(now, k)]) \<longrightarrow> c' \<le> now - of_int secs)"
  using assms
proof (induction rs arbitrary: t adm w c)
  case Nil
  then show ?case by (auto simp: admitted_def intro!: exI [of _ c])
next
  case (Cons r rs)
  obtain now where r: "r = (now, k)" using Cons.prems(7) by (cases r) auto
  let ?c = "now - of_int secs"
  let ?w = "evict ?c w"
  have ev: "?w = filter (\<lambda>x. ?c \<le> x) adm"
    using Cons.prems(1,2,5,6) r
    by (auto simp: evict_filter sorted_wrt_filter intro!: filter_cong)
  have now: "t \<le> now" "sw_times_from now rs" using Cons.prems(1) r by auto
  have adm: "\<forall>x \<in> set adm. x \<le> now" using Cons.prems(3) now(1) by auto
  show ?case
  proof (cases "int (length ?w) < lmt")
    case True
    have "?w @ [now] = filter (\<lambda>x. ?c \<le> x) (adm @ [now])"
      using ev Cons.prems(4) by simp
    moreover have "sorted (adm @ [now])" "\<forall>x \<in> set (adm @ [now]). x \<le> now"
      using Cons.prems(2) adm by (auto simp: sorted_append)
    ultimately show ?thesis
      using Cons.IH [of now "adm @ [now]" "?w @ [now]" ?c] True now Cons.prems(4,7)
      by (auto simp: r admitted_def Let_def)
  next
    case False
    then show ?thesis
      using Cons.IH [of now adm ?w ?c] ev now adm Cons.prems(2,4,7)
      by (auto simp: r admitted_def Let_def)
  qed
qed

lemma sw_times_from_prefix: "sw_times_from t (xs @ ys) \<Longrightarrow> sw_times_from t xs"
  by (induction xs arbitrary: t) auto

lemma admitted_append: "admitted k (xs @ ys) = admitted k xs @ admitted k ys"
  by (simp add: admitted_def)

lemma admitted_local:
  "admitted k (answers sw_decide rs st) =
   admitted k (answers sw_decide1 (filter (\<lambda>r. snd r = k) rs) (sw_view k st))"
proof -
  have "admitted k as = admitted k (filter (\<lambda>(r, a). snd r = k) as)" for as
    by (induction as) (auto simp: admitted_def)
  then show ?thesis by (simp add: sw.isolation [symmetric])
qed

lemma sliding_exact_lemma:
  assumes "sw_times_from t0 (rs @ [(now, k)])" and "0 \<le> secs"
  shows "fst (sw_decide (now, k) (final sw_decide rs (new_sliding_window lmt secs))) \<longleftrightarrow>
    int (length (filter (\<lambda>t. now - of_int secs \<le> t)
      (admitted k (answers sw_decide rs (new_sliding_window lmt secs))))) < lmt"
proof -
  let ?rs = "filter (\<lambda>r. snd r = k) rs"
  let ?v = "(lmt, secs, [] :: seconds list)"
  let ?adm = "admitted k (answers sw_decide rs (new_sliding_window lmt secs))"
  have v0: "sw_view k (new_sliding_window lmt secs) = ?v"
    by (simp add: sw_view_def new_sliding_window_def)
  have times: "sw_times_from t0 (?rs @ [(now, k)])"
    using sw_times_from_filter [OF assms(1), of "\<lambda>r. snd r = k"] by simp
  have "sw_times_from t0 ?rs" by (rule sw_times_from_prefix [OF times])
  from sw_run_window [OF this, of "[]" secs "[]" "t0 - of_int secs" k lmt] assms(2)
  obtain c where fin: "final sw_decide1 ?rs ?v = (lmt, secs, filter (\<lambda>x. c \<le> x) ?adm)"
    and srt: "sorted ?adm" and c: "c \<le> now - of_int secs"
    using times by (auto simp: admitted_local v0)
  have "evict (now - of_int secs) (filter (\<lambda>x. c \<le> x) ?adm) =
      filter (\<lambda>t. now - of_int secs \<le> t) ?adm"
    using srt c by (auto simp: evict_filter sorted_wrt_filter intro!: filter_cong)
  then show ?thesis
    by (simp add: sw.own_answer sw.final_view v0 fin Let_def)
qed

text \<open>
  C11. The sliding window is exact. After any sequence of requests with a clock that does not go
  back, a request of key \<open>k\<close> at time \<open>now\<close> is admitted exactly when fewer than \<open>limit\<close>
  requests of \<open>k\<close> were admitted since \<open>now - window_seconds\<close>.
\<close>

theorem sliding_window_exact:
  assumes "sw_times_from t0 (rs @ [(now, k)])" and "0 \<le> secs"
  shows "fst (sw_decide (now, k) (final sw_decide rs (new_sliding_window lmt secs))) \<longleftrightarrow>
    int (length (filter (\<lambda>t. now - of_int secs \<le> t)
      (admitted k (answers sw_decide rs (new_sliding_window lmt secs))))) < lmt"
  by (rule sliding_exact_lemma [OF assms])

theorem sliding_window_exact_witness:
  "\<not> fst (sw_decide (59, ''a'')
      (final sw_decide [(0, ''a''), (10, ''b''), (30, ''a'')] (new_sliding_window 2 60))) \<and>
   fst (sw_decide (61, ''a'')
      (final sw_decide [(0, ''a''), (10, ''b''), (30, ''a'')] (new_sliding_window 2 60)))"
  using sliding_window_exact [of 0 "[(0, ''a''), (10, ''b''), (30, ''a'')]" 59 "''a''" 60 2]
    sliding_window_exact [of 0 "[(0, ''a''), (10, ''b''), (30, ''a'')]" 61 "''a''" 60 2]
  by (simp add: sw_decide_def is_allowed_def new_sliding_window_def admitted_def)

text \<open>
  The sliding window's rate. Over any sequence of requests with a clock that does not go
  back, at most \<open>limit\<close> requests of one key are admitted in any closed interval of
  \<open>window_seconds\<close>, wherever it starts.
\<close>

theorem sliding_window_rate:
  assumes "sw_times_from t0 rs" and "0 \<le> secs"
  shows "length (filter (\<lambda>t. a \<le> t \<and> t \<le> a + of_int secs)
      (admitted k (answers sw_decide rs (new_sliding_window lmt secs)))) \<le> nat lmt"
  using assms(1)
proof (induction rs rule: rev_induct)
  case Nil
  then show ?case by (simp add: admitted_def)
next
  case (snoc r rs)
  obtain now k' where r: "r = (now, k')" by (cases r)
  let ?adm = "admitted k (answers sw_decide rs (new_sliding_window lmt secs))"
  let ?in = "\<lambda>t. a \<le> t \<and> t \<le> a + of_int secs"
  have IH: "length (filter ?in ?adm) \<le> nat lmt"
    using snoc by (blast dest: sw_times_from_prefix)
  show ?case
  proof (cases "k' = k \<and> ?in now \<and>
      fst (sw_decide r (final sw_decide rs (new_sliding_window lmt secs)))")
    case False
    then have "filter ?in (admitted k
        [(r, fst (sw_decide r (final sw_decide rs (new_sliding_window lmt secs))))]) = []"
      by (auto simp: r admitted_def)
    with IH show ?thesis
      by (simp add: answers_append admitted_append)
  next
    case True
    have "length (filter ?in ?adm) \<le> length (filter (\<lambda>t. now - of_int secs \<le> t) ?adm)"
      using True by (intro length_filter_weaken) auto
    moreover have "int (length (filter (\<lambda>t. now - of_int secs \<le> t) ?adm)) < lmt"
      using sliding_exact_lemma [of t0 rs now k secs lmt] snoc.prems assms(2) True r by auto
    ultimately show ?thesis
      using True by (simp add: answers_append admitted_append) (simp add: r admitted_def)
  qed
qed

theorem sliding_window_rate_witness:
  "length (filter (\<lambda>t. 5 \<le> t \<and> t \<le> 15) (admitted ''a''
      (answers sw_decide [(4, ''a''), (6, ''a''), (8, ''a''), (15, ''a''), (16, ''a'')]
        (new_sliding_window 2 10)))) \<le> 2 \<and>
   admitted ''a'' (answers sw_decide [(4, ''a''), (6, ''a''), (8, ''a''), (15, ''a''), (16, ''a'')]
        (new_sliding_window 2 10)) = [4, 6, 15]"
  using sliding_window_rate [of 0 "[(4, ''a''), (6, ''a''), (8, ''a''), (15, ''a''), (16, ''a'')]"
      10 5 "''a''" 2]
  by (simp add: sw_decide_def is_allowed_def new_sliding_window_def admitted_def)

text \<open>
  The sliding window's retry estimate. When the window of a key is full and its oldest entry
  has not expired, \<open>reset_in\<close> (without jitter) gives a wait \<open>w\<close> such that a later request is
  admitted exactly when strictly more than \<open>w\<close> seconds have passed: a client that comes back
  after exactly \<open>w\<close> seconds is still denied, because the eviction is strict.
\<close>

theorem reset_in_strict:
  assumes "windows sw key = Some (oldest # ts)" and "sorted (oldest # ts)"
    and "int (length (oldest # ts)) = sw_limit sw"
    and "now \<le> oldest + of_int (window_seconds sw)" and "now \<le> t"
  shows "fst (fst (is_allowed t key sw)) \<longleftrightarrow> now + reset_in now key 0 0 u sw < t"
proof -
  have w: "now + reset_in now key 0 0 u sw = oldest + of_int (window_seconds sw)"
    using assms(1,4) by (simp add: reset_in_def apply_jitter_def uniform_def Let_def)
  have "length (evict c ts) \<le> length ts" for c
    using evict_suffix [of ts c] by (metis length_append le_add2)
  then have "int (length (evict (t - of_int (window_seconds sw)) (oldest # ts))) < sw_limit sw
      \<longleftrightarrow> oldest < t - of_int (window_seconds sw)"
    using assms(3) by (auto intro: le_less_trans [of _ "int (length ts)"])
  then show ?thesis
    using assms(1) w by (auto simp: is_allowed_def Let_def)
qed

theorem reset_in_strict_witness:
  "reset_in 40 ''a'' 0 0 0 \<lparr>sw_limit = 2, window_seconds = 60, windows = [''a'' \<mapsto> [0, 30]]\<rparr> = 20 \<and>
   \<not> fst (fst (is_allowed 60 ''a''
      \<lparr>sw_limit = 2, window_seconds = 60, windows = [''a'' \<mapsto> [0, 30]]\<rparr>)) \<and>
   fst (fst (is_allowed 61 ''a''
      \<lparr>sw_limit = 2, window_seconds = 60, windows = [''a'' \<mapsto> [0, 30]]\<rparr>))"
proof -
  let ?sw = "\<lparr>sw_limit = 2, window_seconds = 60, windows = [''a'' \<mapsto> [0, 30]]\<rparr>"
  have "reset_in 40 ''a'' 0 0 0 ?sw = 20"
    by (simp add: reset_in_def apply_jitter_def uniform_def)
  then show ?thesis
    using reset_in_strict [of ?sw "''a''" 0 "[30]" 40 60 0]
      reset_in_strict [of ?sw "''a''" 0 "[30]" 40 61 0] by simp
qed

end
