(* ===== verification/Cursor_Pages.thy ===== *)
theory Cursor_Pages
  imports Crud "HOL-Library.Product_Lexorder"
begin

text \<open>
  Cursor pagination (\<open>get_records_cursor_paginated\<close> of \<open>ingestor/crud.py\<close>): the cursor's codec, the
  meaning of one page, and the client's loop \<open>repeat until has_more=false\<close> over a table that may
  change between its requests.
\<close>

subsection \<open>The cursor\<close>

lemma cursor_decodes:
  assumes "valid_datetime t"
  shows "decode_cursor (Some (encode_cursor i (Some t))) = Inr (Some (JInt i, Some t))"
proof -
  have "isoformat t \<noteq> []" by (auto simp: isoformat_def Let_def pad_def split: prod.splits)
  then have "cursor_body (encode_cursor i (Some t)) = Inr (JInt i, Some t)"
    using utf8_ascii [OF cursor_json_ascii [of i "Some t"]] fromisoformat_isoformat [OF assms]
    by (simp add: cursor_body_def encode_cursor_def json_loads_cursor obj_get_def)
  moreover have "encode_cursor i (Some t) \<noteq> []"
    using utf8_ascii [OF cursor_json_ascii [of i "Some t"]]
    by (simp add: encode_cursor_def cursor_json_def)
  ultimately show ?thesis by (simp add: decode_cursor_def)
qed

text \<open>
  C39. Cursors decode to what they encode: for every id and every timestamp that Python can
  represent, \<open>_decode_cursor\<close> of \<open>_encode_cursor\<close> gives the pair back, through base64, UTF-8, JSON
  and the ISO format.
\<close>

theorem cursor_roundtrip:
  assumes "valid_datetime t"
  shows "decode_cursor (Some (encode_cursor i (Some t))) = Inr (Some (JInt i, Some t))"
  by (rule cursor_decodes [OF assms])

theorem cursor_roundtrip_witness:
  "decode_cursor (Some (encode_cursor 42 (Some 63072000000001))) =
    Inr (Some (JInt 42, Some 63072000000001))"
  by (rule cursor_roundtrip) (simp add: valid_datetime_def micros_per_day_def)

text \<open>
  Not every invalid cursor is ignored. The docstring says that an invalid cursor decodes to
  \<open>None\<close>; a cursor that holds a JSON number raises \<open>AttributeError\<close>, one whose timestamp is a number
  raises \<open>TypeError\<close>, and one without a timestamp makes the query itself fail.
\<close>

theorem bad_cursor_raises:
  "decode_cursor (Some (b64encode ''5'')) =
     Inl (AttributeError ''object has no attribute get: int'') \<and>
   decode_cursor (Some (b64encode (''{'' @ [CHR 0x22] @ ''timestamp'' @ [CHR 0x22] @ '':7}''))) =
     Inl (TypeError ''fromisoformat: argument must be str'') \<and>
   get_records_cursor_paginated E (Some (encode_cursor 3 None)) lmt src db =
     Inl (OtherException ''ArgumentError'')"
proof -
  have "decode_cursor (Some (encode_cursor 3 None)) = Inr (Some (JInt 3, None))"
    using utf8_ascii [OF cursor_json_ascii [of 3 None]]
    by (simp add: decode_cursor_def cursor_body_def encode_cursor_def json_loads_cursor obj_get_def)
       (simp add: cursor_json_def)
  then have 3: "get_records_cursor_paginated E (Some (encode_cursor 3 None)) lmt src db =
      Inl (OtherException ''ArgumentError'')"
    by (simp add: get_records_cursor_paginated_def)
  have 1: "decode_cursor (Some (b64encode ''5'')) =
      Inl (AttributeError ''object has no attribute get: int'')"
    by code_simp
  have 2: "decode_cursor (Some (b64encode (''{'' @ [CHR 0x22] @ ''timestamp'' @ [CHR 0x22] @ '':7}''))) =
      Inl (TypeError ''fromisoformat: argument must be str'')"
    by code_simp
  show ?thesis using 1 2 3 by simp
qed

subsection \<open>One page\<close>

definition pos :: "row \<Rightarrow> int \<times> int" where
  "pos r = (r_timestamp r, r_id r)"

definition later_pos :: "(int \<times> int) option \<Rightarrow> int \<times> int \<Rightarrow> bool" where
  "later_pos c q \<longleftrightarrow> (case c of None \<Rightarrow> True | Some p \<Rightarrow> p < q)"

definition later_than :: "(int \<times> int) option \<Rightarrow> row \<Rightarrow> bool" where
  "later_than c r \<longleftrightarrow> (case c of None \<Rightarrow> True | Some p \<Rightarrow> p < pos r)"

definition cursor_at :: "(int \<times> int) option \<Rightarrow> string option" where
  "cursor_at c = map_option (\<lambda>(t, i). encode_cursor i (Some t)) c"

definition valid_pos :: "(int \<times> int) option \<Rightarrow> bool" where
  "valid_pos c \<longleftrightarrow> (case c of None \<Rightarrow> True | Some (t, i) \<Rightarrow> valid_datetime t)"

abbreviation page_order :: order_by where
  "page_order \<equiv> [(ColTimestamp, False), (ColId, False)]"

text \<open>The active rows of a source in the order of the pages.\<close>

definition active_listing :: "string option \<Rightarrow> row list \<Rightarrow> row list" where
  "active_listing src rs = listing page_order (DeletedIsNull # source_filter src) rs"

lemma active_listing_set:
  "set (active_listing src rs) = {r \<in> set rs. r_deleted_at r = None \<and> matches (source_filter src) r}"
  by (auto simp: active_listing_def)

lemma ord_le_pos: "ord_le page_order a b \<longleftrightarrow> pos a \<le> pos b"
  by (auto simp: pos_def Let_def)

lemma active_listing_sorted:
  assumes "distinct (map r_id rs)"
  shows "sorted_wrt (\<lambda>a b. pos a < pos b) (active_listing src rs)"
proof -
  have "sorted_wrt (\<lambda>a b. pos a \<le> pos b) (active_listing src rs)"
    unfolding active_listing_def
    by (rule sorted_wrt_mono_rel [OF _ listing_sorted [of page_order]]) (simp only: ord_le_pos)
  then have "sorted (map pos (active_listing src rs))" by (simp add: sorted_map)
  moreover have "distinct (map pos (active_listing src rs))"
  proof -
    have "mset (active_listing src rs) = mset (filter (matches (DeletedIsNull # source_filter src)) rs)"
      by (simp add: active_listing_def listing_def)
    then have "distinct (map r_id (active_listing src rs))"
      using distinct_map_filter [OF assms] by (metis mset_eq_imp_distinct_iff mset_map)
    then show ?thesis by (auto simp: distinct_map pos_def inj_on_def)
  qed
  ultimately have "sorted_wrt (<) (map pos (active_listing src rs))"
    by (simp add: strict_sorted_iff)
  then show ?thesis by (simp add: sorted_wrt_map)
qed

context record_store
begin

lemma page_meaning:
  fixes src :: "string option"
  assumes "db_ok E db" "1 \<le> lmt" "valid_pos c"
  defines "A \<equiv> filter (later_than c) (active_listing src (rows E db))"
  shows "get_records_cursor_paginated E (cursor_at c) lmt src db =
    Inr (take (nat lmt) A,
         if nat lmt < length A then cursor_at (Some (pos (last (take (nat lmt) A)))) else None,
         nat lmt < length A)"
proof -
  define after where
    "after = (case c of None \<Rightarrow> [] | Some (t, i) \<Rightarrow> [COr (TimestampGt t) (CAnd (TimestampEq t) (IdGt i))])"
  have dec: "decode_cursor (cursor_at c) =
      Inr (map_option (\<lambda>(t, i). (JInt i, Some t)) c)"
  proof (cases c)
    case None
    then show ?thesis by (simp add: cursor_at_def decode_cursor_def)
  next
    case (Some p)
    then show ?thesis
      using assms(3) cursor_decodes [of "fst p" "snd p"]
      by (simp add: cursor_at_def valid_pos_def case_prod_beta)
  qed
  have aft: "(case map_option (\<lambda>(t, i). (JInt i, Some t)) c of None \<Rightarrow> Inr []
      | Some c \<Rightarrow> map_sum id (\<lambda>x. [x]) (cursor_cond c)) = Inr after"
    by (auto simp: after_def split: option.splits prod.splits)
  have m: "matches (DeletedIsNull # after @ source_filter src) r \<longleftrightarrow>
      matches (DeletedIsNull # source_filter src) r \<and> later_than c r" for r
    by (auto simp: after_def later_than_def pos_def split: option.splits prod.splits)
  have "listing page_order (DeletedIsNull # after @ source_filter src) (rows E db) = A"
  proof (rule sorted_unique [OF listing_sorted])
    show "sorted_wrt (ord_le page_order) A"
      unfolding A_def active_listing_def by (intro sorted_wrt_filter listing_sorted)
    show "mset (listing page_order (DeletedIsNull # after @ source_filter src) (rows E db)) = mset A"
      unfolding A_def active_listing_def listing_def m
      by (simp add: filter_filter_mset conj_ac)
    fix a b
    assume "a \<in> set (listing page_order (DeletedIsNull # after @ source_filter src) (rows E db))"
      "b \<in> set (listing page_order (DeletedIsNull # after @ source_filter src) (rows E db))"
      "ord_le page_order a b" "ord_le page_order b a"
    then show "a = b"
      using ids_unique [OF assms(1), of a b] by (simp only: ord_le_pos listing_set) (auto simp: pos_def)
  qed
  then have sel: "sql_select E (page_query after src lmt) db = Inr (take (nat (lmt + 1)) A)"
    using select_listing [OF assms(1), of False "page_query after src lmt"]
    by (simp add: page_query_def window_def)
  have n: "nat (lmt + 1) = Suc (nat lmt)" using assms(2) by simp
  have more: "lmt < int (length (take (Suc (nat lmt)) A)) \<longleftrightarrow> nat lmt < length A"
    using assms(2) by auto
  have tk: "take (nat lmt) (take (Suc (nat lmt)) A) = take (nat lmt) A" by simp
  have ne: "nat lmt < length A \<Longrightarrow> take (nat lmt) A \<noteq> []" using assms(2) by auto
  show ?thesis
    using ne unfolding get_records_cursor_paginated_def dec try_bind_simps aft sel n Let_def more tk
    by (auto simp: cursor_at_def pos_def)
qed

end

subsection \<open>The client's loop\<close>

text \<open>
  The loop of the endpoint's documentation: one page per request, the cursor of the answer sent
  with the next one, until \<open>has_more\<close> is false. Each request meets the table as it is then; the
  result is the pages and whether the loop came to its end.
\<close>

fun client_walk ::
  "'db engine \<Rightarrow> int \<Rightarrow> string option \<Rightarrow> string option \<Rightarrow> 'db list \<Rightarrow> (row list list \<times> bool) outcome"
where
  "client_walk E lmt src cursor [] = Inr ([], False)"
| "client_walk E lmt src cursor (db # dbs) =
     try_bind (get_records_cursor_paginated E cursor lmt src db) (\<lambda>(records, next_cursor, has_more).
       if has_more
       then map_sum id (\<lambda>(pages, fin). (records # pages, fin)) (client_walk E lmt src next_cursor dbs)
       else Inr ([records], True))"

lemma last_take_pos:
  assumes "sorted_wrt (\<lambda>a b. pos a < pos b) A" "n < length A" "0 < n"
  shows "x \<in> set (take n A) \<Longrightarrow> pos x \<le> pos (last (take n A))"
    and "x \<in> set (drop n A) \<Longrightarrow> pos (last (take n A)) < pos x"
proof -
  have split: "A = take n A @ drop n A" by simp
  have ne: "take n A \<noteq> []" using assms by auto
  then have bl: "take n A = butlast (take n A) @ [last (take n A)]" by simp
  have st: "sorted_wrt (\<lambda>a b. pos a < pos b) (butlast (take n A) @ [last (take n A)])"
    using assms(1) by (metis bl split sorted_wrt_append)
  show "pos x \<le> pos (last (take n A))" if "x \<in> set (take n A)"
  proof -
    have "x \<in> set (butlast (take n A)) \<or> x = last (take n A)" using that bl by (metis Un_iff empty_iff empty_set set_ConsD set_append)
    then show ?thesis using st by (auto simp: sorted_wrt_append intro: less_imp_le)
  qed
  show "pos (last (take n A)) < pos x" if "x \<in> set (drop n A)"
    using assms(1) that ne by (metis last_in_set split sorted_wrt_append)
qed

lemma later_filter_drop:
  assumes "sorted_wrt (\<lambda>a b. pos a < pos b) A" "n < length A" "0 < n"
  shows "filter (\<lambda>r. pos (last (take n A)) < pos r) A = drop n A"
proof -
  have "filter (\<lambda>r. pos (last (take n A)) < pos r) (take n A) = []"
    using last_take_pos(1) [OF assms] by (auto simp: filter_empty_conv not_less)
  moreover have "filter (\<lambda>r. pos (last (take n A)) < pos r) (drop n A) = drop n A"
    using last_take_pos(2) [OF assms] by (auto intro: filter_True)
  ultimately show ?thesis by (metis append_Nil append_take_drop_id filter_append)
qed

context record_store
begin

lemma active_sorted:
  "db_ok E db \<Longrightarrow> sorted_wrt (\<lambda>a b. pos a < pos b) (filter (later_than c) (active_listing src (rows E db)))"
  using keys_unique by (intro sorted_wrt_filter active_listing_sorted) blast

lemma next_valid:
  assumes "\<forall>r \<in> set (rows E db). valid_datetime (r_timestamp r)"
    and "x \<in> set (filter (later_than c) (active_listing src (rows E db)))"
  shows "valid_pos (Some (pos x))"
  using assms by (auto simp: active_listing_set valid_pos_def pos_def)

lemma static_walk:
  assumes "db_ok E db" "1 \<le> lmt" "valid_pos c"
    and "\<forall>r \<in> set (rows E db). valid_datetime (r_timestamp r)"
    and "length (filter (later_than c) (active_listing src (rows E db))) < k"
  shows "\<exists>pages. client_walk E lmt src (cursor_at c) (replicate k db) = Inr (pages, True) \<and>
    concat pages = filter (later_than c) (active_listing src (rows E db)) \<and>
    (\<forall>p \<in> set pages. length p \<le> nat lmt)"
  using assms(3,5)
proof (induction k arbitrary: c)
  case (Suc k)
  let ?A = "filter (later_than c) (active_listing src (rows E db))"
  let ?n = "nat lmt"
  note page = page_meaning [OF assms(1,2) Suc.prems(1), of src]
  show ?case
  proof (cases "?n < length ?A")
    case False
    then show ?thesis using page by simp
  next
    case True
    let ?c = "Some (pos (last (take ?n ?A)))"
    have n0: "0 < ?n" using assms(2) by simp
    have "last (take ?n ?A) \<in> set (take ?n ?A)" using True n0 by (intro last_in_set) auto
    then have lst: "last (take ?n ?A) \<in> set ?A" by (rule in_set_takeD)
    have v: "valid_pos ?c" using next_valid [OF assms(4) lst] .
    have f: "filter (later_than ?c) (active_listing src (rows E db)) = drop ?n ?A"
    proof -
      have "filter (later_than ?c) (active_listing src (rows E db)) =
          filter (\<lambda>r. pos (last (take ?n ?A)) < pos r) ?A"
        using lst by (auto simp: later_than_def split: option.splits intro!: filter_cong)
      then show ?thesis using later_filter_drop [OF active_sorted [OF assms(1)] True n0] by simp
    qed
    have "length (filter (later_than ?c) (active_listing src (rows E db))) < k"
      using Suc.prems(2) True n0 unfolding f by simp
    from Suc.IH [OF v this] obtain pages where
      "client_walk E lmt src (cursor_at ?c) (replicate k db) = Inr (pages, True)"
      "concat pages = drop ?n ?A" "\<forall>p \<in> set pages. length p \<le> ?n"
      unfolding f by blast
    then show ?thesis
      using page True by (intro exI [of _ "take ?n ?A # pages"]) simp
  qed
qed simp

text \<open>A row that stays in the table is met once, when the walk starts before it.\<close>

lemma stable_walk:
  assumes "1 \<le> lmt" "valid_pos c"
    and "\<forall>db \<in> set dbs. db_ok E db \<and> (\<exists>r \<in> set (active_listing src (rows E db)). pos r = (t, i)) \<and>
      (\<forall>x \<in> set (rows E db). valid_datetime (r_timestamp x))"
    and "client_walk E lmt src (cursor_at c) dbs = Inr (pages, True)"
  shows "length (filter (\<lambda>x. r_id x = i) (concat pages)) = (if later_pos c (t, i) then 1 else 0)"
  using assms(2-4)
proof (induction dbs arbitrary: c pages)
  case (Cons db dbs)
  let ?A = "filter (later_than c) (active_listing src (rows E db))"
  let ?n = "nat lmt"
  let ?me = "\<lambda>x. r_id x = i"
  obtain r where db: "db_ok E db" "r \<in> set (active_listing src (rows E db))"
    "\<forall>x \<in> set (rows E db). valid_datetime (r_timestamp x)" and r: "pos r = (t, i)"
    using Cons.prems(2) by auto
  have ri: "r_id r = i" using r by (simp add: pos_def)
  have lp: "later_than d r = later_pos d (t, i)" for d
    by (simp add: later_than_def later_pos_def r split: option.split)
  have me: "x \<in> set ?A \<Longrightarrow> ?me x \<longleftrightarrow> x = r" for x
    using ids_unique [OF db(1)] db(2) ri by (auto simp: active_listing_set)
  have dist: "distinct ?A"
    using active_sorted [OF db(1), of c src] by (metis (no_types, lifting) distinct_conv_nth nat_neq_iff
        order_less_irrefl sorted_wrt_nth_less)
  have cnt: "length (filter ?me xs) = (if r \<in> set xs then 1 else 0)" if "set xs \<subseteq> set ?A" "distinct xs" for xs
  proof -
    have "filter ?me xs = filter (\<lambda>x. x = r) xs" using that(1) me by (intro filter_cong) auto
    moreover have "length (filter (\<lambda>x. x = r) ys) = (if r \<in> set ys then 1 else 0)" if "distinct ys" for ys
      using that by (induction ys) auto
    ultimately show ?thesis using that(2) by simp
  qed
  have inA: "r \<in> set ?A \<longleftrightarrow> later_pos c (t, i)" using db(2) by (simp add: lp)
  note page = page_meaning [OF db(1) assms(1) Cons.prems(1), of src]
  show ?case
  proof (cases "?n < length ?A")
    case False
    then have "pages = [?A]" using page Cons.prems(3) by simp
    then show ?thesis using cnt [OF order_refl dist] inA by simp
  next
    case True
    let ?l = "last (take ?n ?A)"
    have n0: "0 < ?n" using assms(1) by simp
    have lin: "?l \<in> set (take ?n ?A)" using True n0 by (intro last_in_set) auto
    then have lst: "?l \<in> set ?A" by (rule in_set_takeD)
    have v: "valid_pos (Some (pos ?l))" using next_valid [OF db(3) lst] .
    obtain pages' where p: "pages = take ?n ?A # pages'"
      "client_walk E lmt src (cursor_at (Some (pos ?l))) dbs = Inr (pages', True)"
      using page Cons.prems(3) True
      by (cases "client_walk E lmt src (cursor_at (Some (pos ?l))) dbs") auto
    have IH: "length (filter ?me (concat pages')) = (if later_pos (Some (pos ?l)) (t, i) then 1 else 0)"
      using Cons.IH [OF v _ p(2)] Cons.prems(2) by auto
    have here: "length (filter ?me (take ?n ?A)) = (if r \<in> set (take ?n ?A) then 1 else 0)"
      using dist by (intro cnt set_take_subset distinct_take)
    have ord: "r \<in> set (take ?n ?A) \<Longrightarrow> \<not> pos ?l < pos r" "r \<in> set (drop ?n ?A) \<Longrightarrow> pos ?l < pos r"
      using last_take_pos [OF active_sorted [OF db(1)] True n0, of r] by (auto simp: not_less)
    have "set ?A = set (take ?n ?A) \<union> set (drop ?n ?A)" by (metis append_take_drop_id set_append)
    moreover have "\<not> later_pos c (t, i) \<Longrightarrow> \<not> pos ?l < pos r"
      using lst by (auto simp: later_than_def later_pos_def r split: option.splits)
    ultimately show ?thesis
      using p(1) IH here ord inA r by (auto simp: later_pos_def [of "Some p" for p] split: if_splits)
  qed
qed simp

end

text \<open>
  C5. A walk over an unchanged table is complete. Over a lawful engine, with any page size of at least
  one, the loop ends after at most one request per row and one more, the pages joined are
  exactly the active rows of the source in strictly increasing order of (timestamp, id), and no page
  is longer than the limit.
\<close>

theorem cursor_walk_complete:
  assumes "record_store E" and "db_ok E db" and "1 \<le> lmt"
    and "\<forall>r \<in> set (rows E db). valid_datetime (r_timestamp r)"
  shows "\<exists>pages. client_walk E lmt src None (replicate (Suc (length (rows E db))) db) = Inr (pages, True) \<and>
    sorted_wrt (\<lambda>a b. (r_timestamp a, r_id a) < (r_timestamp b, r_id b)) (concat pages) \<and>
    set (concat pages) = {r \<in> set (rows E db). r_deleted_at r = None \<and>
      (\<forall>s. src = Some s \<longrightarrow> s \<noteq> [] \<longrightarrow> r_source r = s)} \<and>
    (\<forall>p \<in> set pages. length p \<le> nat lmt)"
proof -
  have all: "filter (later_than None) xs = xs" for xs by (simp add: later_than_def)
  have "length (active_listing src (rows E db)) < Suc (length (rows E db))"
    by (simp add: active_listing_def listing_length le_imp_less_Suc)
  then obtain pages where
    "client_walk E lmt src (cursor_at None) (replicate (Suc (length (rows E db))) db) = Inr (pages, True)"
    "concat pages = active_listing src (rows E db)" "\<forall>p \<in> set pages. length p \<le> nat lmt"
    using record_store.static_walk [OF assms(1-3) _ assms(4), of None src "Suc (length (rows E db))"]
    unfolding all by (auto simp: valid_pos_def)
  moreover have "sorted_wrt (\<lambda>a b. (r_timestamp a, r_id a) < (r_timestamp b, r_id b))
      (active_listing src (rows E db))"
    using record_store.active_sorted [OF assms(1,2), of None src] unfolding all pos_def .
  moreover have "set (active_listing src (rows E db)) = {r \<in> set (rows E db). r_deleted_at r = None \<and>
      (\<forall>s. src = Some s \<longrightarrow> s \<noteq> [] \<longrightarrow> r_source r = s)}"
    by (auto simp: active_listing_set source_filter_def split: option.splits if_splits)
  ultimately show ?thesis by (intro exI [of _ pages]) (simp add: cursor_at_def)
qed

definition three_rows :: mem_db where
  "three_rows = \<lparr>stored = map (\<lambda>(i, s, t). (record_of 0 \<lparr>source = s, timestamp = t, data = [],
     tags = []\<rparr>)\<lparr>r_id := i\<rparr>) [(1, ''a'', 5), (2, ''a'', 3), (3, ''b'', 5)], next_id = 4\<rparr>"

lemma three_rows_ok:
  "db_ok mem_engine three_rows" "\<forall>r \<in> set (rows mem_engine three_rows). valid_datetime (r_timestamp r)"
  "length (rows mem_engine three_rows) = 3"
  "\<forall>r \<in> set (rows mem_engine three_rows). r_deleted_at r = None"
  "r_id ` set (rows mem_engine three_rows) = {1, 2, 3}"
  by (auto simp: mem_engine_def mem_ok_def three_rows_def record_of_def row_key_def
      valid_datetime_def micros_per_day_def)

theorem cursor_walk_complete_witness:
  "\<exists>pages. client_walk mem_engine 2 None None (replicate 4 three_rows) = Inr (pages, True) \<and>
     r_id ` set (concat pages) = {1, 2, 3} \<and> (\<forall>p \<in> set pages. length p \<le> 2)"
proof -
  obtain pages where p: "client_walk mem_engine 2 None None
      (replicate (Suc (length (rows mem_engine three_rows))) three_rows) = Inr (pages, True)"
    "set (concat pages) = {r \<in> set (rows mem_engine three_rows). r_deleted_at r = None \<and>
      (\<forall>s. (None :: string option) = Some s \<longrightarrow> s \<noteq> [] \<longrightarrow> r_source r = s)}"
    "\<forall>p \<in> set pages. length p \<le> nat 2"
    using cursor_walk_complete [OF mem.record_store_axioms three_rows_ok(1) _ three_rows_ok(2), of 2 None]
    by auto
  have "r_id ` set (concat pages) = {1, 2, 3}"
  proof -
    have "set (concat pages) = set (rows mem_engine three_rows)" unfolding p(2) using three_rows_ok(4) by auto
    then show ?thesis using three_rows_ok(5) by simp
  qed
  then show ?thesis using p(1,3) unfolding three_rows_ok(3)
    by (intro exI [of _ pages]) (auto simp: eval_nat_numeral)
qed

text \<open>
  C26. Pagination is stable under concurrent writes. Whatever rows are inserted, changed or deleted
  between the requests of a walk, a record that keeps its id, source and timestamp and stays
  active in every table the walk meets is returned exactly once.
\<close>

theorem cursor_walk_stable:
  assumes "record_store E" and "1 \<le> lmt"
    and "\<forall>db \<in> set dbs. db_ok E db \<and> (\<forall>x \<in> set (rows E db). valid_datetime (r_timestamp x)) \<and>
      (\<exists>r \<in> set (rows E db). r_id r = i \<and> row_key r = (s, t) \<and> r_deleted_at r = None)"
    and "src = None \<or> src = Some s"
    and "client_walk E lmt src None dbs = Inr (pages, True)"
  shows "length (filter (\<lambda>x. r_id x = i) (concat pages)) = 1"
proof -
  have "\<exists>r \<in> set (active_listing src (rows E db)). pos r = (t, i)" if "db \<in> set dbs" for db
  proof -
    obtain r where "r \<in> set (rows E db)" "r_id r = i" "row_key r = (s, t)" "r_deleted_at r = None"
      using assms(3) \<open>db \<in> set dbs\<close> by blast
    then show ?thesis
      using assms(4) by (intro bexI [of _ r])
        (auto simp: active_listing_set source_filter_def row_key_def pos_def split: option.splits)
  qed
  then show ?thesis
    using record_store.stable_walk [OF assms(1,2), of None dbs src t i pages] assms(3,5)
    by (simp add: valid_pos_def cursor_at_def later_pos_def)
qed

definition grown_rows :: mem_db where
  "grown_rows = \<lparr>stored = tl (stored three_rows) @ [(record_of 1 \<lparr>source = ''c'', timestamp = 4,
     data = [], tags = []\<rparr>)\<lparr>r_id := 4\<rparr>], next_id = 5\<rparr>"

lemma grown_rows_ok:
  "db_ok mem_engine grown_rows" "\<forall>r \<in> set (rows mem_engine grown_rows). valid_datetime (r_timestamp r)"
  by (auto simp: mem_engine_def mem_ok_def grown_rows_def three_rows_def record_of_def row_key_def
      valid_datetime_def micros_per_day_def)

lemma growing_pages:
  "length (filter (later_than None) (active_listing None (stored three_rows))) = 3"
  "pos (last (take 2 (filter (later_than None) (active_listing None (stored three_rows))))) = (5, 1)"
  "length (filter (later_than (Some (5, 1))) (active_listing None (stored grown_rows))) = 1"
  by code_simp+

lemma walk_while_growing:
  "\<exists>pages. client_walk mem_engine 2 None None [three_rows, grown_rows] = Inr (pages, True)"
proof -
  have m: "rows mem_engine = stored" by (simp add: mem_engine_def)
  have v: "valid_pos None" "valid_pos (Some (5, 1))"
    by (simp_all add: valid_pos_def valid_datetime_def micros_per_day_def)
  show ?thesis
    using mem.page_meaning [OF three_rows_ok(1) _ v(1), of 2 None]
      mem.page_meaning [OF grown_rows_ok(1) _ v(2), of 2 None]
    by (simp add: m growing_pages cursor_at_def)
qed

theorem cursor_walk_stable_witness:
  "\<exists>pages. client_walk mem_engine 2 None None [three_rows, grown_rows] = Inr (pages, True) \<and>
     length (filter (\<lambda>x. r_id x = 3) (concat pages)) = 1"
proof -
  obtain pages where p: "client_walk mem_engine 2 None None [three_rows, grown_rows] = Inr (pages, True)"
    using walk_while_growing by blast
  have "\<forall>db \<in> set [three_rows, grown_rows]. db_ok mem_engine db \<and>
      (\<forall>x \<in> set (rows mem_engine db). valid_datetime (r_timestamp x)) \<and>
      (\<exists>r \<in> set (rows mem_engine db). r_id r = 3 \<and> row_key r = (''b'', 5) \<and> r_deleted_at r = None)"
    using three_rows_ok(1,2) grown_rows_ok
    by (simp add: mem_engine_def three_rows_def grown_rows_def record_of_def row_key_def)
  from cursor_walk_stable [OF mem.record_store_axioms _ this _ p] p show ?thesis by auto
qed

end
