(* ===== verification/Records_V2.thy ===== *)
theory Records_V2
  imports Rate_Limits Cursor_Pages Crud_Laws Cache Auth
begin

text \<open>
  The endpoints of \<open>ingestor/routers/records_v2.py\<close>: creation behind the two limiters and behind a
  JWT, the N+1 demonstration, cursor pages, enrichment and upserts. The limiters are the
  module-level singletons, part of the state. Clock readings and random draws are arguments; the
  durations of the demonstration are differences of given readings.
\<close>

definition TOKEN_BUCKET_CAPACITY :: int where "TOKEN_BUCKET_CAPACITY = 20"
definition TOKEN_BUCKET_REFILL_PER_SEC :: rat where "TOKEN_BUCKET_REFILL_PER_SEC = 10 / 60"
definition SLIDING_WINDOW_LIMIT :: int where "SLIDING_WINDOW_LIMIT = 10"
definition SLIDING_WINDOW_SECONDS :: int where "SLIDING_WINDOW_SECONDS = 60"
definition JITTER_MIN_SECONDS :: seconds where "JITTER_MIN_SECONDS = 5"
definition JITTER_MAX_SECONDS :: seconds where "JITTER_MAX_SECONDS = 10"
definition UPSERT_MODE_IDEMPOTENT :: string where "UPSERT_MODE_IDEMPOTENT = ''idempotent''"
definition UPSERT_MODE_STRICT :: string where "UPSERT_MODE_STRICT = ''strict''"

lemmas v2_constants =
  TOKEN_BUCKET_CAPACITY_def TOKEN_BUCKET_REFILL_PER_SEC_def SLIDING_WINDOW_LIMIT_def
  SLIDING_WINDOW_SECONDS_def JITTER_MIN_SECONDS_def JITTER_MAX_SECONDS_def

record 'db v2_state =
  v_db :: 'db
  v_bucket :: token_bucket
  v_window :: sliding_window
  v_metrics :: "(string \<times> int) list"

definition initial_v2 :: "'db \<Rightarrow> 'db v2_state" where
  "initial_v2 db = \<lparr>v_db = db,
     v_bucket = new_token_bucket TOKEN_BUCKET_CAPACITY TOKEN_BUCKET_REFILL_PER_SEC,
     v_window = new_sliding_window SLIDING_WINDOW_LIMIT SLIDING_WINDOW_SECONDS, v_metrics = []\<rparr>"

type_synonym headers = "(string \<times> string) list"

text \<open>An answer: status, headers and body, or an exception with its headers.\<close>

datatype 'a reply = Reply int headers 'a | Fail py_exn headers

text \<open>\<open>int(x)\<close> of a float truncates towards zero.\<close>

definition py_trunc :: "rat \<Rightarrow> int" where
  "py_trunc x = (if 0 \<le> x then \<lfloor>x\<rfloor> else \<lceil>x\<rceil>)"

record http_request =
  forwarded_for :: "string option"
  client_host :: "string option"

definition client_ip :: "http_request \<Rightarrow> string" where
  "client_ip rq =
     (case forwarded_for rq of
        Some f \<Rightarrow> if f \<noteq> [] then strip (hd (split_on (CHR '','') f))
                  else (case client_host rq of Some h \<Rightarrow> h | None \<Rightarrow> ''unknown'')
      | None \<Rightarrow> (case client_host rq of Some h \<Rightarrow> h | None \<Rightarrow> ''unknown''))"

definition rl_headers :: "string \<Rightarrow> int \<Rightarrow> rat \<Rightarrow> headers" where
  "rl_headers strategy lmt remaining =
     [(''X-RateLimit-Strategy'', strategy), (''X-RateLimit-Limit'', show_int lmt),
      (''X-RateLimit-Remaining'', show_int (py_trunc remaining))]"

definition retry_after_header :: "seconds \<Rightarrow> string \<times> string" where
  "retry_after_header w = (''Retry-After'', show_int (py_trunc w + 1))"

text \<open>The monotonic readings of one request in order, the wall clock, and the random draw.\<close>

record v2_clock =
  m0 :: seconds
  m1 :: seconds
  m2 :: seconds
  wall2 :: datetime
  draw :: rat

definition finish_create ::
  "'db engine \<Rightarrow> v2_clock \<Rightarrow> headers \<Rightarrow> record_request \<Rightarrow> 'db v2_state \<Rightarrow>
   record_response reply \<times> 'db v2_state"
where
  "finish_create E t hs body s =
     (case create_record E (wall2 t) body (v_db s) of
        (Inl e, db') \<Rightarrow> (Fail e [], s\<lparr>v_db := db'\<rparr>)
      | (Inr r, db') \<Rightarrow> (Reply 201 hs (response_of r), s\<lparr>v_db := db'\<rparr>))"

definition create_record_token_bucket ::
  "'db engine \<Rightarrow> v2_clock \<Rightarrow> http_request \<Rightarrow> record_request \<Rightarrow> 'db v2_state \<Rightarrow>
   record_response reply \<times> 'db v2_state"
where
  "create_record_token_bucket E t rq body s =
     (let ip = client_ip rq;
          ((allowed, remaining), tb) = consume (m0 t) (m1 t) ip 1 (v_bucket s);
          s1 = s\<lparr>v_bucket := tb\<rparr>;
          hs = rl_headers ''token-bucket'' (capacity tb) remaining
      in if \<not> allowed then
           (case seconds_until_token (m2 t) (m2 t) ip (- JITTER_MIN_SECONDS) JITTER_MAX_SECONDS (draw t) tb of
              Inl e \<Rightarrow> (Fail e [], s1)
            | Inr retry_after \<Rightarrow>
                (Fail (HTTPException 429 ''Rate limit exceeded (token bucket drained)'')
                   (hs @ [retry_after_header retry_after]), s1))
         else finish_create E t hs body s1)"

definition create_record_sliding_window ::
  "'db engine \<Rightarrow> v2_clock \<Rightarrow> http_request \<Rightarrow> record_request \<Rightarrow> 'db v2_state \<Rightarrow>
   record_response reply \<times> 'db v2_state"
where
  "create_record_sliding_window E t rq body s =
     (let ip = client_ip rq;
          ((allowed, remaining), sw) = is_allowed (m0 t) ip (v_window s);
          s1 = s\<lparr>v_window := sw\<rparr>;
          hs = rl_headers ''sliding-window'' (sw_limit sw) (of_int remaining)
      in if \<not> allowed then
           (let retry_after = reset_in (m1 t) ip (- JITTER_MIN_SECONDS) JITTER_MAX_SECONDS (draw t) sw
            in (Fail (HTTPException 429 ''Rate limit exceeded (sliding window full)'')
                  (hs @ [retry_after_header retry_after]), s1))
         else finish_create E t hs body s1)"

definition create_record_jwt ::
  "'db engine \<Rightarrow> (json \<Rightarrow> string) \<Rightarrow> jwt_lib \<Rightarrow> auth_settings \<Rightarrow> v2_clock \<Rightarrow> string option \<Rightarrow> record_request \<Rightarrow>
   'db v2_state \<Rightarrow> record_response reply \<times> 'db v2_state"
where
  "create_record_jwt E py_str lib st t authorization body s =
     (case jwt_role_guard py_str lib st [''writer'', ''admin''] (wall2 t) authorization of
        Inl e \<Rightarrow> (Fail e [], s)
      | Inr claims \<Rightarrow> finish_create E t [] body s)"

subsection \<open>N+1 demonstration\<close>

record n_plus_one_report =
  naive_ms :: rat
  optimized_ms :: rat
  speedup :: rat
  records_count :: int
  np_limit :: int

text \<open>
  \<open>start_naive\<close>, \<open>end_naive\<close>, \<open>start_opt\<close>, \<open>end_opt\<close> are the readings of \<open>perf_counter\<close>;
  \<open>round2\<close> is \<open>round(x, 2)\<close>.
\<close>

definition demo_n_plus_one ::
  "'db engine \<Rightarrow> (rat \<Rightarrow> rat) \<Rightarrow> seconds \<times> seconds \<times> seconds \<times> seconds \<Rightarrow> int \<Rightarrow> 'db \<Rightarrow>
   n_plus_one_report outcome"
where
  "demo_n_plus_one E round2 clks lmt db =
     (if \<not> (1 \<le> lmt \<and> lmt \<le> 100) then Inl unprocessable
      else (case clks of (start_naive, end_naive, start_opt, end_opt) \<Rightarrow>
        try_bind (get_records_with_tag_counts_naive E lmt db) (\<lambda>naive_results.
        try_bind (get_records_with_tag_counts E lmt db) (\<lambda>_.
          let time_naive = (end_naive - start_naive) * 1000;
              time_opt = (end_opt - start_opt) * 1000;
              sp = (if 0 < time_opt then time_naive / time_opt else 1)
          in Inr \<lparr>naive_ms = round2 time_naive, optimized_ms = round2 time_opt, speedup = round2 sp,
               records_count = int (length naive_results), np_limit = lmt\<rparr>))))"

subsection \<open>Cursor pages\<close>

record cursor_page =
  cp_records :: "record_response list"
  cp_next_cursor :: "string option"
  cp_has_more :: bool
  cp_limit :: int

definition list_records_cursor ::
  "'db engine \<Rightarrow> string option \<Rightarrow> int \<Rightarrow> string option \<Rightarrow> 'db \<Rightarrow> cursor_page outcome"
where
  "list_records_cursor E cursor lmt src db =
     (if \<not> (1 \<le> lmt \<and> lmt \<le> 100) then Inl unprocessable
      else map_sum id (\<lambda>(records, next_cursor, has_more).
             \<lparr>cp_records = map response_of records, cp_next_cursor = next_cursor, cp_has_more = has_more,
              cp_limit = lmt\<rparr>) (get_records_cursor_paginated E cursor lmt src db))"

subsection \<open>Enrichment\<close>

record enrich_response =
  enriched_count :: int
  failed_count :: int
  duration_ms :: rat
  results :: "enriched_record list"

definition enrich_records ::
  "'db engine \<Rightarrow> (rat \<Rightarrow> rat) \<Rightarrow> (nat \<Rightarrow> string \<Rightarrow> json outcome) \<Rightarrow> seconds \<Rightarrow> seconds \<Rightarrow> int list \<Rightarrow> 'db \<Rightarrow>
   enrich_response outcome"
where
  "enrich_records E round2 fetch start finish ids db =
     (if \<not> valid_enrich_ids ids then Inl unprocessable
      else map_sum id (\<lambda>rs.
             let ms = (finish - start) * 1000;
                 n = int (length (filter er_enriched rs))
             in \<lparr>enriched_count = n, failed_count = int (length rs) - n, duration_ms = round2 ms, results = rs\<rparr>)
        (enrich_records_concurrent E fetch ids db))"

subsection \<open>Upserts\<close>

record upsert_response =
  up_record :: record_response
  up_created :: bool
  up_mode :: string

definition upsert_record_endpoint ::
  "'db engine \<Rightarrow> datetime \<Rightarrow> record_request \<Rightarrow> string \<Rightarrow> 'db v2_state \<Rightarrow> upsert_response reply \<times> 'db v2_state"
where
  "upsert_record_endpoint E now request mode s =
     (if mode \<noteq> UPSERT_MODE_IDEMPOTENT \<and> mode \<noteq> UPSERT_MODE_STRICT then (Fail unprocessable [], s)
      else (case upsert_record E now request (v_db s) of
        (Inl e, db') \<Rightarrow> (Fail e [], s\<lparr>v_db := db'\<rparr>)
      | (Inr (r, new), db') \<Rightarrow>
          let s1 = s\<lparr>v_db := db'\<rparr>
          in if \<not> new \<and> mode = UPSERT_MODE_STRICT
             then (Fail (HTTPException 409 (''conflict: existing_id='' @ show_int (r_id r))) [], s1)
             else (Reply (if new then 201 else 200) []
                     \<lparr>up_record = response_of r, up_created = new, up_mode = mode\<rparr>,
                   s1\<lparr>v_metrics := (if new then (''records_created_total.upsert'', 1)
                        else (''records_upsert_conflicts_total.'' @ mode, 1)) # v_metrics s1\<rparr>)))"

subsection \<open>Properties\<close>

text \<open>
  The three answers of an upsert. Over a lawful engine, for a key that no row holds, the first
  upsert answers 201; repeating it answers 200 with the same record in idempotent mode and 409
  with its id in strict mode, and neither changes the table.
\<close>

theorem upsert_endpoint_modes:
  assumes "record_store E" and "db_ok E (v_db s)"
    and "(source q, timestamp q) \<notin> row_key ` set (rows E (v_db s))"
  shows "\<exists>r s1. upsert_record_endpoint E now q UPSERT_MODE_IDEMPOTENT s =
      (Reply 201 [] \<lparr>up_record = response_of r, up_created = True, up_mode = UPSERT_MODE_IDEMPOTENT\<rparr>, s1) \<and>
    (\<exists>s2. upsert_record_endpoint E later q UPSERT_MODE_IDEMPOTENT s1 =
        (Reply 200 [] \<lparr>up_record = response_of r, up_created = False, up_mode = UPSERT_MODE_IDEMPOTENT\<rparr>, s2) \<and>
      v_db s2 = v_db s1) \<and>
    (\<exists>s2. upsert_record_endpoint E later q UPSERT_MODE_STRICT s1 =
        (Fail (HTTPException 409 (''conflict: existing_id='' @ show_int (r_id r))) [], s2) \<and>
      v_db s2 = v_db s1)"
proof -
  obtain r db' where r: "create_record E now q (v_db s) = (Inr r, db')" "db_ok E db'"
    "mset (rows E db') = add_mset r (mset (rows E (v_db s)))" "content r = record_of now q"
    using record_store.create_record_new [OF assms] by blast
  have "r \<in> set (rows E db')" using r(3) by (metis set_mset_mset union_single_eq_member)
  moreover have "row_key r = (source q, timestamp q)" "r_deleted_at r = None"
    using r(4) content_simps(1,2) [of r] by simp_all
  ultimately have "upsert_record E later q db' = (Inr (r, False), db')"
    using upsert_conflict [OF assms(1) r(2), of r q later] by simp
  moreover have "upsert_record E now q (v_db s) = (Inr (r, True), db')"
    using r(1) by (simp add: upsert_record_def)
  ultimately show ?thesis
    by (intro exI [of _ r])
       (simp add: upsert_record_endpoint_def Let_def UPSERT_MODE_IDEMPOTENT_def UPSERT_MODE_STRICT_def)
qed

theorem upsert_endpoint_modes_witness:
  "\<exists>r s1 s2. upsert_record_endpoint mem_engine 3 (req ''a'' 1) UPSERT_MODE_IDEMPOTENT (initial_v2 empty_db) =
      (Reply 201 [] \<lparr>up_record = response_of r, up_created = True, up_mode = UPSERT_MODE_IDEMPOTENT\<rparr>, s1) \<and>
    upsert_record_endpoint mem_engine 4 (req ''a'' 1) UPSERT_MODE_STRICT s1 =
      (Fail (HTTPException 409 (''conflict: existing_id='' @ show_int (r_id r))) [], s2)"
proof -
  have "db_ok mem_engine (v_db (initial_v2 empty_db))" by (simp add: initial_v2_def)
  moreover have "(source (req ''a'' 1), timestamp (req ''a'' 1)) \<notin>
      row_key ` set (rows mem_engine (v_db (initial_v2 empty_db)))"
    by (simp add: initial_v2_def mem_engine_def empty_db_def)
  ultimately show ?thesis
    using upsert_endpoint_modes [OF mem.record_store_axioms, of "initial_v2 empty_db" "req ''a'' 1" 3 4]
    by blast
qed

text \<open>
  \<open>Retry-After\<close> can be too early. The endpoints pass a jitter that starts at minus five seconds:
  for the limits of the deployment there are a state and a draw of the jitter for which the
  sliding-window endpoint answers 429 with \<open>Retry-After: w\<close> and the same request \<open>w\<close> seconds
  later is denied again.
\<close>

theorem retry_after_too_early:
  "\<exists>s t t' rq w. v_db s = db \<and> fst (create_record_sliding_window E t rq body s) =
      Fail (HTTPException 429 ''Rate limit exceeded (sliding window full)'')
        (rl_headers ''sliding-window'' SLIDING_WINDOW_LIMIT 0 @ [(''Retry-After'', show_int w)]) \<and>
    m0 t' = m1 t + of_int w \<and>
    (\<exists>hs. fst (create_record_sliding_window E t' rq body (snd (create_record_sliding_window E t rq body s))) =
      Fail (HTTPException 429 ''Rate limit exceeded (sliding window full)'') hs)"
proof -
  let ?rq = "\<lparr>forwarded_for = None, client_host = Some ''c''\<rparr>"
  let ?w = "\<lparr>sw_limit = SLIDING_WINDOW_LIMIT, window_seconds = SLIDING_WINDOW_SECONDS,
      windows = [''c'' \<mapsto> replicate 10 0]\<rparr>"
  let ?s = "(initial_v2 db)\<lparr>v_window := ?w\<rparr>"
  let ?t = "\<lparr>m0 = 0, m1 = 0, m2 = 0, wall2 = 0, draw = 0\<rparr>"
  let ?t' = "\<lparr>m0 = 56, m1 = 56, m2 = 56, wall2 = 0, draw = 0\<rparr>"
  have r10: "replicate 10 (0 :: rat) = [0, 0, 0, 0, 0, 0, 0, 0, 0, 0]" by code_simp
  have ip: "client_ip ?rq = ''c''" by (simp add: client_ip_def)
  have a: "is_allowed n ''c'' ?w = ((False, 0), ?w)" if "n \<le> 60" for n
    using that by (simp add: is_allowed_def r10 v2_constants Let_def)
  have r: "reset_in 0 ''c'' (- JITTER_MIN_SECONDS) JITTER_MAX_SECONDS 0 ?w = 55"
    by (simp add: reset_in_def r10 v2_constants apply_jitter_def uniform_def)
  have "create_record_sliding_window E ?t ?rq body ?s =
      (Fail (HTTPException 429 ''Rate limit exceeded (sliding window full)'')
        (rl_headers ''sliding-window'' SLIDING_WINDOW_LIMIT 0 @ [(''Retry-After'', show_int 56)]), ?s)"
    using a [of 0] r
    by (simp add: create_record_sliding_window_def ip Let_def retry_after_header_def py_trunc_def)
  moreover have "\<exists>hs. fst (create_record_sliding_window E ?t' ?rq body ?s) =
      Fail (HTTPException 429 ''Rate limit exceeded (sliding window full)'') hs"
    using a [of 56] by (simp add: create_record_sliding_window_def ip Let_def)
  ultimately show ?thesis
    by (intro exI [of _ ?s] exI [of _ ?t] exI [of _ ?t'] exI [of _ ?rq] exI [of _ 56]) (simp add: initial_v2_def)
qed

text \<open>The counts of an enrichment answer add up.\<close>

lemma enrich_counts:
  "enrich_records E round2 fetch start finish ids db = Inr x \<Longrightarrow>
   enriched_count x + failed_count x = int (length (results x)) \<and> 0 \<le> failed_count x"
  by (cases "enrich_records_concurrent E fetch ids db")
     (auto simp: enrich_records_def Let_def split: if_splits)

end

