(* ===== verification/Worker_Pool.thy ===== *)
theory Worker_Pool
  imports Prelude "HOL-Library.AList"
begin

text \<open>
  The in-process worker pool of \<open>ingestor/core/background_workers.py\<close>; its default processor
  and its endpoints are in the theory \<open>Background_Routes\<close>. A \<open>BackgroundTaskStatus\<close> object is shared by the
  status table and the worker that runs it, so objects live in a store and are named by their
  address; a task that is trimmed from the table keeps its object. A worker coroutine is a value:
  waiting in \<open>queue.get\<close>, awaiting the processor, awaiting the failure callback, or ended by
  an exception. The outcomes of the awaited processor and callback are events.
\<close>

datatype task_state = Queued | Running | Succeeded | Failed | Cancelled

record 'r task =
  task_id :: string
  task_st :: task_state
  batch_size :: int
  queued_at :: datetime
  started_at :: "datetime option"
  finished_at :: "datetime option"
  task_result :: "'r option"
  task_error :: "string option"

datatype 'a worker =
    Waiting
  | Processing nat "'a list"
  | Notifying nat
  | Ended py_exn

record ('a, 'r) pool =
  worker_count :: int
  queue_max :: int
  max_tracked :: int
  has_callback :: bool
  queue :: "(string \<times> 'a list) list"
  workers :: "'a worker list"
  objects :: "'r task list"
  tracked :: "(string \<times> nat) list"
  task_order :: "string list"
  running :: bool
  active_gauge :: int
  queue_gauge :: int

definition new_pool :: "int \<Rightarrow> int \<Rightarrow> int \<Rightarrow> bool \<Rightarrow> ('a, 'r) pool" where
  "new_pool wc qs mt cb =
     \<lparr>worker_count = wc, queue_max = qs, max_tracked = mt, has_callback = cb, queue = [], workers = [],
      objects = [], tracked = [], task_order = [], running = False, active_gauge = 0, queue_gauge = 0\<rparr>"

subsection \<open>Operations\<close>

definition start :: "('a, 'r) pool \<Rightarrow> ('a, 'r) pool" where
  "start p =
     (if running p then p
      else p\<lparr>running := True, workers := replicate (nat (worker_count p)) Waiting, queue_gauge := 0\<rparr>)"

text \<open>\<open>asyncio.Queue.full\<close>: a queue with a non-positive size is never full.\<close>

definition queue_full :: "('a, 'r) pool \<Rightarrow> bool" where
  "queue_full p \<longleftrightarrow> 0 < queue_max p \<and> queue_max p \<le> int (length (queue p))"

fun trim_history :: "int \<Rightarrow> string list \<Rightarrow> (string \<times> nat) list \<Rightarrow> string list \<times> (string \<times> nat) list \<times> unit outcome" where
  "trim_history m [] tr =
     (if 0 > m then ([], tr, Inl (IndexError ''pop from an empty deque'')) else ([], tr, Inr ()))"
| "trim_history m (x # xs) tr =
     (if int (length (x # xs)) > m then trim_history m xs (AList.delete x tr) else (x # xs, tr, Inr ()))"

definition submit_batch_ingest ::
  "datetime \<Rightarrow> string \<Rightarrow> 'a list \<Rightarrow> ('a, 'r) pool \<Rightarrow> ('a, 'r) pool \<times> 'r task outcome"
where
  "submit_batch_ingest now tid records p =
     (if \<not> running p then (p, Inl (RuntimeError ''Background worker pool is not running''))
      else if queue_full p then (p, Inl (RuntimeError ''Background queue is full''))
      else
        let st = \<lparr>task_id = tid, task_st = Queued, batch_size = int (length records), queued_at = now,
                  started_at = None, finished_at = None, task_result = None, task_error = None\<rparr>
        in (case trim_history (max_tracked p) (task_order p @ [tid])
                   (AList.update tid (length (objects p)) (tracked p)) of
              (ord, tr, r) \<Rightarrow>
                let p1 = p\<lparr>objects := objects p @ [st], task_order := ord, tracked := tr\<rparr>
                in (case r of
                      Inl e \<Rightarrow> (p1, Inl e)
                    | Inr _ \<Rightarrow>
                        (p1\<lparr>queue := queue p @ [(tid, records)],
                            queue_gauge := int (length (queue p)) + 1\<rparr>, Inr st))))"

definition get_task_status :: "string \<Rightarrow> ('a, 'r) pool \<Rightarrow> 'r task option" where
  "get_task_status tid p = map_option (\<lambda>a. objects p ! a) (map_of (tracked p) tid)"

text \<open>The worker loop: one turn is a take, the processor's outcome, maybe the callback's.\<close>

definition worker_take :: "nat \<Rightarrow> datetime \<Rightarrow> ('a, 'r) pool \<Rightarrow> ('a, 'r) pool" where
  "worker_take i now p =
     (case queue p of
        [] \<Rightarrow> p
      | (tid, records) # q \<Rightarrow>
          (case map_of (tracked p) tid of
             None \<Rightarrow> p\<lparr>queue := q, workers := (workers p)[i := Ended (KeyError tid)]\<rparr>
           | Some a \<Rightarrow>
               p\<lparr>queue := q,
                 objects := (objects p)[a := (objects p ! a)\<lparr>task_st := Running, started_at := Some now\<rparr>],
                 active_gauge := active_gauge p + 1,
                 queue_gauge := int (length q),
                 workers := (workers p)[i := Processing a records]\<rparr>))"

text \<open>The \<open>finally\<close> block, and where the worker goes after it.\<close>

definition worker_finally :: "nat \<Rightarrow> datetime \<Rightarrow> nat \<Rightarrow> 'a worker \<Rightarrow> ('a, 'r) pool \<Rightarrow> ('a, 'r) pool" where
  "worker_finally i now a w p =
     p\<lparr>objects := (objects p)[a := (objects p ! a)\<lparr>finished_at := Some now\<rparr>],
       active_gauge := active_gauge p - 1,
       queue_gauge := int (length (queue p)),
       workers := (workers p)[i := w]\<rparr>"

definition worker_result :: "nat \<Rightarrow> datetime \<Rightarrow> 'r outcome \<Rightarrow> ('a, 'r) pool \<Rightarrow> ('a, 'r) pool" where
  "worker_result i now res p =
     (case workers p ! i of
        Processing a records \<Rightarrow>
          (case res of
             Inr r \<Rightarrow>
               worker_finally i now a Waiting
                 (p\<lparr>objects := (objects p)[a := (objects p ! a)\<lparr>task_st := Succeeded, task_result := Some r\<rparr>]\<rparr>)
           | Inl e \<Rightarrow>
               if is_Exception e
               then let p1 = p\<lparr>objects := (objects p)[a :=
                               (objects p ! a)\<lparr>task_st := Failed, task_error := Some (exn_str e)\<rparr>]\<rparr>
                    in (if has_callback p then p1\<lparr>workers := (workers p)[i := Notifying a]\<rparr>
                        else worker_finally i now a Waiting p1)
               else worker_finally i now a (Ended e)
                      (p\<lparr>objects := (objects p)[a := (objects p ! a)
                           \<lparr>task_st := Cancelled, task_error := Some ''worker task cancelled''\<rparr>]\<rparr>))
      | _ \<Rightarrow> p)"

definition worker_callback :: "nat \<Rightarrow> datetime \<Rightarrow> unit outcome \<Rightarrow> ('a, 'r) pool \<Rightarrow> ('a, 'r) pool" where
  "worker_callback i now res p =
     (case workers p ! i of
        Notifying a \<Rightarrow>
          (case res of
             Inl e \<Rightarrow> worker_finally i now a (if is_Exception e then Waiting else Ended e) p
           | Inr _ \<Rightarrow> worker_finally i now a Waiting p)
      | _ \<Rightarrow> p)"

text \<open>
  \<open>task.cancel()\<close>: the coroutine sees \<open>CancelledError\<close> where it waits; a coroutine that has ended
  is left alone.
\<close>

definition cancel_worker :: "datetime \<Rightarrow> nat \<Rightarrow> ('a, 'r) pool \<Rightarrow> ('a, 'r) pool" where
  "cancel_worker now i p =
     (case workers p ! i of
        Waiting \<Rightarrow> p\<lparr>workers := (workers p)[i := Ended CancelledError]\<rparr>
      | Processing a records \<Rightarrow> worker_result i now (Inl CancelledError) p
      | Notifying a \<Rightarrow> worker_callback i now (Inl CancelledError) p
      | Ended e \<Rightarrow> p)"

text \<open>
  \<open>stop\<close>: it takes the pool down and requests the cancellation of every worker, awaits them all in \<open>gather\<close>, then drops
  their handles. The cancellations arrive while it waits, one worker at a time.
\<close>

definition stop_begin :: "('a, 'r) pool \<Rightarrow> ('a, 'r) pool" where
  "stop_begin p = (if \<not> running p then p else p\<lparr>running := False\<rparr>)"

definition stop_end :: "('a, 'r) pool \<Rightarrow> ('a, 'r) pool" where
  "stop_end p = p\<lparr>workers := [], active_gauge := 0\<rparr>"

text \<open>The whole call, with nothing else in between.\<close>

definition stop :: "datetime \<Rightarrow> ('a, 'r) pool \<Rightarrow> ('a, 'r) pool" where
  "stop now p =
     (if \<not> running p then p
      else stop_end (fold (cancel_worker now) [0..<length (workers p)] (stop_begin p)))"

record health_report =
  hr_running :: bool
  hr_worker_count :: int
  hr_queue_size :: int
  hr_queue_capacity :: int
  hr_tracked_tasks :: int
  hr_tasks :: "(task_state \<times> int) list"

definition count_state :: "task_state \<Rightarrow> 'r task list \<Rightarrow> int" where
  "count_state st ts = int (length (filter (\<lambda>t. task_st t = st) ts))"

definition health_summary :: "('a, 'r) pool \<Rightarrow> health_report" where
  "health_summary p =
     (let ts = map (\<lambda>(tid, a). objects p ! a) (tracked p)
      in \<lparr>hr_running = running p, hr_worker_count = worker_count p,
          hr_queue_size = int (length (queue p)), hr_queue_capacity = queue_max p,
          hr_tracked_tasks = int (length (tracked p)),
          hr_tasks = map (\<lambda>st. (st, count_state st ts)) [Queued, Running, Succeeded, Failed, Cancelled]\<rparr>)"

subsection \<open>Steps\<close>

text \<open>
  The pool's runs: \<open>asyncio\<close> is single-threaded, so an operation between two awaits is one step.
  \<open>uuid4\<close> gives an identifier that no earlier task has. \<open>EStop\<close> is the part of \<open>stop\<close> before its \<open>gather\<close>, \<open>ECancel\<close> the
  arrival of a cancellation at a worker and \<open>EStopped\<close> the part after all workers have ended; anything may happen in
  between, except that the pool is not started again before \<open>stop\<close> has returned (the lifespan awaits it).
\<close>

datatype ('a, 'r) pool_event =
    EStart
  | EStop
  | ECancel nat datetime
  | EStopped
  | ESubmit datetime string "'a list"
  | ETake nat datetime
  | EResult nat datetime "'r outcome"
  | ECallback nat datetime "unit outcome"

fun has_ended :: "'a worker \<Rightarrow> bool" where
  "has_ended (Ended e) = True"
| "has_ended w = False"

inductive pool_step :: "('a, 'r) pool \<Rightarrow> ('a, 'r) pool_event \<Rightarrow> ('a, 'r) pool \<Rightarrow> bool" where
  step_start: "running p \<or> workers p = [] \<Longrightarrow> pool_step p EStart (start p)"
| step_stop: "pool_step p EStop (stop_begin p)"
| step_cancel: "\<not> running p \<Longrightarrow> i < length (workers p) \<Longrightarrow> pool_step p (ECancel i now) (cancel_worker now i p)"
| step_stopped: "\<not> running p \<Longrightarrow> list_all has_ended (workers p) \<Longrightarrow> pool_step p EStopped (stop_end p)"
| step_submit: "tid \<notin> task_id ` set (objects p) \<Longrightarrow>
    pool_step p (ESubmit now tid records) (fst (submit_batch_ingest now tid records p))"
| step_take: "i < length (workers p) \<Longrightarrow> workers p ! i = Waiting \<Longrightarrow> queue p \<noteq> [] \<Longrightarrow>
    pool_step p (ETake i now) (worker_take i now p)"
| step_result: "i < length (workers p) \<Longrightarrow> workers p ! i = Processing a records \<Longrightarrow>
    pool_step p (EResult i now res) (worker_result i now res p)"
| step_callback: "i < length (workers p) \<Longrightarrow> workers p ! i = Notifying a \<Longrightarrow>
    pool_step p (ECallback i now res) (worker_callback i now res p)"

inductive_cases pool_stepE: "pool_step p e p'"

inductive_simps pool_step_simps:
  "pool_step p EStart p'"
  "pool_step p EStop p'"
  "pool_step p EStopped p'"
  "pool_step p (ESubmit now tid records) p'"
  "pool_step p (ETake i now) p'"

subsection \<open>The invariant\<close>

text \<open>
  Tasks are numbered in the order of submission. The queue holds the last submissions, the
  table the last \<open>max_tracked\<close> ones; both are described through the store of task objects.
\<close>

definition table_ok :: "int \<Rightarrow> 'r task list \<Rightarrow> (string \<times> 'a list) list \<Rightarrow> (string \<times> nat) list \<Rightarrow> string list \<Rightarrow> bool" where
  "table_ok mt objs q tr ord \<longleftrightarrow>
     (let ids = map task_id objs; n = length objs
      in length q \<le> n \<and> distinct ids \<and> map fst q = drop (n - length q) ids \<and>
         tr = map (\<lambda>a. (ids ! a, a)) [n - nat mt..<n] \<and> ord = map fst tr \<and>
         (\<forall>a < n. n - length q \<le> a \<longrightarrow> task_st (objs ! a) = Queued))"

fun busy_with :: "'a worker \<Rightarrow> nat option" where
  "busy_with (Processing a rs) = Some a"
| "busy_with (Notifying a) = Some a"
| "busy_with w = None"

fun processes :: "'a worker \<Rightarrow> nat option" where
  "processes (Processing a rs) = Some a"
| "processes w = None"

definition workers_ok :: "nat \<Rightarrow> 'r task list \<Rightarrow> 'a worker list \<Rightarrow> bool" where
  "workers_ok k objs ws \<longleftrightarrow>
     (\<forall>i < length ws. \<forall>a. busy_with (ws ! i) = Some a \<longrightarrow> a < k) \<and>
     (\<forall>i < length ws. \<forall>j < length ws. \<forall>a.
        busy_with (ws ! i) = Some a \<longrightarrow> busy_with (ws ! j) = Some a \<longrightarrow> i = j) \<and>
     (\<forall>a < length objs. task_st (objs ! a) = Running \<longleftrightarrow> (\<exists>i < length ws. processes (ws ! i) = Some a))"

definition busy_count :: "'a worker list \<Rightarrow> int" where
  "busy_count ws = int (length (filter (\<lambda>w. busy_with w \<noteq> None) ws))"

definition core_inv :: "('a, 'r) pool \<Rightarrow> bool" where
  "core_inv p \<longleftrightarrow>
     0 < queue_max p \<and> 0 \<le> max_tracked p \<and> int (length (queue p)) \<le> queue_max p \<and>
     table_ok (max_tracked p) (objects p) (queue p) (tracked p) (task_order p) \<and>
     workers_ok (length (objects p) - length (queue p)) (objects p) (workers p) \<and>
     active_gauge p = busy_count (workers p) \<and>
     (queue_max p \<le> max_tracked p \<longrightarrow> (\<forall>e. Ended e \<in> set (workers p) \<longrightarrow> \<not> is_Exception e))"

definition pool_inv :: "('a, 'r) pool \<Rightarrow> bool" where
  "pool_inv p \<longleftrightarrow> core_inv p \<and> (running p \<longrightarrow> length (workers p) = nat (worker_count p))"

lemma processes_busy: "processes w = Some a \<Longrightarrow> busy_with w = Some a"
  by (cases w) auto

lemma busy_count_Cons:
  "busy_count (w # ws) = (if busy_with w \<noteq> None then 1 else 0) + busy_count ws"
  by (simp add: busy_count_def)

lemma busy_count_update:
  "i < length ws \<Longrightarrow> busy_count (ws[i := w]) =
     busy_count ws + (if busy_with w \<noteq> None then 1 else 0) - (if busy_with (ws ! i) \<noteq> None then 1 else 0)"
proof (induction ws arbitrary: i)
  case (Cons x ws)
  then show ?case by (cases i) (simp_all add: busy_count_Cons)
qed simp

lemma busy_count_idle: "(\<And>w. w \<in> set ws \<Longrightarrow> busy_with w = None) \<Longrightarrow> busy_count ws = 0"
  by (auto simp: busy_count_def filter_empty_conv)

lemma trim_history_drop:
  "distinct (map fst tr) \<Longrightarrow> 0 \<le> m \<Longrightarrow>
   trim_history m (map fst tr) tr = (map fst (drop (length tr - nat m) tr), drop (length tr - nat m) tr, Inr ())"
proof (induction tr)
  case (Cons x tr)
  show ?case
  proof (cases "int (length (x # tr)) > m")
    case True
    then have "length (x # tr) - nat m = Suc (length tr - nat m)" by simp
    moreover have "AList.delete (fst x) (x # tr) = tr"
      using Cons.prems(1) by (cases x) (auto simp: AList.delete_eq filter_id_conv image_iff)
    ultimately show ?thesis using True Cons by simp
  next
    case False
    then show ?thesis by simp
  qed
qed simp

text \<open>What each kind of change does to the table.\<close>

lemma fst_table: "map fst (map (\<lambda>a. (ids ! a, a)) [length ids - m..<length ids]) = drop (length ids - m) ids"
  by (rule nth_equalityI) auto

lemma update_fresh: "k \<notin> fst ` set tr \<Longrightarrow> AList.update k v tr = tr @ [(k, v)]"
  by (induction tr) auto

lemma table_grow:
  fixes ids :: "string list"
  assumes tr: "tr = map (\<lambda>a. (ids ! a, a)) [length ids - m..<length ids]"
  shows "drop (length (tr @ [(k, length ids)]) - m) (tr @ [(k, length ids)]) =
    map (\<lambda>a. ((ids @ [k]) ! a, a)) [Suc (length ids) - m..<Suc (length ids)]"
proof -
  let ?g = "\<lambda>a. ((ids @ [k]) ! a, a)" and ?l = "length ids"
  have e: "tr @ [(k, ?l)] = map ?g [?l - m..<Suc ?l]"
    using tr by (simp add: nth_append)
  have "?l - m + (Suc ?l - (?l - m) - m) = Suc ?l - m" by auto
  then show ?thesis unfolding e drop_map drop_upt by simp
qed

lemma table_submit:
  assumes "table_ok mt objs q tr ord" and "0 \<le> mt" and "tid \<notin> task_id ` set objs"
    and "task_id st = tid" and "task_st st = Queued"
  shows "\<exists>tr'. trim_history mt (ord @ [tid]) (AList.update tid (length objs) tr) = (map fst tr', tr', Inr ()) \<and>
    table_ok mt (objs @ [st]) (q @ [(tid, rs)]) tr' (map fst tr')"
proof -
  let ?ids = "map task_id objs"
  let ?new = "map (\<lambda>a. ((?ids @ [tid]) ! a, a)) [Suc (length ?ids) - nat mt..<Suc (length ?ids)]"
  have tr: "tr = map (\<lambda>a. (?ids ! a, a)) [length ?ids - nat mt..<length ?ids]" and ord: "ord = map fst tr"
    and d: "distinct ?ids" and q: "length q \<le> length objs" "map fst q = drop (length objs - length q) ?ids"
    and st: "\<forall>a < length objs. length objs - length q \<le> a \<longrightarrow> task_st (objs ! a) = Queued"
    using assms(1) by (simp_all add: table_ok_def Let_def)
  have m: "map fst tr = drop (length ?ids - nat mt) ?ids" unfolding tr by (rule fst_table)
  have "set (map fst tr) \<subseteq> task_id ` set objs"
    unfolding m using set_drop_subset [of _ ?ids] by (metis list.set_map)
  then have fresh: "tid \<notin> fst ` set tr" using assms(3) by auto
  have "distinct (map fst tr)" unfolding m using d by (rule distinct_drop)
  then have dt: "distinct (map fst (tr @ [(tid, length ?ids)]))" using fresh by simp
  have "trim_history mt (map fst (tr @ [(tid, length ?ids)])) (tr @ [(tid, length ?ids)]) = (map fst ?new, ?new, Inr ())"
    using trim_history_drop [OF dt assms(2)] table_grow [OF tr, of tid] by (simp only:)
  then have "trim_history mt (ord @ [tid]) (AList.update tid (length objs) tr) = (map fst ?new, ?new, Inr ())"
    using ord update_fresh [OF fresh] by simp
  moreover have "table_ok mt (objs @ [st]) (q @ [(tid, rs)]) ?new (map fst ?new)"
    using d q st assms(3-5) unfolding table_ok_def Let_def
    by (auto simp: nth_append less_Suc_eq simp del: map_map upt_Suc)
  ultimately show ?thesis by blast
qed

lemma table_take:
  assumes "table_ok mt objs ((tid, rs) # q) tr ord"
  shows "table_ok mt objs q tr ord"
proof -
  have "Suc (length q) \<le> length objs" "tid # map fst q = drop (length objs - Suc (length q)) (map task_id objs)"
    using assms by (simp_all add: table_ok_def Let_def)
  moreover from this(1) have "length objs - length q = Suc (length objs - Suc (length q))" by simp
  ultimately have "map fst q = drop (length objs - length q) (map task_id objs)"
    by (metis drop_Suc list.sel(3) tl_drop)
  then show ?thesis using assms by (auto simp: table_ok_def Let_def)
qed

lemma table_set:
  "table_ok mt objs q tr ord \<Longrightarrow> a < length objs - length q \<Longrightarrow> task_id t = task_id (objs ! a) \<Longrightarrow>
   table_ok mt (objs[a := t]) q tr ord"
proof -
  assume a: "table_ok mt objs q tr ord" "a < length objs - length q" "task_id t = task_id (objs ! a)"
  have "map task_id (objs[a := t]) = map task_id objs"
    using a(2,3) by (simp add: map_update list_update_same_conv)
  then show ?thesis using a(1,2) by (simp add: table_ok_def Let_def)
qed

lemma table_head:
  assumes "table_ok mt objs ((tid, rs) # q) tr ord"
  shows "map_of tr tid = (if length q < nat mt then Some (length objs - Suc (length q)) else None)"
    and "length objs - Suc (length q) < length objs"
    and "task_id (objs ! (length objs - Suc (length q))) = tid"
proof -
  let ?n = "length objs" and ?a = "length objs - Suc (length q)" and ?ids = "map task_id objs"
  have q: "Suc (length q) \<le> ?n" "tid # map fst q = drop ?a ?ids" and d: "distinct ?ids"
    and tr: "tr = map (\<lambda>a. (?ids ! a, a)) [?n - nat mt..<?n]"
    using assms by (simp_all add: table_ok_def Let_def)
  show a: "?a < ?n" using q(1) by simp
  have "tid = drop ?a ?ids ! 0" using q(2) by (metis nth_Cons_0)
  then show tid: "task_id (objs ! ?a) = tid" using a by simp
  have dt: "distinct (map fst tr)"
    using fst_table [of ?ids "nat mt"] d unfolding tr by (metis distinct_drop length_map)
  show "map_of tr tid = (if length q < nat mt then Some ?a else None)"
  proof (cases "length q < nat mt")
    case True
    then have "?a \<in> set [?n - nat mt..<?n]" using q(1) by auto
    then have "(?ids ! ?a, ?a) \<in> set tr" unfolding tr by simp
    then have "(tid, ?a) \<in> set tr" using tid a by simp
    then show ?thesis using True dt by simp
  next
    case False
    have "tid \<noteq> ?ids ! b" if "b \<in> set [?n - nat mt..<?n]" for b
    proof -
      have "?a < b" "b < ?n" using that False q(1) by auto
      then show ?thesis using d tid a nth_eq_iff_index_eq [OF d, of ?a b] by auto
    qed
    moreover have "fst ` set tr = (\<lambda>b. ?ids ! b) ` set [?n - nat mt..<?n]"
      unfolding tr by (simp add: image_image)
    ultimately have "tid \<notin> fst ` set tr" by blast
    then show ?thesis using False by (simp add: map_of_eq_None_iff)
  qed
qed

text \<open>What each kind of change does to the workers.\<close>

lemma workers_append:
  "workers_ok k objs ws \<Longrightarrow> k \<le> length objs \<Longrightarrow> task_st st \<noteq> Running \<Longrightarrow> workers_ok k (objs @ [st]) ws"
proof -
  assume a: "workers_ok k objs ws" "k \<le> length objs" "task_st st \<noteq> Running"
  have "task_st ((objs @ [st]) ! b) = Running \<longleftrightarrow> (\<exists>i < length ws. processes (ws ! i) = Some b)"
    if "b < length (objs @ [st])" for b
  proof (cases "b = length objs")
    case True
    then have "\<not> (\<exists>i < length ws. processes (ws ! i) = Some b)"
      using a(1,2) unfolding workers_ok_def by (metis leD processes_busy)
    then show ?thesis using True a(3) by simp
  next
    case False
    then show ?thesis using a(1) that unfolding workers_ok_def by (simp add: nth_append)
  qed
  then show ?thesis using a(1) unfolding workers_ok_def by blast
qed

lemma workers_set:
  assumes "workers_ok k objs ws" and "i < length ws" and "a < k'" and "k \<le> k'"
    and "\<forall>j < length ws. j \<noteq> i \<longrightarrow> busy_with (ws ! j) \<noteq> Some a"
    and "busy_with (ws ! i) \<in> {None, Some a}" and "busy_with w \<in> {None, Some a}"
    and "task_st t = Running \<longleftrightarrow> processes w = Some a"
  shows "workers_ok k' (objs[a := t]) (ws[i := w])"
proof -
  have b: "\<forall>j < length ws. \<forall>b. busy_with (ws ! j) = Some b \<longrightarrow> b < k"
    and u: "\<forall>j < length ws. \<forall>l < length ws. \<forall>b. busy_with (ws ! j) = Some b \<longrightarrow> busy_with (ws ! l) = Some b \<longrightarrow> j = l"
    and r: "\<forall>b < length objs. task_st (objs ! b) = Running \<longleftrightarrow> (\<exists>j < length ws. processes (ws ! j) = Some b)"
    using assms(1) unfolding workers_ok_def by blast+
  have "task_st (objs[a := t] ! b) = Running \<longleftrightarrow> (\<exists>j < length ws. processes (ws[i := w] ! j) = Some b)"
    if "b < length objs" for b
  proof (cases "b = a")
    case True
    then show ?thesis
      using assms(2,5,8) that by (auto simp: nth_list_update dest: processes_busy)
  next
    case False
    then have "processes (ws ! i) \<noteq> Some b" "processes w \<noteq> Some b"
      using assms(6,7) by (auto dest: processes_busy)
    then have "processes (ws[i := w] ! j) = Some b \<longleftrightarrow> processes (ws ! j) = Some b" if "j < length ws" for j
      using that by (cases "j = i") auto
    then show ?thesis using r that False by auto
  qed
  then show ?thesis
    using assms(2-7) b u unfolding workers_ok_def by (auto simp: nth_list_update dest: less_le_trans)
qed

lemma workers_end:
  assumes "workers_ok k objs ws" and "ws ! i = Waiting" and "i < length ws" and "k \<le> k'"
  shows "workers_ok k' objs (ws[i := Ended e])"
proof -
  have "processes (ws[i := Ended e] ! j) = processes (ws ! j) \<and> busy_with (ws[i := Ended e] ! j) = busy_with (ws ! j)"
    if "j < length ws" for j
    using assms(2) that by (cases "j = i") simp_all
  then show ?thesis using assms(1,4) unfolding workers_ok_def by (auto dest: less_le_trans)
qed

lemma only_worker:
  "workers_ok k objs ws \<Longrightarrow> i < length ws \<Longrightarrow> busy_with (ws ! i) = Some a \<Longrightarrow>
   a < k \<and> (\<forall>j < length ws. j \<noteq> i \<longrightarrow> busy_with (ws ! j) \<noteq> Some a)"
  unfolding workers_ok_def by blast

lemma notifying_not_running:
  assumes "workers_ok k objs ws" and "k \<le> length objs" and "i < length ws" and "ws ! i = Notifying a"
  shows "task_st (objs ! a) \<noteq> Running"
proof
  assume r: "task_st (objs ! a) = Running"
  have o: "a < k" "\<forall>j < length ws. j \<noteq> i \<longrightarrow> busy_with (ws ! j) \<noteq> Some a"
    using only_worker [OF assms(1,3)] assms(4) by auto
  then obtain j where "j < length ws" "processes (ws ! j) = Some a"
    using assms(1,2) r unfolding workers_ok_def by (meson less_le_trans)
  then show False using o(2) assms(4) processes_busy by (cases "j = i") auto
qed

subsection \<open>Every step keeps the invariant\<close>

lemma new_pool_inv: "0 < qs \<Longrightarrow> 0 \<le> mt \<Longrightarrow> pool_inv (new_pool wc qs mt cb)"
  by (simp add: pool_inv_def core_inv_def new_pool_def table_ok_def workers_ok_def busy_count_def)

lemma workers_idle:
  assumes "workers_ok k objs ws" and "\<forall>w \<in> set ws. busy_with w = None" and "\<forall>w \<in> set ws'. busy_with w = None"
  shows "workers_ok k objs ws'"
proof -
  have "processes w \<noteq> Some a" if "busy_with w = None" for w :: "'b worker" and a
    using that by (cases w) auto
  moreover have "processes w \<noteq> Some a" if "busy_with w = None" for w :: "'c worker" and a
    using that by (cases w) auto
  ultimately show ?thesis using assms unfolding workers_ok_def by auto
qed

lemma start_inv:
  assumes "pool_inv p" and "running p \<or> workers p = []"
  shows "pool_inv (start p)"
proof (cases "running p")
  case False
  then have c: "core_inv p" "workers p = []" using assms by (simp_all add: pool_inv_def)
  let ?ws = "replicate (nat (worker_count p)) Waiting :: 'a worker list"
  have "workers_ok (length (objects p) - length (queue p)) (objects p) ?ws"
    using c by (auto simp: core_inv_def intro: workers_idle [of _ _ "[]"])
  moreover have "busy_count ?ws = 0" by (rule busy_count_idle) auto
  moreover have "busy_count (workers p) = 0" using c by (simp add: busy_count_def)
  ultimately show ?thesis using c False by (auto simp: start_def pool_inv_def core_inv_def)
qed (use assms in \<open>simp add: start_def\<close>)

lemma submit_core:
  assumes "core_inv p" and "tid \<notin> task_id ` set (objects p)"
  shows "core_inv (fst (submit_batch_ingest now tid records p))"
proof (cases "running p \<and> \<not> queue_full p")
  case True
  let ?st = "\<lparr>task_id = tid, task_st = Queued, batch_size = int (length records), queued_at = now,
    started_at = None, finished_at = None, task_result = None, task_error = None\<rparr>"
  have t: "table_ok (max_tracked p) (objects p) (queue p) (tracked p) (task_order p)" "0 \<le> max_tracked p"
    using assms(1) by (simp_all add: core_inv_def)
  obtain tr' where tr': "trim_history (max_tracked p) (task_order p @ [tid])
      (AList.update tid (length (objects p)) (tracked p)) = (map fst tr', tr', Inr ())"
    "table_ok (max_tracked p) (objects p @ [?st]) (queue p @ [(tid, records)]) tr' (map fst tr')"
    using table_submit [OF t(1,2) assms(2), of ?st records] by auto
  have "workers_ok (length (objects p) - length (queue p)) (objects p @ [?st]) (workers p)"
    using assms(1) by (intro workers_append) (simp_all add: core_inv_def)
  then show ?thesis
    using True tr' assms(1)
    by (auto simp: submit_batch_ingest_def core_inv_def queue_full_def Let_def)
next
  case False
  then show ?thesis using assms(1) by (auto simp: submit_batch_ingest_def)
qed

lemma take_core:
  assumes "core_inv p" and "i < length (workers p)" and "workers p ! i = Waiting" and "queue p \<noteq> []"
  shows "core_inv (worker_take i now p)"
proof -
  obtain tid records q where q: "queue p = (tid, records) # q" using assms(4) by (metis list.exhaust surj_pair)
  let ?a = "length (objects p) - Suc (length q)" and ?k = "length (objects p) - length q"
  let ?t = "(objects p ! ?a)\<lparr>task_st := Running, started_at := Some now\<rparr>"
  have t: "table_ok (max_tracked p) (objects p) ((tid, records) # q) (tracked p) (task_order p)"
    and w: "workers_ok ?a (objects p) (workers p)"
    using assms(1) q by (simp_all add: core_inv_def)
  note h = table_head [OF t]
  have "Suc (length q) \<le> length (objects p)" using t by (simp add: table_ok_def Let_def)
  then have k: "?a \<le> ?k" "?a < ?k" by auto
  have bound: "int (length q) < queue_max p" using assms(1) q by (simp add: core_inv_def)
  show ?thesis
  proof (cases "length q < nat (max_tracked p)")
    case True
    have "table_ok (max_tracked p) ((objects p)[?a := ?t]) q (tracked p) (task_order p)"
      using table_set [OF table_take [OF t], of ?a ?t] k(2) by simp
    moreover have "\<forall>j < length (workers p). j \<noteq> i \<longrightarrow> busy_with (workers p ! j) \<noteq> Some ?a"
      using w unfolding workers_ok_def by blast
    then have "workers_ok ?k ((objects p)[?a := ?t]) ((workers p)[i := Processing ?a records])"
      using workers_set [OF w assms(2) k(2,1), of "Processing ?a records" ?t] assms(3) by simp
    moreover have "busy_count ((workers p)[i := Processing ?a records]) = busy_count (workers p) + 1"
      using assms(2,3) by (simp add: busy_count_update)
    ultimately show ?thesis
      using assms(1) q h(1) True bound
      by (auto simp: worker_take_def core_inv_def dest: set_update_subset_insert [THEN subsetD])
  next
    case False
    have "workers_ok ?k (objects p) ((workers p)[i := Ended (KeyError tid)])"
      using workers_end [OF w assms(3,2) k(1)] .
    moreover have "busy_count ((workers p)[i := Ended (KeyError tid)]) = busy_count (workers p)"
      using assms(2,3) by (simp add: busy_count_update)
    ultimately show ?thesis
      using assms(1) q h(1) False bound table_take [OF t]
      by (auto simp: worker_take_def core_inv_def)
  qed
qed

text \<open>A busy worker that leaves its task in a final state.\<close>

lemma finish_core:
  assumes "core_inv p" and "i < length (workers p)" and "busy_with (workers p ! i) = Some a"
    and "task_id t = task_id (objects p ! a)" and "task_st t \<noteq> Running" and "busy_with w = None"
    and "\<And>e. w = Ended e \<Longrightarrow> \<not> is_Exception e"
  shows "core_inv (worker_finally i now a w (p\<lparr>objects := (objects p)[a := t]\<rparr>))"
proof -
  let ?k = "length (objects p) - length (queue p)" and ?t = "t\<lparr>finished_at := Some now\<rparr>"
  have w: "workers_ok ?k (objects p) (workers p)"
    and tb: "table_ok (max_tracked p) (objects p) (queue p) (tracked p) (task_order p)"
    using assms(1) by (simp_all add: core_inv_def)
  note o = only_worker [OF w assms(2,3)]
  then have a: "a < length (objects p)" by (meson diff_le_self less_le_trans)
  have "table_ok (max_tracked p) ((objects p)[a := ?t]) (queue p) (tracked p) (task_order p)"
    using table_set [OF tb, of a ?t] o assms(4) by simp
  moreover have "processes w \<noteq> Some a" using assms(6) processes_busy by fastforce
  then have "workers_ok ?k ((objects p)[a := ?t]) ((workers p)[i := w])"
    using workers_set [OF w assms(2), of a ?k w ?t] o assms(3,5,6) by simp
  moreover have "busy_count ((workers p)[i := w]) = busy_count (workers p) - 1"
    using assms(2,3,6) by (simp add: busy_count_update)
  ultimately show ?thesis
    using assms(1) a assms(7)
    by (auto simp: worker_finally_def core_inv_def dest: set_update_subset_insert [THEN subsetD])
qed

lemma notify_core:
  assumes "core_inv p" and "i < length (workers p)" and "workers p ! i = Processing a records"
    and "task_id t = task_id (objects p ! a)" and "task_st t \<noteq> Running"
  shows "core_inv (p\<lparr>objects := (objects p)[a := t], workers := (workers p)[i := Notifying a]\<rparr>)"
proof -
  let ?k = "length (objects p) - length (queue p)"
  have w: "workers_ok ?k (objects p) (workers p)"
    and tb: "table_ok (max_tracked p) (objects p) (queue p) (tracked p) (task_order p)"
    using assms(1) by (simp_all add: core_inv_def)
  have o: "a < ?k" "\<forall>j < length (workers p). j \<noteq> i \<longrightarrow> busy_with (workers p ! j) \<noteq> Some a"
    using only_worker [OF w assms(2), of a] assms(3) by auto
  have "table_ok (max_tracked p) ((objects p)[a := t]) (queue p) (tracked p) (task_order p)"
    using table_set [OF tb o(1)] assms(4) by simp
  moreover have "workers_ok ?k ((objects p)[a := t]) ((workers p)[i := Notifying a])"
    using workers_set [OF w assms(2) o(1) order_refl o(2), of "Notifying a" t] assms(3,5) by simp
  moreover have "busy_count ((workers p)[i := Notifying a]) = busy_count (workers p)"
    using assms(2,3) by (simp add: busy_count_update)
  ultimately show ?thesis
    using assms(1) by (auto simp: core_inv_def dest: set_update_subset_insert [THEN subsetD])
qed

lemma result_core:
  assumes "core_inv p" and "i < length (workers p)"
  shows "core_inv (worker_result i now res p)"
proof (cases "workers p ! i")
  case (Processing a records)
  note fin = finish_core [OF assms, of a]
  note ntf = notify_core [OF assms Processing]
  show ?thesis
  proof (cases res)
    case (Inr r)
    then show ?thesis
      using Processing fin [of "(objects p ! a)\<lparr>task_st := Succeeded, task_result := Some r\<rparr>" Waiting]
      by (simp add: worker_result_def)
  next
    case (Inl e)
    let ?f = "(objects p ! a)\<lparr>task_st := Failed, task_error := Some (exn_str e)\<rparr>"
    let ?c = "(objects p ! a)\<lparr>task_st := Cancelled, task_error := Some ''worker task cancelled''\<rparr>"
    show ?thesis using Inl Processing fin [of ?f Waiting] fin [of ?c "Ended e"] ntf [of ?f]
      by (cases "is_Exception e"; cases "has_callback p") (simp_all add: worker_result_def Let_def)
  qed
qed (use assms in \<open>simp_all add: worker_result_def\<close>)

lemma callback_core:
  assumes "core_inv p" and "i < length (workers p)"
  shows "core_inv (worker_callback i now res p)"
proof (cases "workers p ! i")
  case (Notifying a)
  have "workers_ok (length (objects p) - length (queue p)) (objects p) (workers p)"
    using assms(1) by (simp add: core_inv_def)
  from notifying_not_running [OF this _ assms(2) Notifying]
  have "task_st (objects p ! a) \<noteq> Running" by simp
  then have "core_inv (worker_finally i now a w p)"
    if "busy_with w = None" "\<And>e. w = Ended e \<Longrightarrow> \<not> is_Exception e" for w
    using finish_core [OF assms, of a "objects p ! a" w now] Notifying that by simp
  from this [of Waiting] this [of "Ended (projl res)"] show ?thesis
    using Notifying by (auto simp: worker_callback_def split: sum.splits)
qed (use assms in \<open>simp_all add: worker_callback_def\<close>)

lemma cancel_core:
  assumes "core_inv p" and "i < length (workers p)"
  shows "core_inv (cancel_worker now i p)"
proof (cases "workers p ! i")
  case Waiting
  have "workers_ok (length (objects p) - length (queue p)) (objects p) ((workers p)[i := Ended CancelledError])"
    using assms(1) by (intro workers_end [OF _ Waiting assms(2) order_refl]) (simp add: core_inv_def)
  moreover have "busy_count ((workers p)[i := Ended CancelledError]) = busy_count (workers p)"
    using assms(2) Waiting by (simp add: busy_count_update)
  ultimately show ?thesis
    using assms(1) Waiting
    by (auto simp: cancel_worker_def core_inv_def is_Exception_def dest: set_update_subset_insert [THEN subsetD])
qed (use assms in \<open>simp_all add: cancel_worker_def result_core callback_core\<close>)

lemma cancel_frame:
  "running (cancel_worker now i p) = running p \<and>
   (\<exists>e. i < length (workers p) \<longrightarrow> workers (cancel_worker now i p) = (workers p)[i := Ended e])"
proof (cases "workers p ! i")
  case (Ended e)
  then have "(workers p)[i := Ended e] = workers p" by (metis list_update_id)
  then show ?thesis using Ended by (auto simp: cancel_worker_def intro: exI [of _ e])
qed (auto simp: cancel_worker_def worker_result_def worker_callback_def worker_finally_def is_Exception_def
      intro: exI [of _ CancelledError])

lemma ended_idle: "has_ended w \<Longrightarrow> busy_with w = None"
  by (cases w) auto

lemma stop_end_core:
  assumes "core_inv p" and "list_all has_ended (workers p)"
  shows "core_inv (stop_end p)"
proof -
  have idle: "\<forall>w \<in> set (workers p). busy_with w = None" using assms(2) ended_idle by (auto simp: list_all_iff)
  then have "workers_ok (length (objects p) - length (queue p)) (objects p) ([] :: 'a worker list)"
    using assms(1) by (auto simp: core_inv_def intro: workers_idle)
  then show ?thesis using assms(1) by (simp add: stop_end_def core_inv_def busy_count_def)
qed

text \<open>The whole call is a run of these steps.\<close>

lemma cancel_run:
  assumes "\<not> running p" and "n \<le> length (workers p)"
  shows "reach (\<lambda>q. q = p) pool_step (fold (cancel_worker now) [0..<n] p) \<and>
    \<not> running (fold (cancel_worker now) [0..<n] p) \<and>
    length (workers (fold (cancel_worker now) [0..<n] p)) = length (workers p) \<and>
    (\<forall>i < n. has_ended (workers (fold (cancel_worker now) [0..<n] p) ! i))"
  using assms(2)
proof (induction n)
  case 0
  then show ?case using assms(1) by (simp add: reach.reach_init)
next
  case (Suc n)
  let ?q = "fold (cancel_worker now) [0..<n] p"
  have q: "reach (\<lambda>q. q = p) pool_step ?q" "length (workers ?q) = length (workers p)" "\<not> running ?q"
    "\<forall>i < n. has_ended (workers ?q ! i)"
    using Suc by auto
  have "pool_step ?q (ECancel n now) (cancel_worker now n ?q)"
    using q(2,3) Suc.prems by (intro step_cancel) simp_all
  with q(1) have "reach (\<lambda>q. q = p) pool_step (cancel_worker now n ?q)" by (rule reach.reach_step)
  moreover obtain e where "workers (cancel_worker now n ?q) = (workers ?q)[n := Ended e]"
    using cancel_frame [of now n ?q] q(2) Suc.prems by auto
  ultimately show ?case
    using q cancel_frame [of now n ?q] Suc.prems by (simp add: less_Suc_eq nth_list_update)
qed

lemma stop_run: "reach (\<lambda>q. q = p) pool_step (stop now p)"
proof (cases "running p")
  case True
  let ?b = "stop_begin p" and ?q = "fold (cancel_worker now) [0..<length (workers p)] (stop_begin p)"
  have b: "\<not> running ?b" "workers ?b = workers p" by (simp_all add: stop_begin_def)
  from cancel_run [OF b(1), of "length (workers p)" now]
  have q: "reach (\<lambda>q. q = ?b) pool_step ?q" "\<not> running ?q" "list_all has_ended (workers ?q)"
    by (simp_all add: b(2) list_all_length)
  have "reach (\<lambda>q. q = p) pool_step ?b" by (rule reach.reach_step [where step = pool_step, OF _ step_stop]) (rule reach.reach_init, rule refl)
  with q(1) have "reach (\<lambda>q. q = p) pool_step ?q"
    by (induction rule: reach.induct) (auto intro: reach.reach_step)
  then have "reach (\<lambda>q. q = p) pool_step (stop_end ?q)"
    using step_stopped [OF q(2,3)] by (rule reach.reach_step)
  then show ?thesis using True by (simp add: stop_def)
next
  case False
  then show ?thesis by (simp add: stop_def reach.reach_init)
qed

lemma submit_frame:
  "running (fst (submit_batch_ingest now tid rs p)) = running p \<and>
   workers (fst (submit_batch_ingest now tid rs p)) = workers p \<and>
   worker_count (fst (submit_batch_ingest now tid rs p)) = worker_count p \<and>
   queue_max (fst (submit_batch_ingest now tid rs p)) = queue_max p \<and>
   max_tracked (fst (submit_batch_ingest now tid rs p)) = max_tracked p \<and>
   set (objects (fst (submit_batch_ingest now tid rs p))) \<subseteq>
     set (objects p) \<union> {st. task_id st = tid}"
  by (auto simp: submit_batch_ingest_def Let_def split: prod.splits sum.splits)

lemmas worker_ops = worker_take_def worker_result_def worker_callback_def worker_finally_def Let_def

lemma worker_frame:
  "running (worker_take i now p) = running p" "length (workers (worker_take i now p)) = length (workers p)"
  "running (worker_result i now res p) = running p" "length (workers (worker_result i now res p)) = length (workers p)"
  "running (worker_callback i now r p) = running p" "length (workers (worker_callback i now r p)) = length (workers p)"
  "worker_count (worker_take i now p) = worker_count p" "queue_max (worker_take i now p) = queue_max p"
  "max_tracked (worker_take i now p) = max_tracked p"
  "worker_count (worker_result i now res p) = worker_count p" "queue_max (worker_result i now res p) = queue_max p"
  "max_tracked (worker_result i now res p) = max_tracked p"
  "worker_count (worker_callback i now r p) = worker_count p" "queue_max (worker_callback i now r p) = queue_max p"
  "max_tracked (worker_callback i now r p) = max_tracked p"
  by (auto simp: worker_ops split: list.splits option.splits worker.splits sum.splits)

lemma cancel_consts:
  "worker_count (cancel_worker now i p) = worker_count p" "queue_max (cancel_worker now i p) = queue_max p"
  "max_tracked (cancel_worker now i p) = max_tracked p"
  by (auto simp: cancel_worker_def worker_frame split: worker.splits)

lemma step_consts:
  "pool_step p e p' \<Longrightarrow> queue_max p' = queue_max p \<and> max_tracked p' = max_tracked p \<and> worker_count p' = worker_count p"
  by (induction rule: pool_step.induct)
    (auto simp: start_def stop_begin_def stop_end_def submit_frame worker_frame cancel_consts)

lemma step_inv: "pool_step p e p' \<Longrightarrow> pool_inv p \<Longrightarrow> pool_inv p'"
proof (induction rule: pool_step.induct)
  case (step_stop p)
  then show ?case by (simp add: pool_inv_def core_inv_def stop_begin_def)
next
  case (step_cancel p i now)
  then show ?case using cancel_frame [of now i p] by (simp add: pool_inv_def cancel_core)
next
  case (step_stopped p)
  then show ?case by (simp add: pool_inv_def stop_end_core) (simp add: stop_end_def)
next
  case (step_submit tid p now records)
  then show ?case by (simp add: pool_inv_def submit_core submit_frame)
qed (use start_inv in \<open>auto simp: pool_inv_def take_core result_core callback_core worker_frame\<close>)

text \<open>Every queued task is in the table, when the table is at least as long as the queue.\<close>

lemma queued_tracked:
  assumes "table_ok mt objs q tr ord" and "int (length q) \<le> mt" and "(tid, rs) \<in> set q"
  shows "\<exists>a. map_of tr tid = Some a \<and> task_st (objs ! a) = Queued"
proof -
  let ?ids = "map task_id objs"
  have q: "length q \<le> length objs" "map fst q = drop (length objs - length q) ?ids"
    and st: "\<forall>a < length objs. length objs - length q \<le> a \<longrightarrow> task_st (objs ! a) = Queued"
    and tr: "tr = map (\<lambda>a. (?ids ! a, a)) [length ?ids - nat mt..<length ?ids]" and d: "distinct ?ids"
    using assms(1) by (simp_all add: table_ok_def Let_def)
  obtain i where i: "i < length q" "q ! i = (tid, rs)" using assms(3) by (auto simp: in_set_conv_nth)
  let ?a = "length objs - length q + i"
  have "tid = map fst q ! i" using i by simp
  then have "tid = ?ids ! ?a" using i(1) q by (simp add: add.commute)
  moreover have "?a \<in> set [length ?ids - nat mt..<length ?ids]" using i(1) q(1) assms(2) by auto
  ultimately have "(tid, ?a) \<in> set tr" unfolding tr by simp
  moreover have "distinct (map fst tr)"
    using fst_table [of ?ids "nat mt"] d unfolding tr by (metis distinct_drop)
  ultimately have "map_of tr tid = Some ?a" by simp
  moreover have "task_st (objs ! ?a) = Queued" using st i(1) q(1) by simp
  ultimately show ?thesis by blast
qed

text \<open>An ended worker stays as it is until \<open>stop\<close> drops it, and only \<open>stop\<close> takes the pool down.\<close>

lemma ended_stays:
  assumes "pool_step p e p'" and "e \<noteq> EStop" and "e \<noteq> EStopped" and "i < length (workers p)"
    and "workers p ! i = Ended x"
  shows "i < length (workers p') \<and> workers p' ! i = Ended x \<and> (running p' \<longleftrightarrow> running p)"
  using assms
proof (induction rule: pool_step.induct)
  case (step_cancel p j now)
  then show ?case
    using cancel_frame [of now j p] by (cases "i = j") (auto simp: cancel_worker_def)
next
  case (step_take j p now)
  then have "i \<noteq> j" by auto
  then show ?case using step_take by (auto simp: worker_take_def split: list.splits option.splits)
next
  case (step_result j p a rs now res)
  then have "i \<noteq> j" by auto
  then show ?case using step_result
    by (auto simp: worker_result_def worker_finally_def Let_def split: sum.splits)
next
  case (step_callback j p a now res)
  then have "i \<noteq> j" by auto
  then show ?case using step_callback by (auto simp: worker_callback_def worker_finally_def split: sum.splits)
qed (auto simp: start_def submit_frame)

text \<open>The pool's runs as an instance of the invariant interface.\<close>

interpretation wp: invariant_system "\<lambda>p. \<exists>wc cb. 0 < qs \<and> 0 \<le> mt \<and> p = new_pool wc qs mt cb" pool_step
    "\<lambda>p. pool_inv p \<and> queue_max p = qs \<and> max_tracked p = mt" for qs mt
  by unfold_locales (auto simp: new_pool_inv step_consts intro: step_inv, simp_all add: new_pool_def)

text \<open>
  C1. No submitted task is lost when \<open>max_tracked_tasks\<close> is at least the queue's size. In every state
  that the pool can reach, whatever is submitted, started, stopped and finished in between, no worker was
  ended by an exception of the loop, every queued task can be looked up and has the status queued, the
  running tasks are exactly those that some worker awaits the processor for, no task is held by two
  workers, and the queue and the status table keep their bounds.
\<close>

theorem pool_loses_no_task:
  assumes "0 < qs" and "qs \<le> mt"
    and "reach (\<lambda>p. p = new_pool wc qs mt cb) pool_step p"
  shows "(\<forall>e. Ended e \<in> set (workers p) \<longrightarrow> \<not> is_Exception e) \<and>
    (\<forall>(tid, records) \<in> set (queue p). \<exists>st. get_task_status tid p = Some st \<and> task_st st = Queued) \<and>
    (\<forall>a < length (objects p). task_st (objects p ! a) = Running \<longleftrightarrow>
       (\<exists>i < length (workers p). processes (workers p ! i) = Some a)) \<and>
    (\<forall>i < length (workers p). \<forall>j < length (workers p). \<forall>a.
       busy_with (workers p ! i) = Some a \<longrightarrow> busy_with (workers p ! j) = Some a \<longrightarrow> i = j) \<and>
    int (length (queue p)) \<le> qs \<and> int (length (tracked p)) \<le> mt"
proof -
  have "reach (\<lambda>p. \<exists>wc cb. 0 < qs \<and> 0 \<le> mt \<and> p = new_pool wc qs mt cb) pool_step p"
    using assms(3) by (rule reach_mono) (use assms(1,2) in auto)
  from wp.reachable_inv [OF this] have inv: "core_inv p" "queue_max p = qs" "max_tracked p = mt"
    by (simp_all add: pool_inv_def)
  then have t: "table_ok mt (objects p) (queue p) (tracked p) (task_order p)"
    and w: "workers_ok (length (objects p) - length (queue p)) (objects p) (workers p)"
    and b: "int (length (queue p)) \<le> qs" "0 \<le> mt"
    and e: "\<forall>e. Ended e \<in> set (workers p) \<longrightarrow> \<not> is_Exception e"
    using assms(2) by (simp_all add: core_inv_def)
  have "\<forall>(tid, records) \<in> set (queue p). \<exists>st. get_task_status tid p = Some st \<and> task_st st = Queued"
  proof (clarify)
    fix tid records
    assume "(tid, records) \<in> set (queue p)"
    from queued_tracked [OF t _ this] b(1) assms(2)
    obtain a where "map_of (tracked p) tid = Some a" "task_st (objects p ! a) = Queued" by auto
    then show "\<exists>st. get_task_status tid p = Some st \<and> task_st st = Queued"
      by (simp add: get_task_status_def)
  qed
  moreover have "int (length (tracked p)) \<le> mt"
    using t b(2) by (simp add: table_ok_def Let_def)
  ultimately show ?thesis using w b(1) e unfolding workers_ok_def by blast
qed

text \<open>A pool with a queue of 1000 and a history of 10, and \<open>n\<close> submissions before a worker runs.\<close>

definition demo_id :: "nat \<Rightarrow> string" where
  "demo_id n = replicate n CHR ''x''"

definition demo_pool :: "int \<Rightarrow> int \<Rightarrow> nat \<Rightarrow> (unit, unit) pool" where
  "demo_pool qs mt n =
     fold (\<lambda>k p. fst (submit_batch_ingest 0 (demo_id k) [()] p)) [0..<n] (start (new_pool 1 qs mt False))"

lemma demo_reach:
  "reach (\<lambda>p. p = new_pool 1 qs mt False) pool_step (demo_pool qs mt n) \<and>
   task_id ` set (objects (demo_pool qs mt n)) \<subseteq> demo_id ` {..<n}"
proof (induction n)
  case 0
  have st: "pool_step (new_pool 1 qs mt False) EStart (start (new_pool 1 qs mt False))"
    by (rule step_start) (simp add: new_pool_def)
  have "reach (\<lambda>p. p = new_pool 1 qs mt False) pool_step (start (new_pool 1 qs mt False))"
    by (rule reach.reach_step [where step = pool_step, OF _ st]) (rule reach.reach_init, rule refl)
  then show ?case by (simp add: demo_pool_def start_def new_pool_def)
next
  case (Suc n)
  let ?p = "demo_pool qs mt n"
  have suc: "demo_pool qs mt (Suc n) = fst (submit_batch_ingest 0 (demo_id n) [()] ?p)"
    by (simp add: demo_pool_def)
  have "demo_id n \<notin> demo_id ` {..<n}"
    by (auto simp: demo_id_def dest: arg_cong [where f = length])
  then have "pool_step ?p (ESubmit 0 (demo_id n) [()]) (demo_pool qs mt (Suc n))"
    unfolding suc using Suc.IH by (intro step_submit) blast
  with Suc.IH have "reach (\<lambda>p. p = new_pool 1 qs mt False) pool_step (demo_pool qs mt (Suc n))"
    by (blast intro: reach.reach_step)
  moreover have "set (objects (demo_pool qs mt (Suc n))) \<subseteq> set (objects ?p) \<union> {st. task_id st = demo_id n}"
    unfolding suc using submit_frame by blast
  then have "task_id ` set (objects (demo_pool qs mt (Suc n))) \<subseteq> insert (demo_id n) (task_id ` set (objects ?p))"
    by auto
  then have "task_id ` set (objects (demo_pool qs mt (Suc n))) \<subseteq> demo_id ` {..<Suc n}"
    using Suc.IH by (auto simp: lessThan_Suc)
  ultimately show ?case by blast
qed

theorem pool_loses_no_task_witness:
  "\<exists>st. get_task_status (demo_id 0) (demo_pool 2 10 2) = Some st \<and> task_st st = Queued"
proof -
  have "(demo_id 0, [()]) \<in> set (queue (demo_pool 2 10 2))" by code_simp
  then show ?thesis
    using pool_loses_no_task [of 2 10 1 False "demo_pool 2 10 2"] demo_reach [of 2 10 2] by auto
qed

text \<open>
  C33. More waiting tasks than the status table holds kill the workers. The table is trimmed to its
  \<open>max_tracked_tasks\<close> newest entries also when the dropped ones still wait, and the worker's lookup
  of a dropped task stands outside its \<open>try\<close>: a worker that takes a task with at least that many behind it
  ends with a \<open>KeyError\<close>, and it stays dead, whatever is submitted, taken and finished, in a pool that still
  reports itself as running if it did before, until the pool is stopped.
\<close>

theorem overflow_kills_worker:
  assumes "reach (\<lambda>p. p = new_pool wc qs mt cb) pool_step p" and "0 < qs" and "0 \<le> mt"
    and "i < length (workers p)" and "workers p ! i = Waiting"
    and "queue p = (tid, records) # rest" and "mt \<le> int (length rest)"
    and "(\<lambda>x y. \<exists>e. e \<noteq> EStop \<and> e \<noteq> EStopped \<and> pool_step x e y)\<^sup>*\<^sup>* (worker_take i now p) p'"
  shows "workers p' ! i = Ended (KeyError tid) \<and> (running p' \<longleftrightarrow> running p)"
proof -
  have "reach (\<lambda>p. \<exists>wc cb. 0 < qs \<and> 0 \<le> mt \<and> p = new_pool wc qs mt cb) pool_step p"
    using assms(1) by (rule reach_mono) (use assms(2,3) in auto)
  from wp.reachable_inv [OF this] have inv: "core_inv p" "max_tracked p = mt"
    by (auto simp: pool_inv_def split: if_splits)
  then have "table_ok mt (objects p) ((tid, records) # rest) (tracked p) (task_order p)"
    using assms(6) by (simp add: core_inv_def)
  from table_head(1) [OF this] have "map_of (tracked p) tid = None" using assms(3,7) by simp
  then have "i < length (workers (worker_take i now p)) \<and> workers (worker_take i now p) ! i = Ended (KeyError tid) \<and>
      (running (worker_take i now p) \<longleftrightarrow> running p)"
    using assms(4,6) by (simp add: worker_take_def)
  with assms(8) show ?thesis
    by (induction rule: converse_rtranclp_induct) (auto dest: ended_stays)
qed

theorem overflow_kills_worker_witness:
  "workers (worker_take 0 5 (demo_pool 1000 10 11)) ! 0 = Ended (KeyError (demo_id 0)) \<and>
   running (worker_take 0 5 (demo_pool 1000 10 11))"
proof -
  have q: "queue (demo_pool 1000 10 11) = (demo_id 0, [()]) # tl (queue (demo_pool 1000 10 11))"
    and w: "workers (demo_pool 1000 10 11) = [Waiting]" and l: "length (tl (queue (demo_pool 1000 10 11))) = 10"
    and r: "running (demo_pool 1000 10 11)"
    by code_simp+
  show ?thesis
    using overflow_kills_worker [OF conjunct1 [OF demo_reach] _ _ _ _ q, where i = 0 and now = 5] w l r by simp
qed

end
