(* ===== verification/Jobs.thy ===== *)
theory Jobs
  imports Retry Crud_Laws
begin

text \<open>
  The ingestion jobs of \<open>ingestor/jobs.py\<close>: single and batch ingestion with the in-memory
  deduplication of \<open>IdempotencyKeyTracker\<close>, the scheduled batch behind \<open>exponential_backoff\<close>, the
  archive placeholder and the health query. The module-level tracker is part of the state.
\<close>

record 'db job_state =
  j_db :: 'db
  j_tracker :: tracker
  j_attempts :: nat

text \<open>
  The clock readings of one ingestion: \<open>time.time()\<close> at the check and at the mark, and
  \<open>datetime.now(UTC)\<close> for the timestamp, the validation, the key and the insert;
  \<open>perf_counter\<close> at the start and at the end.
\<close>

record job_clock =
  t_check :: seconds
  t_mark :: seconds
  d_stamp :: datetime
  d_valid :: datetime
  d_key :: datetime
  d_insert :: datetime
  p_start :: seconds
  p_end :: seconds

definition key_given :: "string option \<Rightarrow> bool" where
  "key_given k \<longleftrightarrow> k \<noteq> None \<and> k \<noteq> Some []"

definition ingest_api_single ::
  "'db engine \<Rightarrow> job_clock \<Rightarrow> record_request \<Rightarrow> string option \<Rightarrow> 'db job_state \<Rightarrow>
   'db job_state \<times> row option outcome"
where
  "ingest_api_single E t request idempotency_key s =
     (let (dup, tr) = (if key_given idempotency_key
                       then is_duplicate (t_check t) (the idempotency_key) (j_tracker s)
                       else (False, j_tracker s));
          s1 = s\<lparr>j_tracker := tr\<rparr>
      in if dup then (s1, Inr None)
         else
           let s2 = (if key_given idempotency_key
                     then s1\<lparr>j_tracker := mark_seen (t_mark t) (the idempotency_key) tr\<rparr> else s1)
           in (case create_record E (d_insert t) request (j_db s2) of
                 (r, db') \<Rightarrow> (s2\<lparr>j_db := db'\<rparr>, map_sum id Some r)))"

record batch_summary =
  inserted :: int
  errors :: int
  first_error :: "string option"

definition batch_key :: "string option \<Rightarrow> record_request list \<Rightarrow> string option" where
  "batch_key prefix requests =
     (if key_given prefix then Some (the prefix @ '':'' @ show_int (int (length requests))) else None)"

definition ingest_api_batch ::
  "'db engine \<Rightarrow> job_clock \<Rightarrow> record_request list \<Rightarrow> string option \<Rightarrow> 'db job_state \<Rightarrow>
   'db job_state \<times> batch_summary outcome"
where
  "ingest_api_batch E t requests prefix s =
     (let key = batch_key prefix requests;
          (dup, tr) = (case key of None \<Rightarrow> (False, j_tracker s)
                       | Some k \<Rightarrow> is_duplicate (t_check t) k (j_tracker s));
          s1 = s\<lparr>j_tracker := tr\<rparr>
      in if dup then
           (s1, Inr \<lparr>inserted = 0, errors = 0,
                      first_error = Some ''Batch already processed (duplicate key)''\<rparr>)
         else
           let s2 = (case key of None \<Rightarrow> s1 | Some k \<Rightarrow> s1\<lparr>j_tracker := mark_seen (t_mark t) k tr\<rparr>)
           in (case create_records_batch E (d_insert t) requests (j_db s2) of
                 (Inr records, db') \<Rightarrow>
                   (s2\<lparr>j_db := db'\<rparr>,
                    Inr \<lparr>inserted = int (length records), errors = 0, first_error = None\<rparr>)
               | (Inl e, db') \<Rightarrow>
                   if is_Exception e
                   then (s2\<lparr>j_db := db'\<rparr>,
                         Inr \<lparr>inserted = 0, errors = int (length requests), first_error = Some (exn_str e)\<rparr>)
                   else (s2\<lparr>j_db := db'\<rparr>, Inl e)))"

subsection \<open>Scheduled jobs\<close>

record batch_report =
  br_source :: string
  br_inserted :: int
  br_errors :: int
  br_duration :: seconds

definition example_raw :: "datetime \<Rightarrow> raw_request" where
  "example_raw stamp =
     \<lparr>raw_source = ''example_source'',
      raw_timestamp = Some \<lparr>wall_clock = stamp, tzinfo = Some 0\<rparr>,
      raw_data_in = [(''example'', JStr ''data'')], raw_tags = [''batch'']\<rparr>"

text \<open>One attempt of the job; \<open>clk n\<close> are the readings of attempt \<open>n\<close>.\<close>

definition scheduled_batch_attempt ::
  "'db engine \<Rightarrow> (nat \<Rightarrow> job_clock) \<Rightarrow> 'db job_state \<Rightarrow> 'db job_state \<times> batch_report outcome"
where
  "scheduled_batch_attempt E clk s =
     (let t = clk (j_attempts s);
          s0 = s\<lparr>j_attempts := Suc (j_attempts s)\<rparr>
      in (case traverse (validate_record_request (d_valid t)) [example_raw (d_stamp t)] of
            Inl e \<Rightarrow> (s0, Inl (ValueError ''ValidationError''))
          | Inr requests \<Rightarrow>
              (case ingest_api_batch E t requests
                      (Some (''example_source_'' @ take 10 (isoformat (d_key t)))) s0 of
                 (s1, Inl e) \<Rightarrow> (s1, Inl e)
               | (s1, Inr b) \<Rightarrow>
                   (s1, Inr \<lparr>br_source = ''example_source'', br_inserted = inserted b,
                             br_errors = errors b, br_duration = p_end t - p_start t\<rparr>))))"

definition scheduled_backoff :: backoff_cfg where
  "scheduled_backoff = \<lparr>max_retries = 3, base_delay = 2, max_delay = 60, jitter = True\<rparr>"

definition ingest_scheduled_batch_example ::
  "'db engine \<Rightarrow> (nat \<Rightarrow> job_clock) \<Rightarrow> (nat \<Rightarrow> rat) \<Rightarrow> (nat \<Rightarrow> bool) \<Rightarrow> 'db job_state \<Rightarrow>
   'db job_state \<times> seconds list \<times> batch_report outcome"
where
  "ingest_scheduled_batch_example E clk rnd cancelled s =
     exponential_backoff scheduled_backoff (scheduled_batch_attempt E clk) rnd cancelled s"

record archive_report =
  ar_archived :: int
  ar_deleted :: int
  ar_duration :: seconds
  ar_status :: string

definition archive_old_records ::
  "(nat \<Rightarrow> rat) \<Rightarrow> (nat \<Rightarrow> bool) \<Rightarrow> 'db job_state \<Rightarrow> 'db job_state \<times> seconds list \<times> archive_report outcome"
where
  "archive_old_records rnd cancelled s =
     exponential_backoff \<lparr>max_retries = 2, base_delay = 5, max_delay = 60, jitter = True\<rparr>
       (\<lambda>s. (s, Inr \<lparr>ar_archived = 0, ar_deleted = 0, ar_duration = 0, ar_status = ''placeholder (Pillar 5)''\<rparr>))
       rnd cancelled s"

subsection \<open>Health\<close>

datatype health =
    Healthy int "string option"
  | Unhealthy string

definition get_ingestion_health :: "'db engine \<Rightarrow> datetime \<Rightarrow> 'db \<Rightarrow> health outcome" where
  "get_ingestion_health E now db =
     (case try_bind (sql_select E (select_record [CreatedGe (now - micros_per_day)]) db) (\<lambda>recent.
             try_bind (sql_select E \<lparr>q_where = [], q_order = [(ColCreatedAt, True)], q_offset = 0,
                 q_limit = Some 1\<rparr> db) (\<lambda>newest.
             try_bind (scalar_one_or_none newest) (\<lambda>last_record.
               Inr (Healthy (int (length recent)) (map_option (\<lambda>r. isoformat (r_created_at r)) last_record))))) of
        Inr h \<Rightarrow> Inr h
      | Inl e \<Rightarrow> if is_Exception e then Inr (Unhealthy ''Internal ingestion health check failure'') else Inl e)"

subsection \<open>The tracker's contract with its clients\<close>

locale dedup_tracker =
  fixes check :: "seconds \<Rightarrow> string \<Rightarrow> 't \<Rightarrow> bool \<times> 't"
    and mark :: "seconds \<Rightarrow> string \<Rightarrow> 't \<Rightarrow> 't"
    and ttl :: "'t \<Rightarrow> seconds"
  assumes marked: "t - t' \<le> ttl tr \<Longrightarrow> check t k (mark t' k tr) = (True, mark t' k tr)"
    and check_ttl: "ttl (snd (check t k tr)) = ttl tr"
    and mark_ttl: "ttl (mark t k tr) = ttl tr"
begin

lemma marked_after_check: "t - t' \<le> ttl tr \<Longrightarrow> fst (check t k (mark t' k (snd (check t0 j tr))))"
  by (simp add: marked check_ttl)

lemma check_marked_id: "t - t' \<le> ttl tr \<Longrightarrow> snd (check t k (mark t' k tr)) = mark t' k tr"
  by (simp add: marked)

end

interpretation dt: dedup_tracker is_duplicate mark_seen ttl_seconds
  by unfold_locales (auto simp: is_duplicate_def mark_seen_def Let_def split: option.splits)

lemma ingest_single_marks:
  assumes "key_given k" and "\<not> fst (is_duplicate (t_check t) (the k) (j_tracker s))"
  shows "ingest_api_single E t q k s =
    (let tr = mark_seen (t_mark t) (the k) (snd (is_duplicate (t_check t) (the k) (j_tracker s)));
         res = create_record E (d_insert t) q (j_db s)
     in (s\<lparr>j_tracker := tr, j_db := snd res\<rparr>, map_sum id Some (fst res)))"
  using assms by (cases "is_duplicate (t_check t) (the k) (j_tracker s)")
    (simp add: ingest_api_single_def Let_def case_prod_beta)

text \<open>
  C14. A key is used at most once, even when it was not used. After an ingestion with a key, every
  further ingestion with that key within the tracker's time-to-live is skipped with \<open>None\<close> and touches
  neither the table nor the tracker; this holds as well when the first ingestion raised and inserted
  nothing, so that the client's retry is lost.
\<close>

theorem single_key_used_up:
  assumes "key_given k" and "ingest_api_single E t q k s = (s1, res)" and "res \<noteq> Inr None"
    and "t_check t' - t_mark t \<le> ttl_seconds (j_tracker s)"
  shows "ingest_api_single E t' q' k s1 = (s1, Inr None) \<and>
    (\<forall>e. res = Inl e \<longrightarrow> create_record E (d_insert t) q (j_db s) = (Inl e, j_db s1))"
proof (cases "fst (is_duplicate (t_check t) (the k) (j_tracker s))")
  case True
  then show ?thesis
    using assms(1-3) by (cases "is_duplicate (t_check t) (the k) (j_tracker s)")
      (simp add: ingest_api_single_def)
next
  case False
  let ?tr = "mark_seen (t_mark t) (the k) (snd (is_duplicate (t_check t) (the k) (j_tracker s)))"
  let ?res = "create_record E (d_insert t) q (j_db s)"
  have s1: "s1 = s\<lparr>j_tracker := ?tr, j_db := snd ?res\<rparr>" "res = map_sum id Some (fst ?res)"
    using assms(2) ingest_single_marks [OF assms(1) False, of E q] by (simp_all add: Let_def)
  have "is_duplicate (t_check t') (the k) (j_tracker s1) = (True, ?tr)"
    using s1(1) assms(4) dt.check_ttl [of "t_check t" "the k" "j_tracker s"] by (simp add: dt.marked)
  then have "ingest_api_single E t' q' k s1 = (s1\<lparr>j_tracker := ?tr\<rparr>, Inr None)"
    using assms(1) by (simp add: ingest_api_single_def)
  moreover have "s1\<lparr>j_tracker := ?tr\<rparr> = s1" using s1(1) by simp
  moreover have "?res = (Inl e, j_db s1)" if "res = Inl e" for e
    using that s1 by (cases ?res; cases "fst ?res") auto
  ultimately show ?thesis by simp
qed

definition fresh_jobs :: "'db \<Rightarrow> 'db job_state" where
  "fresh_jobs db = \<lparr>j_db = db, j_tracker = new_tracker 3600, j_attempts = 0\<rparr>"

definition job_at :: "int \<Rightarrow> job_clock" where
  "job_at n = \<lparr>t_check = of_int n, t_mark = of_int n, d_stamp = n, d_valid = n, d_key = n, d_insert = n,
     p_start = of_int n, p_end = of_int n\<rparr>"

lemma failing_single:
  "ingest_api_single mem_engine (job_at 9) (req ''a'' 5) (Some ''k'') (fresh_jobs (one_db None)) =
   ((fresh_jobs (one_db None))\<lparr>j_tracker := mark_seen 9 ''k'' (new_tracker 3600)\<rparr>, Inl IntegrityError)"
proof -
  have "create_record mem_engine 9 (req ''a'' 5) (one_db None) = (Inl IntegrityError, one_db None)"
    using mem.create_record_dup [OF mem_ok_one, of "req ''a'' 5" None 9] one_db_row(1,2) [of None]
    by (metis imageI)
  then show ?thesis
    by (simp add: ingest_api_single_def key_given_def fresh_jobs_def job_at_def is_duplicate_def new_tracker_def)
qed

theorem single_key_used_up_witness:
  "fst (ingest_api_single mem_engine (job_at 20) (req ''b'' 7) (Some ''k'')
     ((fresh_jobs (one_db None))\<lparr>j_tracker := mark_seen 9 ''k'' (new_tracker 3600)\<rparr>)) =
     (fresh_jobs (one_db None))\<lparr>j_tracker := mark_seen 9 ''k'' (new_tracker 3600)\<rparr> \<and>
   snd (ingest_api_single mem_engine (job_at 20) (req ''b'' 7) (Some ''k'')
     ((fresh_jobs (one_db None))\<lparr>j_tracker := mark_seen 9 ''k'' (new_tracker 3600)\<rparr>)) = Inr None"
proof -
  have "key_given (Some ''k'')" "t_check (job_at 20) - t_mark (job_at 9) \<le> ttl_seconds (j_tracker (fresh_jobs (one_db None)))"
    by (simp_all add: key_given_def job_at_def fresh_jobs_def new_tracker_def)
  from single_key_used_up [OF this(1) failing_single _ this(2), of "req ''b'' 7"] show ?thesis by simp
qed

lemma batch_key_hit:
  assumes "key_given p" and "length b' = length b" and "ingest_api_batch E t b p s = (s1, res)"
    and "\<not> fst (is_duplicate (t_check t) (the (batch_key p b)) (j_tracker s))"
    and "t_check t' - t_mark t \<le> ttl_seconds (j_tracker s)"
  shows "\<exists>x. ingest_api_batch E t' b' p s1 = (s1, Inr x) \<and> inserted x = 0 \<and> errors x = 0"
proof -
  obtain k where k: "batch_key p b = Some k" "batch_key p b' = Some k"
    using assms(1,2) by (simp add: batch_key_def)
  let ?tr = "mark_seen (t_mark t) k (snd (is_duplicate (t_check t) k (j_tracker s)))"
  have nd: "\<not> fst (is_duplicate (t_check t) k (j_tracker s))" using assms(4) k(1) by simp
  have tr: "j_tracker s1 = ?tr"
    using assms(3) nd k(1) by (cases "is_duplicate (t_check t) k (j_tracker s)")
      (auto simp: ingest_api_batch_def Let_def split: prod.splits sum.splits if_splits)
  have "is_duplicate (t_check t') k (j_tracker s1) = (True, ?tr)"
    using tr assms(5) dt.check_ttl [of "t_check t" k "j_tracker s"] by (simp add: dt.marked)
  then show ?thesis
    using k(2) tr by (simp add: ingest_api_batch_def)
qed

text \<open>
  Batches of the same size are taken for the same batch. The key of a batch is its prefix and its
  length: after a batch was handed in, any other batch of that length under that prefix within
  the time-to-live is answered as already processed, with no errors, and nothing of it is inserted,
  also when the first batch failed.
\<close>

theorem batch_key_collision:
  assumes "key_given p" and "length b' = length b" and "ingest_api_batch E t b p s = (s1, res)"
    and "\<not> fst (is_duplicate (t_check t) (the (batch_key p b)) (j_tracker s))"
    and "t_check t' - t_mark t \<le> ttl_seconds (j_tracker s)"
  shows "\<exists>x. ingest_api_batch E t' b' p s1 = (s1, Inr x) \<and> inserted x = 0 \<and> errors x = 0"
  using assms by (rule batch_key_hit)

theorem batch_key_collision_witness:
  "\<exists>s1 x. fst (ingest_api_batch mem_engine (job_at 1) [req ''a'' 1] (Some ''d'') (fresh_jobs empty_db)) = s1 \<and>
     ingest_api_batch mem_engine (job_at 2) [req ''b'' 2] (Some ''d'') s1 = (s1, Inr x) \<and> inserted x = 0"
proof -
  obtain s1 res where r: "ingest_api_batch mem_engine (job_at 1) [req ''a'' 1] (Some ''d'') (fresh_jobs empty_db) =
      (s1, res)" by (cases "ingest_api_batch mem_engine (job_at 1) [req ''a'' 1] (Some ''d'') (fresh_jobs empty_db)")
  have "key_given (Some ''d'')" "length [req ''b'' 2] = length [req ''a'' 1]"
    by (simp_all add: key_given_def)
  from batch_key_collision [OF this r, of "job_at 2"] r show ?thesis
    by (auto simp: fresh_jobs_def is_duplicate_def new_tracker_def job_at_def)
qed

lemma example_valid:
  assumes "stamp \<le> now"
  shows "\<exists>q. traverse (validate_record_request now) [example_raw stamp] = Inr [q]"
proof -
  have "lower ''example_source'' \<notin> forbidden_sources" by code_simp
  then have "validate_source ''example_source'' = Inr ''example_source''"
    by (simp add: validate_source_iff)
  moreover have "validate_timestamp now (raw_timestamp (example_raw stamp)) = Inr stamp"
    using assms by (simp add: validate_timestamp_iff example_raw_def)
  moreover have "validate_tags [''batch''] = Inr (lowercase_tags [''batch''])"
    by (simp add: validate_tags_iff)
  ultimately show ?thesis
    by (simp add: validate_record_request_def example_raw_def traverse_def)
qed

text \<open>
  The scheduled batch is never retried. \<open>ingest_api_batch\<close> turns every exception of the insert
  into a summary, so whatever the engine does, the job that \<open>exponential_backoff\<close> wraps makes exactly one
  attempt and sleeps never, as long as the record it builds is valid.
\<close>

theorem scheduled_batch_not_retried:
  assumes "d_stamp (clk (j_attempts s)) \<le> d_valid (clk (j_attempts s))"
  shows "\<exists>s' r. ingest_scheduled_batch_example E clk rnd cancelled s = (s', [], r) \<and>
    j_attempts s' = Suc (j_attempts s)"
proof -
  let ?t = "clk (j_attempts s)"
  let ?s0 = "s\<lparr>j_attempts := Suc (j_attempts s)\<rparr>"
  obtain q where v: "traverse (validate_record_request (d_valid ?t)) [example_raw (d_stamp ?t)] = Inr [q]"
    using example_valid [OF assms] by blast
  let ?p = "Some (''example_source_'' @ take 10 (isoformat (d_key ?t)))"
  obtain s1 b where b: "ingest_api_batch E ?t [q] ?p ?s0 = (s1, b)" by (cases "ingest_api_batch E ?t [q] ?p ?s0")
  have "j_attempts s1 = Suc (j_attempts s) \<and> (\<forall>e. b = Inl e \<longrightarrow> e = CancelledError)"
    using b by (auto simp: ingest_api_batch_def Let_def is_Exception_def split: prod.splits sum.splits if_splits option.splits)
  then obtain r where "scheduled_batch_attempt E clk s = (s1, r)" "j_attempts s1 = Suc (j_attempts s)"
    "\<forall>e. r = Inl e \<longrightarrow> e = CancelledError"
    using b v by (cases b) (auto simp: scheduled_batch_attempt_def Let_def)
  then show ?thesis
    unfolding ingest_scheduled_batch_example_def exponential_backoff_def
    by (cases r) (auto simp: backoff_loop.simps [of _ _ _ _ 0] scheduled_backoff_def)
qed

theorem scheduled_batch_not_retried_witness:
  "\<exists>s' r. ingest_scheduled_batch_example (mem_engine\<lparr>sql_insert := \<lambda>ns db. Inl (OtherException ''down'')\<rparr>)
      (\<lambda>n. job_at 5) (\<lambda>_. 0) (\<lambda>_. False) (fresh_jobs empty_db) = (s', [], r) \<and> j_attempts s' = 1"
  using scheduled_batch_not_retried [of "\<lambda>n. job_at 5" "fresh_jobs empty_db"]
  by (simp add: job_at_def fresh_jobs_def)

end
