(* ===== verification/Background_Routes.thy ===== *)
theory Background_Routes
  imports Worker_Pool Jobs
begin

text \<open>
  The worker pool's default processor and the endpoints of
  \<open>ingestor/routers/background_processing.py\<close>.
\<close>

subsection \<open>The default processor and the endpoints\<close>

definition day_prefix :: "job_clock \<Rightarrow> string option" where
  "day_prefix t = Some (''bg-batch-'' @ take 10 (isoformat (d_key t)))"

definition default_processor ::
  "'db engine \<Rightarrow> job_clock \<Rightarrow> record_request list \<Rightarrow> 'db job_state \<Rightarrow> 'db job_state \<times> batch_summary outcome"
where
  "default_processor E t records s = ingest_api_batch E t records (day_prefix t) s"

record submit_response =
  sr_task_id :: string
  sr_status :: task_state
  sr_batch_size :: int
  sr_queued_at :: datetime

definition set_worker_pool :: "('a, 'r) pool option \<Rightarrow> ('a, 'r) pool option \<Rightarrow> ('a, 'r) pool option" where
  "set_worker_pool new old = new"

definition pool_unavailable :: "'b outcome" where
  "pool_unavailable = Inl (HTTPException 503 ''Background workers are disabled or not running'')"

definition submit_background_batch_ingest ::
  "datetime \<Rightarrow> string \<Rightarrow> 'a list \<Rightarrow> ('a, 'r) pool option \<Rightarrow> ('a, 'r) pool option \<times> submit_response outcome"
where
  "submit_background_batch_ingest now tid records g =
     (case g of
        None \<Rightarrow> (g, pool_unavailable)
      | Some p \<Rightarrow>
          if \<not> running p then (g, pool_unavailable)
          else (case submit_batch_ingest now tid records p of
                  (p', Inr st) \<Rightarrow>
                    (Some p', Inr \<lparr>sr_task_id = task_id st, sr_status = task_st st,
                                   sr_batch_size = batch_size st, sr_queued_at = queued_at st\<rparr>)
                | (p', Inl (RuntimeError m)) \<Rightarrow> (Some p', Inl (HTTPException 429 m))
                | (p', Inl e) \<Rightarrow> (Some p', Inl e)))"

definition get_background_task_status :: "string \<Rightarrow> ('a, 'r) pool option \<Rightarrow> 'r task outcome" where
  "get_background_task_status tid g =
     (case g of
        None \<Rightarrow> pool_unavailable
      | Some p \<Rightarrow>
          if \<not> running p then pool_unavailable
          else (case get_task_status tid p of
                  None \<Rightarrow> Inl (HTTPException 404 (''Background task '' @ tid @ '' not found''))
                | Some st \<Rightarrow> Inr st))"

definition get_background_workers_health :: "('a, 'r) pool option \<Rightarrow> string + health_report" where
  "get_background_workers_health g =
     (case g of None \<Rightarrow> Inl ''Background workers disabled'' | Some p \<Rightarrow> Inr (health_summary p))"


text \<open>
  Two background batches of the same size handed in on the same day count as one. The default processor
  prefixes the deduplication key with the date only and the key adds only the batch's length, so within
  the tracker's time-to-live the second task is answered without an exception, with no errors and
  nothing inserted; the worker reports it as succeeded.
\<close>

theorem same_size_batches_collapse:
  assumes "default_processor E t batch1 s = (s1, res)"
    and "\<not> fst (is_duplicate (t_check t) (the (batch_key (day_prefix t) batch1)) (j_tracker s))"
    and "length batch2 = length batch1" and "day_prefix t' = day_prefix t"
    and "t_check t' - t_mark t \<le> ttl_seconds (j_tracker s)"
    and "i < length (workers p)" and "workers p ! i = Processing a batch2" and "a < length (objects p)"
  shows "\<exists>x. default_processor E t' batch2 s1 = (s1, Inr x) \<and> inserted x = 0 \<and> errors x = 0 \<and>
    task_st (objects (worker_result i now (snd (default_processor E t' batch2 s1)) p) ! a) = Succeeded"
proof -
  have "key_given (day_prefix t)" by (simp add: day_prefix_def key_given_def)
  then obtain x where "default_processor E t' batch2 s1 = (s1, Inr x)" "inserted x = 0" "errors x = 0"
    using batch_key_hit [of "day_prefix t" batch2 batch1 E t s s1 res t'] assms(1-5)
    by (auto simp: default_processor_def)
  then show ?thesis
    using assms(6-8) by (simp add: worker_result_def worker_finally_def)
qed

definition two_tasks :: "(record_request, batch_summary) pool" where
  "two_tasks =
     worker_take 0 5 (fst (submit_batch_ingest 5 ''t2'' [req ''b'' 2] (start (new_pool 1 10 10 False))))"

theorem same_size_batches_collapse_witness:
  "\<exists>s1 x. fst (default_processor mem_engine (job_at 1) [req ''a'' 1] (fresh_jobs empty_db)) = s1 \<and>
     default_processor mem_engine ((job_at 2)\<lparr>d_key := 1\<rparr>) [req ''b'' 2] s1 = (s1, Inr x) \<and> inserted x = 0"
proof -
  obtain s1 res where r: "default_processor mem_engine (job_at 1) [req ''a'' 1] (fresh_jobs empty_db) = (s1, res)"
    by (cases "default_processor mem_engine (job_at 1) [req ''a'' 1] (fresh_jobs empty_db)")
  have "workers two_tasks = [Processing 0 [req ''b'' 2]]" "length (objects two_tasks) = 1"
    by (simp_all add: two_tasks_def worker_take_def submit_batch_ingest_def queue_full_def start_def new_pool_def Let_def)
  moreover have "day_prefix ((job_at 2)\<lparr>d_key := 1\<rparr>) = day_prefix (job_at 1)"
    by (simp add: day_prefix_def job_at_def)
  ultimately show ?thesis
    using same_size_batches_collapse [OF r, of "[req ''b'' 2]" "(job_at 2)\<lparr>d_key := 1\<rparr>" 0 two_tasks 0 9] r
    by (auto simp: fresh_jobs_def is_duplicate_def new_tracker_def job_at_def)
qed

end
