(* ===== verification/Scheduler.thy ===== *)
theory Scheduler
  imports Jobs "HOL-Library.AList"
begin

text \<open>
  Scheduled jobs: the job definitions and their health metrics (\<open>libs/platform/job_types.py\<close>), the handler
  wrapper (\<open>ingestor/core/handlers.py\<close>), the scheduler around APScheduler (\<open>ingestor/core/scheduler.py\<close>), the
  registry (\<open>ingestor/jobs_registry.py\<close>) and the health endpoints
  (\<open>ingestor/routers/health_ingestion_jobs.py\<close>). APScheduler is a record of functions, a parameter; the
  locale \<open>apscheduler\<close> states what its documentation promises. What \<open>session_factory()\<close> gives is a value of
  an arbitrary type; the coroutine of a handler is a function of its deadline.
\<close>

subsection \<open>Jobs and their health\<close>

record job_health =
  last_run_at :: "datetime option"
  last_run_duration :: seconds
  success_count :: int
  failure_count :: int
  last_error :: "string option"

definition new_health :: job_health where
  "new_health = \<lparr>last_run_at = None, last_run_duration = 0, success_count = 0, failure_count = 0, last_error = None\<rparr>"

definition success_rate :: "job_health \<Rightarrow> rat" where
  "success_rate h =
     (let total = success_count h + failure_count h
      in if total = 0 then 1 else of_int (success_count h) / of_int total)"

definition is_healthy :: "job_health \<Rightarrow> bool" where
  "is_healthy h \<longleftrightarrow> last_error h = None \<and> success_rate h \<ge> 8/10"

text \<open>
  A coroutine run from a world: the world it leaves, the time it took and its outcome, or no outcome when
  it was still running at the deadline, where it is cancelled.
\<close>

type_synonym ('w, 'r) coro = "seconds option \<Rightarrow> 'w \<Rightarrow> 'w \<times> seconds \<times> 'r outcome option"

definition wait_for :: "seconds \<Rightarrow> ('w, 'r) coro \<Rightarrow> 'w \<Rightarrow> 'w \<times> seconds \<times> 'r outcome option" where
  "wait_for d c w =
     (case c (Some d) w of
        (w', t, None) \<Rightarrow> (w', d, Some (Inl (TimeoutError '''')))
      | (w', t, Some r) \<Rightarrow> (w', t, Some r))"

record ('sess, 'w, 'r, 'trg) job =
  job_name :: string
  job_handler :: "'sess \<Rightarrow> ('w, 'r) coro"
  job_trigger :: "'trg option"
  job_max_retries :: int
  job_timeout :: "int option"
  job_tags :: "string list"
  job_metrics :: job_health

subsection \<open>The handler wrapper\<close>

definition record_run :: "datetime \<Rightarrow> seconds \<Rightarrow> 'r outcome \<Rightarrow> job_health \<Rightarrow> job_health" where
  "record_run now duration res h =
     (case res of
        Inr r \<Rightarrow> h\<lparr>last_run_at := Some now, last_run_duration := duration,
                   success_count := success_count h + 1, last_error := None\<rparr>
      | Inl (TimeoutError m) \<Rightarrow>
          h\<lparr>last_run_at := Some now, failure_count := failure_count h + 1,
            last_error := Some (if m = '''' then ''timeout exceeded'' else m)\<rparr>
      | Inl CancelledError \<Rightarrow> h
      | Inl e \<Rightarrow> h\<lparr>last_run_at := Some now, failure_count := failure_count h + 1,
                    last_error := Some (exn_str e)\<rparr>)"

text \<open>The awaited handler; no outcome means that it never returns.\<close>

definition run_handler ::
  "('sess, 'w, 'r, 'trg) job \<Rightarrow> 'sess \<Rightarrow> 'w \<Rightarrow> 'w \<times> seconds \<times> 'r outcome option"
where
  "run_handler j session w =
     (case job_timeout j of
        None \<Rightarrow> job_handler j session None w
      | Some t \<Rightarrow> if t = 0 then job_handler j session None w
                  else wait_for (of_int t) (job_handler j session) w)"

definition wrapped ::
  "('sess, 'w, 'r, 'trg) job \<Rightarrow> 'sess option \<Rightarrow> datetime \<Rightarrow> 'w \<Rightarrow>
   ('sess, 'w, 'r, 'trg) job \<times> 'w \<times> 'r outcome option"
where
  "wrapped j session_factory now w =
     (case session_factory of
        None \<Rightarrow> (j, w, Some (Inl (RuntimeError ''Handler wrapper called without session_factory'')))
      | Some session \<Rightarrow>
          (case run_handler j session w of
             (w', duration, None) \<Rightarrow> (j, w', None)
           | (w', duration, Some res) \<Rightarrow>
               (j\<lparr>job_metrics := record_run now duration res (job_metrics j)\<rparr>, w', Some res)))"

subsection \<open>APScheduler\<close>

text \<open>
  \<open>aps_add\<close> is \<open>add_job\<close> with \<open>replace_existing=True\<close>, \<open>aps_due\<close> the jobs that run right after \<open>start()\<close>,
  \<open>aps_next_run\<close> is \<open>get_job(id).next_run_time\<close>.
\<close>

record ('a, 'trg) aps_lib =
  aps_new :: 'a
  aps_add :: "datetime \<Rightarrow> string \<Rightarrow> 'trg option \<Rightarrow> 'a \<Rightarrow> 'a"
  aps_start :: "datetime \<Rightarrow> 'a \<Rightarrow> 'a outcome"
  aps_running :: "'a \<Rightarrow> bool"
  aps_shutdown :: "'a \<Rightarrow> 'a"
  aps_jobs :: "'a \<Rightarrow> (string \<times> 'trg option \<times> datetime) list"
  aps_next_run :: "string \<Rightarrow> 'a \<Rightarrow> datetime option option"
  aps_due :: "'a \<Rightarrow> string list"

record ('a, 'sess, 'w, 'r, 'trg) job_scheduler =
  js_aps :: 'a
  js_jobs :: "(string \<times> ('sess, 'w, 'r, 'trg) job) list"
  js_factory :: "'sess option"

definition new_scheduler :: "('a, 'trg) aps_lib \<Rightarrow> ('a, 'sess, 'w, 'r, 'trg) job_scheduler" where
  "new_scheduler A = \<lparr>js_aps = aps_new A, js_jobs = [], js_factory = None\<rparr>"

text \<open>\<open>scheduler.job(...)(handler)\<close>.\<close>

definition register_job ::
  "string \<Rightarrow> 'trg option \<Rightarrow> int \<Rightarrow> int option \<Rightarrow> string list \<Rightarrow> ('sess \<Rightarrow> ('w, 'r) coro) \<Rightarrow>
   ('a, 'sess, 'w, 'r, 'trg) job_scheduler \<Rightarrow> ('a, 'sess, 'w, 'r, 'trg) job_scheduler"
where
  "register_job name trg retries tmo tgs h s =
     s\<lparr>js_jobs := AList.update name
         \<lparr>job_name = name, job_handler = h, job_trigger = trg, job_max_retries = retries,
          job_timeout = tmo, job_tags = tgs, job_metrics = new_health\<rparr> (js_jobs s)\<rparr>"

definition start_scheduler ::
  "('a, 'trg) aps_lib \<Rightarrow> datetime \<Rightarrow> 'sess option \<Rightarrow> ('a, 'sess, 'w, 'r, 'trg) job_scheduler \<Rightarrow>
   ('a, 'sess, 'w, 'r, 'trg) job_scheduler \<times> unit outcome"
where
  "start_scheduler A now factory s =
     (let a = fold (\<lambda>(name, j). aps_add A now name (job_trigger j)) (js_jobs s) (js_aps s);
          s1 = s\<lparr>js_factory := factory, js_aps := a\<rparr>
      in (case aps_start A now a of
            Inl e \<Rightarrow> (s1, Inl e)
          | Inr a' \<Rightarrow> (s1\<lparr>js_aps := a'\<rparr>, Inr ())))"

definition stop_scheduler ::
  "('a, 'trg) aps_lib \<Rightarrow> ('a, 'sess, 'w, 'r, 'trg) job_scheduler \<Rightarrow> ('a, 'sess, 'w, 'r, 'trg) job_scheduler"
where
  "stop_scheduler A s =
     (if aps_running A (js_aps s) then s\<lparr>js_aps := aps_shutdown A (js_aps s)\<rparr> else s)"

text \<open>APScheduler calls the wrapped handler of a job; the wrapper shares the job object with the table.\<close>

definition fire_job ::
  "datetime \<Rightarrow> string \<Rightarrow> ('a, 'sess, 'w, 'r, 'trg) job_scheduler \<Rightarrow> 'w \<Rightarrow>
   ('a, 'sess, 'w, 'r, 'trg) job_scheduler \<times> 'w \<times> 'r outcome option"
where
  "fire_job now name s w =
     (case map_of (js_jobs s) name of
        None \<Rightarrow> (s, w, None)
      | Some j \<Rightarrow>
          (case wrapped j (js_factory s) now w of
             (j', w', r) \<Rightarrow> (s\<lparr>js_jobs := AList.update name j' (js_jobs s)\<rparr>, w', r)))"

definition job_health_of :: "string \<Rightarrow> ('a, 'sess, 'w, 'r, 'trg) job_scheduler \<Rightarrow> job_health option" where
  "job_health_of name s = map_option job_metrics (map_of (js_jobs s) name)"

definition all_jobs_health :: "('a, 'sess, 'w, 'r, 'trg) job_scheduler \<Rightarrow> (string \<times> job_health) list" where
  "all_jobs_health s = map (\<lambda>(name, j). (name, job_metrics j)) (js_jobs s)"

definition next_run_times ::
  "('a, 'trg) aps_lib \<Rightarrow> ('a, 'sess, 'w, 'r, 'trg) job_scheduler \<Rightarrow> (string \<times> datetime option) list"
where
  "next_run_times A s =
     map (\<lambda>(name, j). (name, case aps_next_run A name (js_aps s) of Some t \<Rightarrow> t | None \<Rightarrow> None)) (js_jobs s)"

subsection \<open>The registered jobs\<close>

datatype job_result = BatchResult batch_report | ArchiveResult archive_report

text \<open>What a run of a job meets: clock readings, jitter, cancellations, its time, the state when cut off.\<close>

record 'db job_env =
  je_clock :: "nat \<Rightarrow> job_clock"
  je_rnd :: "nat \<Rightarrow> rat"
  je_cancelled :: "nat \<Rightarrow> bool"
  je_elapsed :: seconds
  je_interrupted :: "'db job_state \<Rightarrow> 'db job_state"

definition timed_job ::
  "'db job_env \<Rightarrow> ('db job_state \<Rightarrow> 'db job_state \<times> 'r outcome) \<Rightarrow> ('db job_state, 'r) coro"
where
  "timed_job v f deadline s =
     (if (case deadline of None \<Rightarrow> False | Some d \<Rightarrow> d < je_elapsed v)
      then (je_interrupted v s, je_elapsed v, None)
      else (case f s of (s', r) \<Rightarrow> (s', je_elapsed v, Some r)))"

definition scheduled_batch_job :: "'db job_env \<Rightarrow> 'db engine \<Rightarrow> ('db job_state, job_result) coro" where
  "scheduled_batch_job v session =
     timed_job v (\<lambda>s. case ingest_scheduled_batch_example session (je_clock v) (je_rnd v) (je_cancelled v) s of
                        (s', sleeps, r) \<Rightarrow> (s', map_sum id BatchResult r))"

definition archive_job :: "'db job_env \<Rightarrow> 'db engine \<Rightarrow> ('db job_state, job_result) coro" where
  "archive_job v session =
     timed_job v (\<lambda>s. case archive_old_records (je_rnd v) (je_cancelled v) s of
                        (s', sleeps, r) \<Rightarrow> (s', map_sum id ArchiveResult r))"

definition register_jobs ::
  "'db job_env \<Rightarrow> ('a, 'db engine, 'db job_state, job_result, 'trg) job_scheduler \<Rightarrow>
   ('a, 'db engine, 'db job_state, job_result, 'trg) job_scheduler"
where
  "register_jobs v s =
     register_job ''archive_old_records'' None 2 (Some 600) [''archive'', ''maintenance''] (archive_job v)
       (register_job ''ingest_scheduled_batch_example'' None 3 (Some 300) [''batch'', ''example'']
          (scheduled_batch_job v) s)"

subsection \<open>The health endpoints\<close>

record job_detail =
  jd_last_run_at :: "string option"
  jd_success_count :: int
  jd_failure_count :: int
  jd_success_rate :: rat
  jd_is_healthy :: bool
  jd_last_error :: "string option"
  jd_next_run_time :: "datetime option"

definition detail_of :: "job_health \<Rightarrow> datetime option \<Rightarrow> job_detail" where
  "detail_of h next_run =
     \<lparr>jd_last_run_at = map_option isoformat (last_run_at h), jd_success_count = success_count h,
      jd_failure_count = failure_count h, jd_success_rate = success_rate h, jd_is_healthy = is_healthy h,
      jd_last_error = last_error h, jd_next_run_time = next_run\<rparr>"

text \<open>The attributes of a \<open>JobScheduler\<close>; reading another one raises \<open>AttributeError\<close>.\<close>

definition job_scheduler_attributes :: "string list" where
  "job_scheduler_attributes =
     [''_scheduler'', ''_jobs'', ''_session_factory'', ''job'', ''start'', ''stop'', ''get_job_health'',
      ''get_all_jobs_health'', ''get_next_run_times'']"

definition read_attribute :: "string \<Rightarrow> 'v \<Rightarrow> 'v outcome" where
  "read_attribute a v =
     (if a \<in> set job_scheduler_attributes then Inr v
      else Inl (AttributeError (''JobScheduler object has no attribute '' @ a)))"

definition get_jobs_health ::
  "('a, 'trg) aps_lib \<Rightarrow> ('a, 'sess, 'w, 'r, 'trg) job_scheduler option \<Rightarrow> (bool \<times> int \<times> (string \<times> job_detail) list) outcome"
where
  "get_jobs_health A g =
     (case g of
        None \<Rightarrow> Inl (HTTPException 503 ''Scheduler not initialized'')
      | Some s \<Rightarrow>
          let hs = all_jobs_health s; ns = next_run_times A s;
              detail = map (\<lambda>(name, h). (name, detail_of h (case map_of ns name of Some t \<Rightarrow> t | None \<Rightarrow> None))) hs
          in try_bind (read_attribute ''running'' (aps_running A (js_aps s))) (\<lambda>r.
               Inr (r, int (length hs), detail)))"

definition get_job_health ::
  "('a, 'trg) aps_lib \<Rightarrow> string \<Rightarrow> ('a, 'sess, 'w, 'r, 'trg) job_scheduler option \<Rightarrow> (string \<times> job_detail) outcome"
where
  "get_job_health A name g =
     (case g of
        None \<Rightarrow> Inl (HTTPException 503 ''Scheduler not initialized'')
      | Some s \<Rightarrow>
          (case job_health_of name s of
             None \<Rightarrow> Inl (HTTPException 404 (''Job '' @ name @ '' not found''))
           | Some h \<Rightarrow>
               Inr (name, detail_of h (case map_of (next_run_times A s) name of Some t \<Rightarrow> t | None \<Rightarrow> None))))"

subsection \<open>What the code relies on, and a scheduler in memory\<close>

text \<open>
  From APScheduler's documentation: jobs added before the start are kept, a job without a trigger is due
  at once, as long as the start comes within the misfire grace time of one second, and a scheduler is
  started only once.
\<close>

locale apscheduler =
  fixes A :: "('a, 'trg) aps_lib"
  assumes new_idle: "\<not> aps_running A (aps_new A) \<and> aps_jobs A (aps_new A) = []"
    and add_jobs: "\<not> aps_running A a \<Longrightarrow>
      aps_jobs A (aps_add A now name trg a) = AList.update name (trg, now) (aps_jobs A a) \<and>
      \<not> aps_running A (aps_add A now name trg a)"
    and start_idle: "\<not> aps_running A a \<Longrightarrow> \<exists>a'. aps_start A now a = Inr a' \<and> aps_running A a'"
    and start_twice: "aps_running A a \<Longrightarrow> \<exists>e. aps_start A now a = Inl e"
    and due_at_once: "\<not> aps_running A a \<Longrightarrow> aps_start A now a = Inr a' \<Longrightarrow>
      map_of (aps_jobs A a) name = Some (None, t) \<Longrightarrow> t \<le> now \<Longrightarrow> now - t \<le> micros_per_second \<Longrightarrow>
      name \<in> set (aps_due A a')"
    and shutdown_stops: "\<not> aps_running A (aps_shutdown A a)"
begin

lemma adds_keep:
  "\<not> aps_running A a \<Longrightarrow>
   \<not> aps_running A (fold (\<lambda>(name, j). aps_add A now name (job_trigger j)) js a) \<and>
   aps_jobs A (fold (\<lambda>(name, j). aps_add A now name (job_trigger j)) js a) =
     fold (\<lambda>(name, j). AList.update name (job_trigger j, now)) js (aps_jobs A a)"
proof (induction js arbitrary: a)
  case (Cons x js)
  obtain name j where x: "x = (name, j)" by (cases x)
  note add = add_jobs [OF Cons.prems, of now name "job_trigger j"]
  show ?case using Cons.IH [OF conjunct2 [OF add]] add x by simp
qed simp

lemma untriggered_due:
  assumes "\<not> aps_running A (js_aps s)" and "start_scheduler A now factory s = (s', Inr ())"
    and "map_of (fold (\<lambda>(name, j). AList.update name (job_trigger j, now)) (js_jobs s) (aps_jobs A (js_aps s))) name =
      Some (None, now)"
  shows "name \<in> set (aps_due A (js_aps s')) \<and> js_jobs s' = js_jobs s \<and> js_factory s' = factory"
proof -
  let ?a = "fold (\<lambda>(name, j). aps_add A now name (job_trigger j)) (js_jobs s) (js_aps s)"
  have k: "\<not> aps_running A ?a" "map_of (aps_jobs A ?a) name = Some (None, now)"
    using adds_keep [OF assms(1), of now "js_jobs s"] assms(3) by auto
  obtain a' where a': "aps_start A now ?a = Inr a'" using start_idle [OF k(1)] by blast
  then have "s' = s\<lparr>js_factory := factory, js_aps := a'\<rparr>"
    using assms(2) by (simp add: start_scheduler_def Let_def)
  then show ?thesis using due_at_once [OF k(1) a' k(2)] by (simp add: micros_per_second_def)
qed

lemma start_succeeds:
  "\<not> aps_running A (js_aps s) \<Longrightarrow> \<exists>s'. start_scheduler A now factory s = (s', Inr ()) \<and> aps_running A (js_aps s')"
proof -
  assume "\<not> aps_running A (js_aps s)"
  from adds_keep [OF this, of now "js_jobs s"]
  obtain a' where "aps_start A now (fold (\<lambda>(name, j). aps_add A now name (job_trigger j)) (js_jobs s) (js_aps s)) = Inr a'"
    "aps_running A a'" using start_idle by blast
  then show ?thesis by (simp add: start_scheduler_def)
qed

end

record mem_aps =
  ma_on :: bool
  ma_since :: datetime
  ma_table :: "(string \<times> (datetime \<Rightarrow> datetime option) option \<times> datetime) list"

definition mem_aps_lib :: "(mem_aps, datetime \<Rightarrow> datetime option) aps_lib" where
  "mem_aps_lib =
     \<lparr>aps_new = \<lparr>ma_on = False, ma_since = 0, ma_table = []\<rparr>,
      aps_add = (\<lambda>now name trg a. a\<lparr>ma_table := AList.update name (trg, now) (ma_table a)\<rparr>),
      aps_start = (\<lambda>now a. if ma_on a then Inl (RuntimeError ''Scheduler is already running'')
                           else Inr (a\<lparr>ma_on := True, ma_since := now\<rparr>)),
      aps_running = ma_on,
      aps_shutdown = (\<lambda>a. a\<lparr>ma_on := False\<rparr>),
      aps_jobs = ma_table,
      aps_next_run = (\<lambda>name a. map_option (\<lambda>(trg, t). case trg of None \<Rightarrow> Some t | Some f \<Rightarrow> f (ma_since a))
                        (map_of (ma_table a) name)),
      aps_due = (\<lambda>a. map fst (filter (\<lambda>(name, trg, t). trg = None \<and> t \<le> ma_since a \<and>
                        ma_since a - t \<le> micros_per_second) (ma_table a)))\<rparr>"

interpretation ma: apscheduler mem_aps_lib
  by unfold_locales
    (auto simp: mem_aps_lib_def image_iff split: if_splits dest!: map_of_SomeD intro!: bexI)

subsection \<open>Metrics\<close>

primrec run_many ::
  "('sess, 'w, 'r, 'trg) job \<Rightarrow> 'sess \<Rightarrow> (datetime \<times> 'w) list \<Rightarrow> ('sess, 'w, 'r, 'trg) job \<times> 'r outcome list"
where
  "run_many j session [] = (j, [])"
| "run_many j session (x # xs) =
     (case wrapped j (Some session) (fst x) (snd x) of
        (j1, w', r) \<Rightarrow>
          (case run_many j1 session xs of
             (j2, outs) \<Rightarrow> (j2, (case r of None \<Rightarrow> outs | Some res \<Rightarrow> res # outs))))"

definition counted :: "'r outcome list \<Rightarrow> 'r outcome list" where
  "counted outs = filter (\<lambda>r. r \<noteq> Inl CancelledError) outs"

lemma record_run_cancelled: "record_run now d (Inl CancelledError) h = h"
  by (simp add: record_run_def)

lemma record_run_ok:
  "success_count (record_run now d (Inr r) h) = success_count h + 1"
  "failure_count (record_run now d (Inr r) h) = failure_count h"
  "last_error (record_run now d (Inr r) h) = None"
  by (simp_all add: record_run_def)

lemma record_run_error:
  "e \<noteq> CancelledError \<Longrightarrow>
   success_count (record_run now d (Inl e) h) = success_count h \<and>
   failure_count (record_run now d (Inl e) h) = failure_count h + 1 \<and>
   last_error (record_run now d (Inl e) h) \<noteq> None"
  by (cases e) (auto simp: record_run_def)

lemma run_many_counts:
  "run_many j session xs = (j', outs) \<Longrightarrow>
   success_count (job_metrics j') = success_count (job_metrics j) + int (length (filter (\<lambda>r. \<not> isl r) (counted outs))) \<and>
   failure_count (job_metrics j') = failure_count (job_metrics j) + int (length (filter isl (counted outs))) \<and>
   (last_error (job_metrics j') = None \<longleftrightarrow>
      (if counted outs = [] then last_error (job_metrics j) = None else \<not> isl (last (counted outs))))"
proof (induction xs arbitrary: j outs)
  case Nil
  then show ?case by (simp add: counted_def)
next
  case (Cons x xs)
  obtain w' d r where h: "run_handler j session (snd x) = (w', d, r)" by (cases "run_handler j session (snd x)") auto
  show ?case
  proof (cases r)
    case None
    then show ?thesis using Cons h by (auto simp: wrapped_def split: prod.splits)
  next
    case (Some res)
    let ?j = "j\<lparr>job_metrics := record_run (fst x) d res (job_metrics j)\<rparr>"
    obtain os where os: "run_many ?j session xs = (j', os)" "outs = res # os"
      using Cons.prems h Some by (auto simp: wrapped_def split: prod.splits)
    note ih = Cons.IH [OF os(1)]
    show ?thesis
    proof (cases res)
      case (Inr v)
      then show ?thesis using ih os(2) by (simp add: counted_def record_run_ok)
    next
      case (Inl e)
      then show ?thesis
        using ih os(2) record_run_error [of e "fst x" d "job_metrics j"]
        by (cases "e = CancelledError") (auto simp: counted_def record_run_cancelled)
    qed
  qed
qed

lemma healthy_rate:
  "0 \<le> success_count h \<Longrightarrow> 0 \<le> failure_count h \<Longrightarrow>
   success_rate h \<ge> 8/10 \<longleftrightarrow> 4 * failure_count h \<le> success_count h"
proof (cases "success_count h + failure_count h = 0")
  case False
  assume "0 \<le> success_count h" "0 \<le> failure_count h"
  then have p: "(0::rat) < of_int (success_count h + failure_count h)" using False by simp
  have "success_rate h \<ge> 8/10 \<longleftrightarrow> 8 * (of_int (success_count h + failure_count h) :: rat) \<le> 10 * of_int (success_count h)"
    using p False by (simp add: success_rate_def Let_def pos_le_divide_eq field_simps del: of_int_add)
  also have "\<dots> \<longleftrightarrow> (of_int (8 * (success_count h + failure_count h)) :: rat) \<le> of_int (10 * success_count h)" by simp
  also have "\<dots> \<longleftrightarrow> 4 * failure_count h \<le> success_count h" unfolding of_int_le_iff by presburger
  finally show ?thesis .
qed (auto simp: success_rate_def)

text \<open>
  C35. The health metrics of a job count its history. After any sequence of runs, the counters are the numbers
  of runs that returned and that raised, cancelled runs not counted, and the job is healthy exactly when
  no run was counted or the last counted one returned and at least four runs returned for each that raised.
\<close>

theorem job_health_counts_history:
  assumes "job_metrics j = new_health" and "run_many j session xs = (j', outs)"
  shows "success_count (job_metrics j') = int (length (filter (\<lambda>r. \<not> isl r) (counted outs))) \<and>
    failure_count (job_metrics j') = int (length (filter isl (counted outs))) \<and>
    (is_healthy (job_metrics j') \<longleftrightarrow> counted outs = [] \<or> \<not> isl (last (counted outs)) \<and>
       4 * length (filter isl (counted outs)) \<le> length (filter (\<lambda>r. \<not> isl r) (counted outs)))"
proof -
  have c: "success_count (job_metrics j') = int (length (filter (\<lambda>r. \<not> isl r) (counted outs)))"
    "failure_count (job_metrics j') = int (length (filter isl (counted outs)))"
    "last_error (job_metrics j') = None \<longleftrightarrow> counted outs = [] \<or> \<not> isl (last (counted outs))"
    using run_many_counts [OF assms(2)] assms(1) by (auto simp: new_health_def)
  have "success_rate (job_metrics j') \<ge> 8/10 \<longleftrightarrow>
      4 * length (filter isl (counted outs)) \<le> length (filter (\<lambda>r. \<not> isl r) (counted outs))"
    using healthy_rate [of "job_metrics j'"] c(1,2)
      of_nat_le_iff [of "4 * length (filter isl (counted outs))" "length (filter (\<lambda>r. \<not> isl r) (counted outs))",
        where 'a = int] by simp
  then show ?thesis using c by (auto simp: is_healthy_def)
qed

definition demo_job :: "(unit, int outcome, int, unit) job" where
  "demo_job =
     \<lparr>job_name = ''j'', job_handler = (\<lambda>u d w. (w, 1, Some w)), job_trigger = None, job_max_retries = 3,
      job_timeout = Some 5, job_tags = [], job_metrics = new_health\<rparr>"

theorem job_health_counts_history_witness:
  "\<exists>j' outs. run_many demo_job () [(1, Inr 7), (2, Inl CancelledError), (3, Inl (ValueError ''x''))] = (j', outs) \<and>
     success_count (job_metrics j') = 1 \<and> failure_count (job_metrics j') = 1 \<and> \<not> is_healthy (job_metrics j')"
proof -
  obtain j' outs where r: "run_many demo_job () [(1, Inr 7), (2, Inl CancelledError), (3, Inl (ValueError ''x''))] = (j', outs)"
    by (cases "run_many demo_job () [(1, Inr 7), (2, Inl CancelledError), (3, Inl (ValueError ''x''))]")
  have "job_metrics demo_job = new_health" by (simp add: demo_job_def)
  moreover have "counted outs = [Inr 7, Inl (ValueError ''x'')]"
    using r by (auto simp: demo_job_def wrapped_def run_handler_def wait_for_def counted_def)
  ultimately show ?thesis using job_health_counts_history [OF _ r] r by auto
qed

subsection \<open>The first run\<close>

text \<open>
  \<open>main.py\<close> starts the scheduler with \<open>get_db\<close>, the request dependency: calling it gives an asynchronous
  generator and no session, and every use of it as a session raises \<open>AttributeError\<close>.
\<close>

definition no_session :: "'db engine" where
  "no_session =
     (let err = AttributeError ''async_generator object has no attribute execute''
      in \<lparr>rows = (\<lambda>db. []), db_ok = (\<lambda>db. True), sql_insert = (\<lambda>ns db. Inl err), sql_select = (\<lambda>q db. Inl err),
          sql_count = (\<lambda>c db. Inl err), sql_update = (\<lambda>r db. Inl err), sql_delete = (\<lambda>i db. Inl err)\<rparr>)"

lemma no_session_ingest:
  "\<exists>s1 b. ingest_api_batch no_session t [q] p s = (s1, Inr b) \<and> j_db s1 = j_db s \<and> inserted b = 0"
proof -
  obtain m where m: "create_records_batch no_session (d_insert t) [q] (j_db s) = (Inl (AttributeError m), j_db s)"
    by (simp add: create_records_batch_def no_session_def Let_def)
  obtain dup tr where k: "(case batch_key p [q] of None \<Rightarrow> (False, j_tracker s)
      | Some k \<Rightarrow> is_duplicate (t_check t) k (j_tracker s)) = (dup, tr)" by fastforce
  show ?thesis
    using m k by (cases "batch_key p [q]"; cases dup) (simp_all add: ingest_api_batch_def Let_def is_Exception_def)
qed

lemma no_session_batch:
  assumes "d_stamp (clk (j_attempts s)) \<le> d_valid (clk (j_attempts s))"
  shows "\<exists>s' r. ingest_scheduled_batch_example no_session clk rnd cancelled s = (s', [], Inr r) \<and>
    j_db s' = j_db s \<and> br_inserted r = 0"
proof -
  let ?t = "clk (j_attempts s)"
  obtain q where v: "traverse (validate_record_request (d_valid ?t)) [example_raw (d_stamp ?t)] = Inr [q]"
    using example_valid [OF assms] by blast
  obtain s1 b where b: "ingest_api_batch no_session ?t [q]
      (Some (''example_source_'' @ take 10 (isoformat (d_key ?t)))) (s\<lparr>j_attempts := Suc (j_attempts s)\<rparr>) = (s1, Inr b)"
    "j_db s1 = j_db s" "inserted b = 0"
    using no_session_ingest [of ?t q "Some (''example_source_'' @ take 10 (isoformat (d_key ?t)))"
        "s\<lparr>j_attempts := Suc (j_attempts s)\<rparr>"] by auto
  then have "\<exists>r. scheduled_batch_attempt no_session clk s = (s1, Inr r) \<and> br_inserted r = 0"
    using v by (simp add: scheduled_batch_attempt_def Let_def)
  then show ?thesis
    using b(2) unfolding ingest_scheduled_batch_example_def exponential_backoff_def
    by (auto simp: backoff_loop.simps [of _ _ _ _ 0] scheduled_backoff_def)
qed

text \<open>
  A job that is registered as disabled runs at startup, does nothing and is reported as healthy.
  \<open>register_jobs\<close> passes \<open>trigger=None\<close>, which APScheduler runs at once; the run is given the
  generator of \<open>get_db\<close> as its session, the batch turns the \<open>AttributeError\<close> into a summary, and the metrics
  count a success: the job is healthy with one success, and the database is untouched.
\<close>

theorem disabled_job_runs_at_startup:
  fixes A :: "('a, 'trg) aps_lib"
  assumes "apscheduler A"
    and "start_scheduler A now (Some no_session) (register_jobs v (new_scheduler A)) = (s, Inr ())"
    and "je_elapsed v \<le> 300"
    and "d_stamp (je_clock v (j_attempts w)) \<le> d_valid (je_clock v (j_attempts w))"
  shows "''ingest_scheduled_batch_example'' \<in> set (aps_due A (js_aps s)) \<and>
    (\<exists>s' w' r. fire_job now2 ''ingest_scheduled_batch_example'' s w = (s', w', Some (Inr (BatchResult r))) \<and>
       br_inserted r = 0 \<and> j_db w' = j_db w \<and>
       (\<exists>h. job_health_of ''ingest_scheduled_batch_example'' s' = Some h \<and> is_healthy h \<and> success_count h = 1))"
proof -
  let ?n = "''ingest_scheduled_batch_example''" and ?r = "register_jobs v (new_scheduler A)"
  have n: "\<not> aps_running A (js_aps ?r)" "aps_jobs A (js_aps ?r) = []"
    using apscheduler.new_idle [OF assms(1)] by (simp_all add: register_jobs_def register_job_def new_scheduler_def)
  note jobs = register_jobs_def register_job_def new_scheduler_def
  have m: "map_of (fold (\<lambda>(name, j). AList.update name (job_trigger j, now)) (js_jobs ?r) (aps_jobs A (js_aps ?r))) ?n =
      Some (None, now)"
    unfolding n(2) by (simp add: jobs)
  note d = apscheduler.untriggered_due [OF assms(1) n(1) assms(2) m]
  obtain j where j: "map_of (js_jobs s) ?n = Some j" "job_handler j = scheduled_batch_job v"
    "job_timeout j = Some 300" "job_metrics j = new_health"
    using d by (simp add: jobs)
  obtain w' r where r: "ingest_scheduled_batch_example no_session (je_clock v) (je_rnd v) (je_cancelled v) w = (w', [], Inr r)"
    "j_db w' = j_db w" "br_inserted r = 0"
    using no_session_batch [where clk = "je_clock v" and s = w, OF assms(4)] by blast
  have "run_handler j no_session w = (w', je_elapsed v, Some (Inr (BatchResult r)))"
    using j(2,3) r(1) assms(3) by (simp add: run_handler_def scheduled_batch_job_def timed_job_def wait_for_def)
  then have "fire_job now2 ?n s w = (s\<lparr>js_jobs := AList.update ?n
      (j\<lparr>job_metrics := record_run now2 (je_elapsed v) (Inr (BatchResult r)) new_health\<rparr>) (js_jobs s)\<rparr>,
      w', Some (Inr (BatchResult r)))"
    using j d by (simp add: fire_job_def wrapped_def)
  moreover have "is_healthy (record_run now2 (je_elapsed v) (Inr (BatchResult r)) new_health)"
    by (simp add: is_healthy_def success_rate_def record_run_def new_health_def)
  ultimately show ?thesis
    using d r by (simp add: job_health_of_def update_conv' record_run_def new_health_def)
qed

definition demo_env_job :: "(row list \<times> int) job_env" where
  "demo_env_job =
     \<lparr>je_clock = (\<lambda>n. job_at 5), je_rnd = (\<lambda>n. 0), je_cancelled = (\<lambda>n. False), je_elapsed = 1, je_interrupted = id\<rparr>"

theorem disabled_job_runs_at_startup_witness:
  "\<exists>s. start_scheduler mem_aps_lib 7 (Some no_session) (register_jobs demo_env_job (new_scheduler mem_aps_lib)) = (s, Inr ()) \<and>
     ''ingest_scheduled_batch_example'' \<in> set (aps_due mem_aps_lib (js_aps s))"
proof -
  have "\<not> aps_running mem_aps_lib (js_aps (register_jobs demo_env_job (new_scheduler mem_aps_lib)))"
    by (simp add: register_jobs_def register_job_def new_scheduler_def mem_aps_lib_def)
  from ma.start_succeeds [OF this, of 7 "Some no_session"]
  obtain s where s: "start_scheduler mem_aps_lib 7 (Some no_session) (register_jobs demo_env_job (new_scheduler mem_aps_lib)) = (s, Inr ())"
    by blast
  have "je_elapsed demo_env_job \<le> 300"
    "d_stamp (je_clock demo_env_job (j_attempts (fresh_jobs ([], 0)))) \<le> d_valid (je_clock demo_env_job (j_attempts (fresh_jobs ([], 0))))"
    by (simp_all add: demo_env_job_def job_at_def)
  from disabled_job_runs_at_startup [OF ma.apscheduler_axioms s this] s show ?thesis by blast
qed

end
