(* ===== verification/Processed_Events.thy ===== *)
theory Processed_Events
  imports Codec
begin

text \<open>
  The table \<open>processed_events\<close> (\<open>ingestor/models.py\<close>) and its operations in \<open>ingestor/storage/events.py\<close>:
  idempotent creation, bulk creation, the status marks, and the listings by status and of the dead letter
  queue. As for the records table, the database is a record of functions; the locale \<open>event_store\<close> states
  what the code relies on and an engine over a list satisfies it.
\<close>

record event_row =
  e_id :: int
  e_topic :: string
  e_partition :: int
  e_offset :: int
  e_key :: string
  e_type :: string
  e_payload :: json
  e_status :: string
  e_attempts :: int
  e_error_message :: "string option"
  e_error_details :: "json option"
  e_dlq :: bool
  e_dlq_reason :: "string option"
  e_processed_at :: "datetime option"
  e_created_at :: datetime
  e_updated_at :: "datetime option"
  e_deleted_at :: "datetime option"

record event_input =
  in_topic :: string
  in_partition :: int
  in_offset :: int
  in_key :: string
  in_type :: string
  in_payload :: json

text \<open>\<open>ProcessedEvent(...)\<close> with the defaults of its columns; the id is assigned by the database.\<close>

definition event_of :: "datetime \<Rightarrow> event_input \<Rightarrow> event_row" where
  "event_of now x =
     \<lparr>e_id = 0, e_topic = in_topic x, e_partition = in_partition x, e_offset = in_offset x, e_key = in_key x,
      e_type = in_type x, e_payload = in_payload x, e_status = ''pending'', e_attempts = 0,
      e_error_message = None, e_error_details = None, e_dlq = False, e_dlq_reason = None,
      e_processed_at = None, e_created_at = now, e_updated_at = Some now, e_deleted_at = None\<rparr>"

datatype event_cond = EvKey string | EvStatus string | EvDead

fun ev_holds :: "event_cond \<Rightarrow> event_row \<Rightarrow> bool" where
  "ev_holds (EvKey k) r \<longleftrightarrow> e_key r = k"
| "ev_holds (EvStatus s) r \<longleftrightarrow> e_status r = s"
| "ev_holds EvDead r \<longleftrightarrow> e_dlq r"

text \<open>\<open>ev_select c newest_first limit\<close>: WHERE, ORDER BY created_at DESC, LIMIT.\<close>

record 'db event_engine =
  ev_rows :: "'db \<Rightarrow> event_row list"
  ev_ok :: "'db \<Rightarrow> bool"
  ev_insert :: "event_row list \<Rightarrow> 'db \<Rightarrow> (event_row list \<times> 'db) outcome"
  ev_get :: "int \<Rightarrow> 'db \<Rightarrow> event_row option outcome"
  ev_select :: "event_cond \<Rightarrow> bool \<Rightarrow> int option \<Rightarrow> 'db \<Rightarrow> event_row list outcome"
  ev_update :: "event_row \<Rightarrow> 'db \<Rightarrow> 'db outcome"

subsection \<open>Creation\<close>

definition event_refresh :: "'db event_engine \<Rightarrow> int \<Rightarrow> 'db \<Rightarrow> event_row outcome" where
  "event_refresh E i db =
     try_bind (ev_get E i db) (\<lambda>x. case x of
         None \<Rightarrow> Inl (OtherException ''InvalidRequestError: Could not refresh instance'')
       | Some r \<Rightarrow> Inr r)"

definition one_or_none :: "event_row list \<Rightarrow> event_row option outcome" where
  "one_or_none out =
     (case out of [] \<Rightarrow> Inr None | [r] \<Rightarrow> Inr (Some r) | _ \<Rightarrow> Inl (OtherException ''MultipleResultsFound''))"

definition create_processed_event ::
  "'db event_engine \<Rightarrow> datetime \<Rightarrow> event_input \<Rightarrow> 'db \<Rightarrow> (event_row option \<times> bool) outcome \<times> 'db"
where
  "create_processed_event E now x db =
     (case ev_insert E [event_of now x] db of
        Inr (out, db') \<Rightarrow>
          (try_bind (event_refresh E (e_id (hd out)) db') (\<lambda>r. Inr (Some r, True)), db')
      | Inl IntegrityError \<Rightarrow>
          (try_bind (ev_select E (EvKey (in_key x)) False None db) (\<lambda>out.
             try_bind (one_or_none out) (\<lambda>existing. Inr (existing, False))), db)
      | Inl e \<Rightarrow> (Inl e, db))"

definition batch_create_processed_events ::
  "'db event_engine \<Rightarrow> datetime \<Rightarrow> event_input list \<Rightarrow> 'db \<Rightarrow> event_row list outcome \<times> 'db"
where
  "batch_create_processed_events E now xs db =
     (if xs = [] then (Inr [], db)
      else (case ev_insert E (map (event_of now) xs) db of
              Inl e \<Rightarrow> (Inl e, db)
            | Inr (out, db') \<Rightarrow> (Inr out, db')))"

subsection \<open>Marks\<close>

text \<open>The commit of a loaded row: an UPDATE when an attribute changed, with \<open>onupdate\<close>.\<close>

definition save_event ::
  "'db event_engine \<Rightarrow> datetime \<Rightarrow> (event_row \<Rightarrow> event_row) \<Rightarrow> int \<Rightarrow> 'db \<Rightarrow> event_row option outcome \<times> 'db"
where
  "save_event E now f event_id db =
     (case ev_get E event_id db of
        Inl e \<Rightarrow> (Inl e, db)
      | Inr None \<Rightarrow> (Inr None, db)
      | Inr (Some r) \<Rightarrow>
          (case (if f r = r then Inr db else ev_update E ((f r)\<lparr>e_updated_at := Some now\<rparr>) db) of
             Inl e \<Rightarrow> (Inl e, db)
           | Inr db' \<Rightarrow> (map_sum id Some (event_refresh E event_id db'), db')))"

definition mark_event_processing ::
  "'db event_engine \<Rightarrow> datetime \<Rightarrow> int \<Rightarrow> 'db \<Rightarrow> event_row option outcome \<times> 'db"
where
  "mark_event_processing E now =
     save_event E now (\<lambda>r. r\<lparr>e_status := ''processing'', e_attempts := e_attempts r + 1\<rparr>)"

definition mark_event_completed ::
  "'db event_engine \<Rightarrow> datetime \<Rightarrow> int \<Rightarrow> 'db \<Rightarrow> event_row option outcome \<times> 'db"
where
  "mark_event_completed E now =
     save_event E now (\<lambda>r. r\<lparr>e_status := ''completed'', e_processed_at := Some now\<rparr>)"

definition mark_event_failed ::
  "'db event_engine \<Rightarrow> datetime \<Rightarrow> string \<Rightarrow> json option \<Rightarrow> int \<Rightarrow> 'db \<Rightarrow> event_row option outcome \<times> 'db"
where
  "mark_event_failed E now message details =
     save_event E now (\<lambda>r. r\<lparr>e_status := ''failed'', e_error_message := Some message, e_error_details := details\<rparr>)"

definition mark_event_dlq ::
  "'db event_engine \<Rightarrow> datetime \<Rightarrow> string \<Rightarrow> int \<Rightarrow> 'db \<Rightarrow> event_row option outcome \<times> 'db"
where
  "mark_event_dlq E now reason =
     save_event E now (\<lambda>r. r\<lparr>e_status := ''dead_letter'', e_dlq := True, e_dlq_reason := Some reason\<rparr>)"

subsection \<open>Listings\<close>

definition get_events_by_status :: "'db event_engine \<Rightarrow> string \<Rightarrow> int \<Rightarrow> 'db \<Rightarrow> event_row list outcome" where
  "get_events_by_status E status lmt db = ev_select E (EvStatus status) False (Some lmt) db"

definition get_dlq_events :: "'db event_engine \<Rightarrow> int \<Rightarrow> 'db \<Rightarrow> event_row list outcome" where
  "get_dlq_events E lmt db = ev_select E EvDead True (Some lmt) db"

subsection \<open>What the code relies on\<close>

definition put_event :: "event_row \<Rightarrow> event_row list \<Rightarrow> event_row list" where
  "put_event r rs = map (\<lambda>x. if e_id x = e_id r then r else x) rs"

definition limited :: "int option \<Rightarrow> 'a list \<Rightarrow> 'a list" where
  "limited l xs = (case l of None \<Rightarrow> xs | Some n \<Rightarrow> take (nat n) xs)"

locale event_store =
  fixes E :: "'db event_engine"
  assumes ev_unique: "ev_ok E db \<Longrightarrow> distinct (map e_id (ev_rows E db)) \<and> distinct (map e_key (ev_rows E db))"
    and ev_insert_dup: "ev_ok E db \<Longrightarrow>
      \<not> distinct (map e_key ns) \<or> e_key ` set ns \<inter> e_key ` set (ev_rows E db) \<noteq> {} \<Longrightarrow>
      ev_insert E ns db = Inl IntegrityError"
    and ev_insert_new: "ev_ok E db \<Longrightarrow> distinct (map e_key ns) \<Longrightarrow>
      e_key ` set ns \<inter> e_key ` set (ev_rows E db) = {} \<Longrightarrow>
      \<exists>out db'. ev_insert E ns db = Inr (out, db') \<and> ev_ok E db' \<and>
        map (\<lambda>r. r\<lparr>e_id := 0\<rparr>) out = map (\<lambda>r. r\<lparr>e_id := 0\<rparr>) ns \<and>
        mset (ev_rows E db') = mset (ev_rows E db) + mset out"
    and ev_get_meaning: "ev_ok E db \<Longrightarrow> ev_get E i db = Inr (find (\<lambda>r. e_id r = i) (ev_rows E db))"
    and ev_select_meaning: "ev_ok E db \<Longrightarrow>
      \<exists>xs. ev_select E c newest l db = Inr (limited l xs) \<and> mset xs = mset (filter (ev_holds c) (ev_rows E db)) \<and>
        (newest \<longrightarrow> sorted_wrt (\<lambda>a b. e_created_at b \<le> e_created_at a) xs)"
    and ev_update_ok: "ev_ok E db \<Longrightarrow> x \<in> set (ev_rows E db) \<Longrightarrow> e_id x = e_id r \<Longrightarrow> e_key x = e_key r \<Longrightarrow>
      \<exists>db'. ev_update E r db = Inr db' \<and> ev_ok E db' \<and> mset (ev_rows E db') = mset (put_event r (ev_rows E db))"
begin

lemma ev_ids: "ev_ok E db \<Longrightarrow> x \<in> set (ev_rows E db) \<Longrightarrow> y \<in> set (ev_rows E db) \<Longrightarrow> e_id x = e_id y \<Longrightarrow> x = y"
  using ev_unique by (metis distinct_map inj_onD)

lemma ev_keys: "ev_ok E db \<Longrightarrow> x \<in> set (ev_rows E db) \<Longrightarrow> y \<in> set (ev_rows E db) \<Longrightarrow> e_key x = e_key y \<Longrightarrow> x = y"
  using ev_unique by (metis distinct_map inj_onD)

lemma get_stored: "ev_ok E db \<Longrightarrow> x \<in> set (ev_rows E db) \<Longrightarrow> ev_get E (e_id x) db = Inr (Some x)"
proof -
  assume a: "ev_ok E db" "x \<in> set (ev_rows E db)"
  have "find (\<lambda>r. e_id r = e_id x) (ev_rows E db) = Some x"
  proof (cases "find (\<lambda>r. e_id r = e_id x) (ev_rows E db)")
    case None
    then show ?thesis using a(2) by (auto simp: find_None_iff)
  next
    case (Some y)
    then have "y \<in> set (ev_rows E db)" "e_id y = e_id x" by (auto simp: find_Some_iff)
    then show ?thesis using Some ev_ids [OF a] by metis
  qed
  then show ?thesis using ev_get_meaning [OF a(1)] by simp
qed

lemma select_key:
  assumes "ev_ok E db" and "x \<in> set (ev_rows E db)"
  shows "ev_select E (EvKey (e_key x)) b None db = Inr [x]"
proof -
  obtain xs where xs: "ev_select E (EvKey (e_key x)) b None db = Inr xs"
    "mset xs = mset (filter (ev_holds (EvKey (e_key x))) (ev_rows E db))"
    using ev_select_meaning [OF assms(1), of "EvKey (e_key x)" b None] by (auto simp: limited_def)
  have "set xs = {x}"
    using mset_eq_setD [OF xs(2)] assms ev_keys by auto
  moreover have "distinct xs"
    using xs(2) ev_unique [OF assms(1)] by (metis distinct_filter distinct_map mset_eq_imp_distinct_iff)
  ultimately have "xs = [x]" by (cases xs; cases "tl xs") auto
  then show ?thesis using xs(1) by simp
qed

lemma save_stored:
  assumes "ev_ok E db" and "x \<in> set (ev_rows E db)" and "\<And>r. e_id (f r) = e_id r \<and> e_key (f r) = e_key r"
  shows "\<exists>db' y. save_event E now f (e_id x) db = (Inr (Some y), db') \<and> ev_ok E db' \<and>
    y = (if f x = x then x else (f x)\<lparr>e_updated_at := Some now\<rparr>) \<and>
    mset (ev_rows E db') = mset (put_event y (ev_rows E db))"
proof -
  let ?y = "if f x = x then x else (f x)\<lparr>e_updated_at := Some now\<rparr>"
  have ids: "e_id ?y = e_id x" "e_key ?y = e_key x" using assms(3) [of x] by auto
  have g: "ev_get E (e_id x) db = Inr (Some x)" using get_stored [OF assms(1,2)] .
  obtain db' where db': "(if f x = x then Inr db else ev_update E ?y db) = Inr db'" "ev_ok E db'"
    "mset (ev_rows E db') = mset (put_event ?y (ev_rows E db))"
  proof (cases "f x = x")
    case True
    have "map (\<lambda>r. if e_id r = e_id x then x else r) (ev_rows E db) = ev_rows E db"
      using ev_ids [OF assms(1)] assms(2) by (intro map_idI) auto
    then show ?thesis using that [of db] True assms(1) by (simp add: put_event_def)
  next
    case False
    then show ?thesis using ev_update_ok [OF assms(1,2), of ?y] ids that by auto
  qed
  have "?y \<in> set (ev_rows E db')"
    using mset_eq_setD [OF db'(3)] assms(2) ids by (force simp: put_event_def)
  from get_stored [OF db'(2) this] have "event_refresh E (e_id x) db' = Inr ?y"
    using ids by (simp add: event_refresh_def)
  then show ?thesis using g db' by (auto simp: save_event_def split: if_splits)
qed

end

subsection \<open>The engine over a list\<close>

record mem_events =
  me_rows :: "event_row list"
  me_next :: int

definition me_ok :: "mem_events \<Rightarrow> bool" where
  "me_ok db \<longleftrightarrow> distinct (map e_id (me_rows db)) \<and> distinct (map e_key (me_rows db)) \<and>
     (\<forall>r \<in> set (me_rows db). e_id r < me_next db)"

fun give_ids :: "int \<Rightarrow> event_row list \<Rightarrow> event_row list" where
  "give_ids i [] = []"
| "give_ids i (r # rs) = r\<lparr>e_id := i\<rparr> # give_ids (i + 1) rs"

definition newest_first :: "event_row list \<Rightarrow> event_row list" where
  "newest_first rs = rev (sort_key e_created_at rs)"

definition mem_event_engine :: "mem_events event_engine" where
  "mem_event_engine =
     \<lparr>ev_rows = me_rows, ev_ok = me_ok,
      ev_insert = (\<lambda>ns db.
        if distinct (map e_key ns) \<and> list_all (\<lambda>n. e_key n \<notin> set (map e_key (me_rows db))) ns
        then Inr (give_ids (me_next db) ns,
                  \<lparr>me_rows = me_rows db @ give_ids (me_next db) ns, me_next = me_next db + int (length ns)\<rparr>)
        else Inl IntegrityError),
      ev_get = (\<lambda>i db. Inr (find (\<lambda>r. e_id r = i) (me_rows db))),
      ev_select = (\<lambda>c newest l db.
        let xs = filter (ev_holds c) (me_rows db) in Inr (limited l (if newest then newest_first xs else xs))),
      ev_update = (\<lambda>r db.
        if list_ex (\<lambda>x. e_id x \<noteq> e_id r \<and> e_key x = e_key r) (me_rows db) then Inl IntegrityError
        else Inr (db\<lparr>me_rows := put_event r (me_rows db)\<rparr>))\<rparr>"

lemma give_ids_facts:
  "map e_key (give_ids i ns) = map e_key ns"
  "map (\<lambda>r. r\<lparr>e_id := 0\<rparr>) (give_ids i ns) = map (\<lambda>r. r\<lparr>e_id := 0\<rparr>) ns"
  "map e_id (give_ids i ns) = map (\<lambda>k. i + int k) [0..<length ns]"
proof -
  show "map e_key (give_ids i ns) = map e_key ns" by (induction ns arbitrary: i) auto
  show "map (\<lambda>r. r\<lparr>e_id := 0\<rparr>) (give_ids i ns) = map (\<lambda>r. r\<lparr>e_id := 0\<rparr>) ns"
    by (induction ns arbitrary: i) auto
  show "map e_id (give_ids i ns) = map (\<lambda>k. i + int k) [0..<length ns]"
    by (induction ns arbitrary: i)
      (simp_all add: upt_conv_Cons map_Suc_upt [symmetric] add.assoc del: upt_Suc)
qed

lemma give_ids_ok:
  assumes "me_ok db" and "distinct (map e_key ns)" and "e_key ` set ns \<inter> e_key ` set (me_rows db) = {}"
  shows "me_ok \<lparr>me_rows = me_rows db @ give_ids (me_next db) ns, me_next = me_next db + int (length ns)\<rparr>"
proof -
  have ids: "e_id ` set (give_ids (me_next db) ns) = (\<lambda>k. me_next db + int k) ` {..<length ns}"
    using give_ids_facts(3) [of "me_next db" ns] by (metis atLeast_upt list.set_map)
  have keys: "e_key ` set (give_ids (me_next db) ns) = e_key ` set ns"
    using give_ids_facts(1) [of "me_next db" ns] by (metis list.set_map)
  have "distinct (map e_id (give_ids (me_next db) ns))"
    unfolding give_ids_facts(3) by (simp add: distinct_map inj_on_def)
  moreover have "distinct (map e_key (give_ids (me_next db) ns))"
    unfolding give_ids_facts(1) by (rule assms(2))
  moreover have new: "me_next db \<le> e_id r \<and> e_id r < me_next db + int (length ns)"
    if "r \<in> set (give_ids (me_next db) ns)" for r
  proof -
    have "e_id r \<in> (\<lambda>k. me_next db + int k) ` {..<length ns}" using that ids by blast
    then show ?thesis by auto
  qed
  moreover have old: "e_id r < me_next db" if "r \<in> set (me_rows db)" for r
    using that assms(1) by (simp add: me_ok_def)
  moreover have "e_id ` set (me_rows db) \<inter> e_id ` set (give_ids (me_next db) ns) = {}"
    using new old by (fastforce dest: leD)
  ultimately show ?thesis
    using assms(1,3) keys by (auto simp: me_ok_def intro: less_le_trans [OF old])
qed

lemma put_event_ok:
  assumes "me_ok db" and "x \<in> set (me_rows db)" and "e_id x = e_id r" and "e_key x = e_key r"
  shows "me_ok (db\<lparr>me_rows := put_event r (me_rows db)\<rparr>) \<and>
    \<not> list_ex (\<lambda>y. e_id y \<noteq> e_id r \<and> e_key y = e_key r) (me_rows db)"
proof -
  have d: "distinct (map e_id (me_rows db))" "distinct (map e_key (me_rows db))"
    using assms(1) by (simp_all add: me_ok_def)
  have u: "y = x" if "y \<in> set (me_rows db)" "e_id y = e_id r \<or> e_key y = e_key r" for y
    using that assms(2-4) d by (metis distinct_map inj_onD)
  have m: "map e_id (put_event r (me_rows db)) = map e_id (me_rows db)"
    by (auto simp: put_event_def)
  moreover have "map e_key (put_event r (me_rows db)) = map e_key (me_rows db)"
    using u assms(4) by (auto simp: put_event_def)
  moreover have "\<forall>y \<in> set (put_event r (me_rows db)). e_id y < me_next db"
    using assms(1) arg_cong [OF m, of set] by (metis (no_types, lifting) image_iff list.set_map me_ok_def)
  ultimately have "me_ok (db\<lparr>me_rows := put_event r (me_rows db)\<rparr>)"
    using d by (simp add: me_ok_def del: map_map)
  then show ?thesis using u assms(3) by (auto simp: list_ex_iff)
qed

interpretation mev: event_store mem_event_engine
proof (unfold_locales, goal_cases)
  case (1 db)
  then show ?case by (simp add: mem_event_engine_def me_ok_def)
next
  case (2 db ns)
  then show ?case by (auto simp: mem_event_engine_def list_all_iff)
next
  case (3 db ns)
  then have "list_all (\<lambda>n. e_key n \<notin> set (map e_key (me_rows db))) ns"
    by (auto simp: mem_event_engine_def list_all_iff)
  then show ?case
    using 3 give_ids_ok [of db ns] by (simp add: mem_event_engine_def give_ids_facts(2) union_ac)
next
  case (4 db i)
  then show ?case by (simp add: mem_event_engine_def)
next
  case (5 db c newest l)
  have "sorted_wrt (\<lambda>a b. e_created_at b \<le> e_created_at a) (newest_first xs)" for xs
    using sorted_sort_key [of e_created_at xs] by (simp add: newest_first_def sorted_wrt_rev sorted_map)
  then show ?case by (auto simp: mem_event_engine_def Let_def newest_first_def)
next
  case (6 db x r)
  then show ?case using put_event_ok [of db x r] by (simp add: mem_event_engine_def)
qed

subsection \<open>The life of an event\<close>

text \<open>The abstract history of one event: what the marks promise, whatever row stores it.\<close>

datatype event_mark =
    Processing datetime
  | Completed datetime
  | Failed datetime string "json option"
  | DeadLetter datetime string

fun run_mark :: "'db event_engine \<Rightarrow> int \<Rightarrow> event_mark \<Rightarrow> 'db \<Rightarrow> event_row option outcome \<times> 'db" where
  "run_mark E i (Processing t) db = mark_event_processing E t i db"
| "run_mark E i (Completed t) db = mark_event_completed E t i db"
| "run_mark E i (Failed t m d) db = mark_event_failed E t m d i db"
| "run_mark E i (DeadLetter t m) db = mark_event_dlq E t m i db"

fun mark_status :: "event_mark \<Rightarrow> string" where
  "mark_status (Processing t) = ''processing''"
| "mark_status (Completed t) = ''completed''"
| "mark_status (Failed t m d) = ''failed''"
| "mark_status (DeadLetter t m) = ''dead_letter''"

fun is_processing :: "event_mark \<Rightarrow> bool" where
  "is_processing (Processing t) = True"
| "is_processing m = False"

fun is_dead_letter :: "event_mark \<Rightarrow> bool" where
  "is_dead_letter (DeadLetter t m) = True"
| "is_dead_letter m = False"

primrec run_marks :: "'db event_engine \<Rightarrow> int \<Rightarrow> event_mark list \<Rightarrow> 'db \<Rightarrow> 'db" where
  "run_marks E i [] db = db"
| "run_marks E i (m # ms) db = run_marks E i ms (snd (run_mark E i m db))"

definition marked_row :: "event_row \<Rightarrow> event_mark list \<Rightarrow> event_row \<Rightarrow> bool" where
  "marked_row x ms y \<longleftrightarrow>
     e_id y = e_id x \<and> e_key y = e_key x \<and> e_payload y = e_payload x \<and>
     e_status y = (if ms = [] then e_status x else mark_status (last ms)) \<and>
     e_attempts y = e_attempts x + int (length (filter is_processing ms)) \<and>
     (e_dlq y \<longleftrightarrow> e_dlq x \<or> (\<exists>m \<in> set ms. is_dead_letter m))"

lemma filter_put_event:
  "e_id y = i \<Longrightarrow> filter (\<lambda>r. e_id r \<noteq> i) (put_event y rs) = filter (\<lambda>r. e_id r \<noteq> i) rs"
  by (induction rs) (auto simp: put_event_def)

fun mark_fun :: "event_mark \<Rightarrow> event_row \<Rightarrow> event_row" where
  "mark_fun (Processing t) r = r\<lparr>e_status := ''processing'', e_attempts := e_attempts r + 1\<rparr>"
| "mark_fun (Completed t) r = r\<lparr>e_status := ''completed'', e_processed_at := Some t\<rparr>"
| "mark_fun (Failed t m d) r = r\<lparr>e_status := ''failed'', e_error_message := Some m, e_error_details := d\<rparr>"
| "mark_fun (DeadLetter t m) r = r\<lparr>e_status := ''dead_letter'', e_dlq := True, e_dlq_reason := Some m\<rparr>"

fun mark_time :: "event_mark \<Rightarrow> datetime" where
  "mark_time (Processing t) = t"
| "mark_time (Completed t) = t"
| "mark_time (Failed t m d) = t"
| "mark_time (DeadLetter t m) = t"

lemma run_mark_save: "run_mark E i m db = save_event E (mark_time m) (mark_fun m) i db"
proof -
  have "mark_fun (Processing t) = (\<lambda>r. r\<lparr>e_status := ''processing'', e_attempts := e_attempts r + 1\<rparr>)"
    "mark_fun (Completed t) = (\<lambda>r. r\<lparr>e_status := ''completed'', e_processed_at := Some t\<rparr>)"
    "mark_fun (Failed t msg d) = (\<lambda>r. r\<lparr>e_status := ''failed'', e_error_message := Some msg, e_error_details := d\<rparr>)"
    "mark_fun (DeadLetter t msg) = (\<lambda>r. r\<lparr>e_status := ''dead_letter'', e_dlq := True, e_dlq_reason := Some msg\<rparr>)"
    for t msg d by (rule ext; simp)+
  then show ?thesis
    by (cases m) (simp_all add: mark_event_processing_def mark_event_completed_def mark_event_failed_def mark_event_dlq_def)
qed

lemma mark_fun_keys: "e_id (mark_fun m r) = e_id r \<and> e_key (mark_fun m r) = e_key r"
  by (cases m) auto

lemma mark_fun_row:
  "marked_row x [m] (if mark_fun m x = x then x else (mark_fun m x)\<lparr>e_updated_at := Some t\<rparr>)"
proof -
  have "marked_row x [m] (mark_fun m x)" by (cases m) (auto simp: marked_row_def)
  then show ?thesis by (auto simp: marked_row_def)
qed

context event_store
begin

lemma run_mark_stored:
  assumes "ev_ok E db" and "x \<in> set (ev_rows E db)"
  shows "\<exists>db' y. run_mark E (e_id x) m db = (Inr (Some y), db') \<and> ev_ok E db' \<and> y \<in> set (ev_rows E db') \<and>
    marked_row x [m] y \<and>
    filter_mset (\<lambda>r. e_id r \<noteq> e_id x) (mset (ev_rows E db')) = filter_mset (\<lambda>r. e_id r \<noteq> e_id x) (mset (ev_rows E db))"
proof -
  have "\<exists>db' y. save_event E t f (e_id x) db = (Inr (Some y), db') \<and> ev_ok E db' \<and> y \<in> set (ev_rows E db') \<and>
      y = (if f x = x then x else (f x)\<lparr>e_updated_at := Some t\<rparr>) \<and>
      filter_mset (\<lambda>r. e_id r \<noteq> e_id x) (mset (ev_rows E db')) = filter_mset (\<lambda>r. e_id r \<noteq> e_id x) (mset (ev_rows E db))"
    if "\<And>r. e_id (f r) = e_id r \<and> e_key (f r) = e_key r" for t f
  proof -
    note fix_ids = that
    obtain db' y where s: "save_event E t f (e_id x) db = (Inr (Some y), db')" "ev_ok E db'"
      "y = (if f x = x then x else (f x)\<lparr>e_updated_at := Some t\<rparr>)"
      "mset (ev_rows E db') = mset (put_event y (ev_rows E db))"
      using save_stored [OF assms, of f t, OF fix_ids] by blast
    have id: "e_id y = e_id x" using s(3) fix_ids [of x] by auto
    then have "y \<in> set (ev_rows E db')"
      using mset_eq_setD [OF s(4)] assms(2) by (force simp: put_event_def)
    moreover have "filter_mset (\<lambda>r. e_id r \<noteq> e_id x) (mset (ev_rows E db')) =
        filter_mset (\<lambda>r. e_id r \<noteq> e_id x) (mset (ev_rows E db))"
      unfolding s(4) mset_filter [symmetric] filter_put_event [OF id] ..
    ultimately show ?thesis using s by blast
  qed
  from this [of "mark_fun m" "mark_time m", OF mark_fun_keys]
  obtain db' y where y: "save_event E (mark_time m) (mark_fun m) (e_id x) db = (Inr (Some y), db')" "ev_ok E db'"
    "y \<in> set (ev_rows E db')" "y = (if mark_fun m x = x then x else (mark_fun m x)\<lparr>e_updated_at := Some (mark_time m)\<rparr>)"
    "filter_mset (\<lambda>r. e_id r \<noteq> e_id x) (mset (ev_rows E db')) = filter_mset (\<lambda>r. e_id r \<noteq> e_id x) (mset (ev_rows E db))"
    by blast
  have "marked_row x [m] y" unfolding y(4) by (rule mark_fun_row)
  then show ?thesis unfolding run_mark_save using y(1-3,5) by blast
qed

lemma marked_row_trans: "marked_row x [m] y \<Longrightarrow> marked_row y ms z \<Longrightarrow> marked_row x (m # ms) z"
  by (cases m) (auto simp: marked_row_def)

lemma run_marks_stored:
  assumes "ev_ok E db" and "x \<in> set (ev_rows E db)"
  shows "ev_ok E (run_marks E (e_id x) ms db) \<and>
    (\<exists>y \<in> set (ev_rows E (run_marks E (e_id x) ms db)). marked_row x ms y) \<and>
    filter_mset (\<lambda>r. e_id r \<noteq> e_id x) (mset (ev_rows E (run_marks E (e_id x) ms db))) =
      filter_mset (\<lambda>r. e_id r \<noteq> e_id x) (mset (ev_rows E db))"
  using assms
proof (induction ms arbitrary: db x)
  case Nil
  then show ?case by (auto simp: marked_row_def)
next
  case (Cons m ms)
  obtain db' y where y: "run_mark E (e_id x) m db = (Inr (Some y), db')" "ev_ok E db'" "y \<in> set (ev_rows E db')"
    "marked_row x [m] y"
    "filter_mset (\<lambda>r. e_id r \<noteq> e_id x) (mset (ev_rows E db')) = filter_mset (\<lambda>r. e_id r \<noteq> e_id x) (mset (ev_rows E db))"
    using run_mark_stored [OF Cons.prems, of m] by blast
  have id: "e_id y = e_id x" using y(4) by (simp add: marked_row_def)
  show ?case using Cons.IH [OF y(2,3)] y(1,5) marked_row_trans [OF y(4)] unfolding id by auto
qed

lemma dlq_listed:
  assumes "ev_ok E db" and "y \<in> set (ev_rows E db)" and "e_dlq y"
    and "int (length (filter e_dlq (ev_rows E db))) \<le> lmt"
  shows "\<exists>out. get_dlq_events E lmt db = Inr out \<and> y \<in> set out"
proof -
  obtain xs where xs: "ev_select E EvDead True (Some lmt) db = Inr (limited (Some lmt) xs)"
    "mset xs = mset (filter (ev_holds EvDead) (ev_rows E db))"
    using ev_select_meaning [OF assms(1), of EvDead True "Some lmt"] by blast
  have e: "ev_holds EvDead = e_dlq" by (rule ext) simp
  have "length xs = length (filter e_dlq (ev_rows E db))" using mset_eq_length [OF xs(2)] unfolding e .
  then have "limited (Some lmt) xs = xs" using assms(4) by (simp add: limited_def)
  moreover have "y \<in> set xs" using mset_eq_setD [OF xs(2)] assms(2,3) by simp
  ultimately show ?thesis using xs(1) by (auto simp: get_dlq_events_def)
qed

lemma create_new:
  assumes "ev_ok E db" and "in_key x \<notin> e_key ` set (ev_rows E db)"
  shows "\<exists>r db'. create_processed_event E now x db = (Inr (Some r, True), db') \<and> ev_ok E db' \<and>
    mset (ev_rows E db') = add_mset r (mset (ev_rows E db)) \<and> r\<lparr>e_id := 0\<rparr> = event_of now x"
proof -
  have "e_key ` set [event_of now x] \<inter> e_key ` set (ev_rows E db) = {}"
    using assms(2) by (simp add: event_of_def)
  then obtain out db' where o: "ev_insert E [event_of now x] db = Inr (out, db')" "ev_ok E db'"
    "map (\<lambda>r. r\<lparr>e_id := 0\<rparr>) out = map (\<lambda>r. r\<lparr>e_id := 0\<rparr>) [event_of now x]"
    "mset (ev_rows E db') = mset (ev_rows E db) + mset out"
    using ev_insert_new [OF assms(1), of "[event_of now x]"] by auto
  then obtain r where r: "out = [r]" "r\<lparr>e_id := 0\<rparr> = event_of now x"
    by (cases out) (auto simp: event_of_def)
  have "r \<in># mset (ev_rows E db')" unfolding o(4) r(1) by simp
  then have "r \<in> set (ev_rows E db')" by simp
  from get_stored [OF o(2) this] show ?thesis
    using o r by (simp add: create_processed_event_def event_refresh_def)
qed

lemma create_existing:
  assumes "ev_ok E db" and "r \<in> set (ev_rows E db)" and "e_key r = in_key x"
  shows "create_processed_event E now x db = (Inr (Some r, False), db)"
proof -
  have "ev_insert E [event_of now x] db = Inl IntegrityError"
    using imageI [OF assms(2), of e_key] assms(1,3) by (intro ev_insert_dup) (auto simp: event_of_def)
  then show ?thesis
    using select_key [OF assms(1,2), of False] assms(3)
    by (simp add: create_processed_event_def one_or_none_def)
qed

end

text \<open>
  An event is stored once per idempotency key. The first delivery of a key stores a pending event with no
  attempts and reports it as created; after it, whatever marks the event has had, every further delivery with
  that key, with any topic, offset or payload, returns the stored row with \<open>created=False\<close>, marks kept,
  and changes nothing.
\<close>

theorem event_created_once:
  assumes "event_store E" and "ev_ok E db" and "in_key x \<notin> e_key ` set (ev_rows E db)" and "in_key x' = in_key x"
  shows "\<exists>r db1. create_processed_event E now x db = (Inr (Some r, True), db1) \<and>
    e_status r = ''pending'' \<and> e_attempts r = 0 \<and>
    (\<exists>y. marked_row r ms y \<and>
       create_processed_event E now' x' (run_marks E (e_id r) ms db1) =
         (Inr (Some y, False), run_marks E (e_id r) ms db1))"
proof -
  obtain r db1 where c: "create_processed_event E now x db = (Inr (Some r, True), db1)" "ev_ok E db1"
    "mset (ev_rows E db1) = add_mset r (mset (ev_rows E db))" "r\<lparr>e_id := 0\<rparr> = event_of now x"
    using event_store.create_new [OF assms(1-3)] by blast
  have r: "e_status r = ''pending''" "e_attempts r = 0" "e_key r = in_key x"
    using c(4) by (auto simp: event_of_def dest: arg_cong [where f = e_status] arg_cong [where f = e_attempts]
        arg_cong [where f = e_key])
  have "r \<in># mset (ev_rows E db1)" unfolding c(3) by simp
  then have "r \<in> set (ev_rows E db1)" by simp
  from event_store.run_marks_stored [OF assms(1) c(2) this, of ms]
  obtain y where y: "ev_ok E (run_marks E (e_id r) ms db1)" "y \<in> set (ev_rows E (run_marks E (e_id r) ms db1))"
    "marked_row r ms y" by blast
  have "e_key y = in_key x'" using y(3) r(3) assms(4) by (simp add: marked_row_def)
  from event_store.create_existing [OF assms(1) y(1,2) this] show ?thesis using c(1) r y(3) by blast
qed

definition demo_event :: event_input where
  "demo_event = \<lparr>in_topic = ''t'', in_partition = 0, in_offset = 7, in_key = ''k'', in_type = ''record.created'', in_payload = JNull\<rparr>"

definition no_events :: mem_events where
  "no_events = \<lparr>me_rows = [], me_next = 1\<rparr>"

theorem event_created_once_witness:
  "\<exists>r db1 y. create_processed_event mem_event_engine 5 demo_event no_events = (Inr (Some r, True), db1) \<and>
     e_attempts y = 1 \<and> create_processed_event mem_event_engine 9 demo_event (run_marks mem_event_engine (e_id r) [Processing 6] db1) =
       (Inr (Some y, False), run_marks mem_event_engine (e_id r) [Processing 6] db1)"
proof -
  have "ev_ok mem_event_engine no_events" "in_key demo_event \<notin> e_key ` set (ev_rows mem_event_engine no_events)"
    by (simp_all add: mem_event_engine_def me_ok_def no_events_def)
  from event_created_once [OF mev.event_store_axioms this refl, of 5 "[Processing 6]" 9] show ?thesis
    by (auto simp: marked_row_def)
qed

text \<open>
  C13. The marks of an event are its history and nothing leaves the dead letter queue. After any marks, in any
  order (the code guards no transition), the stored event has the status of the last one, has one more attempt
  for each start of processing, keeps its key and payload, and every other event is untouched; when one of the
  marks was the dead letter, \<open>get_dlq_events\<close> with a limit of at least the queue's length still lists it, even
  after it was completed.
\<close>

theorem marks_are_history:
  assumes "event_store E" and "ev_ok E db" and "x \<in> set (ev_rows E db)"
  shows "\<exists>y \<in> set (ev_rows E (run_marks E (e_id x) ms db)).
    marked_row x ms y \<and>
    filter_mset (\<lambda>r. e_id r \<noteq> e_id x) (mset (ev_rows E (run_marks E (e_id x) ms db))) =
      filter_mset (\<lambda>r. e_id r \<noteq> e_id x) (mset (ev_rows E db)) \<and>
    ((\<exists>m \<in> set ms. is_dead_letter m) \<longrightarrow>
       int (length (filter e_dlq (ev_rows E (run_marks E (e_id x) ms db)))) \<le> lmt \<longrightarrow>
       (\<exists>out. get_dlq_events E lmt (run_marks E (e_id x) ms db) = Inr out \<and> y \<in> set out))"
proof -
  note s = event_store.run_marks_stored [OF assms, of ms]
  then obtain y where y: "y \<in> set (ev_rows E (run_marks E (e_id x) ms db))" "marked_row x ms y" by blast
  then have "e_dlq y" if "\<exists>m \<in> set ms. is_dead_letter m" using that by (simp add: marked_row_def)
  then show ?thesis using s y event_store.dlq_listed [OF assms(1) _ y(1), of lmt] by blast
qed

definition one_event :: mem_events where
  "one_event = snd (create_processed_event mem_event_engine 5 demo_event no_events)"

theorem marks_are_history_witness:
  "\<exists>y. e_status y = ''completed'' \<and> e_attempts y = 1 \<and>
     (\<exists>out. get_dlq_events mem_event_engine 100
        (run_marks mem_event_engine 1 [Processing 6, DeadLetter 7 ''x'', Completed 8] one_event) = Inr out \<and> y \<in> set out)"
proof -
  have ok: "ev_ok mem_event_engine one_event" by (simp add: one_event_def) code_simp
  have st: "(event_of 5 demo_event)\<lparr>e_id := 1\<rparr> \<in> set (ev_rows mem_event_engine one_event)"
    by (simp add: one_event_def) code_simp
  have id: "e_id ((event_of 5 demo_event)\<lparr>e_id := 1\<rparr>) = 1" by simp
  have l: "length (filter e_dlq (ev_rows mem_event_engine
      (run_marks mem_event_engine 1 [Processing 6, DeadLetter 7 ''x'', Completed 8] one_event))) = 1" by code_simp
  show ?thesis
    using marks_are_history [OF mev.event_store_axioms ok st, of "[Processing 6, DeadLetter 7 ''x'', Completed 8]" 100]
    unfolding id l by (auto simp: marked_row_def event_of_def)
qed

end
