(* ===== verification/Processor.thy ===== *)
theory Processor
  imports Codec
begin

text \<open>
  The event processor \<open>services/processor/main.py\<close>: the connection loop, the consumer loop with its retry
  counters, the business logic of one event and the dead letter queue. Kafka's clients are outside the
  sources: what \<open>start\<close> and \<open>send_and_wait\<close> raise is part of the input, as are the messages. \<open>loads\<close>
  is \<open>json.loads\<close> on bytes, an argument, so that every statement holds for messages with characters
  beyond the development's strings too; tracing is left out.
\<close>

definition PROC_TOPIC :: string where
  "PROC_TOPIC = ''records.events''"

definition TOPIC_DLQ :: string where
  "TOPIC_DLQ = ''records.events.dlq''"

definition DLQ_MAX_RETRIES :: int where
  "DLQ_MAX_RETRIES = 3"

definition RETRY_SLEEP_SECONDS :: int where
  "RETRY_SLEEP_SECONDS = 5"

definition RETRY_MAX_ATTEMPTS :: nat where
  "RETRY_MAX_ATTEMPTS = 12"

record kmsg =
  km_partition :: int
  km_offset :: int
  km_value :: "string option"

definition msg_key :: "kmsg \<Rightarrow> int \<times> int" where
  "msg_key m = (km_partition m, km_offset m)"

record dlq_entry =
  d_topic :: string
  d_partition :: int
  d_offset :: int
  d_reason :: string
  d_original :: string

definition dlq_payload :: "dlq_entry \<Rightarrow> json" where
  "dlq_payload d =
     JObj [(''source_topic'', JStr (d_topic d)), (''source_partition'', JInt (d_partition d)),
           (''source_offset'', JInt (d_offset d)), (''reason'', JStr (d_reason d)), (''original'', JStr (d_original d))]"

record processor_state =
  retry_counts :: "int \<times> int \<Rightarrow> int option"
  dlq_log :: "dlq_entry list"
  dlq_lost :: "dlq_entry list"
  processed_log :: "(json \<times> json) list"

definition fresh_processor :: processor_state where
  "fresh_processor = \<lparr>retry_counts = (\<lambda>k. None), dlq_log = [], dlq_lost = [], processed_log = []\<rparr>"

text \<open>
  \<open>_send_to_dlq\<close>: an entry that the broker acknowledged is logged as forwarded (\<open>message_dlq_forwarded\<close>); one whose
  send timed out or raised a Kafka error is logged as such and given up.
\<close>

definition send_to_dlq :: "unit outcome \<Rightarrow> dlq_entry \<Rightarrow> processor_state \<Rightarrow> processor_state \<times> unit outcome" where
  "send_to_dlq out d s =
     (case out of
        Inr _ \<Rightarrow> (s\<lparr>dlq_log := dlq_log s @ [d]\<rparr>, Inr ())
      | Inl (TimeoutError m) \<Rightarrow> (s\<lparr>dlq_lost := dlq_lost s @ [d]\<rparr>, Inr ())
      | Inl (KafkaError m) \<Rightarrow> (s\<lparr>dlq_lost := dlq_lost s @ [d]\<rparr>, Inr ())
      | Inl e \<Rightarrow> (s, Inl e))"

text \<open>\<open>_process_message\<close>: what it logs, or what it raises.\<close>

definition process_message :: "json \<Rightarrow> (json \<times> json) outcome" where
  "process_message event =
     try_bind (py_get event ''event_type'') (\<lambda>event_type.
       try_bind (py_get event ''payload'') (\<lambda>payload.
         if event_type = JNull \<or> payload = JNull
         then Inl (ValueError (''event missing '' @ quoted ''event_type'' @ '' or '' @ quoted ''payload''))
         else Inr (event_type, payload)))"

definition message_outcome :: "(string \<Rightarrow> json outcome) \<Rightarrow> kmsg \<Rightarrow> (json \<times> json) outcome" where
  "message_outcome loads m =
     (case km_value m of
        None \<Rightarrow> Inl (TypeError ''the JSON object must be str, bytes or bytearray, not NoneType'')
      | Some v \<Rightarrow> try_bind (loads v) process_message)"

definition is_caught :: "py_exn \<Rightarrow> bool" where
  "is_caught e \<longleftrightarrow> is_ValueError e \<or> is_KeyError e"

text \<open>The body of the \<open>async for\<close>; \<open>out\<close> is what the dead letter producer does for this message.\<close>

definition handle_message ::
  "(string \<Rightarrow> json outcome) \<Rightarrow> kmsg \<Rightarrow> unit outcome \<Rightarrow> processor_state \<Rightarrow> processor_state \<times> unit outcome"
where
  "handle_message loads m out s =
     (let k = msg_key m;
          attempt = (case retry_counts s k of None \<Rightarrow> 0 | Some n \<Rightarrow> n) + 1
      in (case message_outcome loads m of
            Inr ev \<Rightarrow>
              (s\<lparr>processed_log := processed_log s @ [ev], retry_counts := (retry_counts s)(k := None)\<rparr>, Inr ())
          | Inl e \<Rightarrow>
              if \<not> is_caught e then (s, Inl e)
              else if DLQ_MAX_RETRIES \<le> attempt then
                (case send_to_dlq out \<lparr>d_topic = PROC_TOPIC, d_partition = km_partition m, d_offset = km_offset m,
                        d_reason = exn_str e, d_original = (case km_value m of None \<Rightarrow> [] | Some v \<Rightarrow> v)\<rparr> s of
                   (s1, Inl x) \<Rightarrow> (s1, Inl x)
                 | (s1, Inr _) \<Rightarrow> (s1\<lparr>retry_counts := (retry_counts s1)(k := None)\<rparr>, Inr ()))
              else (s\<lparr>retry_counts := (retry_counts s)(k := Some attempt)\<rparr>, Inr ())))"

text \<open>The loop over the deliveries; the second component is what is left unread when it raises.\<close>

fun consume_msgs ::
  "(string \<Rightarrow> json outcome) \<Rightarrow> (kmsg \<times> unit outcome) list \<Rightarrow> processor_state \<Rightarrow>
   processor_state \<times> (kmsg \<times> unit outcome) list \<times> unit outcome"
where
  "consume_msgs loads [] s = (s, [], Inr ())"
| "consume_msgs loads ((m, out) # ds) s =
     (case handle_message loads m out s of
        (s1, Inl e) \<Rightarrow> (s1, ds, Inl e)
      | (s1, Inr _) \<Rightarrow> consume_msgs loads ds s1)"

text \<open>
  The connection loop: attempt \<open>n\<close> meets the outcomes \<open>starts n\<close> of \<open>consumer.start()\<close> and
  \<open>producer.start()\<close>. The result is the number of sleeps.
\<close>

function connect_loop :: "(nat \<Rightarrow> unit outcome \<times> unit outcome) \<Rightarrow> nat \<Rightarrow> nat \<Rightarrow> nat \<times> unit outcome" where
  "connect_loop starts attempt sleeps =
     (if RETRY_MAX_ATTEMPTS < attempt then (sleeps, Inr ())
      else (case try_bind (fst (starts attempt)) (\<lambda>_. snd (starts attempt)) of
              Inr _ \<Rightarrow> (sleeps, Inr ())
            | Inl (KafkaError m) \<Rightarrow>
                if attempt = RETRY_MAX_ATTEMPTS then (sleeps, Inl (KafkaError m))
                else connect_loop starts (Suc attempt) (Suc sleeps)
            | Inl e \<Rightarrow> (sleeps, Inl e)))"
  by pat_completeness auto
termination
  by (relation "measure (\<lambda>(starts, attempt, sleeps). Suc RETRY_MAX_ATTEMPTS - attempt)") auto

declare connect_loop.simps [simp del]

definition consume_messages ::
  "(string \<Rightarrow> json outcome) \<Rightarrow> (nat \<Rightarrow> unit outcome \<times> unit outcome) \<Rightarrow> (kmsg \<times> unit outcome) list \<Rightarrow>
   processor_state \<times> (kmsg \<times> unit outcome) list \<times> unit outcome"
where
  "consume_messages loads starts ds =
     (case connect_loop starts 1 0 of
        (sleeps, Inl e) \<Rightarrow> (fresh_processor, ds, Inl e)
      | (sleeps, Inr _) \<Rightarrow> consume_msgs loads ds fresh_processor)"

subsection \<open>Retry counters against the delivery history\<close>

definition undecodable :: "(string \<Rightarrow> json outcome) \<Rightarrow> kmsg \<Rightarrow> bool" where
  "undecodable loads m \<longleftrightarrow> (\<exists>e. message_outcome loads m = Inl e \<and> is_caught e)"

text \<open>What the dead letter producer would answer at each delivery of a message, and every third element of a list.\<close>

definition send_outcomes :: "int \<times> int \<Rightarrow> (kmsg \<times> unit outcome) list \<Rightarrow> unit outcome list" where
  "send_outcomes k ds = map snd (filter (\<lambda>(m, out). msg_key m = k) ds)"

fun thirds :: "nat \<Rightarrow> 'a list \<Rightarrow> 'a list" where
  "thirds c [] = []"
| "thirds c (x # xs) = (if 2 \<le> c then x # thirds 0 xs else thirds (Suc c) xs)"

definition acknowledged :: "unit outcome list \<Rightarrow> nat" where
  "acknowledged outs = length (filter (\<lambda>out. out = Inr ()) outs)"

definition unacknowledged :: "unit outcome list \<Rightarrow> nat" where
  "unacknowledged outs = length (filter (\<lambda>out. out \<noteq> Inr ()) outs)"

definition entries_of :: "int \<times> int \<Rightarrow> dlq_entry list \<Rightarrow> nat" where
  "entries_of k entries = length (filter (\<lambda>d. (d_partition d, d_offset d) = k) entries)"

definition count_at :: "processor_state \<Rightarrow> int \<times> int \<Rightarrow> int" where
  "count_at s k = (case retry_counts s k of None \<Rightarrow> 0 | Some n \<Rightarrow> n)"

lemmas counting_defs = count_at_def entries_of_def msg_key_def acknowledged_def unacknowledged_def

lemma thirds_nth: "3 * i + 2 < length xs \<Longrightarrow> i < length (thirds 0 xs) \<and> thirds 0 xs ! i = xs ! (3 * i + 2)"
proof (induction i arbitrary: xs)
  case 0
  then obtain x y z ys where "xs = x # y # z # ys"
    by (cases xs; cases "tl xs"; cases "tl (tl xs)") auto
  then show ?case by simp
next
  case (Suc i)
  then obtain x y z ys where "xs = x # y # z # ys"
    by (cases xs; cases "tl xs"; cases "tl (tl xs)") auto
  then show ?case using Suc by simp
qed

lemma length_thirds: "c < 3 \<Longrightarrow> length (thirds c xs) = (c + length xs) div 3"
proof (induction xs arbitrary: c)
  case (Cons x xs)
  show ?case
  proof (cases "c = 2")
    case True
    then show ?thesis using Cons.IH [of 0] by simp
  next
    case False
    then show ?thesis using Cons.IH [of "Suc c"] Cons.prems by simp
  qed
qed simp

lemma acknowledged_or_not: "acknowledged outs + unacknowledged outs = length outs"
  by (simp add: acknowledged_def unacknowledged_def sum_length_filter_compl)

lemma handle_other_key:
  assumes "handle_message loads m out s = (s1, Inr ())" and "msg_key m \<noteq> k"
  shows "count_at s1 k = count_at s k \<and> entries_of k (dlq_log s1) = entries_of k (dlq_log s) \<and>
    entries_of k (dlq_lost s1) = entries_of k (dlq_lost s)"
  using assms
  by (auto simp: handle_message_def Let_def send_to_dlq_def counting_defs
      split: sum.splits if_splits prod.splits py_exn.splits)

lemma handle_undecodable:
  assumes "handle_message loads m out s = (s1, Inr ())" and "undecodable loads m" and "count_at s (msg_key m) = c"
  shows "count_at s1 (msg_key m) = (if 2 \<le> c then 0 else c + 1) \<and>
    entries_of (msg_key m) (dlq_log s1) = entries_of (msg_key m) (dlq_log s) + (if 2 \<le> c then acknowledged [out] else 0) \<and>
    entries_of (msg_key m) (dlq_lost s1) = entries_of (msg_key m) (dlq_lost s) + (if 2 \<le> c then unacknowledged [out] else 0)"
  using assms
  by (auto simp: handle_message_def Let_def send_to_dlq_def counting_defs undecodable_def
      DLQ_MAX_RETRIES_def split: sum.splits if_splits prod.splits py_exn.splits option.splits)

lemma consume_counts:
  assumes "consume_msgs loads ds s = (s1, [], Inr ())"
    and "\<And>m out. (m, out) \<in> set ds \<Longrightarrow> msg_key m = k \<Longrightarrow> undecodable loads m"
    and "count_at s k = int c" and "c < 3"
  shows "entries_of k (dlq_log s1) = entries_of k (dlq_log s) + acknowledged (thirds c (send_outcomes k ds)) \<and>
    entries_of k (dlq_lost s1) = entries_of k (dlq_lost s) + unacknowledged (thirds c (send_outcomes k ds))"
  using assms
proof (induction ds arbitrary: s c)
  case Nil
  then show ?case by (simp add: send_outcomes_def acknowledged_def unacknowledged_def)
next
  case (Cons d ds)
  obtain m out where d: "d = (m, out)" by (cases d)
  obtain s2 where h: "handle_message loads m out s = (s2, Inr ())" and r: "consume_msgs loads ds s2 = (s1, [], Inr ())"
    using Cons.prems(1) d by (auto split: prod.splits sum.splits)
  have "undecodable loads m'" if "(m', out') \<in> set ds" "msg_key m' = k" for m' out'
    using Cons.prems(2) [of m' out'] that by simp
  then have ih: "entries_of k (dlq_log s1) = entries_of k (dlq_log s2) + acknowledged (thirds c' (send_outcomes k ds)) \<and>
      entries_of k (dlq_lost s1) = entries_of k (dlq_lost s2) + unacknowledged (thirds c' (send_outcomes k ds))"
    if "count_at s2 k = int c'" "c' < 3" for c'
    using Cons.IH [OF r, of c'] that by blast
  show ?case
  proof (cases "msg_key m = k")
    case False
    then show ?thesis
      using ih [of c] handle_other_key [OF h False] Cons.prems(3,4) d by (simp add: send_outcomes_def)
  next
    case True
    have "undecodable loads m" using Cons.prems(2) [of m out] True d by simp
    note u = handle_undecodable [OF h this, unfolded True, OF Cons.prems(3)]
    have del: "send_outcomes k (d # ds) = out # send_outcomes k ds" using True d by (simp add: send_outcomes_def)
    show ?thesis
    proof (cases "2 \<le> c")
      case True
      then show ?thesis using ih [of 0] u by (auto simp: del acknowledged_def unacknowledged_def)
    next
      case False
      then show ?thesis using ih [of "Suc c"] u Cons.prems(4) by (simp add: del add.commute)
    qed
  qed
qed

text \<open>
  C28. A message that fails goes to the dead letter queue at every third delivery and never before. In a run over any
  deliveries that does not stop, the messages that cannot be decoded or processed are handed to the dead letter
  producer at their third, sixth, ... delivery: as many entries are in the queue as the broker acknowledged of those
  sends, and every other one of them, which timed out or failed, is lost, since the counter starts again either way.
  Nothing in the consumer delivers a message again, so with the single delivery of each offset by the broker the
  dead letter queue stays unused.
\<close>

theorem dlq_every_third_delivery:
  assumes "consume_messages loads starts ds = (s, [], Inr ())" and "fst (starts 1) = Inr ()" and "snd (starts 1) = Inr ()"
    and "\<And>m out. (m, out) \<in> set ds \<Longrightarrow> msg_key m = k \<Longrightarrow> undecodable loads m"
  shows "entries_of k (dlq_log s) = acknowledged (thirds 0 (send_outcomes k ds)) \<and>
    entries_of k (dlq_lost s) = unacknowledged (thirds 0 (send_outcomes k ds)) \<and>
    entries_of k (dlq_log s) + entries_of k (dlq_lost s) = length (send_outcomes k ds) div 3"
proof -
  have "connect_loop starts 1 0 = (0, Inr ())"
    using assms(2,3) by (simp add: connect_loop.simps [of starts "Suc 0"] RETRY_MAX_ATTEMPTS_def)
  then have "consume_msgs loads ds fresh_processor = (s, [], Inr ())" using assms(1) by (simp add: consume_messages_def)
  from consume_counts [where c = 0, OF this assms(4)] show ?thesis
    using acknowledged_or_not [of "thirds 0 (send_outcomes k ds)"] length_thirds [of 0 "send_outcomes k ds"]
    by (simp add: count_at_def fresh_processor_def entries_of_def)
qed

definition bad_msg :: kmsg where
  "bad_msg = \<lparr>km_partition = 0, km_offset = 4, km_value = Some ''oops''\<rparr>"

definition no_json :: "string \<Rightarrow> json outcome" where
  "no_json s = Inl (JSONDecodeError ''Expecting value'')"

theorem dlq_every_third_delivery_witness:
  "\<exists>s. consume_messages no_json (\<lambda>n. (Inr (), Inr ()))
       [(bad_msg, Inr ()), (bad_msg, Inr ()), (bad_msg, Inl (KafkaError ''down'')), (bad_msg, Inr ()), (bad_msg, Inr ()),
        (bad_msg, Inr ()), (bad_msg, Inr ())] = (s, [], Inr ()) \<and>
     entries_of (0, 4) (dlq_log s) = 1 \<and> entries_of (0, 4) (dlq_lost s) = 1"
proof -
  let ?ds = "[(bad_msg, Inr ()), (bad_msg, Inr ()), (bad_msg, Inl (KafkaError ''down'')), (bad_msg, Inr ()), (bad_msg, Inr ()),
        (bad_msg, Inr ()), (bad_msg, Inr ())]"
  obtain s where s: "consume_messages no_json (\<lambda>n. (Inr (), Inr ())) ?ds = (s, [], Inr ())"
  proof -
    have "snd (consume_messages no_json (\<lambda>n. (Inr (), Inr ())) ?ds) = ([], Inr ())" by code_simp
    then show ?thesis using that by (metis prod.collapse)
  qed
  have u: "undecodable no_json bad_msg"
    by (simp add: undecodable_def message_outcome_def no_json_def is_caught_def bad_msg_def)
  have "undecodable no_json m" if "(m, out) \<in> set ?ds" for m out using that u by auto
  from dlq_every_third_delivery [OF s _ _ this] show ?thesis
    using s by (auto simp: send_outcomes_def bad_msg_def msg_key_def acknowledged_def unacknowledged_def)
qed

text \<open>
  A well-formed message that is not a JSON object stops the consumer. Reading a key from a list, a string, a
  number, a boolean or null raises \<open>AttributeError\<close>, which the handler does not catch: the loop ends there and
  every later message is left unread.
\<close>

theorem non_object_stops_consumer:
  assumes "consume_msgs loads ds1 s = (s1, [], Inr ())" and "km_value m = Some v" and "loads v = Inr j"
    and "\<And>kvs. j \<noteq> JObj kvs"
  shows "\<exists>msg. consume_msgs loads (ds1 @ (m, out) # ds2) s = (s1, ds2, Inl (AttributeError msg))"
proof -
  obtain msg where "message_outcome loads m = Inl (AttributeError msg)"
    using assms(2-4) by (cases j) (auto simp: message_outcome_def process_message_def)
  then have "consume_msgs loads ((m, out) # ds2) s1 = (s1, ds2, Inl (AttributeError msg))"
    by (simp add: handle_message_def Let_def is_caught_def)
  moreover have "consume_msgs loads (ds1 @ xs) s = consume_msgs loads xs s1" for xs
    using assms(1)
  proof (induction ds1 arbitrary: s)
    case (Cons d ds1)
    then show ?case by (cases d) (auto split: prod.splits sum.splits)
  qed simp
  ultimately show ?thesis by auto
qed

theorem non_object_stops_consumer_witness:
  "\<exists>s1 msg. consume_msgs json_loads
     ([(bad_msg, Inr ())] @ (bad_msg\<lparr>km_value := Some ''[1]''\<rparr>, Inr ()) # [(bad_msg, Inr ())]) fresh_processor =
     (s1, [(bad_msg, Inr ())], Inl (AttributeError msg))"
proof -
  have "json_loads ''[1]'' = Inr (JList [JInt 1])" by code_simp
  moreover obtain s1 where "consume_msgs json_loads [(bad_msg, Inr ())] fresh_processor = (s1, [], Inr ())"
  proof -
    have "snd (consume_msgs json_loads [(bad_msg, Inr ())] fresh_processor) = ([], Inr ())" by code_simp
    then show ?thesis using that by (metis prod.collapse)
  qed
  ultimately show ?thesis
    using non_object_stops_consumer [of json_loads "[(bad_msg, Inr ())]" fresh_processor s1
        "bad_msg\<lparr>km_value := Some ''[1]''\<rparr>" "''[1]''" "JList [JInt 1]" "Inr ()" "[(bad_msg, Inr ())]"] by auto
qed

end
