(* ===== verification/Notifications.thy ===== *)
theory Notifications
  imports Codec Worker_Pool
begin

text \<open>
  Notification dispatch, \<open>ingestor/notifications.py\<close>, its endpoint \<open>ingestor/routers/notifications.py\<close> and its
  use as the failure callback of the worker pool in \<open>ingestor/main.py\<close>. The settings are a record; the HTTP
  client is outside the sources: \<open>net p\<close> is what a POST \<open>p\<close> with \<open>raise_for_status\<close> raises, and the posts made
  are logged in order. A context value is a string or an integer, as all callers pass them.
\<close>

record ntf_settings =
  ns_enabled :: bool
  ns_default_channels :: string
  ns_slack_url :: "string option"
  ns_telegram_token :: "string option"
  ns_telegram_chat :: "string option"
  ns_webhook_url :: "string option"
  ns_email_provider :: string
  ns_resend_key :: "string option"
  ns_email_from :: "string option"
  ns_email_to :: "string option"

definition NOTIFICATION_SEVERITY_INFO :: string where
  "NOTIFICATION_SEVERITY_INFO = ''info''"

definition NOTIFICATION_SEVERITY_WARNING :: string where
  "NOTIFICATION_SEVERITY_WARNING = ''warning''"

text \<open>Python's truth value of an optional string.\<close>

definition unset :: "string option \<Rightarrow> bool" where
  "unset x \<longleftrightarrow> x = None \<or> x = Some []"

datatype ctx_val = CStr string | CInt int

fun ctx_str :: "ctx_val \<Rightarrow> string" where
  "ctx_str (CStr s) = s"
| "ctx_str (CInt i) = show_int i"

fun ctx_json :: "ctx_val \<Rightarrow> json" where
  "ctx_json (CStr s) = JStr s"
| "ctx_json (CInt i) = JInt i"

type_synonym ntf_context = "(string \<times> ctx_val) list"

text \<open>
  \<open>str.upper\<close> below 256; the two letters whose capital lies outside, micro and y with diaeresis,
  are kept, and sharp s becomes SS.
\<close>

definition upper_char :: "char \<Rightarrow> string" where
  "upper_char c =
     (let n = (of_char c :: nat)
      in if 97 \<le> n \<and> n \<le> 122 \<or> 224 \<le> n \<and> n \<le> 254 \<and> n \<noteq> 247 then [char_of (n - 32)]
         else if n = 223 then ''SS'' else [c])"

definition upper :: "string \<Rightarrow> string" where
  "upper s = concat (map upper_char s)"

record http_post =
  hp_url :: string
  hp_headers :: "(string \<times> string) list"
  hp_json :: json

type_synonym 'r sender = "http_post list \<Rightarrow> http_post list \<times> 'r outcome"

subsection \<open>Channels\<close>

definition known_channels :: "string list" where
  "known_channels = [''slack'', ''telegram'', ''webhook'', ''email'']"

definition parse_channels :: "string \<Rightarrow> string list" where
  "parse_channels raw =
     filter (\<lambda>v. v \<in> set known_channels)
       (map (\<lambda>v. lower (strip v)) (filter (\<lambda>v. strip v \<noteq> []) (split_on (CHR '','') raw)))"

definition default_channels :: "ntf_settings \<Rightarrow> string list" where
  "default_channels st = parse_channels (ns_default_channels st)"

definition email_recipients :: "ntf_settings \<Rightarrow> string list" where
  "email_recipients st =
     (if unset (ns_email_to st) then []
      else map strip (filter (\<lambda>x. strip x \<noteq> []) (split_on (CHR '','') (the (ns_email_to st)))))"

subsection \<open>Senders\<close>

definition http_send :: "(http_post \<Rightarrow> unit outcome) \<Rightarrow> http_post \<Rightarrow> string \<Rightarrow> string sender" where
  "http_send net p detail posts = (posts @ [p], try_bind (net p) (\<lambda>_. Inr detail))"

definition heading :: "string \<Rightarrow> string \<Rightarrow> string" where
  "heading severity event = ''['' @ upper severity @ ''] '' @ event"

definition send_slack ::
  "ntf_settings \<Rightarrow> (http_post \<Rightarrow> unit outcome) \<Rightarrow> string \<Rightarrow> string \<Rightarrow> string \<Rightarrow> ntf_context \<Rightarrow> string sender"
where
  "send_slack st net event message severity context posts =
     (if unset (ns_slack_url st) then (posts, Inl (ValueError ''notification_slack_webhook_url is not configured''))
      else
        let color = (if severity = ''critical'' then ''danger''
                     else if severity = NOTIFICATION_SEVERITY_WARNING then ''warning'' else ''good'');
            fs = JList (map (\<lambda>(k, v). JObj [(''title'', JStr k), (''value'', JStr (ctx_str v)), (''short'', JBool True)]) context);
            payload = JObj [(''attachments'', JList [JObj [(''color'', JStr color),
                        (''title'', JStr (heading severity event)), (''text'', JStr message), (''fields'', fs)]])]
        in http_send net \<lparr>hp_url = the (ns_slack_url st), hp_headers = [], hp_json = payload\<rparr>
             ''slack webhook delivered'' posts)"

definition send_telegram ::
  "ntf_settings \<Rightarrow> (http_post \<Rightarrow> unit outcome) \<Rightarrow> string \<Rightarrow> string \<Rightarrow> string \<Rightarrow> ntf_context \<Rightarrow> string sender"
where
  "send_telegram st net event message severity context posts =
     (if unset (ns_telegram_token st) \<or> unset (ns_telegram_chat st)
      then (posts, Inl (ValueError ''notification_telegram_bot_token or notification_telegram_chat_id missing''))
      else
        let lines = [heading severity event, message] @ map (\<lambda>(k, v). k @ '': '' @ ctx_str v) context;
            payload = JObj [(''chat_id'', JStr (the (ns_telegram_chat st))),
                            (''text'', JStr (join_with [CHR 10] lines))]
        in http_send net \<lparr>hp_url = ''https://api.telegram.org/bot'' @ the (ns_telegram_token st) @ ''/sendMessage'',
                           hp_headers = [], hp_json = payload\<rparr>
             ''telegram message delivered'' posts)"

definition send_webhook ::
  "ntf_settings \<Rightarrow> (http_post \<Rightarrow> unit outcome) \<Rightarrow> string \<Rightarrow> string \<Rightarrow> string \<Rightarrow> ntf_context \<Rightarrow> string sender"
where
  "send_webhook st net event message severity context posts =
     (if unset (ns_webhook_url st) then (posts, Inl (ValueError ''notification_webhook_url is not configured''))
      else
        let payload = JObj [(''event'', JStr event), (''severity'', JStr severity), (''message'', JStr message),
                            (''context'', JObj (map (\<lambda>(k, v). (k, ctx_json v)) context))]
        in http_send net \<lparr>hp_url = the (ns_webhook_url st), hp_headers = [], hp_json = payload\<rparr>
             ''webhook delivered'' posts)"

definition send_email ::
  "ntf_settings \<Rightarrow> (http_post \<Rightarrow> unit outcome) \<Rightarrow> string \<Rightarrow> string \<Rightarrow> string \<Rightarrow> ntf_context \<Rightarrow> string sender"
where
  "send_email st net event message severity context posts =
     (if lower (strip (ns_email_provider st)) \<noteq> ''resend''
      then (posts, Inl (ValueError ''Only resend provider is supported in this baseline''))
      else if unset (ns_resend_key st) then (posts, Inl (ValueError ''notification_resend_api_key is not configured''))
      else if unset (ns_email_from st) then (posts, Inl (ValueError ''notification_email_from is not configured''))
      else if email_recipients st = [] then (posts, Inl (ValueError ''notification_email_to is not configured''))
      else
        let nl = [CHR 10];
            context_lines = join_with nl (map (\<lambda>(k, v). ''- '' @ k @ '': '' @ ctx_str v) context);
            body = message @ nl @ nl @ ''Severity: '' @ severity @ nl @ ''Event: '' @ event @ nl @ nl @
                   ''Context:'' @ nl @ context_lines @ nl;
            payload = JObj [(''from'', JStr (the (ns_email_from st))), (''to'', JList (map JStr (email_recipients st))),
                            (''subject'', JStr (heading severity event)), (''text'', JStr body)]
        in http_send net \<lparr>hp_url = ''https://api.resend.com/emails'',
               hp_headers = [(''Authorization'', ''Bearer '' @ the (ns_resend_key st)), (''Content-Type'', ''application/json'')],
               hp_json = payload\<rparr> ''resend email delivered'' posts)"

definition dispatch_to_channel ::
  "ntf_settings \<Rightarrow> (http_post \<Rightarrow> unit outcome) \<Rightarrow> string \<Rightarrow> string \<Rightarrow> string \<Rightarrow> string \<Rightarrow> ntf_context \<Rightarrow> string sender"
where
  "dispatch_to_channel st net channel event message severity context posts =
     (if channel = ''slack'' then send_slack st net event message severity context posts
      else if channel = ''telegram'' then send_telegram st net event message severity context posts
      else if channel = ''webhook'' then send_webhook st net event message severity context posts
      else if channel = ''email'' then send_email st net event message severity context posts
      else (posts, Inl (ValueError (''Unsupported channel: '' @ channel))))"

subsection \<open>Dispatch\<close>

datatype channel_status = Sent | NotSent

record channel_result =
  cr_channel :: string
  cr_status :: channel_status
  cr_detail :: string

record dispatch_report =
  dr_event :: string
  dr_severity :: string
  dr_sent :: int
  dr_failed :: int
  dr_results :: "channel_result list"
  dr_detail :: "string option"

text \<open>The loop over the channels: any exception but a cancellation is a failed channel.\<close>

fun dispatch_loop ::
  "(string \<Rightarrow> string sender) \<Rightarrow> string list \<Rightarrow> channel_result list \<Rightarrow> channel_result list sender"
where
  "dispatch_loop send [] results posts = (posts, Inr results)"
| "dispatch_loop send (c # cs) results posts =
     (case send c posts of
        (posts', Inr detail) \<Rightarrow>
          dispatch_loop send cs (results @ [\<lparr>cr_channel = c, cr_status = Sent, cr_detail = detail\<rparr>]) posts'
      | (posts', Inl e) \<Rightarrow>
          if is_Exception e
          then dispatch_loop send cs (results @ [\<lparr>cr_channel = c, cr_status = NotSent, cr_detail = exn_str e\<rparr>]) posts'
          else (posts', Inl e))"

definition count_status :: "channel_status \<Rightarrow> channel_result list \<Rightarrow> int" where
  "count_status s rs = int (length (filter (\<lambda>r. cr_status r = s) rs))"

definition selected_channels :: "ntf_settings \<Rightarrow> string list option \<Rightarrow> string list" where
  "selected_channels st channels =
     (case channels of Some (c # cs) \<Rightarrow> c # cs | _ \<Rightarrow> default_channels st)"

definition dispatch_notification_event ::
  "ntf_settings \<Rightarrow> (http_post \<Rightarrow> unit outcome) \<Rightarrow> string \<Rightarrow> string \<Rightarrow> string \<Rightarrow> ntf_context \<Rightarrow> string list option \<Rightarrow>
   dispatch_report sender"
where
  "dispatch_notification_event st net event message severity context channels posts =
     (if \<not> ns_enabled st
      then (posts, Inr \<lparr>dr_event = event, dr_severity = severity, dr_sent = 0, dr_failed = 0, dr_results = [],
                        dr_detail = Some ''notifications disabled''\<rparr>)
      else (case dispatch_loop (\<lambda>c. dispatch_to_channel st net c event message severity context)
                   (selected_channels st channels) [] posts of
              (posts', Inl e) \<Rightarrow> (posts', Inl e)
            | (posts', Inr results) \<Rightarrow>
                (posts', Inr \<lparr>dr_event = event, dr_severity = severity, dr_sent = count_status Sent results,
                              dr_failed = count_status NotSent results, dr_results = results, dr_detail = None\<rparr>)))"

definition notify_background_task_failed ::
  "ntf_settings \<Rightarrow> (http_post \<Rightarrow> unit outcome) \<Rightarrow> string \<Rightarrow> int \<Rightarrow> string \<Rightarrow> dispatch_report sender"
where
  "notify_background_task_failed st net tid bsize err =
     dispatch_notification_event st net ''background_task_failed''
       (''Background task failed (task_id='' @ tid @ '', batch_size='' @ show_int bsize @ '', error='' @ err @ '')'')
       ''critical'' [(''task_id'', CStr tid), (''batch_size'', CInt bsize), (''error'', CStr err)] None"

definition notify_info ::
  "ntf_settings \<Rightarrow> (http_post \<Rightarrow> unit outcome) \<Rightarrow> string \<Rightarrow> string \<Rightarrow> ntf_context option \<Rightarrow> dispatch_report sender"
where
  "notify_info st net event message context =
     dispatch_notification_event st net event message NOTIFICATION_SEVERITY_INFO
       (case context of None \<Rightarrow> [] | Some c \<Rightarrow> c) None"

text \<open>The endpoint: the request's constraints, then a dispatch.\<close>

record ntf_request =
  nr_message :: string
  nr_severity :: "string option"
  nr_event :: "string option"
  nr_channels :: "string list option"

definition validate_ntf_request :: "ntf_request \<Rightarrow> bool" where
  "validate_ntf_request q \<longleftrightarrow>
     1 \<le> length (nr_message q) \<and> length (nr_message q) \<le> 2000 \<and>
     (case nr_channels q of None \<Rightarrow> True | Some cs \<Rightarrow> list_all (\<lambda>c. c \<in> set known_channels) cs)"

definition test_notification_dispatch ::
  "ntf_settings \<Rightarrow> (http_post \<Rightarrow> unit outcome) \<Rightarrow> ntf_request \<Rightarrow> dispatch_report sender"
where
  "test_notification_dispatch st net q posts =
     (if \<not> validate_ntf_request q then (posts, Inl (HTTPException 422 ''validation error''))
      else dispatch_notification_event st net
             (case nr_event q of None \<Rightarrow> ''notification_test'' | Some e \<Rightarrow> e) (nr_message q)
             (case nr_severity q of None \<Rightarrow> ''info'' | Some s \<Rightarrow> s) [(''source'', CStr ''api_test_endpoint'')]
             (nr_channels q) posts)"

text \<open>The callback that \<open>main.py\<close> gives the worker pool.\<close>

definition on_task_failed ::
  "ntf_settings \<Rightarrow> (http_post \<Rightarrow> unit outcome) \<Rightarrow> 'r task \<Rightarrow> unit sender"
where
  "on_task_failed st net t posts =
     (case notify_background_task_failed st net (task_id t) (batch_size t)
             (if unset (task_error t) then ''unknown'' else the (task_error t)) posts of
        (posts', r) \<Rightarrow> (posts', map_sum id (\<lambda>_. ()) r))"

subsection \<open>What a dispatch promises\<close>

definition sender_shape :: "(http_post \<Rightarrow> unit outcome) \<Rightarrow> http_post list \<Rightarrow> http_post list \<times> string outcome \<Rightarrow> bool" where
  "sender_shape net posts r \<longleftrightarrow>
     (\<exists>m. r = (posts, Inl (ValueError m))) \<or> (\<exists>p d. r = http_send net p d posts)"

lemma sender_shape_intros:
  "sender_shape net posts (posts, Inl (ValueError m))"
  "sender_shape net posts (http_send net p d posts)"
  by (auto simp: sender_shape_def)

lemma sender_shapes:
  "sender_shape net posts (send_slack st net event message severity context posts)"
  "sender_shape net posts (send_telegram st net event message severity context posts)"
  "sender_shape net posts (send_webhook st net event message severity context posts)"
  "sender_shape net posts (send_email st net event message severity context posts)"
  unfolding send_slack_def send_telegram_def send_webhook_def send_email_def Let_def
  by (simp_all add: sender_shape_intros)

lemma dispatch_to_channel_posts:
  assumes "dispatch_to_channel st net c event message severity context posts = (posts', res)"
  shows "(posts' = posts \<and> isl res \<and> is_Exception (projl res)) \<or>
    (\<exists>p. posts' = posts @ [p] \<and> (isl res \<longleftrightarrow> isl (net p)) \<and> (isl res \<longrightarrow> net p = Inl (projl res)))"
proof -
  have "sender_shape net posts (posts', res)"
    unfolding assms [symmetric] dispatch_to_channel_def by (simp add: sender_shapes sender_shape_intros)
  moreover have "http_send net p d posts = (posts', res) \<Longrightarrow> posts' = posts @ [p] \<and>
      (isl res \<longleftrightarrow> isl (net p)) \<and> (isl res \<longrightarrow> net p = Inl (projl res))" for p d
    by (cases "net p") (auto simp: http_send_def)
  ultimately show ?thesis by (fastforce simp: sender_shape_def is_Exception_def)
qed

lemma dispatch_loop_reports:
  assumes "\<forall>p e. net p = Inl e \<longrightarrow> is_Exception e"
  shows "\<exists>new rs. dispatch_loop (\<lambda>c. dispatch_to_channel st net c event message severity context) cs results posts =
      (posts @ new, Inr (results @ rs)) \<and> map cr_channel rs = cs \<and> length new \<le> length cs \<and>
      count_status Sent rs = int (length (filter (\<lambda>p. \<not> isl (net p)) new)) \<and>
      count_status Sent rs + count_status NotSent rs = int (length cs)"
proof (induction cs arbitrary: results posts)
  case Nil
  then show ?case by (auto simp: count_status_def)
next
  case (Cons c cs)
  obtain posts' res where d: "dispatch_to_channel st net c event message severity context posts = (posts', res)"
    by (cases "dispatch_to_channel st net c event message severity context posts")
  note dp = dispatch_to_channel_posts [OF d]
  then obtain one where one: "posts' = posts @ one" "length one \<le> 1"
    "length (filter (\<lambda>p. \<not> isl (net p)) one) = (if isl res then 0 else 1)"
    by auto
  let ?r = "\<lparr>cr_channel = c, cr_status = (if isl res then NotSent else Sent),
      cr_detail = (if isl res then exn_str (projl res) else projr res)\<rparr>"
  have ex: "isl res \<Longrightarrow> is_Exception (projl res)" using dp assms by blast
  have step: "dispatch_loop (\<lambda>c. dispatch_to_channel st net c event message severity context) (c # cs) results posts =
      dispatch_loop (\<lambda>c. dispatch_to_channel st net c event message severity context) cs (results @ [?r]) posts'"
    using d ex by (cases res) auto
  obtain new rs where ih: "dispatch_loop (\<lambda>c. dispatch_to_channel st net c event message severity context) cs
      (results @ [?r]) posts' = (posts' @ new, Inr ((results @ [?r]) @ rs))" "map cr_channel rs = cs"
    "length new \<le> length cs" "count_status Sent rs = int (length (filter (\<lambda>p. \<not> isl (net p)) new))"
    "count_status Sent rs + count_status NotSent rs = int (length cs)"
    using Cons.IH [of "results @ [?r]" posts'] by blast
  have "dispatch_loop (\<lambda>c. dispatch_to_channel st net c event message severity context) (c # cs) results posts =
      (posts @ (one @ new), Inr (results @ (?r # rs)))"
  proof -
    note trans [OF step ih(1)]
    also have "(posts' @ new, Inr ((results @ [?r]) @ rs)) = (posts @ (one @ new), Inr (results @ (?r # rs)))"
      unfolding one(1) by simp
    finally show ?thesis .
  qed
  moreover have "count_status Sent (?r # rs) = int (length (filter (\<lambda>p. \<not> isl (net p)) (one @ new)))"
    using one(3) ih(4) by (simp add: count_status_def)
  moreover have "count_status Sent (?r # rs) + count_status NotSent (?r # rs) = int (length (c # cs))"
    using ih(5) by (simp add: count_status_def)
  moreover have "length (one @ new) \<le> length (c # cs)" using one(2) ih(3) by simp
  moreover have "map cr_channel (?r # rs) = c # cs" using ih(2) by simp
  ultimately show ?case
    by (intro exI [of _ "one @ new"] exI [of _ "?r # rs"] conjI)
qed

lemma dispatch_returns:
  assumes "\<forall>p e. net p = Inl e \<longrightarrow> is_Exception e"
  shows "\<exists>posts' r. dispatch_notification_event st net event message severity context channels posts = (posts', Inr r)"
proof -
  obtain new rs where "dispatch_loop (\<lambda>c. dispatch_to_channel st net c event message severity context)
      (selected_channels st channels) [] posts = (posts @ new, Inr rs)"
    using dispatch_loop_reports [where net = net and cs = "selected_channels st channels" and results = "[]", OF assms]
    by (metis append_Nil)
  then show ?thesis by (simp add: dispatch_notification_event_def)
qed

text \<open>
  A dispatch never fails on a provider's error and its report is exact. While the HTTP client raises nothing but
  \<open>Exception\<close>s, the dispatch returns; enabled, it reports one result per selected channel, in order, makes at most
  one request per channel, the number of sent channels is the number of requests that succeeded, and every other
  channel is counted as failed.
\<close>

theorem dispatch_report_exact:
  assumes "\<forall>p e. net p = Inl e \<longrightarrow> is_Exception e" and "ns_enabled st"
  shows "\<exists>new r. dispatch_notification_event st net event message severity context channels posts = (posts @ new, Inr r) \<and>
    map cr_channel (dr_results r) = selected_channels st channels \<and>
    length new \<le> length (selected_channels st channels) \<and>
    dr_sent r = int (length (filter (\<lambda>p. \<not> isl (net p)) new)) \<and>
    dr_sent r + dr_failed r = int (length (selected_channels st channels))"
proof -
  obtain new rs where "dispatch_loop (\<lambda>c. dispatch_to_channel st net c event message severity context)
      (selected_channels st channels) [] posts = (posts @ new, Inr ([] @ rs))"
    "map cr_channel rs = selected_channels st channels" "length new \<le> length (selected_channels st channels)"
    "count_status Sent rs = int (length (filter (\<lambda>p. \<not> isl (net p)) new))"
    "count_status Sent rs + count_status NotSent rs = int (length (selected_channels st channels))"
    using dispatch_loop_reports [where net = net and cs = "selected_channels st channels" and results = "[]", OF assms(1)]
    by blast
  then show ?thesis using assms(2) by (intro exI) (auto simp: dispatch_notification_event_def)
qed

definition demo_ntf :: ntf_settings where
  "demo_ntf =
     \<lparr>ns_enabled = True, ns_default_channels = '' Slack,foo,webhook'', ns_slack_url = Some ''http://s'',
      ns_telegram_token = None, ns_telegram_chat = None, ns_webhook_url = Some ''http://w'',
      ns_email_provider = ''resend'', ns_resend_key = None, ns_email_from = None, ns_email_to = None\<rparr>"

definition demo_net :: "http_post \<Rightarrow> unit outcome" where
  "demo_net p = (if hp_url p = ''http://s'' then Inl (HTTPError ''500'') else Inr ())"

theorem dispatch_report_exact_witness:
  "\<exists>new r. dispatch_notification_event demo_ntf demo_net ''e'' ''m'' ''info'' [] None [] = (new, Inr r) \<and>
     map cr_channel (dr_results r) = [''slack'', ''webhook''] \<and> dr_sent r + dr_failed r = 2"
proof -
  have "selected_channels demo_ntf None = [''slack'', ''webhook'']" by code_simp
  moreover have "\<forall>p e. demo_net p = Inl e \<longrightarrow> is_Exception e"
    by (auto simp: demo_net_def is_Exception_def split: if_splits)
  moreover have "ns_enabled demo_ntf" by (simp add: demo_ntf_def)
  ultimately show ?thesis
    using dispatch_report_exact [of demo_net demo_ntf "''e''" "''m''" "''info''" "[]" None "[]"] by auto
qed

subsection \<open>The channel list\<close>

lemma split_join: "\<forall>p \<in> set ps. c \<notin> set p \<Longrightarrow> ps \<noteq> [] \<Longrightarrow> split_on c (join_with [c] ps) = ps"
  by (induction "[c]" ps rule: join_with.induct) (auto simp: split_on_append split_on_plain)

lemma known_channel_clean:
  "v \<in> set known_channels \<Longrightarrow> strip v = v \<and> lower v = v \<and> v \<noteq> [] \<and> CHR '','' \<notin> set v"
proof -
  have "list_all (\<lambda>v. strip v = v \<and> lower v = v \<and> v \<noteq> [] \<and> \<not> list_ex (\<lambda>c. c = CHR '','') v) known_channels" by code_simp
  then show "v \<in> set known_channels \<Longrightarrow> ?thesis" by (auto simp: list_all_iff list_ex_iff)
qed

text \<open>
  A list of known channels survives being written as a comma separated setting; unknown names are dropped.
\<close>

theorem parse_channels_roundtrip:
  assumes "set cs \<subseteq> set known_channels"
  shows "parse_channels (join_with '','' cs) = cs \<and> set (parse_channels raw) \<subseteq> set known_channels"
proof (cases "cs = []")
  case True
  then show ?thesis by (auto simp: parse_channels_def strip_def)
next
  case False
  have clean: "strip v = v \<and> lower v = v \<and> v \<noteq> [] \<and> CHR '','' \<notin> set v" if "v \<in> set cs" for v
    using known_channel_clean that assms by blast
  then have "split_on (CHR '','') (join_with '','' cs) = cs" using False by (intro split_join) auto
  moreover have "filter (\<lambda>v. strip v \<noteq> []) cs = cs" using clean by (simp add: filter_id_conv)
  moreover have "map (\<lambda>v. lower (strip v)) cs = cs" using clean by (simp add: map_idI)
  moreover have "filter (\<lambda>v. v \<in> set known_channels) cs = cs" using assms by (auto simp: filter_id_conv)
  ultimately show ?thesis by (auto simp: parse_channels_def)
qed

theorem parse_channels_roundtrip_witness:
  "parse_channels (join_with '','' [''email'', ''slack'']) = [''email'', ''slack'']"
proof -
  have "set [''email'', ''slack''] \<subseteq> set known_channels" by (simp add: known_channels_def)
  from parse_channels_roundtrip [OF this] show ?thesis by simp
qed

subsection \<open>The callback of the worker pool\<close>

text \<open>
  C29. A failed task frees its worker whatever the alert meets. When the processor raises an exception and the pool
  alerts through the notifications, then for every HTTP client that raises only \<open>Exception\<close>s the worker waits for the
  next task again and the status is failed with the exception's text and a finishing time.
\<close>

theorem failed_task_frees_worker:
  assumes "\<forall>q x. net q = Inl x \<longrightarrow> is_Exception x" and "is_Exception e" and "has_callback p"
    and "i < length (workers p)" and "workers p ! i = Processing a records" and "a < length (objects p)"
    and "p1 = worker_result i now (Inl e) p"
    and "on_task_failed st net (objects p1 ! a) posts = (posts', res)"
    and "p2 = worker_callback i later res p1"
  shows "workers p2 ! i = Waiting \<and> task_st (objects p2 ! a) = Failed \<and>
    task_error (objects p2 ! a) = Some (exn_str e) \<and> finished_at (objects p2 ! a) = Some later"
proof -
  have p1: "p1 = p\<lparr>objects := (objects p)[a := (objects p ! a)\<lparr>task_st := Failed, task_error := Some (exn_str e)\<rparr>],
      workers := (workers p)[i := Notifying a]\<rparr>"
    using assms(2,3,5,7) by (simp add: worker_result_def Let_def)
  let ?t = "objects p1 ! a"
  obtain posts2 r where "notify_background_task_failed st net (task_id ?t) (batch_size ?t)
      (if unset (task_error ?t) then ''unknown'' else the (task_error ?t)) posts = (posts2, Inr r)"
    using dispatch_returns [OF assms(1)] unfolding notify_background_task_failed_def by blast
  then have "res = Inr ()" using assms(8) by (simp add: on_task_failed_def)
  then show ?thesis
    using assms(4,6,9) by (simp add: p1 worker_callback_def worker_finally_def)
qed

definition busy_pool :: "(unit, unit) pool" where
  "busy_pool = worker_take 0 5 (fst (submit_batch_ingest 5 ''t'' [()] (start (new_pool 1 10 10 True))))"

theorem failed_task_frees_worker_witness:
  "\<exists>p2 :: (unit, unit) pool. workers p2 ! 0 = Waiting \<and> task_st (objects p2 ! 0) = Failed \<and> finished_at (objects p2 ! 0) = Some (7::int)"
proof -
  have n: "\<forall>q x. demo_net q = Inl x \<longrightarrow> is_Exception x"
    by (auto simp: demo_net_def is_Exception_def split: if_splits)
  have b: "has_callback busy_pool" "0 < length (workers busy_pool)" "workers busy_pool ! 0 = Processing 0 [()]"
    "0 < length (objects busy_pool)"
    by (simp_all add: busy_pool_def worker_take_def submit_batch_ingest_def queue_full_def start_def new_pool_def Let_def)
  obtain posts' res where r: "on_task_failed demo_ntf demo_net
      (objects (worker_result 0 6 (Inl (ValueError ''x'')) busy_pool) ! 0) [] = (posts', res)"
    by (cases "on_task_failed demo_ntf demo_net (objects (worker_result 0 6 (Inl (ValueError ''x'')) busy_pool) ! 0) []")
  have "is_Exception (ValueError ''x'')" by (simp add: is_Exception_def)
  from failed_task_frees_worker [OF n this b refl r refl, where later = 7] show ?thesis by blast
qed

end
