(* ===== verification/Fetch.thy ===== *)
theory Fetch
  imports Codec "HOL-Library.AList"
begin

text \<open>
  Fetching from external services: \<open>ingestor/fetch.py\<close> (httpx, one client per event loop) and
  \<open>ingestor/fetch_aiohttp.py\<close> (aiohttp, one global session), both with the same retry loop. The HTTP
  libraries are outside the sources: what a GET answers, what closing a client raises and the random draw
  are arguments.
\<close>

subsection \<open>Clients\<close>

text \<open>\<open>_http_clients\<close>: the dictionary from event loops to clients, in insertion order.\<close>

type_synonym ('l, 'c) client_table = "('l \<times> 'c) list"

definition get_http_client :: "'l \<Rightarrow> 'c \<Rightarrow> ('l, 'c) client_table \<Rightarrow> 'c \<times> ('l, 'c) client_table" where
  "get_http_client loop new t =
     (case map_of t loop of Some c \<Rightarrow> (c, t) | None \<Rightarrow> (new, AList.update loop new t))"

text \<open>\<open>contextlib.suppress(RuntimeError)\<close> lets every other exception through.\<close>

definition close_http_client ::
  "'l option \<Rightarrow> ('c \<Rightarrow> unit outcome) \<Rightarrow> ('l, 'c) client_table \<Rightarrow> ('l, 'c) client_table \<times> unit outcome"
where
  "close_http_client running_loop aclose t =
     (case running_loop of
        None \<Rightarrow> (t, Inr ())
      | Some loop \<Rightarrow>
          (case map_of t loop of
             None \<Rightarrow> (t, Inr ())
           | Some c \<Rightarrow>
               (AList.delete loop t,
                case aclose c of Inr u \<Rightarrow> Inr u | Inl (RuntimeError m) \<Rightarrow> Inr () | Inl e \<Rightarrow> Inl e)))"

text \<open>
  \<open>close_all_http_clients\<close>: the keys are read first; \<open>alive loop\<close> is \<open>loop.is_running()\<close>, \<open>remote c\<close> the
  outcome of the future on the client's own loop.
\<close>

fun close_each ::
  "'l option \<Rightarrow> ('l \<Rightarrow> bool) \<Rightarrow> ('c \<Rightarrow> unit outcome) \<Rightarrow> ('c \<Rightarrow> unit outcome) \<Rightarrow> 'l list \<Rightarrow> ('l, 'c) client_table \<Rightarrow>
   ('l, 'c) client_table \<times> unit outcome"
where
  "close_each current alive aclose remote [] t = (t, Inr ())"
| "close_each current alive aclose remote (loop # loops) t =
     (case map_of t loop of
        None \<Rightarrow> close_each current alive aclose remote loops t
      | Some c \<Rightarrow>
          let t1 = AList.delete loop t;
              r = (if current = Some loop then aclose c else if alive loop then remote c else aclose c)
          in (case r of
                Inl e \<Rightarrow> if is_Exception e then close_each current alive aclose remote loops t1 else (t1, Inl e)
              | Inr _ \<Rightarrow> close_each current alive aclose remote loops t1))"

definition close_all_http_clients ::
  "'l option \<Rightarrow> ('l \<Rightarrow> bool) \<Rightarrow> ('c \<Rightarrow> unit outcome) \<Rightarrow> ('c \<Rightarrow> unit outcome) \<Rightarrow> ('l, 'c) client_table \<Rightarrow>
   ('l, 'c) client_table \<times> unit outcome"
where
  "close_all_http_clients current alive aclose remote t =
     close_each current alive aclose remote (map fst t) t"

text \<open>The aiohttp session: one global, created on demand.\<close>

definition get_http_session :: "'c \<Rightarrow> 'c option \<Rightarrow> 'c \<times> 'c option" where
  "get_http_session new g = (case g of None \<Rightarrow> (new, Some new) | Some c \<Rightarrow> (c, g))"

definition close_http_session :: "('c \<Rightarrow> unit outcome) \<Rightarrow> 'c option \<Rightarrow> 'c option \<times> unit outcome" where
  "close_http_session close g =
     (case g of None \<Rightarrow> (None, Inr ()) | Some c \<Rightarrow> (case close c of Inl e \<Rightarrow> (g, Inl e) | Inr u \<Rightarrow> (None, Inr u)))"

subsection \<open>One request\<close>

definition simulated_failure :: "bool \<Rightarrow> rat \<Rightarrow> bool" where
  "simulated_failure simulate draw \<longleftrightarrow> simulate \<and> draw < 1/10"

definition fetch_from_external_api ::
  "('c \<Rightarrow> string \<Rightarrow> json outcome) \<Rightarrow> 'l \<Rightarrow> 'c \<Rightarrow> bool \<Rightarrow> rat \<Rightarrow> string \<Rightarrow> ('l, 'c) client_table \<Rightarrow>
   ('l, 'c) client_table \<times> json outcome"
where
  "fetch_from_external_api http_get loop new simulate draw url t =
     (if simulated_failure simulate draw then (t, Inl (OtherException ''Simulated API failure (testing)''))
      else (case get_http_client loop new t of (c, t1) \<Rightarrow> (t1, http_get c url)))"

definition COUNTRIES_API_BASE :: string where
  "COUNTRIES_API_BASE = ''https://restcountries.com/v3.1''"

definition fetch_countries ::
  "('c \<Rightarrow> string \<Rightarrow> json outcome) \<Rightarrow> 'c \<Rightarrow> bool \<Rightarrow> rat \<Rightarrow> string \<Rightarrow> 'c option \<Rightarrow> 'c option \<times> json outcome"
where
  "fetch_countries http_get new simulate draw resource g =
     (if simulated_failure simulate draw then (g, Inl (OtherException ''Simulated API failure (testing)''))
      else (case get_http_session new g of (c, g1) \<Rightarrow> (g1, http_get c (COUNTRIES_API_BASE @ ''/'' @ resource))))"

subsection \<open>The retry loop\<close>

text \<open>
  \<open>fetch n\<close> is the request of attempt \<open>n\<close> on the state of the clients; \<open>cancelled n\<close> says that the sleep after it
  is cancelled. The result holds the sleeps.
\<close>

function retry_loop ::
  "int \<Rightarrow> (nat \<Rightarrow> 's \<Rightarrow> 's \<times> json outcome) \<Rightarrow> (nat \<Rightarrow> bool) \<Rightarrow> nat \<Rightarrow> py_exn option \<Rightarrow> 's \<Rightarrow>
   's \<times> int list \<times> json outcome"
where
  "retry_loop n fetch cancelled attempt last_exc s =
     (if int attempt < n then
        (case fetch attempt s of
           (s1, Inr v) \<Rightarrow> (s1, [], Inr v)
         | (s1, Inl e) \<Rightarrow>
             if \<not> is_Exception e then (s1, [], Inl e)
             else if int attempt < n - 1 then
               if cancelled attempt then (s1, [2 ^ attempt], Inl CancelledError)
               else (case retry_loop n fetch cancelled (Suc attempt) (Some e) s1 of
                       (s2, ds, r) \<Rightarrow> (s2, 2 ^ attempt # ds, r))
             else retry_loop n fetch cancelled (Suc attempt) (Some e) s1)
      else (s, [], Inl (case last_exc of None \<Rightarrow> OtherException ''Unknown error occurred during fetch'' | Some e \<Rightarrow> e)))"
  by pat_completeness auto
termination
  by (relation "measure (\<lambda>(n, fetch, cancelled, attempt, last_exc, s). nat (n - int attempt))") auto

declare retry_loop.simps [simp del]

text \<open>\<open>http_get k\<close> is what the service answers to the request of attempt \<open>k\<close>.\<close>

definition fetch_with_retry ::
  "(nat \<Rightarrow> 'c \<Rightarrow> string \<Rightarrow> json outcome) \<Rightarrow> 'l \<Rightarrow> 'c \<Rightarrow> bool \<Rightarrow> (nat \<Rightarrow> rat) \<Rightarrow> (nat \<Rightarrow> bool) \<Rightarrow> string \<Rightarrow> int \<Rightarrow>
   ('l, 'c) client_table \<Rightarrow> ('l, 'c) client_table \<times> int list \<times> json outcome"
where
  "fetch_with_retry http_get loop new simulate draws cancelled url n t =
     retry_loop n (\<lambda>k. fetch_from_external_api (http_get k) loop new simulate (draws k) url) cancelled 0 None t"

definition fetch_countries_with_retry ::
  "(nat \<Rightarrow> 'c \<Rightarrow> string \<Rightarrow> json outcome) \<Rightarrow> 'c \<Rightarrow> bool \<Rightarrow> (nat \<Rightarrow> rat) \<Rightarrow> (nat \<Rightarrow> bool) \<Rightarrow> string \<Rightarrow> int \<Rightarrow>
   'c option \<Rightarrow> 'c option \<times> int list \<times> json outcome"
where
  "fetch_countries_with_retry http_get new simulate draws cancelled resource n g =
     retry_loop n (\<lambda>k. fetch_countries (http_get k) new simulate (draws k) resource) cancelled 0 None g"

subsection \<open>What the loop does\<close>

text \<open>A state of its own for the number of requests: attempt \<open>k\<close> of a script.\<close>

definition script :: "(nat \<Rightarrow> json outcome) \<Rightarrow> nat \<Rightarrow> nat \<Rightarrow> nat \<times> json outcome" where
  "script scr k made = (Suc made, scr k)"

definition fails :: "json outcome \<Rightarrow> bool" where
  "fails r \<longleftrightarrow> (\<exists>e. r = Inl e \<and> is_Exception e)"

lemma retry_loop_success:
  assumes "a \<le> k" and "int k < n" and "\<And>i. a \<le> i \<Longrightarrow> i < k \<Longrightarrow> fails (scr i) \<and> \<not> cancelled i" and "\<not> fails (scr k)"
  shows "retry_loop n (script scr) cancelled a last_exc a = (Suc k, map (\<lambda>i. 2 ^ i) [a..<k], scr k)"
  using assms
proof (induction "k - a" arbitrary: a last_exc)
  case 0
  then have "a = k" by simp
  then show ?case using "0.prems"
    by (cases "scr k") (auto simp: retry_loop.simps [of n _ cancelled k] script_def fails_def)
next
  case (Suc m)
  then have a: "a < k" "fails (scr a)" "\<not> cancelled a" by auto
  then obtain e where e: "scr a = Inl e" "is_Exception e" by (auto simp: fails_def)
  have "retry_loop n (script scr) cancelled (Suc a) (Some e) (Suc a) = (Suc k, map (\<lambda>i. 2 ^ i) [Suc a..<k], scr k)"
    using Suc by auto
  then show ?case
    using a e Suc.prems(2) by (simp add: retry_loop.simps [of n _ cancelled a] script_def upt_conv_Cons)
qed

lemma retry_loop_exhausted:
  assumes "int a < n" and "\<And>i. a \<le> i \<Longrightarrow> int i < n \<Longrightarrow> fails (scr i) \<and> \<not> cancelled i"
  shows "retry_loop n (script scr) cancelled a last_exc a = (nat n, map (\<lambda>i. 2 ^ i) [a..<nat n - 1], scr (nat n - 1))"
  using assms
proof (induction "nat n - a" arbitrary: a last_exc)
  case (Suc m)
  then have f: "fails (scr a)" "\<not> cancelled a" by auto
  then obtain e where e: "scr a = Inl e" "is_Exception e" by (auto simp: fails_def)
  show ?case
  proof (cases "int a < n - 1")
    case True
    then have "retry_loop n (script scr) cancelled (Suc a) (Some e) (Suc a) =
        (nat n, map (\<lambda>i. 2 ^ i) [Suc a..<nat n - 1], scr (nat n - 1))"
      using Suc by auto
    then show ?thesis
      using True e f Suc.prems(1) by (simp add: retry_loop.simps [of n _ cancelled a] script_def upt_conv_Cons nat_less_iff)
  next
    case False
    then have n: "nat n = Suc a" using Suc.prems(1) by simp
    then have "\<not> int (Suc a) < n" by simp
    then have "retry_loop n (script scr) cancelled (Suc a) (Some e) (Suc a) = (Suc a, [], Inl e)"
      by (simp add: retry_loop.simps [of n _ cancelled "Suc a"])
    then show ?thesis
      using False e f Suc.prems(1) n by (simp add: retry_loop.simps [of n _ cancelled a] script_def)
  qed
qed simp

lemma sum_powers: "sum_list (map (\<lambda>i. 2 ^ i) [0..<k]) = (2 :: int) ^ k - 1"
  by (induction k) auto

text \<open>
  The retry loop makes at most \<open>max_retries\<close> requests. If attempt \<open>k\<close> is the first that does not fail, the loop
  makes \<open>k + 1\<close> requests, sleeps 1, 2, 4, ... seconds, \<open>2\<^sup>k - 1\<close> in all, and ends with that outcome; if all fail it
  makes exactly \<open>max_retries\<close> requests, without a sleep after the last, and raises the last exception.
\<close>

theorem fetch_retry_contract:
  assumes "0 < n" and "\<forall>i. int i < n \<longrightarrow> \<not> cancelled i"
  shows "(\<forall>k. int k < n \<longrightarrow> (\<forall>i < k. fails (scr i)) \<longrightarrow> \<not> fails (scr k) \<longrightarrow>
      retry_loop n (script scr) cancelled 0 None 0 = (Suc k, map (\<lambda>i. 2 ^ i) [0..<k], scr k) \<and>
      sum_list (map (\<lambda>i. 2 ^ i) [0..<k]) = (2 :: int) ^ k - 1) \<and>
    ((\<forall>i. int i < n \<longrightarrow> fails (scr i)) \<longrightarrow>
      retry_loop n (script scr) cancelled 0 None 0 = (nat n, map (\<lambda>i. 2 ^ i) [0..<nat n - 1], scr (nat n - 1)))"
proof (intro conjI allI impI)
  fix k
  assume k: "int k < n" "\<forall>i < k. fails (scr i)" "\<not> fails (scr k)"
  then show "retry_loop n (script scr) cancelled 0 None 0 = (Suc k, map (\<lambda>i. 2 ^ i) [0..<k], scr k)"
    using assms(2) by (intro retry_loop_success) auto
  show "sum_list (map (\<lambda>i. 2 ^ i) [0..<k]) = (2 :: int) ^ k - 1" by (rule sum_powers)
next
  assume "\<forall>i. int i < n \<longrightarrow> fails (scr i)"
  then show "retry_loop n (script scr) cancelled 0 None 0 = (nat n, map (\<lambda>i. 2 ^ i) [0..<nat n - 1], scr (nat n - 1))"
    using assms by (intro retry_loop_exhausted) auto
qed

theorem fetch_retry_contract_witness:
  "retry_loop 3 (script (\<lambda>i. Inl (HTTPError ''503''))) (\<lambda>i. False) 0 None 0 = (3, [1, 2], Inl (HTTPError ''503''))"
proof -
  have "\<forall>i. int i < 3 \<longrightarrow> fails (Inl (HTTPError ''503''))" by (simp add: fails_def is_Exception_def)
  then have "retry_loop 3 (script (\<lambda>i. Inl (HTTPError ''503''))) (\<lambda>i. False) 0 None 0 =
      (nat 3, map (\<lambda>i. 2 ^ i) [0..<nat 3 - 1], Inl (HTTPError ''503''))"
    using fetch_retry_contract [of 3 "\<lambda>i. False" "\<lambda>i. Inl (HTTPError ''503'')"] by simp
  then show ?thesis by (simp add: upt_rec)
qed

text \<open>One client per loop: it is kept until it is closed, and closing all empties the table.\<close>

lemma client_kept:
  "get_http_client loop new t = (c, t1) \<Longrightarrow> get_http_client loop new' t1 = (c, t1)"
  by (auto simp: get_http_client_def update_conv' split: option.splits)

lemma close_each_empties:
  assumes "\<And>c e. aclose c = Inl e \<Longrightarrow> is_Exception e" and "\<And>c e. remote c = Inl e \<Longrightarrow> is_Exception e"
    and "fst ` set t \<subseteq> set loops"
  shows "close_each current alive aclose remote loops t = ([], Inr ())"
  using assms(3)
proof (induction loops arbitrary: t)
  case (Cons l ls)
  show ?case
  proof (cases "map_of t l")
    case None
    then have "fst ` set t \<subseteq> set ls" using Cons.prems by (auto simp: map_of_eq_None_iff)
    then show ?thesis using None Cons.IH by simp
  next
    case (Some c)
    have "fst ` set (AList.delete l t) \<subseteq> set ls"
      using Cons.prems by (auto simp: AList.delete_eq)
    from Cons.IH [OF this] show ?thesis
      using Some assms(1,2) by (auto simp: Let_def split: sum.splits)
  qed
qed simp

end
