(* ===== verification/Json_Access.thy ===== *)
theory Json_Access
  imports Codec
begin

text \<open>
  Python's operations on decoded JSON values as the HTTP code uses them: iteration, subscripts, \<open>dict.get\<close>,
  \<open>int()\<close>, \<open>str()\<close> and \<open>json.dumps\<close>.
\<close>

subsection \<open>Containers\<close>

text \<open>\<open>for x in v\<close>.\<close>

fun iter_json :: "json \<Rightarrow> json list outcome" where
  "iter_json (JList xs) = Inr xs"
| "iter_json (JObj kvs) = Inr (map JStr (remdups (map fst kvs)))"
| "iter_json (JStr s) = Inr (map (\<lambda>c. JStr [c]) s)"
| "iter_json v = Inl (TypeError (''object is not iterable: '' @ type_name v))"

text \<open>\<open>v[k]\<close> for a string \<open>k\<close>, and \<open>v.get(k, d)\<close>.\<close>

fun py_subscript :: "json \<Rightarrow> string \<Rightarrow> json outcome" where
  "py_subscript (JObj kvs) k = (case obj_get k kvs of None \<Rightarrow> Inl (KeyError k) | Some v \<Rightarrow> Inr v)"
| "py_subscript v k = Inl (TypeError (''object is not subscriptable by a string: '' @ type_name v))"

fun py_get_default :: "json \<Rightarrow> string \<Rightarrow> json \<Rightarrow> json outcome" where
  "py_get_default (JObj kvs) k d = Inr (case obj_get k kvs of None \<Rightarrow> d | Some v \<Rightarrow> v)"
| "py_get_default v k d = Inl (AttributeError (''object has no attribute get: '' @ type_name v))"

text \<open>\<open>{**a, **b}\<close>: the later pairs win.\<close>

fun dict_merge :: "(string \<times> json) list \<Rightarrow> json \<Rightarrow> (string \<times> json) list outcome" where
  "dict_merge kvs (JObj more) = Inr (kvs @ more)"
| "dict_merge kvs v = Inl (TypeError (''argument after ** must be a mapping, not '' @ type_name v))"

lemma obj_get_append: "obj_get k (xs @ ys) = (case obj_get k ys of None \<Rightarrow> obj_get k xs | Some v \<Rightarrow> Some v)"
  by (simp add: obj_get_def map_add_def split: option.split)

lemma obj_get_Cons: "obj_get k ((a, v) # ys) = (case obj_get k ys of None \<Rightarrow> if a = k then Some v else None | Some w \<Rightarrow> Some w)"
  by (auto simp: obj_get_def map_add_def split: option.split)

lemma obj_get_Nil [simp]: "obj_get k [] = None"
  by (simp add: obj_get_def)

lemma obj_get_distinct: "distinct (map fst kvs) \<Longrightarrow> obj_get k kvs = map_of kvs k"
proof (induction kvs)
  case (Cons kv kvs)
  obtain a v where kv: "kv = (a, v)" by (cases kv)
  have "map_of kvs a = None" using Cons.prems by (simp add: kv map_of_eq_None_iff)
  then show ?case using Cons by (simp add: kv obj_get_Cons split: option.split)
qed simp

subsection \<open>Numbers and strings\<close>

text \<open>\<open>int(s)\<close>: blanks around, a sign, digits with single underscores between them.\<close>

fun underscored :: "string \<Rightarrow> string option" where
  "underscored [] = None"
| "underscored [c] = (if is_digit c then Some [c] else None)"
| "underscored (c # d # cs) =
     (if \<not> is_digit c then None
      else if d = CHR ''_'' then map_option ((#) c) (underscored cs)
      else map_option ((#) c) (underscored (d # cs)))"

definition int_of_str :: "string \<Rightarrow> int outcome" where
  "int_of_str s =
     (let t = strip s;
          neg = (take 1 t = ''-'');
          body = (if take 1 t = ''-'' \<or> take 1 t = ''+'' then drop 1 t else t)
      in (case underscored body of
            None \<Rightarrow> Inl (ValueError (''invalid literal for int() with base 10: '' @ s))
          | Some ds \<Rightarrow> Inr (if neg then - int (digits_val ds) else int (digits_val ds))))"

fun py_int :: "json \<Rightarrow> int outcome" where
  "py_int (JInt i) = Inr i"
| "py_int (JBool b) = Inr (if b then 1 else 0)"
| "py_int (JFloat q) = Inr (if q < 0 then \<lceil>q\<rceil> else \<lfloor>q\<rfloor>)"
| "py_int (JStr s) = int_of_str s"
| "py_int v = Inl (TypeError (''int() argument must be a string or a real number, not '' @ type_name v))"

text \<open>\<open>str(v)\<close>, with \<open>repr\<close> of the other values as an argument.\<close>

fun py_str_of :: "(json \<Rightarrow> string) \<Rightarrow> json \<Rightarrow> string" where
  "py_str_of repr (JStr s) = s"
| "py_str_of repr v = repr v"

subsection \<open>\<open>json.dumps\<close> with \<open>sort_keys=True\<close>\<close>

definition hex_char :: "nat \<Rightarrow> char" where
  "hex_char d = char_of (if d < 10 then 48 + d else 87 + d)"

text \<open>The ASCII escapes of the default encoder.\<close>

definition dump_char :: "char \<Rightarrow> string" where
  "dump_char c =
     (let n = (of_char c :: nat)
      in if n = 34 then [CHR 0x5C, CHR 0x22]
         else if n = 92 then [CHR 0x5C, CHR 0x5C]
         else if n = 8 then [CHR 0x5C, CHR ''b'']
         else if n = 12 then [CHR 0x5C, CHR ''f'']
         else if n = 10 then [CHR 0x5C, CHR ''n'']
         else if n = 13 then [CHR 0x5C, CHR ''r'']
         else if n = 9 then [CHR 0x5C, CHR ''t'']
         else if 32 \<le> n \<and> n < 127 then [c]
         else CHR 0x5C # ''u00'' @ [hex_char (n div 16), hex_char (n mod 16)])"

definition dump_str :: "string \<Rightarrow> string" where
  "dump_str s = CHR 0x22 # concat (map dump_char s) @ [CHR 0x22]"

text \<open>Code point order on the keys; of two pairs with one name the later is the entry of the dict.\<close>

fun str_le :: "string \<Rightarrow> string \<Rightarrow> bool" where
  "str_le [] t = True"
| "str_le (c # cs) [] = False"
| "str_le (c # cs) (d # ds) =
     ((of_char c :: nat) < of_char d \<or> c = d \<and> str_le cs ds)"

fun insert_member :: "string \<times> 'a \<Rightarrow> (string \<times> 'a) list \<Rightarrow> (string \<times> 'a) list" where
  "insert_member m [] = [m]"
| "insert_member m (x # xs) =
     (if fst m = fst x then m # xs
      else if str_le (fst m) (fst x) then m # x # xs
      else x # insert_member m xs)"

definition sort_members :: "(string \<times> 'a) list \<Rightarrow> (string \<times> 'a) list" where
  "sort_members kvs = fold insert_member kvs []"

fun dumps_sorted :: "(rat \<Rightarrow> string) \<Rightarrow> json \<Rightarrow> string" where
  "dumps_sorted float_repr JNull = ''null''"
| "dumps_sorted float_repr (JBool b) = (if b then ''true'' else ''false'')"
| "dumps_sorted float_repr (JInt i) = show_int i"
| "dumps_sorted float_repr (JFloat q) = float_repr q"
| "dumps_sorted float_repr (JStr s) = dump_str s"
| "dumps_sorted float_repr (JList xs) = ''['' @ join_with '', '' (map (dumps_sorted float_repr) xs) @ '']''"
| "dumps_sorted float_repr (JObj kvs) =
     ''{'' @ join_with '', '' (map (\<lambda>(k, t). dump_str k @ '': '' @ t)
        (sort_members (map (\<lambda>(k, v). (k, dumps_sorted float_repr v)) kvs))) @ ''}''"

lemma str_le_trans: "str_le s t \<Longrightarrow> str_le t u \<Longrightarrow> str_le s u"
proof (induction s t arbitrary: u rule: str_le.induct)
  case (3 c cs d ds)
  then show ?case by (cases u) auto
qed simp_all

lemma str_le_total: "str_le s t \<or> str_le t s"
proof (induction s t rule: str_le.induct)
  case (3 c cs d ds)
  show ?case
  proof (cases "c = d")
    case False
    then have "(of_char c :: nat) \<noteq> of_char d" by simp
    then show ?thesis unfolding str_le.simps using linorder_neqE_nat by blast
  qed (use 3 in auto)
qed simp_all

lemma str_le_antisym: "str_le s t \<Longrightarrow> str_le t s \<Longrightarrow> s = t"
proof (induction s t rule: str_le.induct)
  case (1 t)
  then show ?case by (cases t) simp_all
qed auto

definition str_lt :: "string \<Rightarrow> string \<Rightarrow> bool" where
  "str_lt s t \<longleftrightarrow> s \<noteq> t \<and> str_le s t"

lemma str_lt_trans: "str_lt s t \<Longrightarrow> str_lt t u \<Longrightarrow> str_lt s u"
  unfolding str_lt_def using str_le_trans str_le_antisym by metis

lemma insert_member_keys: "fst ` set (insert_member m xs) = insert (fst m) (fst ` set xs)"
  by (induction m xs rule: insert_member.induct) auto

lemma insert_member_sorted:
  "sorted_wrt str_lt (map fst xs) \<Longrightarrow> sorted_wrt str_lt (map fst (insert_member m xs))"
proof (induction m xs rule: insert_member.induct)
  case (2 m x xs)
  consider "fst m = fst x" | "fst m \<noteq> fst x" "str_le (fst m) (fst x)" | "fst m \<noteq> fst x" "str_lt (fst x) (fst m)" "\<not> str_le (fst m) (fst x)"
    using str_le_total [of "fst m" "fst x"] by (auto simp: str_lt_def)
  then show ?case
  proof cases
    case 2
    then have "str_lt (fst m) (fst x)" by (simp add: str_lt_def)
    then show ?thesis using 2 "2.prems" by (auto intro: str_lt_trans)
  next
    case 3
    then show ?thesis using 2 insert_member_keys [of m xs] by (auto simp: image_iff)
  qed (use 2 in auto)
qed simp

lemma sort_members_keys: "fst ` set (sort_members kvs) = fst ` set kvs"
proof -
  have "fst ` set (fold insert_member kvs acc) = fst ` set kvs \<union> fst ` set acc" for acc
    by (induction kvs arbitrary: acc) (auto simp: insert_member_keys)
  then show ?thesis by (simp add: sort_members_def)
qed

lemma sort_members_sorted: "sorted_wrt str_lt (map fst (sort_members kvs))"
proof -
  have "sorted_wrt str_lt (map fst acc) \<Longrightarrow> sorted_wrt str_lt (map fst (fold insert_member kvs acc))" for acc
    by (induction kvs arbitrary: acc) (auto intro: insert_member_sorted)
  then show ?thesis by (simp add: sort_members_def)
qed

lemma sort_members_distinct: "distinct (map fst (sort_members kvs))"
proof -
  have "sorted_wrt str_lt ks \<Longrightarrow> distinct ks" for ks by (induction ks) (auto simp: str_lt_def)
  then show ?thesis using sort_members_sorted by blast
qed

end
