(* ===== verification/Scrapers.thy ===== *)
theory Scrapers
  imports Json_Access "HOL-Library.Word"
begin

unbundle bit_operations_syntax

text \<open>
  The scrapers: the Bloom filter and the factory of \<open>ingestor/scrapers/__init__.py\<close>, and the three backends
  \<open>http_scraper.py\<close>, \<open>html_scraper.py\<close> and \<open>browser_scraper.py\<close>. The filter's bytes are 8-bit words;
  SHA-256 is an argument, as are the answers of the web: the JSON of a request, the rows that the HTML parser
  selects, the elements that the browser reads.
\<close>

record scraped_item =
  it_url :: string
  it_title :: json
  it_content :: json
  it_source :: string

subsection \<open>The Bloom filter\<close>

record bloom =
  bl_size :: nat
  bl_hashes :: nat
  bl_bits :: "8 word list"

text \<open>The sizes, with \<open>math.log\<close> as the real logarithm.\<close>

definition compute_size :: "nat \<Rightarrow> real \<Rightarrow> nat" where
  "compute_size n p = nat (max 1 \<lfloor>- (real n * ln p) / (ln 2)\<^sup>2\<rfloor>)"

definition compute_hash_count :: "nat \<Rightarrow> nat \<Rightarrow> nat" where
  "compute_hash_count m n = nat (max 1 \<lfloor>(real m / real n) * ln 2\<rfloor>)"

definition make_bloom :: "nat \<Rightarrow> nat \<Rightarrow> bloom" where
  "make_bloom m k = \<lparr>bl_size = m, bl_hashes = k, bl_bits = replicate (m div 8 + 1) 0\<rparr>"

definition new_bloom :: "nat \<Rightarrow> real \<Rightarrow> bloom" where
  "new_bloom capacity error_rate =
     (let m = compute_size capacity error_rate in make_bloom m (compute_hash_count m capacity))"

text \<open>\<open>digest s\<close> is the SHA-256 digest of \<open>s\<close> as a number.\<close>

definition positions :: "(string \<Rightarrow> nat) \<Rightarrow> bloom \<Rightarrow> string \<Rightarrow> nat list" where
  "positions digest b item =
     map (\<lambda>seed. digest (show_nat seed @ '':'' @ item) mod bl_size b) [0..<bl_hashes b]"

definition set_bit_at :: "nat \<Rightarrow> 8 word list \<Rightarrow> 8 word list" where
  "set_bit_at pos bits = bits[pos div 8 := (bits ! (pos div 8)) OR push_bit (pos mod 8) 1]"

definition bit_at :: "nat \<Rightarrow> 8 word list \<Rightarrow> bool" where
  "bit_at pos bits \<longleftrightarrow> (bits ! (pos div 8)) AND push_bit (pos mod 8) 1 \<noteq> 0"

definition bloom_add :: "(string \<Rightarrow> nat) \<Rightarrow> string \<Rightarrow> bloom \<Rightarrow> bloom" where
  "bloom_add digest item b = b\<lparr>bl_bits := fold set_bit_at (positions digest b item) (bl_bits b)\<rparr>"

definition bloom_contains :: "(string \<Rightarrow> nat) \<Rightarrow> bloom \<Rightarrow> string \<Rightarrow> bool" where
  "bloom_contains digest b item \<longleftrightarrow> list_all (\<lambda>pos. bit_at pos (bl_bits b)) (positions digest b item)"

definition bloom_ok :: "bloom \<Rightarrow> bool" where
  "bloom_ok b \<longleftrightarrow> 0 < bl_size b \<and> length (bl_bits b) = bl_size b div 8 + 1"

lemma bit_at_iff: "bit_at pos bits \<longleftrightarrow> bit (bits ! (pos div 8)) (pos mod 8)"
  by (simp add: bit_at_def and_exp_eq_0_iff_not_bit flip: push_bit_eq_mult)

lemma set_bit_at_length [simp]: "length (set_bit_at pos bits) = length bits"
  by (simp add: set_bit_at_def)

lemma bit_set_bit_at:
  "pos div 8 < length bits \<Longrightarrow> bit_at q (set_bit_at pos bits) \<longleftrightarrow> q = pos \<or> bit_at q bits"
proof -
  assume l: "pos div 8 < length bits"
  have w: "pos mod 8 < LENGTH(8)" by simp
  have q: "q = pos \<longleftrightarrow> q div 8 = pos div 8 \<and> q mod 8 = pos mod 8"
    by (metis div_mult_mod_eq)
  show ?thesis
    using l unfolding bit_at_iff set_bit_at_def q
    by (cases "q div 8 = pos div 8") (auto simp: bit_or_iff bit_exp_iff push_bit_eq_mult nth_list_update)
qed

lemma fold_set_bits:
  "\<forall>p \<in> set ps. p div 8 < length bits \<Longrightarrow>
   bit_at q (fold set_bit_at ps bits) \<longleftrightarrow> q \<in> set ps \<or> bit_at q bits"
  by (induction ps arbitrary: bits) (auto simp: bit_set_bit_at)

lemma fold_set_length: "length (fold set_bit_at ps bits) = length bits"
  by (induction ps arbitrary: bits) auto

lemma positions_in_range:
  "bloom_ok b \<Longrightarrow> p \<in> set (positions digest b item) \<Longrightarrow> p div 8 < length (bl_bits b)"
proof -
  assume ok: "bloom_ok b" and p: "p \<in> set (positions digest b item)"
  then have "p < bl_size b" by (auto simp: bloom_ok_def positions_def)
  then have "p div 8 \<le> bl_size b div 8" by (intro div_le_mono) simp
  then show "p div 8 < length (bl_bits b)" using ok by (simp add: bloom_ok_def)
qed

subsection \<open>Filters as an interface\<close>

text \<open>
  What the scrapers rely on: an added element is found, and nothing found is lost. Elements that were never
  added may be found too.
\<close>

locale url_filter =
  fixes add :: "'u \<Rightarrow> 's \<Rightarrow> 's"
    and found :: "'s \<Rightarrow> 'u \<Rightarrow> bool"
    and ok :: "'s \<Rightarrow> bool"
  assumes add_found: "ok s \<Longrightarrow> found (add x s) x"
    and add_keeps: "ok s \<Longrightarrow> found s y \<Longrightarrow> found (add x s) y"
    and add_ok: "ok s \<Longrightarrow> ok (add x s)"

text \<open>
  The loop of the scrapers over candidates: a candidate is skipped, raises, or has a URL that is skipped when
  it was seen and marked as seen otherwise.
\<close>

fun collect_unseen ::
  "('u \<Rightarrow> 's \<Rightarrow> 's) \<Rightarrow> ('s \<Rightarrow> 'u \<Rightarrow> bool) \<Rightarrow> ('x \<Rightarrow> ('u \<times> 'i) option outcome) \<Rightarrow> 'x list \<Rightarrow> 's \<Rightarrow> 's \<times> 'i list outcome"
where
  "collect_unseen add found cand [] s = (s, Inr [])"
| "collect_unseen add found cand (x # xs) s =
     (case cand x of
        Inl e \<Rightarrow> (s, Inl e)
      | Inr None \<Rightarrow> collect_unseen add found cand xs s
      | Inr (Some (u, i)) \<Rightarrow>
          if found s u then collect_unseen add found cand xs s
          else (case collect_unseen add found cand xs (add u s) of
                  (s', Inl e) \<Rightarrow> (s', Inl e)
                | (s', Inr is) \<Rightarrow> (s', Inr (i # is))))"

lemma collect_returns:
  "\<forall>x \<in> set xs. \<exists>c. cand x = Inr c \<Longrightarrow> \<exists>s' is. collect_unseen add found cand xs s = (s', Inr is)"
proof (induction xs arbitrary: s)
  case (Cons x xs)
  then obtain c where c: "cand x = Inr c" by auto
  obtain s1 i1 s2 i2 where "collect_unseen add found cand xs s = (s1, Inr i1)"
    "collect_unseen add found cand xs (add (fst (the c)) s) = (s2, Inr i2)"
    using Cons by (metis list.set_intros(2))
  then show ?case using c by (cases c) auto
qed simp

lemma collect_raises:
  "\<forall>x \<in> set xs. \<exists>c. cand x = Inr c \<Longrightarrow> cand y = Inl e \<Longrightarrow>
   \<exists>s'. collect_unseen add found cand (xs @ y # ys) s = (s', Inl e)"
proof (induction xs arbitrary: s)
  case (Cons x xs)
  then obtain c where c: "cand x = Inr c" by auto
  obtain s1 s2 where "collect_unseen add found cand (xs @ y # ys) s = (s1, Inl e)"
    "collect_unseen add found cand (xs @ y # ys) (add (fst (the c)) s) = (s2, Inl e)"
    using Cons by (metis list.set_intros(2))
  then show ?case using c by (cases c) auto
qed simp

context url_filter
begin

lemma collect_keeps:
  assumes "ok s" and "collect_unseen add found cand xs s = (s', r)"
  shows "ok s' \<and> (\<forall>u. found s u \<longrightarrow> found s' u)"
  using assms
proof (induction xs arbitrary: s r)
  case (Cons x xs)
  show ?case
  proof (cases "\<exists>u i. cand x = Inr (Some (u, i)) \<and> \<not> found s u")
    case True
    then obtain u i r' where "collect_unseen add found cand xs (add u s) = (s', r')"
      using Cons.prems(2) by (auto split: prod.splits sum.splits)
    from Cons.IH [OF add_ok [OF Cons.prems(1)] this] show ?thesis
      using add_keeps [OF Cons.prems(1)] by blast
  next
    case False
    then have "s' = s \<or> collect_unseen add found cand xs s = (s', r)"
      using Cons.prems(2) by (auto split: sum.splits option.splits prod.splits if_splits)
    then show ?thesis using Cons.IH [OF Cons.prems(1)] Cons.prems(1) by blast
  qed
qed auto

lemma collect_items:
  assumes "ok s" and "collect_unseen add found cand xs s = (s', Inr is)"
    and "\<And>x u i. cand x = Inr (Some (u, i)) \<Longrightarrow> url i = u"
  shows "distinct (map url is) \<and> (\<forall>i \<in> set is. \<not> found s (url i) \<and> found s' (url i)) \<and>
    (\<forall>x \<in> set xs. \<forall>u i. cand x = Inr (Some (u, i)) \<longrightarrow> found s' u)"
  using assms(1,2)
proof (induction xs arbitrary: s "is")
  case (Cons x xs)
  show ?case
  proof (cases "cand x")
    case (Inl e)
    then show ?thesis using Cons.prems by simp
  next
    case (Inr c)
    show ?thesis
    proof (cases c)
      case None
      then show ?thesis using Cons Inr by simp
    next
      case (Some ui)
      obtain u i where ui: "ui = (u, i)" by (cases ui)
      have url: "url i = u" using assms(3) Inr Some ui by simp
      show ?thesis
      proof (cases "found s u")
        case True
        then have r: "collect_unseen add found cand xs s = (s', Inr is)" using Cons.prems Inr Some ui by simp
        from Cons.IH [OF Cons.prems(1) r] collect_keeps [OF Cons.prems(1) r] show ?thesis
          using True Inr Some ui by auto
      next
        case False
        then obtain js where r: "collect_unseen add found cand xs (add u s) = (s', Inr js)" "is = i # js"
          using Cons.prems Inr Some ui by (auto split: prod.splits sum.splits)
        have oka: "ok (add u s)" using add_ok Cons.prems(1) .
        have fu: "found (add u s) u" using add_found Cons.prems(1) .
        note ih = Cons.IH [OF oka r(1)] and k = collect_keeps [OF oka r(1)]
        have fresh: "\<not> found s (url j)" if "j \<in> set js" for j
          using ih that add_keeps [OF Cons.prems(1)] by blast
        have "url j \<noteq> u" if "j \<in> set js" for j using ih that fu by metis
        then have "distinct (map url is)" using ih r(2) url by (metis (no_types, lifting) distinct.simps(2) image_iff list.set_map list.simps(9))
        moreover have "\<forall>j \<in> set is. \<not> found s (url j) \<and> found s' (url j)"
          using ih fresh r(2) url False k fu by auto
        moreover have "\<forall>y \<in> set (x # xs). \<forall>v j. cand y = Inr (Some (v, j)) \<longrightarrow> found s' v"
          using ih k fu Inr Some ui by auto
        ultimately show ?thesis by blast
      qed
    qed
  qed
qed simp

text \<open>Also when the loop ends with an exception, what it read before is marked.\<close>

lemma collect_prefix_marked:
  assumes "ok s" and "collect_unseen add found cand (xs @ ys) s = (s', r)"
    and "\<And>x. x \<in> set xs \<Longrightarrow> \<exists>c. cand x = Inr c"
    and "x \<in> set xs" and "cand x = Inr (Some (u, i))"
  shows "found s' u"
  using assms
proof (induction xs arbitrary: s r)
  case (Cons z xs)
  obtain c where c: "cand z = Inr c" using Cons.prems(3) by auto
  show ?case
  proof (cases c)
    case None
    then show ?thesis using Cons c by auto
  next
    case (Some vj)
    obtain v j where vj: "vj = (v, j)" by (cases vj)
    let ?s = "if found s v then s else add v s"
    obtain r' where r': "collect_unseen add found cand (xs @ ys) ?s = (s', r')"
      using Cons.prems(2) c Some vj by (auto split: if_splits prod.splits sum.splits)
    have oks: "ok ?s" "found ?s v" using Cons.prems(1) add_ok add_found by auto
    show ?thesis
    proof (cases "x \<in> set xs")
      case True
      show ?thesis
      proof (rule Cons.IH [OF oks(1) r'])
        fix y assume "y \<in> set xs" then show "\<exists>c. cand y = Inr c" using Cons.prems(3) by simp
      qed (fact True, fact Cons.prems(5))
    next
      case False
      then have "u = v" using Cons.prems(4,5) c Some vj by auto
      then show ?thesis using collect_keeps [OF oks(1) r'] oks(2) by blast
    qed
  qed
qed simp

lemma collect_all_found:
  assumes "\<And>x u i. x \<in> set xs \<Longrightarrow> cand x = Inr (Some (u, i)) \<Longrightarrow> found s u"
    and "\<And>x. x \<in> set xs \<Longrightarrow> \<exists>c. cand x = Inr c"
  shows "collect_unseen add found cand xs s = (s, Inr [])"
  using assms
proof (induction xs)
  case (Cons x xs)
  obtain c where c: "cand x = Inr c" using Cons.prems(2) by auto
  have "collect_unseen add found cand xs s = (s, Inr [])" using Cons by auto
  then show ?case using c Cons.prems(1) [of x] by (cases c) auto
qed simp

end

interpretation bf: url_filter "bloom_add digest" "bloom_contains digest" bloom_ok for digest
proof
  fix b item other
  assume ok: "bloom_ok b"
  have pos: "positions digest (bloom_add digest item b) x = positions digest b x" for x
    by (simp add: positions_def bloom_add_def)
  have bits: "bit_at q (bl_bits (bloom_add digest item b)) \<longleftrightarrow> q \<in> set (positions digest b item) \<or> bit_at q (bl_bits b)" for q
    using positions_in_range [OF ok] by (simp add: bloom_add_def fold_set_bits)
  show "bloom_contains digest (bloom_add digest item b) item"
    by (simp add: bloom_contains_def pos bits list_all_iff)
  show "bloom_ok (bloom_add digest item b)"
    using ok by (simp add: bloom_ok_def bloom_add_def fold_set_length)
  assume "bloom_contains digest b other"
  then show "bloom_contains digest (bloom_add digest item b) other"
    by (simp add: bloom_contains_def pos bits list_all_iff)
qed

lemma make_bloom_ok: "0 < m \<Longrightarrow> bloom_ok (make_bloom m k)"
  by (simp add: bloom_ok_def make_bloom_def)

lemma new_bloom_ok: "bloom_ok (new_bloom n p)"
  by (simp add: new_bloom_def Let_def make_bloom_ok compute_size_def)

end
