(* ===== verification/Scraper_Backends.thy ===== *)
theory Scraper_Backends
  imports Scrapers
begin

text \<open>
  The three scraper backends and the factory: \<open>ingestor/scrapers/http_scraper.py\<close>, \<open>html_scraper.py\<close>,
  \<open>browser_scraper.py\<close> and \<open>ScraperFactory\<close>. Each backend is its Bloom filter and one \<open>scrape\<close>; the semaphore
  only delays. \<open>py_str\<close> is \<open>str()\<close> on a JSON value, \<open>text_hash\<close> is \<open>hash()\<close> on strings.
\<close>

subsection \<open>Retrying\<close>

definition SCRAPER_MAX_RETRIES :: nat where
  "SCRAPER_MAX_RETRIES = 3"

text \<open>
  \<open>left\<close> attempts remain, \<open>k\<close> were made; an exception that is not caught ends the loop, after the last caught one
  the result is \<open>None\<close>. The list holds the sleeps, \<open>cancelled k\<close> says that the sleep after attempt \<open>k\<close> is cancelled.
\<close>

fun scraper_backoff ::
  "nat \<Rightarrow> nat \<Rightarrow> (py_exn \<Rightarrow> bool) \<Rightarrow> (nat \<Rightarrow> 's \<Rightarrow> 's \<times> 'r outcome) \<Rightarrow> (nat \<Rightarrow> bool) \<Rightarrow> 's \<Rightarrow>
   's \<times> int list \<times> 'r option outcome"
where
  "scraper_backoff 0 k caught f cancelled s = (s, [], Inr None)"
| "scraper_backoff (Suc left) k caught f cancelled s =
     (case f k s of
        (s1, Inr v) \<Rightarrow> (s1, [], Inr (Some v))
      | (s1, Inl e) \<Rightarrow>
          if \<not> caught e then (s1, [], Inl e)
          else if left = 0 then (s1, [], Inr None)
          else if cancelled k then (s1, [2 ^ k], Inl CancelledError)
          else (case scraper_backoff left (Suc k) caught f cancelled s1 of
                  (s2, ds, r) \<Rightarrow> (s2, 2 ^ k # ds, r)))"

fun is_HTTPError :: "py_exn \<Rightarrow> bool" where
  "is_HTTPError (HTTPError m) = True"
| "is_HTTPError e = False"

text \<open>\<open>xs[:n]\<close>: a negative bound counts from the end.\<close>

definition py_prefix :: "int \<Rightarrow> 'a list \<Rightarrow> 'a list" where
  "py_prefix n xs = (if 0 \<le> n then take (nat n) xs else take (length xs - nat (- n)) xs)"

subsection \<open>JSONPlaceholder\<close>

definition POSTS_URL :: string where
  "POSTS_URL = ''https://jsonplaceholder.typicode.com/posts''"

definition post_candidate :: "(json \<Rightarrow> string) \<Rightarrow> json \<Rightarrow> (string \<times> scraped_item) option outcome" where
  "post_candidate py_str post =
     try_bind (py_subscript post ''id'') (\<lambda>i.
       let url = POSTS_URL @ ''/'' @ py_str i
       in try_bind (py_get_default post ''title'' (JStr [])) (\<lambda>t.
            try_bind (py_get_default post ''body'' (JStr [])) (\<lambda>b.
              Inr (Some (url, \<lparr>it_url = url, it_title = t, it_content = b, it_source = ''jsonplaceholder''\<rparr>)))))"

definition http_scrape ::
  "(string \<Rightarrow> nat) \<Rightarrow> (json \<Rightarrow> string) \<Rightarrow> (nat \<Rightarrow> int \<Rightarrow> json outcome) \<Rightarrow> (nat \<Rightarrow> bool) \<Rightarrow> int \<Rightarrow> bloom \<Rightarrow>
   bloom \<times> scraped_item list outcome"
where
  "http_scrape digest py_str get cancelled lmt seen =
     (case scraper_backoff SCRAPER_MAX_RETRIES 0 is_HTTPError (\<lambda>k s. (s, get k lmt)) cancelled () of
        (u, ds, Inl e) \<Rightarrow> (seen, Inl e)
      | (u, ds, Inr None) \<Rightarrow> (seen, Inr [])
      | (u, ds, Inr (Some JNull)) \<Rightarrow> (seen, Inr [])
      | (u, ds, Inr (Some j)) \<Rightarrow>
          (case iter_json j of
             Inl e \<Rightarrow> (seen, Inl e)
           | Inr posts \<Rightarrow>
               collect_unseen (bloom_add digest) (bloom_contains digest) (post_candidate py_str) posts seen))"

subsection \<open>Hacker News\<close>

definition HN_URL :: string where
  "HN_URL = ''https://news.ycombinator.com''"

text \<open>
  \<open>select html\<close> are the story rows; a row is the stripped text and the \<open>href\<close> of its title link, or \<open>None\<close>
  when it has none.
\<close>

definition story_candidate :: "(string \<times> string option) option \<Rightarrow> (string \<times> scraped_item) option outcome" where
  "story_candidate row =
     (case row of
        None \<Rightarrow> Inr None
      | Some (title, link) \<Rightarrow>
          let href = (case link of None \<Rightarrow> [] | Some h \<Rightarrow> h);
              url = (if startswith href ''http'' then href else HN_URL @ ''/'' @ href)
          in Inr (Some (url, \<lparr>it_url = url, it_title = JStr title, it_content = JStr [], it_source = ''hn''\<rparr>)))"

text \<open>\<open>_fetch_with_backoff\<close>; \<open>get k\<close> is the page that attempt \<open>k\<close> receives.\<close>

definition html_fetch :: "(nat \<Rightarrow> 'h outcome) \<Rightarrow> (nat \<Rightarrow> bool) \<Rightarrow> int list \<times> 'h option outcome" where
  "html_fetch get cancelled = snd (scraper_backoff SCRAPER_MAX_RETRIES 0 is_HTTPError (\<lambda>k s. (s, get k)) cancelled ())"

definition html_scrape ::
  "(string \<Rightarrow> nat) \<Rightarrow> (nat \<Rightarrow> 'h outcome) \<Rightarrow> ('h \<Rightarrow> (string \<times> string option) option list) \<Rightarrow> (nat \<Rightarrow> bool) \<Rightarrow> int \<Rightarrow>
   bloom \<Rightarrow> bloom \<times> scraped_item list outcome"
where
  "html_scrape digest get select cancelled lmt seen =
     (case html_fetch get cancelled of
        (ds, Inl e) \<Rightarrow> (seen, Inl e)
      | (ds, Inr None) \<Rightarrow> (seen, Inr [])
      | (ds, Inr (Some html)) \<Rightarrow>
          collect_unseen (bloom_add digest) (bloom_contains digest) story_candidate
            (py_prefix lmt (select html)) seen)"

text \<open>
  The fetch answers with the first page that an attempt receives and gives up after three attempts; the sleep of four
  seconds that the class comment announces never happens.
\<close>

lemma html_fetch_cases:
  assumes "\<And>k. \<not> cancelled k" and "\<And>k e. get k = Inl e \<Longrightarrow> is_HTTPError e"
  shows "html_fetch get cancelled =
    (case (get 0, get 1, get 2) of
       (Inr h, _) \<Rightarrow> ([], Inr (Some h))
     | (_, Inr h, _) \<Rightarrow> ([1], Inr (Some h))
     | (_, _, Inr h) \<Rightarrow> ([1, 2], Inr (Some h))
     | _ \<Rightarrow> ([1, 2], Inr None))"
  using assms by (auto simp: html_fetch_def SCRAPER_MAX_RETRIES_def numeral_3_eq_3 numeral_2_eq_2 split: sum.split)

subsection \<open>The browser\<close>

definition QUOTES_URL :: string where
  "QUOTES_URL = ''https://quotes.toscrape.com/js/''"

definition hex_digit :: "nat \<Rightarrow> char" where
  "hex_digit d = char_of (if d < 10 then 48 + d else 87 + d)"

text \<open>\<open>f"{n:06x}"\<close> for a number below \<open>2^24\<close>.\<close>

definition hex6 :: "nat \<Rightarrow> string" where
  "hex6 n = map (\<lambda>k. hex_digit (n div 16 ^ k mod 16)) [5, 4, 3, 2, 1, 0]"

definition quote_url :: "(string \<Rightarrow> int) \<Rightarrow> string \<Rightarrow> string" where
  "quote_url text_hash t = QUOTES_URL @ ''#'' @ hex6 (nat (text_hash t mod 16777216))"

definition quote_candidate ::
  "(string \<Rightarrow> int) \<Rightarrow> (string \<times> string) outcome \<Rightarrow> (string \<times> scraped_item) option outcome"
where
  "quote_candidate text_hash el =
     try_bind el (\<lambda>(t, author).
       let url = quote_url text_hash t
       in Inr (Some (url, \<lparr>it_url = url, it_title = JStr author, it_content = JStr t, it_source = ''playwright''\<rparr>)))"

text \<open>One attempt: launching and loading, the elements as they are read, closing.\<close>

record browser_try =
  bt_start :: "unit outcome"
  bt_elements :: "(string \<times> string) outcome list"
  bt_close :: "unit outcome"

definition browser_attempt ::
  "(string \<Rightarrow> nat) \<Rightarrow> (string \<Rightarrow> int) \<Rightarrow> browser_try \<Rightarrow> bloom \<Rightarrow> bloom \<times> scraped_item list outcome"
where
  "browser_attempt digest text_hash bt seen =
     (case bt_start bt of
        Inl e \<Rightarrow> (seen, Inl e)
      | Inr _ \<Rightarrow>
          (case collect_unseen (bloom_add digest) (bloom_contains digest) (quote_candidate text_hash) (bt_elements bt) seen of
             (seen', Inl e) \<Rightarrow> (seen', Inl e)
           | (seen', Inr items) \<Rightarrow> (seen', try_bind (bt_close bt) (\<lambda>_. Inr items))))"

definition browser_scrape ::
  "(string \<Rightarrow> nat) \<Rightarrow> (string \<Rightarrow> int) \<Rightarrow> bool \<Rightarrow> (nat \<Rightarrow> browser_try) \<Rightarrow> (nat \<Rightarrow> bool) \<Rightarrow> int \<Rightarrow> bloom \<Rightarrow>
   bloom \<times> scraped_item list outcome"
where
  "browser_scrape digest text_hash installed tries cancelled lmt seen =
     (if \<not> installed then (seen, Inr [])
      else (case scraper_backoff SCRAPER_MAX_RETRIES 0 is_Exception (\<lambda>k. browser_attempt digest text_hash (tries k)) cancelled seen of
              (seen', ds, Inl e) \<Rightarrow> (seen', Inl e)
            | (seen', ds, Inr None) \<Rightarrow> (seen', Inr [])
            | (seen', ds, Inr (Some items)) \<Rightarrow> (seen', Inr (py_prefix lmt items))))"

subsection \<open>The factory\<close>

datatype scraper_class = HttpScraper | HtmlScraper | BrowserScraper

definition scraper_registry :: "(string \<times> scraper_class) list" where
  "scraper_registry = [(''jsonplaceholder'', HttpScraper), (''hn'', HtmlScraper), (''playwright'', BrowserScraper)]"

definition available_sources :: "string list" where
  "available_sources = [''hn'', ''jsonplaceholder'', ''playwright'']"

text \<open>A new scraper has a new filter.\<close>

fun initial_filter :: "scraper_class \<Rightarrow> bloom" where
  "initial_filter HttpScraper = new_bloom 1000 (1/100)"
| "initial_filter HtmlScraper = new_bloom 500 (1/100)"
| "initial_filter BrowserScraper = new_bloom 500 (1/100)"

definition create_scraper :: "(string \<Rightarrow> string) \<Rightarrow> string \<Rightarrow> (scraper_class \<times> bloom) outcome" where
  "create_scraper py_repr source =
     (case map_of scraper_registry source of
        Some k \<Rightarrow> Inr (k, initial_filter k)
      | None \<Rightarrow> Inl (ValueError (''Unknown scraper source: '' @ py_repr source @ ''. Available: ['' @
                   join_with '', '' (map py_repr available_sources) @ '']'')))"

subsection \<open>What a scrape gives\<close>

lemma post_candidate_url: "post_candidate py_str x = Inr (Some (u, i)) \<Longrightarrow> it_url i = u"
  by (auto simp: post_candidate_def try_bind_Inr_iff Let_def)

lemma quote_candidate_url: "quote_candidate h x = Inr (Some (u, i)) \<Longrightarrow> it_url i = u"
  by (auto simp: quote_candidate_def try_bind_Inr_iff Let_def)

lemma quote_candidate_reads: "x \<in> set (map Inr els) \<Longrightarrow> \<exists>c. quote_candidate h x = Inr c"
  by (auto simp: quote_candidate_def Let_def)

lemma quote_candidate_raises: "quote_candidate h (Inl e) = Inl e"
  by (simp add: quote_candidate_def)

lemma http_scrape_cases:
  assumes "http_scrape digest py_str get cancelled lmt seen = (seen', Inr items)"
  shows "seen' = seen \<and> items = [] \<or>
    (\<exists>posts. collect_unseen (bloom_add digest) (bloom_contains digest) (post_candidate py_str) posts seen = (seen', Inr items))"
  using assms by (auto simp: http_scrape_def split: prod.splits sum.splits option.splits json.splits)

lemma http_scrape_items:
  assumes "bloom_ok seen" and "http_scrape digest py_str get cancelled lmt seen = (seen', Inr items)"
  shows "bloom_ok seen' \<and> (\<forall>u. bloom_contains digest seen u \<longrightarrow> bloom_contains digest seen' u) \<and>
    distinct (map it_url items) \<and>
    (\<forall>i \<in> set items. \<not> bloom_contains digest seen (it_url i) \<and> bloom_contains digest seen' (it_url i))"
  using http_scrape_cases [OF assms(2)]
proof (elim disjE exE)
  fix posts
  assume c: "collect_unseen (bloom_add digest) (bloom_contains digest) (post_candidate py_str) posts seen = (seen', Inr items)"
  show ?thesis
    using bf.collect_keeps [OF assms(1) c] bf.collect_items [OF assms(1) c, of it_url] post_candidate_url by blast
qed (use assms(1) in auto)

text \<open>
  No URL is scraped twice by one scraper. The filter has no false negatives, so the items of one scrape have
  distinct URLs, and no item of a scrape has the URL of an item of an earlier scrape with the same scraper, however
  many scrapes lie between and whatever the web answers.
\<close>

theorem http_scrapes_disjoint:
  assumes "bloom_ok seen" and "http_scrape digest py_str get1 c1 l1 seen = (seen1, Inr items1)"
    and "(\<lambda>s s'. \<exists>get c l r. http_scrape digest py_str get c l s = (s', Inr r))\<^sup>*\<^sup>* seen1 seen2"
    and "http_scrape digest py_str get2 c2 l2 seen2 = (seen3, Inr items2)"
  shows "distinct (map it_url (items1 @ items2))"
proof -
  note h1 = http_scrape_items [OF assms(1,2)]
  have "bloom_ok seen2 \<and> (\<forall>u. bloom_contains digest seen1 u \<longrightarrow> bloom_contains digest seen2 u)"
    using assms(3)
  proof induction
    case base
    then show ?case using h1 by blast
  next
    case (step s s')
    then show ?case using http_scrape_items [of s] by blast
  qed
  then show ?thesis
    using h1 http_scrape_items [OF _ assms(4)] by fastforce
qed

definition demo_digest :: "string \<Rightarrow> nat" where
  "demo_digest s = length s"

definition demo_get :: "int \<Rightarrow> nat \<Rightarrow> int \<Rightarrow> json outcome" where
  "demo_get i k l = Inr (JList [JObj [(''id'', JInt i)]])"

definition json_str :: "json \<Rightarrow> string" where
  "json_str j = (case j of JInt i \<Rightarrow> show_int i | JStr s \<Rightarrow> s | _ \<Rightarrow> ''None'')"

theorem http_scrapes_disjoint_witness:
  "\<exists>s1 i1 s2 i2. http_scrape demo_digest json_str (demo_get 1) (\<lambda>k. False) 20 (make_bloom 64 2) = (s1, Inr i1) \<and>
     http_scrape demo_digest json_str (demo_get 10) (\<lambda>k. False) 20 s1 = (s2, Inr i2) \<and>
     map it_url i1 = [POSTS_URL @ ''/1''] \<and> distinct (map it_url (i1 @ i2))"
proof -
  let ?r1 = "http_scrape demo_digest json_str (demo_get 1) (\<lambda>k. False) 20 (make_bloom 64 2)"
  have "map_sum id (map it_url) (snd ?r1) = Inr [POSTS_URL @ ''/1'']" by code_simp
  then obtain s1 i1 where r1: "?r1 = (s1, Inr i1)" "map it_url i1 = [POSTS_URL @ ''/1'']"
    by (cases ?r1; cases "snd ?r1") auto
  let ?r2 = "http_scrape demo_digest json_str (demo_get 10) (\<lambda>k. False) 20 (fst ?r1)"
  have "\<not> isl (snd ?r2)" by code_simp
  then obtain s2 i2 where r2: "?r2 = (s2, Inr i2)" by (cases ?r2; cases "snd ?r2") auto
  then have r2': "http_scrape demo_digest json_str (demo_get 10) (\<lambda>k. False) 20 s1 = (s2, Inr i2)" using r1(1) by simp
  have "bloom_ok (make_bloom 64 2)" by (simp add: make_bloom_ok)
  from http_scrapes_disjoint [OF this r1(1) rtranclp.rtrancl_refl r2'] show ?thesis
    using r1 r2' by (intro exI conjI)
qed

text \<open>
  A browser attempt that fails late loses what it read. The elements are marked as seen while they are read,
  and an exception of the attempt, even when the browser is closed after the last element, sends the loop into a retry
  that skips all of them: when the second attempt meets only quotes that the first had read, the result is
  empty.
\<close>

theorem browser_retry_loses_quotes:
  assumes "bloom_ok seen" and "bt_start (tries 0) = Inr ()" and "bt_elements (tries 0) = map Inr els @ rest"
    and "rest = [] \<and> bt_close (tries 0) = Inl e \<or> rest = [Inl e]" and "is_Exception e" and "\<not> cancelled 0"
    and "bt_start (tries 1) = Inr ()" and "bt_elements (tries 1) = map Inr els2" and "bt_close (tries 1) = Inr ()"
    and "set els2 \<subseteq> set els"
  shows "\<exists>seen'. browser_scrape digest text_hash True tries cancelled lmt seen = (seen', Inr [])"
proof -
  let ?cand = "quote_candidate text_hash"
  let ?collect = "collect_unseen (bloom_add digest) (bloom_contains digest) ?cand"
  obtain seen1 r where c: "?collect (map Inr els @ rest) seen = (seen1, r)"
    by (cases "?collect (map Inr els @ rest) seen")
  note reads = quote_candidate_reads [of _ els text_hash]
  have marked: "bloom_contains digest seen1 u" if "(t, a) \<in> set els" "?cand (Inr (t, a)) = Inr (Some (u, i))" for t a u i
    using bf.collect_prefix_marked [OF assms(1) c reads _ that(2)] that(1) by auto
  have fails: "browser_attempt digest text_hash (tries 0) seen = (seen1, Inl e)"
  proof -
    have "r = Inl e" if "rest = [Inl e]"
      using collect_raises [of "map Inr els" ?cand "Inl e" e "bloom_add digest" "bloom_contains digest" "[]" seen,
          OF _ quote_candidate_raises] reads c that by auto
    moreover have "\<exists>is. r = Inr is" if "rest = []"
      using collect_returns [of "map Inr els" ?cand "bloom_add digest" "bloom_contains digest" seen] c that reads by auto
    ultimately show ?thesis using assms(2-4) c by (auto simp: browser_attempt_def)
  qed
  have "?collect (map Inr els2) seen1 = (seen1, Inr [])"
  proof (rule bf.collect_all_found)
    fix x u i
    assume "x \<in> set (map Inr els2)" "?cand x = Inr (Some (u, i))"
    then show "bloom_contains digest seen1 u" using marked assms(10) by auto
  next
    fix x :: "(string \<times> string) outcome"
    assume "x \<in> set (map Inr els2)"
    then show "\<exists>c. ?cand x = Inr c" by (rule quote_candidate_reads)
  qed
  then have "browser_attempt digest text_hash (tries (Suc 0)) seen1 = (seen1, Inr [])"
    using assms(7-9) by (simp add: browser_attempt_def)
  then show ?thesis
    using fails assms(5,6) by (simp add: browser_scrape_def SCRAPER_MAX_RETRIES_def numeral_3_eq_3 py_prefix_def)
qed

definition flaky_browser :: "nat \<Rightarrow> browser_try" where
  "flaky_browser k =
     \<lparr>bt_start = Inr (), bt_elements = [Inr (''q1'', ''a''), Inr (''q2'', ''b'')],
      bt_close = (if k = 0 then Inl (RuntimeError ''closed'') else Inr ())\<rparr>"

theorem browser_retry_loses_quotes_witness:
  "\<exists>seen'. browser_scrape demo_digest (\<lambda>t. int (length t)) True flaky_browser (\<lambda>k. False) 20 (make_bloom 64 2) = (seen', Inr [])"
proof -
  have "bloom_ok (make_bloom 64 2)" by (simp add: make_bloom_ok)
  from browser_retry_loses_quotes [OF this, of flaky_browser "[(''q1'', ''a''), (''q2'', ''b'')]" "[]" "RuntimeError ''closed''"
      "\<lambda>k. False" "[(''q1'', ''a''), (''q2'', ''b'')]"]
  show ?thesis by (simp add: flaky_browser_def is_Exception_def)
qed

end
