(* ===== verification/Scrape_Routes.thy ===== *)
theory Scrape_Routes
  imports Scraper_Backends Events
begin

text \<open>
  The MongoDB layer \<open>ingestor/storage/mongo.py\<close> behind its circuit breaker and the scrape endpoint
  \<open>ingestor/routers/scraper.py\<close>. The driver is a record of functions; the locale \<open>document_store\<close> states what
  the code relies on and a collection in memory satisfies it.
\<close>

record mongo_doc =
  md_id :: string
  md_source :: string
  md_url :: string
  md_title :: json
  md_content :: json
  md_scraped_at :: datetime

record 'm mongo_lib =
  mg_open :: "string \<Rightarrow> string \<Rightarrow> 'm"
  mg_ping :: "'m \<Rightarrow> unit outcome"
  mg_docs :: "'m \<Rightarrow> mongo_doc list"
  mg_insert :: "mongo_doc \<Rightarrow> 'm \<Rightarrow> 'm \<times> string outcome"
  mg_find :: "string \<Rightarrow> int \<Rightarrow> 'm \<Rightarrow> mongo_doc list outcome"

record 'm mongo_state =
  mongo_db :: "'m option"
  mongo_breaker :: breaker

definition initial_mongo :: "'m mongo_state" where
  "initial_mongo = \<lparr>mongo_db = None, mongo_breaker = new_breaker ''_mongo_insert_one'' 5 30\<rparr>"

text \<open>The client is set before the ping that checks it.\<close>

definition connect_mongo :: "'m mongo_lib \<Rightarrow> string \<Rightarrow> string \<Rightarrow> 'm mongo_state \<Rightarrow> 'm mongo_state \<times> unit outcome" where
  "connect_mongo M url db ms = (ms\<lparr>mongo_db := Some (mg_open M url db)\<rparr>, mg_ping M (mg_open M url db))"

definition disconnect_mongo :: "'m mongo_state \<Rightarrow> 'm mongo_state" where
  "disconnect_mongo ms = ms\<lparr>mongo_db := None\<rparr>"

definition mongo_not_connected :: py_exn where
  "mongo_not_connected = RuntimeError ''MongoDB client not connected - ensure mongo_enabled=True''"

definition raw_insert_one :: "'m mongo_lib \<Rightarrow> mongo_doc \<Rightarrow> 'm option \<Rightarrow> 'm option \<times> string outcome" where
  "raw_insert_one M doc db =
     (case db of
        None \<Rightarrow> (None, Inl mongo_not_connected)
      | Some m \<Rightarrow> (case mg_insert M doc m of (m', r) \<Rightarrow> (Some m', r)))"

definition mongo_insert_one ::
  "'m mongo_lib \<Rightarrow> seconds \<Rightarrow> seconds \<Rightarrow> mongo_doc \<Rightarrow> 'm mongo_state \<Rightarrow> 'm mongo_state \<times> string outcome"
where
  "mongo_insert_one M t0 t1 doc ms =
     (case breaker_call (raw_insert_one M doc) t0 t1 (mongo_breaker ms) (mongo_db ms) of
        ((b, db), r) \<Rightarrow> (ms\<lparr>mongo_db := db, mongo_breaker := b\<rparr>, r))"

definition insert_scraped_doc ::
  "'m mongo_lib \<Rightarrow> seconds \<Rightarrow> seconds \<Rightarrow> datetime \<Rightarrow> scraped_item \<Rightarrow> 'm mongo_state \<Rightarrow> 'm mongo_state \<times> string outcome"
where
  "insert_scraped_doc M t0 t1 now it ms =
     (if mongo_db ms = None then (ms, Inl mongo_not_connected)
      else mongo_insert_one M t0 t1
             \<lparr>md_id = [], md_source = it_source it, md_url = it_url it, md_title = it_title it,
              md_content = it_content it, md_scraped_at = now\<rparr> ms)"

record found_doc =
  fd_doc :: mongo_doc
  fd_scraped_at :: string

definition find_by_source :: "'m mongo_lib \<Rightarrow> string \<Rightarrow> int \<Rightarrow> 'm mongo_state \<Rightarrow> found_doc list outcome" where
  "find_by_source M source lmt ms =
     (case mongo_db ms of
        None \<Rightarrow> Inr []
      | Some m \<Rightarrow>
          try_bind (mg_find M source lmt m) (\<lambda>docs.
            Inr (map (\<lambda>d. \<lparr>fd_doc = d, fd_scraped_at = isoformat (md_scraped_at d)\<rparr>) docs)))"

subsection \<open>The endpoint\<close>

text \<open>
  What a request meets: the answer of its scraper's \<open>scrape(limit)\<close>, and for insert number \<open>n\<close> the clock
  readings; the clock readings of the publication.
\<close>

record scrape_env =
  se_scrape :: "scraper_class \<Rightarrow> int \<Rightarrow> bloom \<Rightarrow> bloom \<times> scraped_item list outcome"
  se_mono :: "nat \<Rightarrow> seconds \<times> seconds"
  se_now :: "nat \<Rightarrow> datetime"
  se_publish :: "seconds \<times> seconds"

record scrape_response =
  sr_source :: string
  sr_scraped :: int
  sr_stored :: int

definition clamp_limit :: "int \<Rightarrow> int" where
  "clamp_limit l = max 1 (min l 100)"

text \<open>The loop over the items; the last component is a cancellation.\<close>

fun store_items ::
  "'m mongo_lib \<Rightarrow> scrape_env \<Rightarrow> nat \<Rightarrow> scraped_item list \<Rightarrow> int \<Rightarrow> 'm mongo_state \<Rightarrow> 'm mongo_state \<times> int outcome"
where
  "store_items M v n [] stored ms = (ms, Inr stored)"
| "store_items M v n (it # its) stored ms =
     (case insert_scraped_doc M (fst (se_mono v n)) (snd (se_mono v n)) (se_now v n) it ms of
        (ms', Inr i) \<Rightarrow> store_items M v (Suc n) its (stored + 1) ms'
      | (ms', Inl e) \<Rightarrow>
          if is_Exception e then store_items M v (Suc n) its stored ms' else (ms', Inl e))"

definition scrape_source ::
  "'m mongo_lib \<Rightarrow> 'k kafka \<Rightarrow> scrape_env \<Rightarrow> (string \<Rightarrow> string) \<Rightarrow> string \<Rightarrow> int \<Rightarrow> 'm mongo_state \<times> 'k event_state \<Rightarrow>
   ('m mongo_state \<times> 'k event_state) \<times> scrape_response outcome"
where
  "scrape_source M K v py_repr source lmt st =
     (case create_scraper py_repr source of
        Inl e \<Rightarrow> (st, Inl (if is_ValueError e then HTTPException 422 (exn_str e) else e))
      | Inr (k, seen) \<Rightarrow>
          (case snd (se_scrape v k (clamp_limit lmt) seen) of
             Inl e \<Rightarrow> (st, Inl e)
           | Inr items \<Rightarrow>
               (case store_items M v 0 items 0 (fst st) of
                  (ms, Inl e) \<Rightarrow> ((ms, snd st), Inl e)
                | (ms, Inr stored) \<Rightarrow>
                    (case publish_doc_scraped K (fst (se_publish v)) (snd (se_publish v)) source stored (snd st) of
                       (es, Inl e) \<Rightarrow> ((ms, es), Inl e)
                     | (es, Inr _) \<Rightarrow>
                         ((ms, es), Inr \<lparr>sr_source = source, sr_scraped = int (length items), sr_stored = stored\<rparr>)))))"

lemma insert_connected:
  assumes "insert_scraped_doc M t0 t1 now it ms = (ms', r)" and "mongo_db ms \<noteq> None"
  shows "mongo_db ms' \<noteq> None"
  using assms
  by (auto simp: insert_scraped_doc_def mongo_insert_one_def breaker_call_def raw_insert_one_def
      split: prod.splits sum.splits if_splits)

lemma store_items_connected:
  "store_items M v n its stored ms = (ms', Inr cnt) \<Longrightarrow> mongo_db ms \<noteq> None \<Longrightarrow> mongo_db ms' \<noteq> None"
  by (induction its arbitrary: n stored ms)
    (auto split: prod.splits sum.splits if_splits dest: insert_connected)

subsection \<open>What the code relies on\<close>

locale document_store =
  fixes M :: "'m mongo_lib"
  assumes insert_stores: "mg_insert M doc m = (m', Inr i) \<Longrightarrow> mg_docs M m' = mg_docs M m @ [doc\<lparr>md_id := i\<rparr>]"
    and insert_fails: "mg_insert M doc m = (m', Inl e) \<Longrightarrow> mg_docs M m' = mg_docs M m"
    and find_meaning: "mg_find M source lmt m = Inr docs \<Longrightarrow>
      set docs \<subseteq> {d \<in> set (mg_docs M m). md_source d = source} \<and> (0 < lmt \<longrightarrow> int (length docs) \<le> lmt) \<and>
      sorted_wrt (\<lambda>a b. md_scraped_at b \<le> md_scraped_at a) docs"
begin

definition stored_docs :: "'m mongo_state \<Rightarrow> mongo_doc list" where
  "stored_docs ms = (case mongo_db ms of None \<Rightarrow> [] | Some m \<Rightarrow> mg_docs M m)"

lemma insert_doc_stored:
  assumes "insert_scraped_doc M t0 t1 now it ms = (ms', r)"
  shows "case r of
      Inr i \<Rightarrow> \<exists>d. stored_docs ms' = stored_docs ms @ [d] \<and> md_id d = i \<and> md_url d = it_url it \<and> md_source d = it_source it
    | Inl e \<Rightarrow> stored_docs ms' = stored_docs ms"
proof (cases "mongo_db ms")
  case None
  then show ?thesis using assms by (auto simp: insert_scraped_doc_def)
next
  case (Some m)
  let ?doc = "\<lparr>md_id = [], md_source = it_source it, md_url = it_url it, md_title = it_title it,
    md_content = it_content it, md_scraped_at = now\<rparr>"
  obtain b c where enter: "call_enter t0 (mongo_breaker ms) = (b, c)" by (cases "call_enter t0 (mongo_breaker ms)")
  obtain m' r' where ins: "mg_insert M ?doc m = (m', r')" by (cases "mg_insert M ?doc m")
  show ?thesis
  proof (cases c)
    case (Inl e)
    then have "ms' = ms\<lparr>mongo_db := Some m, mongo_breaker := b\<rparr>" "r = Inl e"
      using assms Some enter by (simp_all add: insert_scraped_doc_def mongo_insert_one_def breaker_call_def)
    then show ?thesis using Some by (simp add: stored_docs_def)
  next
    case (Inr u)
    then have "mongo_db ms' = Some m'" "r = r'"
      using assms Some enter ins
      by (auto simp: insert_scraped_doc_def mongo_insert_one_def breaker_call_def raw_insert_one_def)
    then show ?thesis
      using insert_stores [of ?doc m m'] insert_fails [of ?doc m m'] ins Some
      by (cases r') (auto simp: stored_docs_def)
  qed
qed

lemma store_items_counts:
  assumes "store_items M v n its stored ms = (ms', Inr cnt)"
  shows "\<exists>new. stored_docs ms' = stored_docs ms @ new \<and> cnt = stored + int (length new) \<and> length new \<le> length its \<and>
    set (map md_url new) \<subseteq> set (map it_url its)"
  using assms
proof (induction its arbitrary: n stored ms)
  case Nil
  then show ?case by auto
next
  case (Cons it its)
  obtain ms1 r where r: "insert_scraped_doc M (fst (se_mono v n)) (snd (se_mono v n)) (se_now v n) it ms = (ms1, r)"
    by (cases "insert_scraped_doc M (fst (se_mono v n)) (snd (se_mono v n)) (se_now v n) it ms")
  note ins = insert_doc_stored [OF r]
  show ?case
  proof (cases r)
    case (Inl e)
    then have "store_items M v (Suc n) its stored ms1 = (ms', Inr cnt)"
      using Cons.prems r by (auto split: if_splits)
    from Cons.IH [OF this] obtain new where "stored_docs ms' = stored_docs ms1 @ new" "cnt = stored + int (length new)"
      "length new \<le> length its" "set (map md_url new) \<subseteq> set (map it_url its)" by blast
    moreover have "stored_docs ms1 = stored_docs ms" using ins Inl by simp
    ultimately show ?thesis by (intro exI [of _ new]) auto
  next
    case (Inr i)
    then have "store_items M v (Suc n) its (stored + 1) ms1 = (ms', Inr cnt)"
      using Cons.prems r by auto
    from Cons.IH [OF this] obtain new where new: "stored_docs ms' = stored_docs ms1 @ new"
      "cnt = stored + 1 + int (length new)" "length new \<le> length its" "set (map md_url new) \<subseteq> set (map it_url its)"
      by blast
    obtain d where "stored_docs ms1 = stored_docs ms @ [d]" "md_url d = it_url it" using ins Inr by auto
    then show ?thesis using new by (intro exI [of _ "d # new"]) auto
  qed
qed

end

record mem_mongo =
  mm_docs :: "mongo_doc list"
  mm_up :: bool

definition mem_mongo_lib :: "mem_mongo mongo_lib" where
  "mem_mongo_lib =
     \<lparr>mg_open = (\<lambda>url db. \<lparr>mm_docs = [], mm_up = True\<rparr>),
      mg_ping = (\<lambda>m. if mm_up m then Inr () else Inl (TimeoutError ''ServerSelectionTimeout'')),
      mg_docs = mm_docs,
      mg_insert = (\<lambda>d m. if mm_up m
         then let i = show_nat (length (mm_docs m)) in (m\<lparr>mm_docs := mm_docs m @ [d\<lparr>md_id := i\<rparr>]\<rparr>, Inr i)
         else (m, Inl (TimeoutError ''ServerSelectionTimeout''))),
      mg_find = (\<lambda>source lmt m.
         let xs = rev (sort_key md_scraped_at (filter (\<lambda>d. md_source d = source) (mm_docs m)))
         in Inr (if 0 < lmt then take (nat lmt) xs else xs))\<rparr>"

lemma sorted_wrt_take_rev:
  "sorted_wrt (\<lambda>a b. f b \<le> f a) (take n (rev (sort_key f xs)))" for f :: "'x \<Rightarrow> 'b :: linorder"
proof -
  have "sorted_wrt (\<lambda>a b. f b \<le> f a) (rev (sort_key f xs))"
    using sorted_sort_key [of f xs] by (simp add: sorted_wrt_rev sorted_map)
  then show ?thesis by (metis append_take_drop_id sorted_wrt_append)
qed

interpretation mdb: document_store mem_mongo_lib
proof
  show "mg_insert mem_mongo_lib doc m = (m', Inr i) \<Longrightarrow>
      mg_docs mem_mongo_lib m' = mg_docs mem_mongo_lib m @ [doc\<lparr>md_id := i\<rparr>]" for doc m m' i
    by (auto simp: mem_mongo_lib_def Let_def split: if_splits)
  show "mg_insert mem_mongo_lib doc m = (m', Inl e) \<Longrightarrow> mg_docs mem_mongo_lib m' = mg_docs mem_mongo_lib m" for doc m m' e
    by (auto simp: mem_mongo_lib_def Let_def split: if_splits)
  fix source lmt m docs
  assume "mg_find mem_mongo_lib source lmt m = Inr docs"
  moreover define xs where "xs = filter (\<lambda>d. md_source d = source) (mm_docs m)"
  ultimately have d: "docs = (if 0 < lmt then take (nat lmt) (rev (sort_key md_scraped_at xs)) else rev (sort_key md_scraped_at xs))"
    by (auto simp: mem_mongo_lib_def Let_def split: if_splits)
  have "set docs \<subseteq> set xs" using d set_take_subset [of "nat lmt" "rev (sort_key md_scraped_at xs)"] by (auto split: if_splits)
  then show "set docs \<subseteq> {d \<in> set (mg_docs mem_mongo_lib m). md_source d = source} \<and>
      (0 < lmt \<longrightarrow> int (length docs) \<le> lmt) \<and> sorted_wrt (\<lambda>a b. md_scraped_at b \<le> md_scraped_at a) docs"
    using d sorted_wrt_take_rev [of md_scraped_at "length xs" xs] sorted_wrt_take_rev [of md_scraped_at "nat lmt" xs]
    by (auto simp: mem_mongo_lib_def xs_def)
qed

text \<open>
  The response of a scrape counts what was stored. When the endpoint answers, the collection has grown by exactly
  \<open>stored\<close> documents, each with the URL of a scraped item, \<open>stored\<close> is at most \<open>scraped\<close>, and the scraper was asked
  for between 1 and 100 items; an insert that fails, or is rejected by the open circuit, is left out of the count.
\<close>

theorem scrape_counts_stored:
  assumes "document_store M" and "mongo_db ms = Some m"
    and "scrape_source M K v py_repr source lmt (ms, es) = ((ms', es'), Inr r)"
  shows "\<exists>m' new k seen s items. mongo_db ms' = Some m' \<and> mg_docs M m' = mg_docs M m @ new \<and>
    sr_stored r = int (length new) \<and> sr_stored r \<le> sr_scraped r \<and>
    1 \<le> clamp_limit lmt \<and> clamp_limit lmt \<le> 100 \<and>
    se_scrape v k (clamp_limit lmt) seen = (s, Inr items) \<and> sr_scraped r = int (length items) \<and>
    set (map md_url new) \<subseteq> set (map it_url items)"
proof -
  obtain k seen s items where sc: "se_scrape v k (clamp_limit lmt) seen = (s, Inr items)"
    "store_items M v 0 items 0 ms = (ms', Inr (sr_stored r))" "sr_scraped r = int (length items)"
    using assms(3)
    by (auto simp: scrape_source_def split: sum.splits prod.splits) (metis prod.collapse)
  obtain m' where m': "mongo_db ms' = Some m'"
    using store_items_connected [OF sc(2)] assms(2) by blast
  from document_store.store_items_counts [OF assms(1) sc(2)]
  obtain new where "document_store.stored_docs M ms' = document_store.stored_docs M ms @ new"
    "sr_stored r = int (length new)" "length new \<le> length items" "set (map md_url new) \<subseteq> set (map it_url items)"
    by auto
  then show ?thesis
    using sc m' assms(2) by (auto simp: document_store.stored_docs_def [OF assms(1)] clamp_limit_def)
qed

definition demo_item :: "string \<Rightarrow> scraped_item" where
  "demo_item u = \<lparr>it_url = u, it_title = JStr ''t'', it_content = JNull, it_source = ''hn''\<rparr>"

definition demo_scrape_env :: scrape_env where
  "demo_scrape_env =
     \<lparr>se_scrape = (\<lambda>k l seen. (seen, Inr [demo_item ''a'', demo_item ''b''])), se_mono = (\<lambda>n. (of_nat n, of_nat n)),
      se_now = int, se_publish = (9, 9)\<rparr>"

definition demo_mongo :: "mem_mongo mongo_state" where
  "demo_mongo = \<lparr>mongo_db = Some \<lparr>mm_docs = [], mm_up = True\<rparr>, mongo_breaker = new_breaker ''_mongo_insert_one'' 5 30\<rparr>"

theorem scrape_counts_stored_witness:
  "\<exists>ms' es' r m'. scrape_source mem_mongo_lib dead_broker demo_scrape_env id ''hn'' 500 (demo_mongo, connected 0) = ((ms', es'), Inr r) \<and>
     mongo_db ms' = Some m' \<and> sr_stored r = int (length (mm_docs m')) \<and> sr_stored r \<le> sr_scraped r"
proof -
  let ?run = "scrape_source mem_mongo_lib dead_broker demo_scrape_env id ''hn'' 500 (demo_mongo, connected 0)"
  have "\<exists>ms' es' r. ?run = ((ms', es'), Inr r)"
    by (simp add: scrape_source_def create_scraper_def scraper_registry_def demo_scrape_env_def insert_scraped_doc_def
        mongo_insert_one_def breaker_call_def raw_insert_one_def demo_mongo_def mem_mongo_lib_def breaker_ops Let_def
        publish_doc_scraped_def publish_def send_to_kafka_def raw_send_def connected_def dead_broker_def is_Exception_def)
  then obtain ms' es' r where r: "?run = ((ms', es'), Inr r)" by blast
  have "mongo_db demo_mongo = Some \<lparr>mm_docs = [], mm_up = True\<rparr>" by (simp add: demo_mongo_def)
  from scrape_counts_stored [OF mdb.document_store_axioms this r] r show ?thesis
    by (auto simp: mem_mongo_lib_def)
qed

end
