(* ===== verification/Embeddings.thy ===== *)
theory Embeddings
  imports Schemas Json_Access "HOL-Library.AList"
begin

text \<open>
  The embedding module of the AI gateway, \<open>services/ai_gateway/embeddings.py\<close>: the model is loaded on first use and
  \<open>_embed_cached\<close> is wrapped in \<open>functools.lru_cache(maxsize=1000)\<close>. The sentence transformer is a record of
  functions; the cache is the list of its entries, the most recently used first.
\<close>

subsection \<open>\<open>functools.lru_cache\<close>\<close>

text \<open>A list or a dict is not hashable; \<open>True\<close> and \<open>1.0\<close> are one key, an \<open>int\<close> and a \<open>str\<close> are keys by themselves.\<close>

fun hashable :: "json \<Rightarrow> bool" where
  "hashable (JList xs) = False"
| "hashable (JObj kvs) = False"
| "hashable v = True"

fun lru_key :: "json \<Rightarrow> json" where
  "lru_key (JBool b) = JFloat (if b then 1 else 0)"
| "lru_key v = v"

definition lru_touch :: "'k \<Rightarrow> 'v \<Rightarrow> ('k \<times> 'v) list \<Rightarrow> ('k \<times> 'v) list" where
  "lru_touch k v c = (k, v) # AList.delete k c"

definition lru_add :: "nat \<Rightarrow> 'k \<Rightarrow> 'v \<Rightarrow> ('k \<times> 'v) list \<Rightarrow> ('k \<times> 'v) list" where
  "lru_add n k v c = (k, v) # take (n - 1) c"

definition lru_ok :: "nat \<Rightarrow> ('k \<times> 'v) list \<Rightarrow> bool" where
  "lru_ok n c \<longleftrightarrow> distinct (map fst c) \<and> length c \<le> n"

text \<open>\<open>k\<close> is in the cache, behind entries for keys of \<open>S\<close> only.\<close>

definition behind :: "'k set \<Rightarrow> 'k \<Rightarrow> 'v \<Rightarrow> ('k \<times> 'v) list \<Rightarrow> bool" where
  "behind S k v c \<longleftrightarrow> (\<exists>xs ys. c = xs @ (k, v) # ys \<and> fst ` set xs \<subseteq> S \<and> k \<notin> fst ` set xs)"

lemma delete_length: "map_of c k = Some v \<Longrightarrow> Suc (length (AList.delete k c)) \<le> length c"
proof (induction c)
  case (Cons x c)
  then show ?case using AList.length_delete_le [of k c] by (cases x) (auto split: if_splits)
qed simp

lemma lru_ok_touch: "lru_ok n c \<Longrightarrow> map_of c k = Some v \<Longrightarrow> lru_ok n (lru_touch k v c)"
  using delete_length [of c k v] AList.delete_notin_dom [of k c]
  by (auto simp: lru_ok_def lru_touch_def AList.distinct_delete)

lemma lru_ok_add: "lru_ok n c \<Longrightarrow> 0 < n \<Longrightarrow> map_of c k = None \<Longrightarrow> lru_ok n (lru_add n k v c)"
  by (auto simp: lru_ok_def lru_add_def map_of_eq_None_iff take_map [symmetric] dest: in_set_takeD)

lemma lru_touch_set: "map_of c k = Some v \<Longrightarrow> set (lru_touch k v c) \<subseteq> set c"
  by (auto simp: lru_touch_def AList.delete_eq dest: map_of_SomeD)

lemma behind_front: "behind S k v (lru_touch k v c)" "behind S k v (lru_add n k v c)"
  by (fastforce simp: behind_def lru_touch_def lru_add_def)+

lemma behind_touch:
  assumes "behind S k v c" and "j \<noteq> k"
  shows "behind (insert j S) k v (lru_touch j w c)"
proof -
  obtain xs ys where c: "c = xs @ (k, v) # ys" "fst ` set xs \<subseteq> S" "k \<notin> fst ` set xs"
    using assms(1) by (auto simp: behind_def)
  have "lru_touch j w c = ((j, w) # AList.delete j xs) @ (k, v) # AList.delete j ys"
    using assms(2) by (simp add: lru_touch_def c(1) AList.delete_eq)
  moreover have "set (AList.delete j xs) \<subseteq> set xs" by (auto simp: AList.delete_eq)
  ultimately show ?thesis unfolding behind_def using c(2,3) assms(2)
    by (intro exI [of _ "(j, w) # AList.delete j xs"] exI [of _ "AList.delete j ys"]) auto
qed

lemma behind_add:
  assumes "behind S k v c" and "lru_ok n c" and "map_of c j = None" and "finite S" and "j \<in> S" and "card S < n"
  shows "behind S k v (lru_add n j w c)"
proof -
  obtain xs ys where c: "c = xs @ (k, v) # ys" "fst ` set xs \<subseteq> S" "k \<notin> fst ` set xs"
    using assms(1) by (auto simp: behind_def)
  have j: "j \<notin> fst ` set xs" "j \<noteq> k" using assms(3) by (auto simp: c(1) map_of_eq_None_iff)
  have "distinct (map fst xs)" using assms(2) by (simp add: lru_ok_def c(1))
  then have "length xs = card (fst ` set xs)" by (metis distinct_card length_map set_map)
  also have "\<dots> < card (insert j (fst ` set xs))" using j(1) by simp
  also have "\<dots> \<le> card S" using c(2) assms(4,5) by (intro card_mono) auto
  finally have "length xs < n - 1" using assms(6) by simp
  then obtain d where "n - 1 = Suc (length xs + d)" using less_imp_Suc_add by blast
  then have "lru_add n j w c = ((j, w) # xs) @ (k, v) # take d ys" by (simp add: lru_add_def c(1))
  then show ?thesis unfolding behind_def using c(2,3) j assms(5)
    by (intro exI [of _ "(j, w) # xs"] exI [of _ "take d ys"]) auto
qed

lemma behind_mono: "behind S k v c \<Longrightarrow> S \<subseteq> T \<Longrightarrow> behind T k v c"
  unfolding behind_def by (elim exE conjE) (intro exI conjI, auto)

lemma behind_lookup: "behind S k v c \<Longrightarrow> lru_ok n c \<Longrightarrow> map_of c k = Some v"
  by (auto simp: behind_def lru_ok_def)

subsection \<open>The model behind the cache\<close>

text \<open>
  \<open>md_load n\<close> is the outcome of loading the model for the \<open>n\<close>-th time, \<open>md_encode\<close> the model's \<open>encode\<close>. The last
  field of the state is the list of all calls of \<open>encode\<close>.
\<close>

record model =
  md_load :: "nat \<Rightarrow> unit outcome"
  md_encode :: "json \<Rightarrow> rat list outcome"

record embedder =
  em_loaded :: bool
  em_loads :: nat
  em_cache :: "(json \<times> rat list) list"
  em_encoded :: "json list"

definition new_embedder :: embedder where
  "new_embedder = \<lparr>em_loaded = False, em_loads = 0, em_cache = [], em_encoded = []\<rparr>"

definition EMBEDDING_DIM :: nat where
  "EMBEDDING_DIM = 384"

definition EMBED_CACHE_SIZE :: nat where
  "EMBED_CACHE_SIZE = 1000"

definition get_model :: "model \<Rightarrow> embedder \<Rightarrow> embedder \<times> unit outcome" where
  "get_model m e =
     (if em_loaded e then (e, Inr ())
      else (case md_load m (em_loads e) of
              Inl x \<Rightarrow> (e\<lparr>em_loads := Suc (em_loads e)\<rparr>, Inl x)
            | Inr _ \<Rightarrow> (e\<lparr>em_loads := Suc (em_loads e), em_loaded := True\<rparr>, Inr ())))"

text \<open>The body of \<open>_embed_cached\<close>, and the wrapped function; an exception is not cached.\<close>

definition embed_uncached :: "model \<Rightarrow> json \<Rightarrow> embedder \<Rightarrow> embedder \<times> rat list outcome" where
  "embed_uncached m t e =
     (case get_model m e of
        (e1, Inl x) \<Rightarrow> (e1, Inl x)
      | (e1, Inr _) \<Rightarrow> (e1\<lparr>em_encoded := em_encoded e1 @ [t]\<rparr>, md_encode m t))"

definition embed_text :: "model \<Rightarrow> json \<Rightarrow> embedder \<Rightarrow> embedder \<times> rat list outcome" where
  "embed_text m t e =
     (if \<not> hashable t then (e, Inl (TypeError (''unhashable type: '' @ type_name t)))
      else (case map_of (em_cache e) (lru_key t) of
              Some v \<Rightarrow> (e\<lparr>em_cache := lru_touch (lru_key t) v (em_cache e)\<rparr>, Inr v)
            | None \<Rightarrow>
                (case embed_uncached m t e of
                   (e1, Inl x) \<Rightarrow> (e1, Inl x)
                 | (e1, Inr v) \<Rightarrow>
                     (e1\<lparr>em_cache := lru_add EMBED_CACHE_SIZE (lru_key t) v (em_cache e1)\<rparr>, Inr v))))"

fun embed_batch :: "model \<Rightarrow> json list \<Rightarrow> embedder \<Rightarrow> embedder \<times> rat list list outcome" where
  "embed_batch m [] e = (e, Inr [])"
| "embed_batch m (t # ts) e =
     (case embed_text m t e of
        (e1, Inl x) \<Rightarrow> (e1, Inl x)
      | (e1, Inr v) \<Rightarrow> (case embed_batch m ts e1 of (e2, r) \<Rightarrow> (e2, map_sum id ((#) v) r)))"

definition get_embedding_dimension :: nat where
  "get_embedding_dimension = EMBEDDING_DIM"

text \<open>Any earlier requests.\<close>

definition embed_all :: "model \<Rightarrow> json list \<Rightarrow> embedder \<Rightarrow> embedder" where
  "embed_all m ts e = fold (\<lambda>t e. fst (embed_text m t e)) ts e"

subsection \<open>The cache is transparent\<close>

definition embedder_ok :: "model \<Rightarrow> embedder \<Rightarrow> bool" where
  "embedder_ok m e \<longleftrightarrow> lru_ok EMBED_CACHE_SIZE (em_cache e) \<and>
     (\<forall>(k, v) \<in> set (em_cache e). \<forall>t. k = JStr t \<longrightarrow> md_encode m (JStr t) = Inr v)"

text \<open>What the gateway relies on in the sentence transformer: it can be loaded.\<close>

locale embedding_model =
  fixes m :: model
  assumes loads: "md_load m n = Inr ()"
begin

lemma get_model_ok:
  obtains e1 where "get_model m e = (e1, Inr ())" "em_cache e1 = em_cache e" "em_encoded e1 = em_encoded e"
  by (cases "em_loaded e") (auto simp: get_model_def loads)

lemma embed_uncached_ok:
  obtains e1 where "embed_uncached m t e = (e1, md_encode m t)" "em_cache e1 = em_cache e"
    "em_encoded e1 = em_encoded e @ [t]"
  by (rule get_model_ok [of e]) (auto simp: embed_uncached_def)

lemma lru_key_str: "lru_key t = JStr s \<longleftrightarrow> t = JStr s"
  by (cases t) auto

lemma embed_text_str:
  assumes "embedder_ok m e"
  shows "snd (embed_text m (JStr s) e) = md_encode m (JStr s)"
proof (cases "map_of (em_cache e) (JStr s)")
  case None
  obtain e1 where "embed_uncached m (JStr s) e = (e1, md_encode m (JStr s))" by (rule embed_uncached_ok)
  then show ?thesis using None by (simp add: embed_text_def split: sum.split)
next
  case (Some v)
  then have "md_encode m (JStr s) = Inr v" using assms by (force simp: embedder_ok_def dest: map_of_SomeD)
  then show ?thesis using Some by (simp add: embed_text_def)
qed

lemma embed_text_ok:
  assumes "embedder_ok m e"
  shows "embedder_ok m (fst (embed_text m t e))"
proof (cases "hashable t")
  case True
  show ?thesis
  proof (cases "map_of (em_cache e) (lru_key t)")
    case None
    obtain e1 where e1: "embed_uncached m t e = (e1, md_encode m t)" "em_cache e1 = em_cache e" by (rule embed_uncached_ok)
    show ?thesis
    proof (cases "md_encode m t")
      case (Inr v)
      have "lru_ok EMBED_CACHE_SIZE (lru_add EMBED_CACHE_SIZE (lru_key t) v (em_cache e))"
        using assms None by (intro lru_ok_add) (auto simp: embedder_ok_def EMBED_CACHE_SIZE_def)
      then show ?thesis using assms None True e1 Inr
        by (auto simp: embed_text_def embedder_ok_def lru_add_def lru_key_str dest: in_set_takeD)
    qed (use assms None True e1 in \<open>simp add: embed_text_def embedder_ok_def\<close>)
  next
    case (Some v)
    have "\<forall>(k, v) \<in> set (lru_touch (lru_key t) v (em_cache e)). \<forall>t. k = JStr t \<longrightarrow> md_encode m (JStr t) = Inr v"
      using assms lru_touch_set [OF Some] unfolding embedder_ok_def by blast
    then show ?thesis using assms True Some lru_ok_touch [OF _ Some] by (simp add: embed_text_def embedder_ok_def)
  qed
qed (use assms in \<open>simp add: embed_text_def\<close>)

lemma embed_all_ok: "embedder_ok m e \<Longrightarrow> embedder_ok m (embed_all m ts e)"
  by (induction ts arbitrary: e) (auto simp: embed_all_def embed_text_ok)

lemma embed_batch_ok: "embedder_ok m e \<Longrightarrow> embedder_ok m (fst (embed_batch m ts e))"
proof (induction ts arbitrary: e)
  case (Cons t ts)
  obtain e1 r where t: "embed_text m t e = (e1, r)" by (cases "embed_text m t e")
  then have "embedder_ok m e1" using embed_text_ok [OF Cons.prems, of t] by simp
  then show ?case using Cons.IH [of e1] by (cases r) (auto simp: t split: prod.split)
qed simp

lemma embed_batch_str:
  "embedder_ok m e \<Longrightarrow> snd (embed_batch m (map JStr ss) e) = traverse (\<lambda>s. md_encode m (JStr s)) ss"
proof (induction ss arbitrary: e)
  case (Cons s ss)
  obtain e1 r where s: "embed_text m (JStr s) e = (e1, r)" by (cases "embed_text m (JStr s) e")
  have "r = md_encode m (JStr s)" and "embedder_ok m e1"
    using embed_text_str [OF Cons.prems, of s] embed_text_ok [OF Cons.prems, of "JStr s"] by (simp_all add: s)
  then show ?case using Cons.IH [of e1] by (auto simp: s traverse_def split: prod.split sum.split)
qed (simp add: traverse_def)

lemma embed_text_behind:
  assumes "embedder_ok m e" and "behind S (JStr s) v (em_cache e)" and "finite S" and "lru_key t \<in> insert (JStr s) S"
    and "card S < EMBED_CACHE_SIZE" and "JStr s \<notin> S"
  shows "behind S (JStr s) v (em_cache (fst (embed_text m t e)))"
proof (cases "hashable t")
  case True
  have ok: "lru_ok EMBED_CACHE_SIZE (em_cache e)" using assms(1) by (simp add: embedder_ok_def)
  show ?thesis
  proof (cases "map_of (em_cache e) (lru_key t)")
    case None
    then have t: "lru_key t \<in> S" using assms(4) behind_lookup [OF assms(2) ok] by auto
    obtain e1 where "embed_uncached m t e = (e1, md_encode m t)" "em_cache e1 = em_cache e" by (rule embed_uncached_ok)
    then show ?thesis using behind_add [OF assms(2) ok None assms(3) t assms(5)] assms(2) True None
      by (auto simp: embed_text_def split: sum.split)
  next
    case (Some w)
    show ?thesis
    proof (cases "lru_key t = JStr s")
      case True
      then have "w = v" using Some behind_lookup [OF assms(2) ok] by simp
      then show ?thesis using Some True \<open>hashable t\<close> behind_front(1) by (auto simp: embed_text_def)
    next
      case False
      then have "behind (insert (lru_key t) S) (JStr s) v (lru_touch (lru_key t) w (em_cache e))"
        by (intro behind_touch assms(2)) auto
      then show ?thesis using Some True False assms(4) by (auto simp: embed_text_def insert_absorb)
    qed
  qed
qed (use assms(2) in \<open>simp add: embed_text_def\<close>)

lemma embed_all_behind:
  assumes "embedder_ok m e" and "behind S (JStr s) v (em_cache e)" and "finite S" and "lru_key ` set ts \<subseteq> insert (JStr s) S"
    and "card S < EMBED_CACHE_SIZE" and "JStr s \<notin> S"
  shows "behind S (JStr s) v (em_cache (embed_all m ts e))"
  using assms
proof (induction ts arbitrary: e)
  case (Cons t ts)
  have "embed_all m (t # ts) e = embed_all m ts (fst (embed_text m t e))" by (simp add: embed_all_def)
  moreover have "behind S (JStr s) v (em_cache (fst (embed_text m t e)))"
    using Cons.prems by (intro embed_text_behind) auto
  ultimately show ?case using Cons.IH [OF embed_text_ok [OF Cons.prems(1)]] Cons.prems by simp
qed (simp add: embed_all_def)

end

definition text_vector :: "model \<Rightarrow> string \<Rightarrow> rat list" where
  "text_vector m s = (case md_encode m (JStr s) of Inr v \<Rightarrow> v | Inl e \<Rightarrow> [])"

text \<open>A model that encodes every string, in the dimension that the gateway creates its collections with.\<close>

locale text_model = embedding_model +
  assumes encodes: "\<exists>v. md_encode m (JStr s) = Inr v \<and> length v = EMBEDDING_DIM"
begin

lemma encode_vec: "md_encode m (JStr s) = Inr (text_vector m s)" and length_vec: "length (text_vector m s) = EMBEDDING_DIM"
  using encodes [of s] by (auto simp: text_vector_def)

lemma traverse_encode: "traverse (\<lambda>s. md_encode m (JStr s)) ss = Inr (map (text_vector m) ss)"
  by (induction ss) (auto simp: traverse_def encode_vec)

lemma embed_batch_vectors:
  assumes "embedder_ok m e"
  obtains e1 where "embed_batch m (map JStr ss) e = (e1, Inr (map (text_vector m) ss))" "embedder_ok m e1"
  using embed_batch_str [OF assms, of ss] embed_batch_ok [OF assms, of "map JStr ss"]
  by (cases "embed_batch m (map JStr ss) e") (auto simp: traverse_encode)

lemma embed_text_vector:
  assumes "embedder_ok m e"
  obtains e1 where "embed_text m (JStr s) e = (e1, Inr (text_vector m s))" "embedder_ok m e1"
  using embed_text_str [OF assms, of s] embed_text_ok [OF assms, of "JStr s"]
  by (cases "embed_text m (JStr s) e") (auto simp: encode_vec)

end

text \<open>A model that encodes a text by its length.\<close>

fun length_encode :: "json \<Rightarrow> rat list outcome" where
  "length_encode (JStr s) = Inr (replicate EMBEDDING_DIM (of_nat (length s)))"
| "length_encode v = Inl (TypeError ''text input must be of type str'')"

definition length_model :: model where
  "length_model = \<lparr>md_load = (\<lambda>n. Inr ()), md_encode = length_encode\<rparr>"

interpretation lm: text_model length_model
  by unfold_locales (simp_all add: length_model_def)

lemma new_embedder_ok: "embedder_ok m new_embedder"
  by (simp add: embedder_ok_def new_embedder_def lru_ok_def)

text \<open>
  The cache is transparent. After any earlier requests, embedding a batch of strings gives what the model gives for
  each of them, in order, up to the first exception, and the cache never holds more than 1000 entries.
\<close>

theorem embed_batch_transparent:
  assumes "embedding_model m"
  shows "snd (embed_batch m (map JStr ss) (embed_all m past new_embedder)) = traverse (\<lambda>s. md_encode m (JStr s)) ss \<and>
    length (em_cache (fst (embed_batch m ts (embed_all m past new_embedder)))) \<le> 1000"
proof -
  note ok = embedding_model.embed_all_ok [OF assms new_embedder_ok]
  show ?thesis using embedding_model.embed_batch_str [OF assms ok] embedding_model.embed_batch_ok [OF assms ok, of ts past]
    by (simp add: embedder_ok_def lru_ok_def EMBED_CACHE_SIZE_def)
qed

theorem embed_batch_transparent_witness:
  "snd (embed_batch length_model [JStr ''ab'', JStr ''abc''] (embed_all length_model [JStr ''ab'', JInt 3] new_embedder)) =
     Inr [replicate 384 2, replicate 384 3]"
  using embed_batch_transparent [OF lm.embedding_model_axioms, of "[''ab'', ''abc'']" "[JStr ''ab'', JInt 3]" "[]"]
  by (simp add: traverse_def length_model_def EMBEDDING_DIM_def)

text \<open>
  C36. A text is not encoded again soon. After a successful embedding of a string, any further texts with fewer than 1000
  keys other than its own leave it in the cache: embedding it again gives the same vector without a call of the model.
\<close>

theorem recent_text_cached:
  assumes "embedding_model m" and "embed_text m (JStr s) (embed_all m past new_embedder) = (e1, Inr v)"
    and "card (lru_key ` set ts - {JStr s}) < 1000"
  shows "snd (embed_text m (JStr s) (embed_all m ts e1)) = Inr v \<and>
    em_encoded (fst (embed_text m (JStr s) (embed_all m ts e1))) = em_encoded (embed_all m ts e1)"
proof -
  let ?S = "lru_key ` set ts - {JStr s}"
  have e1: "e1 = fst (embed_text m (JStr s) (embed_all m past new_embedder))" by (simp add: assms(2))
  have ok: "embedder_ok m e1"
    unfolding e1 by (intro embedding_model.embed_text_ok [OF assms(1)] embedding_model.embed_all_ok [OF assms(1)] new_embedder_ok)
  have "behind ?S (JStr s) v (em_cache e1)"
    using assms(2) by (auto simp: embed_text_def behind_front split: option.splits prod.splits sum.splits)
  then have "behind ?S (JStr s) v (em_cache (embed_all m ts e1))"
    by (rule embedding_model.embed_all_behind [OF assms(1) ok]) (use assms(3) in \<open>auto simp: EMBED_CACHE_SIZE_def\<close>)
  moreover have "lru_ok EMBED_CACHE_SIZE (em_cache (embed_all m ts e1))"
    using embedding_model.embed_all_ok [OF assms(1) ok] by (simp add: embedder_ok_def)
  ultimately have "map_of (em_cache (embed_all m ts e1)) (JStr s) = Some v" by (rule behind_lookup)
  then show ?thesis by (simp add: embed_text_def)
qed

theorem recent_text_cached_witness:
  "em_encoded (fst (embed_text length_model (JStr ''a'') (embed_all length_model [JStr ''b'', JStr ''a'']
     (fst (embed_text length_model (JStr ''a'') (embed_all length_model [] new_embedder)))))) = [JStr ''a'', JStr ''b'']"
proof -
  let ?e = "fst (embed_text length_model (JStr ''a'') (embed_all length_model [] new_embedder))"
  have e: "embed_text length_model (JStr ''a'') (embed_all length_model [] new_embedder) = (?e, Inr (replicate EMBEDDING_DIM 1))"
    by (simp add: embed_all_def new_embedder_def embed_text_def embed_uncached_def get_model_def length_model_def)
  have "card (lru_key ` set [JStr ''b'', JStr ''a''] - {JStr ''a''}) < 1000"
  proof -
    have "lru_key ` set [JStr ''b'', JStr ''a''] - {JStr ''a''} = {JStr ''b''}" by auto
    then show ?thesis by (simp only: card.insert finite.emptyI empty_iff if_False card.empty not_False_eq_True)
  qed
  from recent_text_cached [OF lm.embedding_model_axioms e this] show ?thesis
    by (simp add: embed_all_def new_embedder_def embed_text_def embed_uncached_def get_model_def length_model_def
        lru_add_def lru_touch_def EMBED_CACHE_SIZE_def)
qed

end
