(* ===== verification/AI_Gateway.thy ===== *)
theory AI_Gateway
  imports Embeddings
begin

text \<open>
  The AI gateway: the vector store wrapper \<open>services/ai_gateway/vector_store.py\<close> and the service
  \<open>services/ai_gateway/main.py\<close> over the embeddings. The Qdrant client is a record of functions; the locale
  \<open>vector_db\<close> states what the code relies on, and a store in memory satisfies it. For the cosine distance that the code asks
  for, Qdrant keeps a normalised copy of each vector; the view of a collection shows the vectors as they were uploaded.
\<close>

subsection \<open>The Qdrant client\<close>

datatype point_id = IntId int | UuidId string

type_synonym payload = "(string \<times> json) list"

record point =
  pt_id :: point_id
  pt_vector :: "rat list"
  pt_payload :: payload

record hit =
  ht_id :: point_id
  ht_score :: rat
  ht_payload :: payload

record collection_info =
  ci_points :: int
  ci_vectors :: "int option"

datatype distance = Cosine | Euclid | Dot | Manhattan

record stored_collection =
  co_dim :: nat
  co_distance :: distance
  co_points :: "point_id \<Rightarrow> (rat list \<times> payload) option"

text \<open>
  \<open>qd_query\<close> is \<open>query_points\<close>: \<open>qa_query\<close> is its argument \<open>query\<close>, \<open>qa_unknown\<close> are the keyword arguments that it does not have;
  its answer is the field \<open>points\<close> of the response. \<open>qd_point\<close>, \<open>qd_match\<close> and \<open>qd_range\<close> are the validations of \<open>PointStruct\<close>, of \<open>FieldCondition\<close> with
  \<open>MatchValue\<close> and with \<open>Range\<close>, \<open>qd_and\<close> is the operator \<open>&\<close> on conditions; \<open>qd_view\<close> is what the server holds.
\<close>

record 'f query_args =
  qa_collection :: string
  qa_query :: "rat list option"
  qa_filter :: "'f option"
  qa_limit :: int
  qa_unknown :: "(string \<times> rat list) list"

record ('f, 'q) qdrant =
  qd_open :: "string \<Rightarrow> 'q outcome"
  qd_get :: "string \<Rightarrow> 'q \<Rightarrow> collection_info outcome"
  qd_create :: "string \<Rightarrow> nat \<times> distance \<Rightarrow> 'q \<Rightarrow> 'q \<times> unit outcome"
  qd_upsert :: "string \<Rightarrow> point list \<Rightarrow> 'q \<Rightarrow> 'q \<times> unit outcome"
  qd_query :: "'f query_args \<Rightarrow> 'q \<Rightarrow> hit list outcome"
  qd_delete :: "string \<Rightarrow> point_id list \<Rightarrow> 'q \<Rightarrow> 'q \<times> unit outcome"
  qd_point :: "json \<Rightarrow> point_id outcome"
  qd_match :: "json \<Rightarrow> json \<Rightarrow> 'f outcome"
  qd_range :: "json \<Rightarrow> json \<Rightarrow> json \<Rightarrow> json \<Rightarrow> json \<Rightarrow> 'f outcome"
  qd_and :: "'f \<Rightarrow> 'f \<Rightarrow> 'f outcome"
  qd_view :: "'q \<Rightarrow> string \<Rightarrow> stored_collection option"

subsection \<open>\<open>VectorStore\<close>\<close>

definition ensure_collection :: "('f, 'q) qdrant \<Rightarrow> string \<Rightarrow> nat option \<Rightarrow> 'q \<Rightarrow> 'q \<times> unit outcome" where
  "ensure_collection Q collection vector_size q =
     (let n = (case vector_size of None \<Rightarrow> get_embedding_dimension | Some n \<Rightarrow> n)
      in (case qd_get Q collection q of
            Inr i \<Rightarrow> (q, Inr ())
          | Inl e \<Rightarrow> if is_Exception e then qd_create Q collection (n, Cosine) q else (q, Inl e)))"

definition upsert_points ::
  "('f, 'q) qdrant \<Rightarrow> string \<Rightarrow> (json \<times> rat list \<times> payload) list \<Rightarrow> 'q \<Rightarrow> 'q \<times> unit outcome"
where
  "upsert_points Q collection embeddings q =
     (case traverse (\<lambda>(i, v, p). map_sum id (\<lambda>pid. \<lparr>pt_id = pid, pt_vector = v, pt_payload = p\<rparr>) (qd_point Q i)) embeddings of
        Inl e \<Rightarrow> (q, Inl e)
      | Inr points \<Rightarrow> qd_upsert Q collection points q)"

text \<open>
  \<open>search\<close> passes its vector under a name that \<open>query_points\<close> does not have, and iterates over the response: a pydantic model,
  whose iterator yields a pair of name and value for each field, so that \<open>result.id\<close> is an attribute of a tuple.
\<close>

definition tuple_attribute :: "string \<Rightarrow> string \<times> 'a \<Rightarrow> 'b outcome" where
  "tuple_attribute name field = Inl (AttributeError (quoted ''tuple'' @ '' object has no attribute '' @ quoted name))"

definition vs_search :: "('f, 'q) qdrant \<Rightarrow> string \<Rightarrow> rat list \<Rightarrow> int \<Rightarrow> 'f option \<Rightarrow> 'q \<Rightarrow> hit list outcome" where
  "vs_search Q collection query_vector top_k filters q =
     try_bind (qd_query Q \<lparr>qa_collection = collection, qa_query = None, qa_filter = filters, qa_limit = top_k,
                           qa_unknown = [(''query_vector'', query_vector)]\<rparr> q) (\<lambda>points.
       traverse (tuple_attribute ''id'') [(''points'', points)])"

definition delete_points :: "('f, 'q) qdrant \<Rightarrow> string \<Rightarrow> point_id list \<Rightarrow> 'q \<Rightarrow> 'q \<times> unit outcome" where
  "delete_points Q collection point_ids q = qd_delete Q collection point_ids q"

definition get_info :: "('f, 'q) qdrant \<Rightarrow> string \<Rightarrow> 'q \<Rightarrow> (int \<times> int option) outcome" where
  "get_info Q collection q = map_sum id (\<lambda>i. (ci_points i, ci_vectors i)) (qd_get Q collection q)"

subsection \<open>Filters\<close>

definition build_field_condition :: "('f, 'q) qdrant \<Rightarrow> (json \<Rightarrow> string) \<Rightarrow> json \<Rightarrow> 'f outcome" where
  "build_field_condition Q py_repr cond =
     try_bind (py_get cond ''key'') (\<lambda>key.
       if \<not> truthy key then Inl (ValueError ''Filter condition must have 'key' field'')
       else (case cond of
               JObj kvs \<Rightarrow>
                 (case obj_get ''match'' kvs of
                    Some v \<Rightarrow> qd_match Q key v
                  | None \<Rightarrow>
                      (case obj_get ''range'' kvs of
                         Some spec \<Rightarrow>
                           try_bind (py_get spec ''gte'') (\<lambda>gte. try_bind (py_get spec ''lte'') (\<lambda>lte.
                           try_bind (py_get spec ''gt'') (\<lambda>gt. try_bind (py_get spec ''lt'') (\<lambda>lt.
                             qd_range Q key gte lte gt lt))))
                       | None \<Rightarrow> Inl (ValueError (''Unsupported filter condition: '' @ py_repr cond))))
             | _ \<Rightarrow> Inl (ValueError (''Unsupported filter condition: '' @ py_repr cond))))"

text \<open>The conditions of one section of the client's dict.\<close>

definition section_conditions ::
  "('f, 'q) qdrant \<Rightarrow> (json \<Rightarrow> string) \<Rightarrow> string \<Rightarrow> payload \<Rightarrow> 'f list outcome"
where
  "section_conditions Q py_repr name filter_dict =
     (case obj_get name filter_dict of
        None \<Rightarrow> Inr []
      | Some v \<Rightarrow> try_bind (iter_json v) (traverse (build_field_condition Q py_repr)))"

fun conjoin :: "('f, 'q) qdrant \<Rightarrow> 'f \<Rightarrow> 'f list \<Rightarrow> 'f outcome" where
  "conjoin Q acc [] = Inr acc"
| "conjoin Q acc (c # cs) = try_bind (qd_and Q acc c) (\<lambda>acc'. conjoin Q acc' cs)"

definition dict_to_qdrant_filter ::
  "('f, 'q) qdrant \<Rightarrow> (json \<Rightarrow> string) \<Rightarrow> payload option \<Rightarrow> 'f option outcome"
where
  "dict_to_qdrant_filter Q py_repr filter_dict =
     (case filter_dict of
        None \<Rightarrow> Inr None
      | Some d \<Rightarrow>
          if d = [] then Inr None
          else try_bind (section_conditions Q py_repr ''must'' d) (\<lambda>must.
               try_bind (section_conditions Q py_repr ''must_not'' d) (\<lambda>must_not.
               try_bind (section_conditions Q py_repr ''should'' d) (\<lambda>should.
                 (case must @ must_not @ should of
                    [] \<Rightarrow> Inr None
                  | c # cs \<Rightarrow> map_sum id Some (conjoin Q c cs))))))"

subsection \<open>The service\<close>

record 'q gateway =
  gw_embedder :: embedder
  gw_store :: "'q option"

definition initial_gateway :: "'q gateway" where
  "initial_gateway = \<lparr>gw_embedder = new_embedder, gw_store = None\<rparr>"

definition COLLECTION_NAME :: string where
  "COLLECTION_NAME = ''documents''"

text \<open>Startup: the global is set last.\<close>

definition gateway_startup :: "('f, 'q) qdrant \<Rightarrow> string \<Rightarrow> 'q gateway \<Rightarrow> 'q gateway \<times> unit outcome" where
  "gateway_startup Q url g =
     (case qd_open Q url of
        Inl e \<Rightarrow> (g, Inl e)
      | Inr q \<Rightarrow>
          (case ensure_collection Q COLLECTION_NAME None q of
             (q1, Inl e) \<Rightarrow> (g, Inl e)
           | (q1, Inr _) \<Rightarrow> (g\<lparr>gw_store := Some q1\<rparr>, Inr ())))"

definition store_missing :: py_exn where
  "store_missing = HTTPException 503 ''Vector store not initialized''"

definition gateway_health :: "'q gateway \<Rightarrow> (string \<times> bool) outcome" where
  "gateway_health g = (case gw_store g of None \<Rightarrow> Inl store_missing | Some q \<Rightarrow> Inr (''ok'', True))"

text \<open>The handler \<open>except Exception\<close> of the endpoints.\<close>

definition or_500 :: "string \<Rightarrow> 'a outcome \<Rightarrow> 'a outcome" where
  "or_500 detail r = (case r of Inl e \<Rightarrow> Inl (if is_Exception e then HTTPException 500 detail else e) | Inr v \<Rightarrow> Inr v)"

text \<open>What FastAPI accepts as a request.\<close>

definition valid_embed :: "string \<Rightarrow> bool" where
  "valid_embed t \<longleftrightarrow> 1 \<le> length t"

definition valid_embed_batch :: "string list \<Rightarrow> bool" where
  "valid_embed_batch ts \<longleftrightarrow> 1 \<le> length ts \<and> length ts \<le> 100"

definition gateway_embed :: "model \<Rightarrow> string \<Rightarrow> 'q gateway \<Rightarrow> 'q gateway \<times> (rat list \<times> int) outcome" where
  "gateway_embed m t g =
     (if \<not> valid_embed t then (g, Inl unprocessable)
      else (case embed_text m (JStr t) (gw_embedder g) of
              (e1, r) \<Rightarrow> (g\<lparr>gw_embedder := e1\<rparr>,
                         or_500 ''Failed to embed text'' (map_sum id (\<lambda>v. (v, int (length v))) r))))"

definition gateway_embed_batch ::
  "model \<Rightarrow> string list \<Rightarrow> 'q gateway \<Rightarrow> 'q gateway \<times> (rat list list \<times> int) outcome"
where
  "gateway_embed_batch m ts g =
     (if \<not> valid_embed_batch ts then (g, Inl unprocessable)
      else (case embed_batch m (map JStr ts) (gw_embedder g) of
              (e1, r) \<Rightarrow> (g\<lparr>gw_embedder := e1\<rparr>,
                         or_500 ''Failed to embed batch'' (map_sum id (\<lambda>vs. (vs, int (length vs))) r))))"

record index_request =
  ix_documents :: "payload list"
  ix_collection :: string

definition valid_index_request :: "index_request \<Rightarrow> bool" where
  "valid_index_request r \<longleftrightarrow> 1 \<le> length (ix_documents r) \<and> length (ix_documents r) \<le> 1000"

text \<open>One point: the document's id, its embedding, and its text merged with its metadata.\<close>

definition document_point :: "payload \<Rightarrow> rat list \<Rightarrow> (json \<times> rat list \<times> payload) outcome" where
  "document_point d v =
     try_bind (py_subscript (JObj d) ''id'') (\<lambda>i.
     try_bind (py_subscript (JObj d) ''text'') (\<lambda>t.
     try_bind (py_get_default (JObj d) ''metadata'' (JObj [])) (\<lambda>metadata.
     try_bind (dict_merge [(''text'', t)] metadata) (\<lambda>p. Inr (i, v, p)))))"

definition index_documents ::
  "('f, 'q) qdrant \<Rightarrow> model \<Rightarrow> index_request \<Rightarrow> 'q \<Rightarrow> embedder \<Rightarrow> ('q \<times> embedder) \<times> unit outcome"
where
  "index_documents Q m r q e =
     (case ensure_collection Q (ix_collection r) None q of
        (q1, Inl x) \<Rightarrow> ((q1, e), Inl x)
      | (q1, Inr _) \<Rightarrow>
          (case traverse (\<lambda>d. py_subscript (JObj d) ''text'') (ix_documents r) of
             Inl x \<Rightarrow> ((q1, e), Inl x)
           | Inr texts \<Rightarrow>
               (case embed_batch m texts e of
                  (e1, Inl x) \<Rightarrow> ((q1, e1), Inl x)
                | (e1, Inr vs) \<Rightarrow>
                    (case traverse (\<lambda>(d, v). document_point d v) (zip (ix_documents r) vs) of
                       Inl x \<Rightarrow> ((q1, e1), Inl x)
                     | Inr points \<Rightarrow>
                         (case upsert_points Q (ix_collection r) points q1 of (q2, out) \<Rightarrow> ((q2, e1), out))))))"

definition gateway_index ::
  "('f, 'q) qdrant \<Rightarrow> model \<Rightarrow> index_request \<Rightarrow> 'q gateway \<Rightarrow> 'q gateway \<times> (int \<times> string) outcome"
where
  "gateway_index Q m r g =
     (if \<not> valid_index_request r then (g, Inl unprocessable)
      else (case gw_store g of
              None \<Rightarrow> (g, Inl store_missing)
            | Some q \<Rightarrow>
                (case index_documents Q m r q (gw_embedder g) of
                   ((q1, e1), out) \<Rightarrow>
                     (\<lparr>gw_embedder = e1, gw_store = Some q1\<rparr>,
                      or_500 ''Failed to index documents''
                        (map_sum id (\<lambda>_. (int (length (ix_documents r)), ix_collection r)) out)))))"

record search_request =
  sq_query :: string
  sq_top_k :: int
  sq_collection :: string
  sq_filters :: "payload option"

definition valid_search_request :: "search_request \<Rightarrow> bool" where
  "valid_search_request r \<longleftrightarrow> 1 \<le> length (sq_query r) \<and> 1 \<le> sq_top_k r \<and> sq_top_k r \<le> 100"

record search_result =
  sr_id :: int
  sr_score :: rat
  sr_metadata :: payload

record search_response =
  sp_results :: "search_result list"
  sp_count :: int
  sp_query :: string

text \<open>\<open>SearchResult(id=...)\<close> takes integers only.\<close>

definition result_of :: "hit \<Rightarrow> search_result outcome" where
  "result_of h =
     (case ht_id h of
        IntId i \<Rightarrow> Inr \<lparr>sr_id = i, sr_score = ht_score h, sr_metadata = ht_payload h\<rparr>
      | UuidId s \<Rightarrow> Inl (ValueError ''Input should be a valid integer''))"

definition gateway_search ::
  "('f, 'q) qdrant \<Rightarrow> model \<Rightarrow> (json \<Rightarrow> string) \<Rightarrow> search_request \<Rightarrow> 'q gateway \<Rightarrow> 'q gateway \<times> search_response outcome"
where
  "gateway_search Q m py_repr r g =
     (if \<not> valid_search_request r then (g, Inl unprocessable)
      else (case gw_store g of
              None \<Rightarrow> (g, Inl store_missing)
            | Some q \<Rightarrow>
                (case embed_text m (JStr (sq_query r)) (gw_embedder g) of
                   (e1, ro) \<Rightarrow>
                     (g\<lparr>gw_embedder := e1\<rparr>,
                      or_500 ''Search failed''
                        (try_bind ro (\<lambda>v.
                         try_bind (dict_to_qdrant_filter Q py_repr (sq_filters r)) (\<lambda>f.
                         try_bind (vs_search Q (sq_collection r) v (sq_top_k r) f q) (\<lambda>hits.
                         try_bind (traverse result_of hits) (\<lambda>results.
                           Inr \<lparr>sp_results = results, sp_count = int (length results), sp_query = sq_query r\<rparr>)))))))))"

subsection \<open>What the code relies on in Qdrant\<close>

definition put_point :: "point \<Rightarrow> (point_id \<Rightarrow> (rat list \<times> payload) option) \<Rightarrow> point_id \<Rightarrow> (rat list \<times> payload) option" where
  "put_point p f = f(pt_id p \<mapsto> (pt_vector p, pt_payload p))"

locale vector_db =
  fixes Q :: "('f, 'q) qdrant" and up :: "'q \<Rightarrow> bool"
  assumes get_some: "up q \<Longrightarrow> qd_view Q q c = Some x \<Longrightarrow> \<exists>i. qd_get Q c q = Inr i"
    and get_none: "up q \<Longrightarrow> qd_view Q q c = None \<Longrightarrow> \<exists>e. qd_get Q c q = Inl e \<and> is_Exception e"
    and create_new: "up q \<Longrightarrow> qd_view Q q c = None \<Longrightarrow>
      \<exists>q'. qd_create Q c (n, d) q = (q', Inr ()) \<and> up q' \<and>
        qd_view Q q' = (qd_view Q q)(c \<mapsto> \<lparr>co_dim = n, co_distance = d, co_points = Map.empty\<rparr>)"
    and upsert_fits: "up q \<Longrightarrow> qd_view Q q c = Some x \<Longrightarrow> \<forall>p \<in> set ps. length (pt_vector p) = co_dim x \<Longrightarrow>
      \<exists>q'. qd_upsert Q c ps q = (q', Inr ()) \<and> up q' \<and>
        qd_view Q q' = (qd_view Q q)(c \<mapsto> x\<lparr>co_points := fold put_point ps (co_points x)\<rparr>)"
    and query_unknown: "qa_unknown a \<noteq> [] \<Longrightarrow> \<exists>m. qd_query Q a q = Inl (AssertionError m)"
    and point_int: "0 \<le> i \<Longrightarrow> qd_point Q (JInt i) = Inr (IntId i)"

text \<open>Every collection has the dimension of the embeddings.\<close>

definition fits :: "('f, 'q) qdrant \<Rightarrow> 'q \<Rightarrow> bool" where
  "fits Q q \<longleftrightarrow> (\<forall>c x. qd_view Q q c = Some x \<longrightarrow> co_dim x = EMBEDDING_DIM)"

definition points_in :: "('f, 'q) qdrant \<Rightarrow> 'q \<Rightarrow> string \<Rightarrow> point_id \<Rightarrow> (rat list \<times> payload) option" where
  "points_in Q q c = (case qd_view Q q c of None \<Rightarrow> Map.empty | Some x \<Rightarrow> co_points x)"

text \<open>A document as the endpoint describes it, and its parts.\<close>

definition doc_id :: "payload \<Rightarrow> int" where
  "doc_id d = (case obj_get ''id'' d of Some (JInt i) \<Rightarrow> i | _ \<Rightarrow> 0)"

definition doc_text :: "payload \<Rightarrow> string" where
  "doc_text d = (case obj_get ''text'' d of Some (JStr t) \<Rightarrow> t | _ \<Rightarrow> [])"

definition doc_metadata :: "payload \<Rightarrow> payload" where
  "doc_metadata d = (case obj_get ''metadata'' d of Some (JObj kvs) \<Rightarrow> kvs | _ \<Rightarrow> [])"

definition good_document :: "payload \<Rightarrow> bool" where
  "good_document d \<longleftrightarrow> obj_get ''id'' d = Some (JInt (doc_id d)) \<and> 0 \<le> doc_id d \<and>
     obj_get ''text'' d = Some (JStr (doc_text d)) \<and>
     (obj_get ''metadata'' d = None \<or> obj_get ''metadata'' d = Some (JObj (doc_metadata d)))"

definition point_of :: "model \<Rightarrow> payload \<Rightarrow> point" where
  "point_of m d = \<lparr>pt_id = IntId (doc_id d), pt_vector = text_vector m (doc_text d),
     pt_payload = (''text'', JStr (doc_text d)) # doc_metadata d\<rparr>"

lemma document_point_good:
  "good_document d \<Longrightarrow> document_point d v = Inr (JInt (doc_id d), v, (''text'', JStr (doc_text d)) # doc_metadata d)"
proof (cases "obj_get ''metadata'' d")
  case None
  moreover from this have "doc_metadata d = []" by (simp add: doc_metadata_def)
  moreover assume "good_document d"
  ultimately show ?thesis by (simp add: document_point_def good_document_def)
qed (simp add: document_point_def good_document_def)

lemma document_points_good:
  "\<forall>d \<in> set ds. good_document d \<Longrightarrow>
   traverse (\<lambda>(d, v). document_point d v) (zip ds (map f ds)) =
     Inr (map (\<lambda>d. (JInt (doc_id d), f d, (''text'', JStr (doc_text d)) # doc_metadata d)) ds)"
  by (induction ds) (auto simp: traverse_def document_point_good)

context vector_db
begin

lemma ensure_fits:
  assumes "up q" and "fits Q q"
  obtains q1 x where "ensure_collection Q c None q = (q1, Inr ())" "up q1" "fits Q q1" "qd_view Q q1 c = Some x"
    "\<forall>d. points_in Q q1 d = points_in Q q d"
proof (cases "qd_view Q q c")
  case None
  obtain e where e: "qd_get Q c q = Inl e" "is_Exception e" using get_none [OF assms(1) None] by blast
  obtain q1 where q1: "qd_create Q c (EMBEDDING_DIM, Cosine) q = (q1, Inr ())" "up q1"
      "qd_view Q q1 = (qd_view Q q)(c \<mapsto> \<lparr>co_dim = EMBEDDING_DIM, co_distance = Cosine, co_points = Map.empty\<rparr>)"
    using create_new [OF assms(1) None] by blast
  have "\<forall>d. points_in Q q1 d = points_in Q q d" by (simp add: points_in_def q1(3) None)
  then show ?thesis using that [of q1] e q1 assms(2)
    by (auto simp: ensure_collection_def get_embedding_dimension_def fits_def)
next
  case (Some x)
  then obtain i where "qd_get Q c q = Inr i" using get_some [OF assms(1)] by blast
  then show ?thesis using that [of q x] assms Some by (simp add: ensure_collection_def)
qed

lemma upsert_points_fits:
  assumes "up q" and "fits Q q" and "qd_view Q q c = Some x"
    and "\<forall>(i, v, p) \<in> set ts. 0 \<le> i \<and> length v = EMBEDDING_DIM"
  obtains q1 where "upsert_points Q c (map (\<lambda>(i, v, p). (JInt i, v, p)) ts) q = (q1, Inr ())" "up q1" "fits Q q1"
    "\<And>d. points_in Q q1 d = (if d = c
       then fold put_point (map (\<lambda>(i, v, p). \<lparr>pt_id = IntId i, pt_vector = v, pt_payload = p\<rparr>) ts) (points_in Q q c)
       else points_in Q q d)"
proof -
  let ?ps = "map (\<lambda>(i, v, p). \<lparr>pt_id = IntId i, pt_vector = v, pt_payload = p\<rparr>) ts"
  have "traverse (\<lambda>(i, v, p). map_sum id (\<lambda>pid. \<lparr>pt_id = pid, pt_vector = v, pt_payload = p\<rparr>) (qd_point Q i))
      (map (\<lambda>(i, v, p). (JInt i, v, p)) ts) = Inr ?ps"
    using assms(4) by (induction ts) (auto simp: traverse_def point_int)
  moreover have "co_dim x = EMBEDDING_DIM" using assms(2,3) by (simp add: fits_def)
  then have "\<forall>p \<in> set ?ps. length (pt_vector p) = co_dim x" using assms(4) by auto
  note upsert_fits [OF assms(1,3) this]
  ultimately show ?thesis using that assms(2,3)
    by (auto simp: upsert_points_def points_in_def fits_def split: if_splits)
qed

end

subsection \<open>A store in memory\<close>

type_synonym mem_collections = "string \<Rightarrow> ((nat \<times> distance) \<times> (point_id \<times> rat list \<times> payload) list) option"

definition no_collection :: py_exn where
  "no_collection = OtherException ''Not found: Collection''"

definition mc_get :: "string \<Rightarrow> mem_collections \<Rightarrow> collection_info outcome" where
  "mc_get c q = (case q c of None \<Rightarrow> Inl no_collection | Some (n, xs) \<Rightarrow> Inr \<lparr>ci_points = int (length xs), ci_vectors = None\<rparr>)"

definition mc_create :: "string \<Rightarrow> nat \<times> distance \<Rightarrow> mem_collections \<Rightarrow> mem_collections \<times> unit outcome" where
  "mc_create c n q = (case q c of None \<Rightarrow> (q(c \<mapsto> (n, [])), Inr ()) | Some x \<Rightarrow> (q, Inl (OtherException ''Collection already exists'')))"

definition mc_put :: "point \<Rightarrow> (point_id \<times> rat list \<times> payload) list \<Rightarrow> (point_id \<times> rat list \<times> payload) list" where
  "mc_put p xs = AList.update (pt_id p) (pt_vector p, pt_payload p) xs"

definition mc_upsert :: "string \<Rightarrow> point list \<Rightarrow> mem_collections \<Rightarrow> mem_collections \<times> unit outcome" where
  "mc_upsert c ps q =
     (case q c of
        None \<Rightarrow> (q, Inl no_collection)
      | Some (n, xs) \<Rightarrow>
          if list_all (\<lambda>p. length (pt_vector p) = fst n) ps then (q(c \<mapsto> (n, fold mc_put ps xs)), Inr ())
          else (q, Inl (OtherException ''Wrong input: Vector dimension error'')))"

definition dot :: "rat list \<Rightarrow> rat list \<Rightarrow> rat" where
  "dot v w = sum_list (map (\<lambda>(a, b). a * b) (zip v w))"

definition mc_query :: "(payload \<Rightarrow> bool) query_args \<Rightarrow> mem_collections \<Rightarrow> hit list outcome" where
  "mc_query a q =
     (if qa_unknown a \<noteq> [] then Inl (AssertionError ''Unknown arguments'')
      else (case q (qa_collection a) of
              None \<Rightarrow> Inl no_collection
            | Some (n, xs) \<Rightarrow>
                (case qa_query a of
                   None \<Rightarrow> Inr []
                 | Some v \<Rightarrow>
                     if length v \<noteq> fst n then Inl (OtherException ''Wrong input: Vector dimension error'')
                     else Inr (take (nat (qa_limit a)) (sort_key (\<lambda>h. - ht_score h)
                            (map (\<lambda>(i, w, p). \<lparr>ht_id = i, ht_score = dot v w, ht_payload = p\<rparr>)
                              (filter (\<lambda>(i, w, p). case qa_filter a of None \<Rightarrow> True | Some sat \<Rightarrow> sat p) xs)))))))"

fun json_point :: "json \<Rightarrow> point_id outcome" where
  "json_point (JInt i) = (if 0 \<le> i then Inr (IntId i) else Inl (ValueError ''not a valid point ID''))"
| "json_point (JStr s) = Inr (UuidId s)"
| "json_point v = Inl (ValueError ''Input should be a valid integer or string'')"

fun payload_match :: "json \<Rightarrow> json \<Rightarrow> (payload \<Rightarrow> bool) outcome" where
  "payload_match (JStr k) v = Inr (\<lambda>p. obj_get k p = Some v)"
| "payload_match k v = Inl (ValueError ''Input should be a valid string'')"

definition mem_qdrant :: "(payload \<Rightarrow> bool, mem_collections) qdrant" where
  "mem_qdrant =
     \<lparr>qd_open = (\<lambda>url. Inr Map.empty), qd_get = mc_get, qd_create = mc_create, qd_upsert = mc_upsert, qd_query = mc_query,
      qd_delete = (\<lambda>c ids q. (q(c := map_option (\<lambda>(n, xs). (n, filter (\<lambda>(i, w, p). i \<notin> set ids) xs)) (q c)), Inr ())),
      qd_point = json_point, qd_match = payload_match,
      qd_range = (\<lambda>key gte lte gt lt. Inl (ValueError ''no ranges'')),
      qd_and = (\<lambda>f g. Inr (\<lambda>p. f p \<and> g p)),
      qd_view = (\<lambda>q c. map_option (\<lambda>(n, xs). \<lparr>co_dim = fst n, co_distance = snd n, co_points = map_of xs\<rparr>) (q c))\<rparr>"

definition mem_up :: "mem_collections \<Rightarrow> bool" where
  "mem_up q \<longleftrightarrow> (\<forall>c n xs. q c = Some (n, xs) \<longrightarrow> distinct (map fst xs))"

lemma fold_mc_put:
  "distinct (map fst xs) \<Longrightarrow> distinct (map fst (fold mc_put ps xs)) \<and> map_of (fold mc_put ps xs) = fold put_point ps (map_of xs)"
proof (induction ps arbitrary: xs)
  case (Cons p ps)
  have "distinct (map fst (mc_put p xs))" using Cons.prems by (simp add: mc_put_def AList.distinct_update)
  moreover have "map_of (mc_put p xs) = put_point p (map_of xs)" by (simp add: mc_put_def put_point_def AList.update_conv')
  ultimately show ?case using Cons.IH [of "mc_put p xs"] by simp
qed simp

interpretation mq: vector_db mem_qdrant mem_up
proof (unfold_locales, goal_cases)
  case (1 q c x)
  then show ?case by (auto simp: mem_qdrant_def mc_get_def)
next
  case (2 q c)
  then show ?case by (simp add: mem_qdrant_def mc_get_def no_collection_def is_Exception_def)
next
  case (3 q c n d)
  then show ?case by (intro exI [of _ "q(c \<mapsto> ((n, d), []))"]) (auto simp: mem_qdrant_def mc_create_def mem_up_def fun_eq_iff)
next
  case (4 q c x ps)
  let ?n = "(co_dim x, co_distance x)"
  obtain xs where xs: "q c = Some (?n, xs)" "co_points x = map_of xs"
    using 4(2) by (auto simp: mem_qdrant_def)
  have "distinct (map fst xs)" using 4(1) xs(1) unfolding mem_up_def by blast
  note put = fold_mc_put [OF this, of ps]
  have x: "x = \<lparr>co_dim = co_dim x, co_distance = co_distance x, co_points = map_of xs\<rparr>" using xs(2) by simp
  show ?case
  proof (intro exI [of _ "q(c \<mapsto> (?n, fold mc_put ps xs))"] conjI)
    show "qd_upsert mem_qdrant c ps q = (q(c \<mapsto> (?n, fold mc_put ps xs)), Inr ())"
      using 4(3) xs(1) by (simp add: mem_qdrant_def mc_upsert_def list_all_iff)
    show "mem_up (q(c \<mapsto> (?n, fold mc_put ps xs)))" using 4(1) put by (simp add: mem_up_def)
    show "qd_view mem_qdrant (q(c \<mapsto> (?n, fold mc_put ps xs))) =
        (qd_view mem_qdrant q)(c \<mapsto> x\<lparr>co_points := fold put_point ps (co_points x)\<rparr>)"
      using put by (subst (4) x) (simp add: mem_qdrant_def fun_eq_iff xs(2))
  qed
next
  case (5 a q)
  then show ?case by (simp add: mem_qdrant_def mc_query_def)
next
  case (6 i)
  then show ?case by (simp add: mem_qdrant_def)
qed

subsection \<open>What the endpoints promise\<close>

context vector_db
begin

lemma index_documents_stores:
  assumes "text_model m" and "up q" and "fits Q q" and "embedder_ok m e" and "\<forall>d \<in> set (ix_documents r). good_document d"
  obtains q1 e1 where "index_documents Q m r q e = ((q1, e1), Inr ())" "up q1" "fits Q q1" "embedder_ok m e1"
    "\<And>c. points_in Q q1 c = (if c = ix_collection r
       then fold put_point (map (point_of m) (ix_documents r)) (points_in Q q c) else points_in Q q c)"
proof -
  let ?ds = "ix_documents r"
  let ?ts = "map (\<lambda>d. (doc_id d, text_vector m (doc_text d), (''text'', JStr (doc_text d)) # doc_metadata d)) ?ds"
  obtain q0 x where q0: "ensure_collection Q (ix_collection r) None q = (q0, Inr ())" "up q0" "fits Q q0"
      "qd_view Q q0 (ix_collection r) = Some x" "\<forall>d. points_in Q q0 d = points_in Q q d"
    by (rule ensure_fits [OF assms(2,3), where c = "ix_collection r"])
  have texts: "traverse (\<lambda>d. py_subscript (JObj d) ''text'') ?ds = Inr (map JStr (map doc_text ?ds))"
    using assms(5) by (simp add: traverse_all_ok [where g = "\<lambda>d. JStr (doc_text d)"] good_document_def)
  obtain e1 where e1: "embed_batch m (map JStr (map doc_text ?ds)) e = (e1, Inr (map (text_vector m) (map doc_text ?ds)))"
      "embedder_ok m e1"
    by (rule text_model.embed_batch_vectors [OF assms(1,4)])
  have pts: "traverse (\<lambda>(d, v). document_point d v) (zip ?ds (map (text_vector m) (map doc_text ?ds))) =
      Inr (map (\<lambda>(i, v, p). (JInt i, v, p)) ?ts)"
    using document_points_good [OF assms(5), of "\<lambda>d. text_vector m (doc_text d)"] by (simp add: o_def)
  have "\<forall>(i, v, p) \<in> set ?ts. 0 \<le> i \<and> length v = EMBEDDING_DIM"
    using assms(5) by (auto simp: good_document_def text_model.length_vec [OF assms(1)])
  from upsert_points_fits [OF q0(2-4) this]
  obtain q1 where q1: "upsert_points Q (ix_collection r) (map (\<lambda>(i, v, p). (JInt i, v, p)) ?ts) q0 = (q1, Inr ())" "up q1" "fits Q q1"
    "\<And>d. points_in Q q1 d = (if d = ix_collection r
       then fold put_point (map (\<lambda>(i, v, p). \<lparr>pt_id = IntId i, pt_vector = v, pt_payload = p\<rparr>) ?ts) (points_in Q q0 (ix_collection r))
       else points_in Q q0 d)" by blast
  have same: "map (\<lambda>(i, v, p). \<lparr>pt_id = IntId i, pt_vector = v, pt_payload = p\<rparr>) ?ts = map (point_of m) ?ds"
    by (simp add: point_of_def)
  have "index_documents Q m r q e = ((q1, e1), Inr ())"
    using q0(1) texts e1(1) pts q1(1) by (simp add: index_documents_def)
  moreover have "points_in Q q1 c = (if c = ix_collection r
       then fold put_point (map (point_of m) ?ds) (points_in Q q c) else points_in Q q c)" for c
    using q1(4) [of c] q0(5) unfolding same by simp
  ultimately show ?thesis using that q1(2,3) e1(2) by blast
qed

end

text \<open>
  Indexing stores every document. In a running gateway whose collections have the embedding dimension, an index
  request of 1 to 1000 documents with an integer id, a string text and a metadata object answers with their number; the
  collection then holds, for each document in order, the point with its id, the embedding of its text and the text
  merged with the metadata, every other point and collection is unchanged, and the gateway stays in such a state.
\<close>

theorem index_stores_documents:
  assumes "vector_db Q up" and "text_model m" and "gw_store g = Some q" and "up q" and "fits Q q"
    and "embedder_ok m (gw_embedder g)" and "valid_index_request r" and "\<forall>d \<in> set (ix_documents r). good_document d"
  shows "\<exists>g' q'. gateway_index Q m r g = (g', Inr (int (length (ix_documents r)), ix_collection r)) \<and>
    gw_store g' = Some q' \<and> up q' \<and> fits Q q' \<and> embedder_ok m (gw_embedder g') \<and>
    (\<forall>c. points_in Q q' c = (if c = ix_collection r
       then fold put_point (map (point_of m) (ix_documents r)) (points_in Q q c) else points_in Q q c))"
proof -
  obtain q1 e1 where i: "index_documents Q m r q (gw_embedder g) = ((q1, e1), Inr ())" "up q1" "fits Q q1" "embedder_ok m e1"
    "\<And>c. points_in Q q1 c = (if c = ix_collection r
       then fold put_point (map (point_of m) (ix_documents r)) (points_in Q q c) else points_in Q q c)"
    using vector_db.index_documents_stores [OF assms(1,2,4-6,8)] by blast
  have "gateway_index Q m r g = (\<lparr>gw_embedder = e1, gw_store = Some q1\<rparr>, Inr (int (length (ix_documents r)), ix_collection r))"
    using assms(3,7) i(1) by (simp add: gateway_index_def or_500_def)
  then show ?thesis using i(2-5) by (intro exI conjI) auto
qed

definition demo_gateway :: "mem_collections gateway" where
  "demo_gateway = \<lparr>gw_embedder = new_embedder, gw_store = Some Map.empty\<rparr>"

definition demo_doc :: "int \<Rightarrow> payload" where
  "demo_doc i = [(''id'', JInt i), (''text'', JStr ''x''), (''metadata'', JObj [(''source'', JStr ''api'')])]"

lemma demo_doc_good: "0 \<le> i \<Longrightarrow> good_document (demo_doc i)"
  by (simp add: good_document_def doc_id_def doc_text_def doc_metadata_def demo_doc_def obj_get_Cons)

lemma demo_gateway_ok: "gw_store demo_gateway = Some Map.empty" "mem_up Map.empty" "fits mem_qdrant Map.empty"
    "embedder_ok length_model (gw_embedder demo_gateway)"
  by (simp_all add: demo_gateway_def mem_up_def fits_def mem_qdrant_def new_embedder_ok)

theorem index_stores_documents_witness:
  "\<exists>g' q'. gateway_index mem_qdrant length_model \<lparr>ix_documents = [demo_doc 1, demo_doc 2], ix_collection = ''records''\<rparr> demo_gateway =
       (g', Inr (2, ''records'')) \<and> gw_store g' = Some q' \<and>
     (\<exists>v. points_in mem_qdrant q' ''records'' (IntId 2) = Some (v, [(''text'', JStr ''x''), (''source'', JStr ''api'')]))"
proof -
  let ?r = "\<lparr>ix_documents = [demo_doc 1, demo_doc 2], ix_collection = ''records''\<rparr>"
  have "valid_index_request ?r" by (simp add: valid_index_request_def)
  moreover have "\<forall>d \<in> set (ix_documents ?r). good_document d" by (simp add: demo_doc_good)
  ultimately obtain g' q' where g: "gateway_index mem_qdrant length_model ?r demo_gateway = (g', Inr (2, ''records''))"
      "gw_store g' = Some q'"
      "points_in mem_qdrant q' ''records'' = fold put_point (map (point_of length_model) [demo_doc 1, demo_doc 2]) (points_in mem_qdrant Map.empty ''records'')"
    using index_stores_documents [OF mq.vector_db_axioms lm.text_model_axioms demo_gateway_ok, of ?r] by auto
  have "points_in mem_qdrant q' ''records'' (IntId 2) =
      Some (text_vector length_model ''x'', [(''text'', JStr ''x''), (''source'', JStr ''api'')])"
    unfolding g(3) by (simp add: put_point_def point_of_def doc_id_def doc_text_def doc_metadata_def demo_doc_def obj_get_Cons)
  then show ?thesis using g(1,2) by blast
qed

lemma section_single: "section_conditions Q py_repr n [(k, v)] =
    (if n = k then try_bind (iter_json v) (traverse (build_field_condition Q py_repr)) else Inr [])"
  by (simp add: section_conditions_def obj_get_Cons)

text \<open>
  An exclusion filter is built as what it should exclude. Whatever the client library and the conditions are, the filter of
  \<open>must_not\<close> conditions, or of \<open>should\<close> conditions, is the filter of the same conditions as \<open>must\<close>.
\<close>

theorem must_not_filters_must:
  "dict_to_qdrant_filter Q py_repr (Some [(''must_not'', v)]) = dict_to_qdrant_filter Q py_repr (Some [(''must'', v)]) \<and>
   dict_to_qdrant_filter Q py_repr (Some [(''should'', v)]) = dict_to_qdrant_filter Q py_repr (Some [(''must'', v)])"
  by (cases "try_bind (iter_json v) (traverse (build_field_condition Q py_repr))")
    (auto simp: dict_to_qdrant_filter_def section_single)

text \<open>
  No search succeeds, whatever the client library does: with one that refuses an unknown argument the search raises that
  refusal, and with one that does not it raises on the first field of the response.
\<close>

lemma vs_search_raises: "\<exists>e. vs_search Q c v k f q = Inl e"
  by (cases "qd_query Q \<lparr>qa_collection = c, qa_query = None, qa_filter = f, qa_limit = k, qa_unknown = [(''query_vector'', v)]\<rparr> q")
    (simp_all add: vs_search_def traverse_def tuple_attribute_def)

lemma vs_search_refused:
  assumes "vector_db Q up"
  shows "\<exists>m. vs_search Q c v k f q = Inl (AssertionError m)"
  using vector_db.query_unknown [OF assms, of "\<lparr>qa_collection = c, qa_query = None, qa_filter = f, qa_limit = k,
      qa_unknown = [(''query_vector'', v)]\<rparr>" q] by (auto simp: vs_search_def)

end
