(* ===== verification/Vector_Search.thy ===== *)
theory Vector_Search
  imports AI_Gateway Store
begin

text \<open>
  Semantic search over the records: the bridge \<open>ingestor/vector_search.py\<close>, its routes
  \<open>ingestor/routers/vector_search.py\<close>, and both composed with the records table and the AI gateway. The HTTP client is
  a function on the state of the other side; what it gives is the decoded body after \<open>raise_for_status\<close>.
\<close>

subsection \<open>The bridge\<close>

record vs_settings =
  vs_gateway_url :: string
  vs_collection :: string

definition rstrip_slash :: "string \<Rightarrow> string" where
  "rstrip_slash s = rev (dropWhile (\<lambda>c. c = CHR ''/'') (rev s))"

definition record_text :: "(rat \<Rightarrow> string) \<Rightarrow> row \<Rightarrow> string" where
  "record_text float_repr r =
     join_with [CHR 0x0A]
       [''source: '' @ r_source r, ''timestamp: '' @ isoformat (r_timestamp r),
        ''tags: '' @ join_with '', '' (r_tags r), ''data: '' @ dumps_sorted float_repr (JObj (r_raw_data r))]"

definition record_metadata :: "row \<Rightarrow> payload" where
  "record_metadata r =
     [(''source'', JStr (r_source r)), (''timestamp'', JStr (isoformat (r_timestamp r))),
      (''tags'', JList (map JStr (r_tags r))), (''processed'', JBool (r_processed r))]"

definition build_record_search_document :: "(rat \<Rightarrow> string) \<Rightarrow> row \<Rightarrow> payload" where
  "build_record_search_document float_repr r =
     [(''id'', JInt (r_id r)), (''text'', JStr (record_text float_repr r)), (''metadata'', JObj (record_metadata r))]"

text \<open>\<open>collection or settings.vector_search_collection\<close>.\<close>

definition collection_name :: "vs_settings \<Rightarrow> string option \<Rightarrow> string" where
  "collection_name st c = (case c of Some n \<Rightarrow> if n = [] then vs_collection st else n | None \<Rightarrow> vs_collection st)"

definition require_object :: "string \<Rightarrow> json \<Rightarrow> payload outcome" where
  "require_object what body =
     (case body of JObj kvs \<Rightarrow> Inr kvs | _ \<Rightarrow> Inl (ValueError (''AI gateway returned a non-object '' @ what @ '' response'')))"

type_synonym 's http_client = "string \<Rightarrow> json \<Rightarrow> 's \<Rightarrow> 's \<times> json outcome"

definition index_record_documents ::
  "vs_settings \<Rightarrow> (rat \<Rightarrow> string) \<Rightarrow> 's http_client \<Rightarrow> row list \<Rightarrow> string option \<Rightarrow> 's \<Rightarrow> 's \<times> payload outcome"
where
  "index_record_documents st float_repr post records collection s =
     (case post (rstrip_slash (vs_gateway_url st) @ ''/index'')
        (JObj [(''collection'', JStr (collection_name st collection)),
               (''documents'', JList (map (\<lambda>r. JObj (build_record_search_document float_repr r)) records))]) s of
        (s1, r) \<Rightarrow> (s1, try_bind r (require_object ''index'')))"

definition search_record_documents ::
  "vs_settings \<Rightarrow> 's http_client \<Rightarrow> string \<Rightarrow> int \<Rightarrow> string option \<Rightarrow> payload option \<Rightarrow> 's \<Rightarrow> 's \<times> payload outcome"
where
  "search_record_documents st post query top_k collection filters s =
     (case post (rstrip_slash (vs_gateway_url st) @ ''/search'')
        (JObj [(''query'', JStr query), (''top_k'', JInt top_k), (''collection'', JStr (collection_name st collection)),
               (''filters'', case filters of None \<Rightarrow> JNull | Some f \<Rightarrow> JObj f)]) s of
        (s1, r) \<Rightarrow> (s1, try_bind r (require_object ''search'')))"

definition get_vector_search_health ::
  "vs_settings \<Rightarrow> (string \<Rightarrow> 's \<Rightarrow> 's \<times> json outcome) \<Rightarrow> 's \<Rightarrow> 's \<times> payload outcome"
where
  "get_vector_search_health st http_get s =
     (case http_get (rstrip_slash (vs_gateway_url st) @ ''/health'') s of
        (s1, r) \<Rightarrow> (s1, try_bind r (require_object ''health'')))"

subsection \<open>The routes\<close>

text \<open>\<open>except (httpx.HTTPError, ValueError)\<close>.\<close>

fun is_gateway_error :: "py_exn \<Rightarrow> bool" where
  "is_gateway_error (HTTPError m) = True"
| "is_gateway_error e = is_ValueError e"

definition or_gateway_error :: "int \<Rightarrow> string \<Rightarrow> 'a outcome \<Rightarrow> 'a outcome" where
  "or_gateway_error code detail r =
     (case r of Inl e \<Rightarrow> Inl (if is_gateway_error e then HTTPException code detail else e) | Inr v \<Rightarrow> Inr v)"

definition get_or :: "payload \<Rightarrow> string \<Rightarrow> json \<Rightarrow> json" where
  "get_or raw k d = (case obj_get k raw of None \<Rightarrow> d | Some v \<Rightarrow> v)"

record vs_health =
  vh_status :: string
  vh_connected :: bool
  vh_collection :: string

definition vector_search_health ::
  "vs_settings \<Rightarrow> (json \<Rightarrow> string) \<Rightarrow> (string \<Rightarrow> 's \<Rightarrow> 's \<times> json outcome) \<Rightarrow> 's \<Rightarrow> 's \<times> vs_health outcome"
where
  "vector_search_health st repr http_get s =
     (case get_vector_search_health st http_get s of
        (s1, r) \<Rightarrow> (s1, try_bind (or_gateway_error 503 ''AI gateway unavailable'' r) (\<lambda>raw.
           Inr \<lparr>vh_status = py_str_of repr (get_or raw ''status'' (JStr ''ok'')),
                vh_connected = truthy (get_or raw ''qdrant_connected'' (JBool True)), vh_collection = vs_collection st\<rparr>)))"

record index_response =
  xi_requested :: int
  xi_indexed :: int
  xi_missing :: "int list"
  xi_collection :: string

text \<open>\<open>list(dict.fromkeys(ids))\<close>: the first occurrences.\<close>

definition first_occurrences :: "'a list \<Rightarrow> 'a list" where
  "first_occurrences xs = rev (remdups (rev xs))"

definition index_response_of ::
  "vs_settings \<Rightarrow> (json \<Rightarrow> string) \<Rightarrow> int \<Rightarrow> int list \<Rightarrow> row list \<Rightarrow> string option \<Rightarrow> payload \<Rightarrow> index_response outcome"
where
  "index_response_of st repr requested missing records collection raw =
     try_bind (py_int (get_or raw ''indexed_count'' (JInt (int (length records))))) (\<lambda>n.
       Inr \<lparr>xi_requested = requested, xi_indexed = n, xi_missing = missing,
            xi_collection = py_str_of repr (get_or raw ''collection'' (JStr (collection_name st collection)))\<rparr>)"

definition by_ids_query :: "int list \<Rightarrow> query" where
  "by_ids_query ids = \<lparr>q_where = [IdIn ids, DeletedIsNull], q_order = [(ColId, False)], q_offset = 0, q_limit = None\<rparr>"

definition index_records_for_vector_search ::
  "'db engine \<Rightarrow> vs_settings \<Rightarrow> (rat \<Rightarrow> string) \<Rightarrow> (json \<Rightarrow> string) \<Rightarrow> 's http_client \<Rightarrow> int list \<Rightarrow> string option \<Rightarrow>
   'db \<Rightarrow> 's \<Rightarrow> 's \<times> index_response outcome"
where
  "index_records_for_vector_search E st float_repr repr post payload_ids collection db s =
     (if \<not> valid_index_ids payload_ids then (s, Inl unprocessable)
      else
        let record_ids = first_occurrences payload_ids
        in (case sql_select E (by_ids_query record_ids) db of
              Inl e \<Rightarrow> (s, Inl e)
            | Inr records \<Rightarrow>
                if records = [] then (s, Inl (HTTPException 404 ''No active records found for indexing''))
                else
                  let missing = filter (\<lambda>i. i \<notin> r_id ` set records) record_ids
                  in (case index_record_documents st float_repr post records collection s of
                        (s1, r) \<Rightarrow> (s1, try_bind (or_gateway_error 502 ''AI gateway indexing failed'' r)
                           (index_response_of st repr (int (length record_ids)) missing records collection)))))"

definition recent_query :: "string option \<Rightarrow> int \<Rightarrow> query" where
  "recent_query src lmt =
     \<lparr>q_where = DeletedIsNull # (case src of None \<Rightarrow> [] | Some s \<Rightarrow> [SourceEq s]),
      q_order = [(ColTimestamp, True)], q_offset = 0, q_limit = Some lmt\<rparr>"

definition valid_recent :: "string option \<Rightarrow> int \<Rightarrow> bool" where
  "valid_recent src lmt \<longleftrightarrow> (case src of None \<Rightarrow> True | Some s \<Rightarrow> length_between 1 255 s) \<and>
     1 \<le> lmt \<and> lmt \<le> int VECTOR_SEARCH_MAX_RECORD_IDS"

definition index_recent_records_for_vector_search ::
  "'db engine \<Rightarrow> vs_settings \<Rightarrow> (rat \<Rightarrow> string) \<Rightarrow> (json \<Rightarrow> string) \<Rightarrow> 's http_client \<Rightarrow> string option \<Rightarrow> int \<Rightarrow> string option \<Rightarrow>
   'db \<Rightarrow> 's \<Rightarrow> 's \<times> index_response outcome"
where
  "index_recent_records_for_vector_search E st float_repr repr post src lmt collection db s =
     (if \<not> valid_recent src lmt then (s, Inl unprocessable)
      else (case sql_select E (recent_query src lmt) db of
              Inl e \<Rightarrow> (s, Inl e)
            | Inr records \<Rightarrow>
                if records = [] then (s, Inl (HTTPException 404 ''No active records found for recent indexing''))
                else (case index_record_documents st float_repr post records collection s of
                        (s1, r) \<Rightarrow> (s1, try_bind (or_gateway_error 502 ''AI gateway recent indexing failed'' r)
                           (index_response_of st repr (int (length records)) [] records collection)))))"

text \<open>\<open>validate\<close> is Pydantic on the field \<open>results: list[VectorSearchResult]\<close>; a failure is raised as it is.\<close>

record query_response =
  vq_results :: "search_result list"
  vq_count :: int
  vq_query :: string
  vq_collection :: string

definition valid_query :: "string \<Rightarrow> int \<Rightarrow> bool" where
  "valid_query query top_k \<longleftrightarrow> 1 \<le> length query \<and> 1 \<le> top_k \<and> top_k \<le> VECTOR_SEARCH_MAX_TOP_K"

definition query_vector_search ::
  "vs_settings \<Rightarrow> (json \<Rightarrow> string) \<Rightarrow> (json \<Rightarrow> search_result list outcome) \<Rightarrow> 's http_client \<Rightarrow> string \<Rightarrow> int \<Rightarrow>
   string option \<Rightarrow> payload option \<Rightarrow> 's \<Rightarrow> 's \<times> query_response outcome"
where
  "query_vector_search st repr validate post query top_k collection filters s =
     (if \<not> valid_query query top_k then (s, Inl unprocessable)
      else (case search_record_documents st post query top_k collection filters s of
              (s1, r) \<Rightarrow> (s1, try_bind (or_gateway_error 502 ''AI gateway search failed'' r) (\<lambda>raw.
                 try_bind (py_int (get_or raw ''count'' (JInt 0))) (\<lambda>n.
                 try_bind (validate (get_or raw ''results'' (JList []))) (\<lambda>results.
                   Inr \<lparr>vq_results = results, vq_count = n, vq_query = py_str_of repr (get_or raw ''query'' (JStr query)),
                        vq_collection = collection_name st collection\<rparr>))))))"

subsection \<open>The gateway at the other end\<close>

text \<open>
  The HTTP client with the modelled gateway behind it: the body is read as the request of the endpoint, the answer is
  sent as JSON, and a status of 400 or more makes \<open>raise_for_status\<close> raise an \<open>HTTPError\<close>.
\<close>

fun object_list :: "json list \<Rightarrow> payload list option" where
  "object_list [] = Some []"
| "object_list (JObj kvs # xs) = map_option ((#) kvs) (object_list xs)"
| "object_list (v # xs) = None"

definition read_index_request :: "payload \<Rightarrow> index_request option" where
  "read_index_request body =
     (case (obj_get ''documents'' body, obj_get ''collection'' body) of
        (Some (JList xs), Some (JStr c)) \<Rightarrow> map_option (\<lambda>ds. \<lparr>ix_documents = ds, ix_collection = c\<rparr>) (object_list xs)
      | _ \<Rightarrow> None)"

definition read_search_request :: "payload \<Rightarrow> search_request option" where
  "read_search_request body =
     (case (obj_get ''query'' body, obj_get ''top_k'' body, obj_get ''collection'' body, obj_get ''filters'' body) of
        (Some (JStr q), Some (JInt k), Some (JStr c), Some JNull) \<Rightarrow>
          Some \<lparr>sq_query = q, sq_top_k = k, sq_collection = c, sq_filters = None\<rparr>
      | (Some (JStr q), Some (JInt k), Some (JStr c), Some (JObj f)) \<Rightarrow>
          Some \<lparr>sq_query = q, sq_top_k = k, sq_collection = c, sq_filters = Some f\<rparr>
      | _ \<Rightarrow> None)"

definition result_json :: "search_result \<Rightarrow> json" where
  "result_json r = JObj [(''id'', JInt (sr_id r)), (''score'', JFloat (sr_score r)), (''metadata'', JObj (sr_metadata r))]"

definition raise_for_status :: "'a outcome \<Rightarrow> 'a outcome" where
  "raise_for_status r = (case r of Inl e \<Rightarrow> Inl (HTTPError (exn_str e)) | Inr v \<Rightarrow> Inr v)"

definition gateway_post ::
  "('f, 'q) qdrant \<Rightarrow> model \<Rightarrow> (json \<Rightarrow> string) \<Rightarrow> string \<Rightarrow> 'q gateway http_client"
where
  "gateway_post Q m repr base url body g =
     (let kvs = (case body of JObj kvs \<Rightarrow> kvs | _ \<Rightarrow> []);
          refused = (g, Inl (HTTPError ''422 Unprocessable Entity''))
      in if url = base @ ''/index'' then
           (case read_index_request kvs of
              None \<Rightarrow> refused
            | Some r \<Rightarrow> map_prod id (raise_for_status \<circ> map_sum id
                (\<lambda>(n, c). JObj [(''indexed_count'', JInt n), (''collection'', JStr c)])) (gateway_index Q m r g))
         else if url = base @ ''/search'' then
           (case read_search_request kvs of
              None \<Rightarrow> refused
            | Some r \<Rightarrow> map_prod id (raise_for_status \<circ> map_sum id
                (\<lambda>p. JObj [(''results'', JList (map result_json (sp_results p))), (''count'', JInt (sp_count p)),
                           (''query'', JStr (sp_query p))])) (gateway_search Q m repr r g))
         else (g, Inl (HTTPError ''404 Not Found'')))"

subsection \<open>From the table to the collection\<close>

lemma object_list_map: "object_list (map JObj ds) = Some ds"
  by (induction ds) auto

lemma record_document_good:
  "0 \<le> r_id r \<Longrightarrow> good_document (build_record_search_document fr r)"
  "doc_id (build_record_search_document fr r) = r_id r"
  "doc_text (build_record_search_document fr r) = record_text fr r"
  "doc_metadata (build_record_search_document fr r) = record_metadata r"
  by (simp_all add: good_document_def doc_id_def doc_text_def doc_metadata_def build_record_search_document_def obj_get_Cons)

lemma put_point_apply: "put_point p f i = (if i = pt_id p then Some (pt_vector p, pt_payload p) else f i)"
  by (simp add: put_point_def)

lemma fold_put_point_lookup:
  "distinct (map pt_id ps) \<Longrightarrow>
   (\<forall>p \<in> set ps. fold put_point ps f (pt_id p) = Some (pt_vector p, pt_payload p)) \<and>
   (\<forall>i. i \<notin> pt_id ` set ps \<longrightarrow> fold put_point ps f i = f i)"
proof (induction ps arbitrary: f)
  case (Cons p ps)
  then have ih: "(\<forall>q \<in> set ps. fold put_point ps (put_point p f) (pt_id q) = Some (pt_vector q, pt_payload q)) \<and>
      (\<forall>i. i \<notin> pt_id ` set ps \<longrightarrow> fold put_point ps (put_point p f) i = put_point p f i)" by simp
  then have "fold put_point ps (put_point p f) (pt_id p) = Some (pt_vector p, pt_payload p)"
    using Cons.prems by (simp add: put_point_apply [of p f])
  then show ?case using ih by (auto simp: put_point_apply [of p f])
qed simp

text \<open>What the gateway stores for a record.\<close>

definition record_point :: "model \<Rightarrow> (rat \<Rightarrow> string) \<Rightarrow> row \<Rightarrow> rat list \<times> payload" where
  "record_point m float_repr r =
     (text_vector m (record_text float_repr r), (''text'', JStr (record_text float_repr r)) # record_metadata r)"

definition stored_for ::
  "model \<Rightarrow> (rat \<Rightarrow> string) \<Rightarrow> row list \<Rightarrow> string \<Rightarrow> (string \<Rightarrow> point_id \<Rightarrow> (rat list \<times> payload) option) \<Rightarrow>
   (string \<Rightarrow> point_id \<Rightarrow> (rat list \<times> payload) option) \<Rightarrow> bool"
where
  "stored_for m float_repr records c old new \<longleftrightarrow>
     (\<forall>r \<in> set records. new c (IntId (r_id r)) = Some (record_point m float_repr r)) \<and>
     (\<forall>d i. d \<noteq> c \<or> i \<notin> (\<lambda>r. IntId (r_id r)) ` set records \<longrightarrow> new d i = old d i)"

text \<open>A running gateway whose collections fit the model.\<close>

definition gateway_ok :: "('f, 'q) qdrant \<Rightarrow> ('q \<Rightarrow> bool) \<Rightarrow> model \<Rightarrow> 'q gateway \<Rightarrow> bool" where
  "gateway_ok Q up m g \<longleftrightarrow> embedder_ok m (gw_embedder g) \<and> (\<exists>q. gw_store g = Some q \<and> up q \<and> fits Q q)"

definition gateway_points :: "('f, 'q) qdrant \<Rightarrow> 'q gateway \<Rightarrow> string \<Rightarrow> point_id \<Rightarrow> (rat list \<times> payload) option" where
  "gateway_points Q g = (case gw_store g of None \<Rightarrow> \<lambda>c i. None | Some q \<Rightarrow> points_in Q q)"

lemma index_records_posted:
  assumes "vector_db Q up" and "text_model m" and "gateway_ok Q up m g" and "rstrip_slash (vs_gateway_url st) = base"
    and "records \<noteq> []" and "length records \<le> 1000" and "\<forall>r \<in> set records. 0 \<le> r_id r" and "distinct (map r_id records)"
  obtains g1 where "index_record_documents st fr (gateway_post Q m repr base) records collection g =
      (g1, Inr [(''indexed_count'', JInt (int (length records))), (''collection'', JStr (collection_name st collection))])"
    "gateway_ok Q up m g1"
    "stored_for m fr records (collection_name st collection) (gateway_points Q g) (gateway_points Q g1)"
proof -
  let ?c = "collection_name st collection"
  let ?r = "\<lparr>ix_documents = map (build_record_search_document fr) records, ix_collection = ?c\<rparr>"
  obtain q where q: "gw_store g = Some q" "up q" "fits Q q" "embedder_ok m (gw_embedder g)"
    using assms(3) by (auto simp: gateway_ok_def)
  have "valid_index_request ?r" using assms(5,6) by (cases records) (auto simp: valid_index_request_def)
  moreover have "\<forall>d \<in> set (ix_documents ?r). good_document d" using assms(7) record_document_good(1) by auto
  ultimately obtain g1 q1 where g1: "gateway_index Q m ?r g = (g1, Inr (int (length records), ?c))"
      "gw_store g1 = Some q1" "up q1" "fits Q q1" "embedder_ok m (gw_embedder g1)"
      "\<forall>c. points_in Q q1 c = (if c = ?c then fold put_point (map (point_of m) (ix_documents ?r)) (points_in Q q c) else points_in Q q c)"
    using index_stores_documents [OF assms(1,2) q(1-4), of ?r] by auto
  let ?ps = "map (point_of m) (ix_documents ?r)"
  have ids: "map pt_id ?ps = map (\<lambda>r. IntId (r_id r)) records"
    by (simp add: point_of_def record_document_good)
  have "distinct (map (\<lambda>r. IntId (r_id r)) records)"
    using assms(8) by (auto simp: distinct_map inj_on_def)
  then have d: "distinct (map pt_id ?ps)" unfolding ids .
  note lookup = fold_put_point_lookup [OF d, of "points_in Q q ?c"]
  have pid: "pt_id (point_of m (build_record_search_document fr r)) = IntId (r_id r)"
    and pv: "(pt_vector (point_of m (build_record_search_document fr r)), pt_payload (point_of m (build_record_search_document fr r))) =
      record_point m fr r" for r
    by (simp_all add: point_of_def record_document_good record_point_def)
  have "stored_for m fr records ?c (gateway_points Q g) (gateway_points Q g1)"
    using lookup pid pv by (auto simp: stored_for_def gateway_points_def q(1) g1(2,6) image_image)
  moreover have "object_list (map (\<lambda>r. JObj (build_record_search_document fr r)) records) = Some (map (build_record_search_document fr) records)"
    using object_list_map [of "map (build_record_search_document fr) records"] by (simp add: o_def)
  then have "index_record_documents st fr (gateway_post Q m repr base) records collection g =
      (g1, Inr [(''indexed_count'', JInt (int (length records))), (''collection'', JStr ?c)])"
    using g1(1) assms(4) by (simp add: index_record_documents_def gateway_post_def read_index_request_def obj_get_Cons
        raise_for_status_def require_object_def)
  moreover have "gateway_ok Q up m g1" using g1(2-5) by (simp add: gateway_ok_def)
  ultimately show ?thesis using that by blast
qed

lemma first_occurrences_set [simp]: "set (first_occurrences xs) = set xs" "distinct (first_occurrences xs)"
  by (simp_all add: first_occurrences_def)

lemma selected_records:
  assumes "record_store E" and "db_ok E db"
  obtains records where "sql_select E (by_ids_query ids) db = Inr records" "distinct (map r_id records)"
    "set records = {r \<in> set (rows E db). r_id r \<in> set ids \<and> r_deleted_at r = None}"
proof -
  obtain out where out: "sql_select E (by_ids_query ids) db = Inr out"
      "mset out = mset (filter (matches (q_where (by_ids_query ids))) (rows E db))"
    using record_store.select_all [OF assms, of "by_ids_query ids"] by (auto simp: by_ids_query_def)
  have "distinct (map r_id (filter (matches (q_where (by_ids_query ids))) (rows E db)))"
    using record_store.keys_unique [OF assms] by (simp add: distinct_map_filter)
  then have "distinct (map r_id out)" using out(2) by (metis mset_eq_imp_distinct_iff mset_map)
  moreover have "set out = {r \<in> set (rows E db). r_id r \<in> set ids \<and> r_deleted_at r = None}"
    using mset_eq_setD [OF out(2)] by (auto simp: by_ids_query_def matches_def)
  ultimately show ?thesis using that out(1) by blast
qed

text \<open>
  C19. Indexing carries the requested records from the table into the vector store. With the gateway running behind the
  HTTP client, a request for 1 to 100 ids of which at least one is an active record answers with counts that add up and
  the ids without an active record; afterwards the collection holds exactly the embedding, the text and the
  metadata of each of the active records under its id, and nothing else in the store has changed.
\<close>

theorem indexed_records_stored:
  assumes "record_store E" and "db_ok E db" and "vector_db Q up" and "text_model m" and "gateway_ok Q up m g"
    and "valid_index_ids ids" and "\<forall>r \<in> set (rows E db). 0 \<le> r_id r"
    and "r \<in> set (rows E db)" and "r_id r \<in> set ids" and "r_deleted_at r = None"
  shows "\<exists>g1 resp records. index_records_for_vector_search E st fr repr
      (gateway_post Q m repr (rstrip_slash (vs_gateway_url st))) ids collection db g = (g1, Inr resp) \<and>
    set records = {r \<in> set (rows E db). r_id r \<in> set ids \<and> r_deleted_at r = None} \<and>
    xi_requested resp = int (card (set ids)) \<and> xi_indexed resp = int (card (set records)) \<and>
    xi_indexed resp + int (length (xi_missing resp)) = xi_requested resp \<and>
    set (xi_missing resp) = set ids - r_id ` set records \<and> gateway_ok Q up m g1 \<and>
    stored_for m fr records (collection_name st collection) (gateway_points Q g) (gateway_points Q g1)"
proof -
  let ?ids = "first_occurrences ids"
  obtain records where recs: "sql_select E (by_ids_query ?ids) db = Inr records" "distinct (map r_id records)"
      "set records = {r \<in> set (rows E db). r_id r \<in> set ids \<and> r_deleted_at r = None}"
    by (rule selected_records [OF assms(1,2), of ?ids]) auto
  have ne: "records \<noteq> []" using assms(8-10) recs(3) by auto
  have sub: "r_id ` set records \<subseteq> set ids" using recs(3) by auto
  have len: "length records = card (r_id ` set records)" using recs(2) by (metis distinct_card length_map set_map)
  also have "\<dots> \<le> card (set ids)" using sub by (intro card_mono) auto
  also have "\<dots> \<le> length ids" by (rule card_length)
  also have "\<dots> \<le> 1000" using assms(6) by (simp add: valid_index_ids_def length_between_def schema_bounds)
  finally obtain g1 where g1: "index_record_documents st fr (gateway_post Q m repr (rstrip_slash (vs_gateway_url st))) records collection g =
      (g1, Inr [(''indexed_count'', JInt (int (length records))), (''collection'', JStr (collection_name st collection))])"
      "gateway_ok Q up m g1"
      "stored_for m fr records (collection_name st collection) (gateway_points Q g) (gateway_points Q g1)"
    using index_records_posted [OF assms(3-5) refl ne _ _ recs(2), of st fr repr collection] assms(7) recs(3) by blast
  let ?missing = "filter (\<lambda>i. i \<notin> r_id ` set records) ?ids"
  have miss: "set ?missing = set ids - r_id ` set records" by auto
  have "length ?missing = card (set ids - r_id ` set records)" unfolding miss [symmetric] by (rule distinct_card [symmetric]) simp
  then have sum: "length records + length ?missing = card (set ids)"
    using sub by (simp add: len card_Diff_subset finite_subset card_mono)
  have card: "card (set records) = length records" using recs(2) by (simp add: distinct_card distinct_map)
  have cnt: "length ?ids = card (set ids)" using distinct_card [of ?ids] by simp
  have "index_records_for_vector_search E st fr repr (gateway_post Q m repr (rstrip_slash (vs_gateway_url st))) ids collection db g =
      (g1, Inr \<lparr>xi_requested = int (length ?ids), xi_indexed = int (length records), xi_missing = ?missing,
        xi_collection = collection_name st collection\<rparr>)"
    using assms(6) recs(1) ne g1(1)
    by (simp add: index_records_for_vector_search_def or_gateway_error_def index_response_of_def get_or_def obj_get_Cons Let_def)
  then show ?thesis using g1(2,3) recs(3) sum card cnt miss by (intro exI [of _ g1] exI [of _ records] exI conjI) auto
qed

definition demo_vs :: vs_settings where
  "demo_vs = \<lparr>vs_gateway_url = ''http://gw/'', vs_collection = ''records''\<rparr>"

definition vs_db :: mem_db where
  "vs_db = \<lparr>stored = map (\<lambda>(i, s, t). (record_of 0 \<lparr>source = s, timestamp = t, data = [], tags = []\<rparr>)\<lparr>r_id := i\<rparr>)
     [(1, ''a'', 5), (2, ''a'', 3)], next_id = 3\<rparr>"

lemma vs_db_ok: "db_ok mem_engine vs_db" "\<forall>r \<in> set (rows mem_engine vs_db). 0 \<le> r_id r"
  by (auto simp: mem_engine_def mem_ok_def vs_db_def record_of_def row_key_def)

lemma demo_gateway_running: "gateway_ok mem_qdrant mem_up length_model demo_gateway"
  using demo_gateway_ok by (auto simp: gateway_ok_def)

theorem indexed_records_stored_witness:
  "\<exists>g1 resp. index_records_for_vector_search mem_engine demo_vs (\<lambda>q. []) (\<lambda>j. [])
      (gateway_post mem_qdrant length_model (\<lambda>j. []) (rstrip_slash (vs_gateway_url demo_vs))) [2, 9, 2] None vs_db demo_gateway =
      (g1, Inr resp) \<and> xi_requested resp = 2 \<and> xi_indexed resp = 1 \<and> set (xi_missing resp) = {9}"
proof -
  let ?r = "(record_of 0 \<lparr>source = ''a'', timestamp = 3, data = [], tags = []\<rparr>)\<lparr>r_id := 2\<rparr>"
  have rows: "rows mem_engine vs_db = [(record_of 0 \<lparr>source = ''a'', timestamp = 5, data = [], tags = []\<rparr>)\<lparr>r_id := 1\<rparr>, ?r]"
    by (simp add: mem_engine_def vs_db_def)
  have r: "?r \<in> set (rows mem_engine vs_db)" "r_id ?r \<in> set [2, 9, 2]" "r_deleted_at ?r = None"
    unfolding rows by (simp_all add: record_of_def)
  have "valid_index_ids [2, 9, 2]" by (simp add: valid_index_ids_def length_between_def schema_bounds)
  from indexed_records_stored [OF mem.record_store_axioms vs_db_ok(1) mq.vector_db_axioms lm.text_model_axioms demo_gateway_running
      this vs_db_ok(2) r, of demo_vs "\<lambda>q. []" "\<lambda>j. []" None]
  obtain g1 resp records where g1: "index_records_for_vector_search mem_engine demo_vs (\<lambda>q. []) (\<lambda>j. [])
      (gateway_post mem_qdrant length_model (\<lambda>j. []) (rstrip_slash (vs_gateway_url demo_vs))) [2, 9, 2] None vs_db demo_gateway =
      (g1, Inr resp)" "set records = {r \<in> set (rows mem_engine vs_db). r_id r \<in> set [2, 9, 2] \<and> r_deleted_at r = None}"
    "xi_requested resp = int (card (set [2, 9, 2 :: int]))" "xi_indexed resp = int (card (set records))"
    "set (xi_missing resp) = set [2, 9, 2] - r_id ` set records" by blast
  have "set records = {?r}" unfolding g1(2) rows by (auto simp: record_of_def)
  then have "xi_indexed resp = 1" "set (xi_missing resp) = {9}" using g1(4,5) by (simp_all add: record_of_def insert_Diff_if)
  moreover have "set [2, 9, 2 :: int] = {2, 9}" by auto
  then have "xi_requested resp = 2" using g1(3) by simp
  ultimately show ?thesis using g1(1) by blast
qed

subsection \<open>Queries\<close>

text \<open>
  No query is answered. However the gateway is set up, and whatever its collections hold, a valid unfiltered query through the
  running gateway ends with the status 502: the gateway's own search raises on every call, which it answers with 500.
\<close>

theorem query_never_answered:
  assumes "vector_db Q up" and "text_model m" and "gateway_ok Q up m g" and "valid_query query top_k"
  shows "\<exists>g1. query_vector_search st repr validate (gateway_post Q m repr (rstrip_slash (vs_gateway_url st)))
      query top_k collection None g = (g1, Inl (HTTPException 502 ''AI gateway search failed''))"
proof -
  let ?c = "collection_name st collection"
  let ?r = "\<lparr>sq_query = query, sq_top_k = top_k, sq_collection = ?c, sq_filters = None\<rparr>"
  obtain q where q: "gw_store g = Some q" "embedder_ok m (gw_embedder g)"
    using assms(3) by (auto simp: gateway_ok_def)
  obtain e1 where e1: "embed_text m (JStr query) (gw_embedder g) = (e1, Inr (text_vector m query))"
    by (rule text_model.embed_text_vector [OF assms(2) q(2)])
  obtain msg where "vs_search Q ?c (text_vector m query) top_k None q = Inl (AssertionError msg)"
    using vs_search_refused [OF assms(1)] by blast
  moreover have "valid_search_request ?r"
    using assms(4) by (simp add: valid_query_def valid_search_request_def VECTOR_SEARCH_MAX_TOP_K_def)
  ultimately have "gateway_search Q m repr ?r g = (g\<lparr>gw_embedder := e1\<rparr>, Inl (HTTPException 500 ''Search failed''))"
    using q(1) e1 by (simp add: gateway_search_def dict_to_qdrant_filter_def or_500_def is_Exception_def)
  then show ?thesis
    using assms(4)
    by (simp add: query_vector_search_def search_record_documents_def gateway_post_def read_search_request_def obj_get_Cons Let_def
        raise_for_status_def require_object_def or_gateway_error_def)
qed

theorem query_never_answered_witness:
  "\<exists>g1. query_vector_search demo_vs (\<lambda>j. []) (\<lambda>j. Inr []) (gateway_post mem_qdrant length_model (\<lambda>j. [])
      (rstrip_slash (vs_gateway_url demo_vs))) ''q'' 5 None None demo_gateway = (g1, Inl (HTTPException 502 ''AI gateway search failed''))"
proof -
  have "valid_query ''q'' 5" by (simp add: valid_query_def VECTOR_SEARCH_MAX_TOP_K_def)
  from query_never_answered [OF mq.vector_db_axioms lm.text_model_axioms demo_gateway_running this] show ?thesis by blast
qed

end
