(* ===== verification/Analytics.thy ===== *)
theory Analytics
  imports Store Json_Access Auth "HOL-Library.Option_ord"
begin

text \<open>
  The analytics endpoints of the ingestor, \<open>ingestor/routers/analytics.py\<close>: hourly statistics, percentile ranks and the
  best records of each source, computed in Python over the selected rows. \<open>float()\<close> on a string and the comparison of
  two containers are arguments, and so is the outcome of the statements on the materialised view.
\<close>

subsection \<open>Grouping\<close>

text \<open>\<open>d[k].append(x)\<close> on a \<open>defaultdict(list)\<close> that keeps the order of insertion.\<close>

fun add_to :: "'k \<Rightarrow> 'v \<Rightarrow> ('k \<times> 'v list) list \<Rightarrow> ('k \<times> 'v list) list" where
  "add_to k x [] = [(k, [x])]"
| "add_to k x ((j, ys) # g) = (if j = k then (j, ys @ [x]) # g else (j, ys) # add_to k x g)"

definition group_by :: "('v \<Rightarrow> 'k) \<Rightarrow> 'v list \<Rightarrow> ('k \<times> 'v list) list" where
  "group_by key xs = fold (\<lambda>x. add_to (key x) x) xs []"

definition groups_of :: "('v \<Rightarrow> 'k) \<Rightarrow> 'v list \<Rightarrow> ('k \<times> 'v list) list \<Rightarrow> bool" where
  "groups_of key xs g \<longleftrightarrow> distinct (map fst g) \<and> fst ` set g = key ` set xs \<and>
     (\<forall>(k, ys) \<in> set g. ys = filter (\<lambda>x. key x = k) xs)"

lemma add_to_keys: "fst ` set (add_to k x g) = insert k (fst ` set g)"
  by (induction k x g rule: add_to.induct) (simp_all add: insert_commute)

lemma add_to_distinct: "distinct (map fst g) \<Longrightarrow> distinct (map fst (add_to k x g))"
  by (induction g) (auto simp: add_to_keys)

lemma add_to_map_of:
  "map_of (add_to k x g) = (map_of g)(k \<mapsto> (case map_of g k of None \<Rightarrow> [x] | Some ys \<Rightarrow> ys @ [x]))"
  by (induction k x g rule: add_to.induct) (auto simp: fun_eq_iff)

lemma group_by_snoc: "group_by key (xs @ [x]) = add_to (key x) x (group_by key xs)"
  by (simp add: group_by_def)

lemma group_by_map_of: "map_of (group_by key xs) k = (if k \<in> key ` set xs then Some (filter (\<lambda>x. key x = k) xs) else None)"
proof (induction xs rule: rev_induct)
  case (snoc x xs)
  have "filter (\<lambda>x. key x = k) xs = []" if "k \<notin> key ` set xs" using that by (auto simp: filter_empty_conv)
  then show ?case using snoc by (auto simp: group_by_snoc add_to_map_of)
qed (simp add: group_by_def)

lemma group_by_distinct: "distinct (map fst (group_by key xs))"
  by (induction xs rule: rev_induct) (simp_all add: group_by_snoc add_to_distinct, simp add: group_by_def)

lemma group_by_groups: "groups_of key xs (group_by key xs)"
proof -
  have "fst ` set (group_by key xs) = key ` set xs"
    using group_by_map_of [of key xs] by (auto simp: dom_map_of_conv_image_fst [symmetric] dom_def split: if_splits)
  moreover have "ys = filter (\<lambda>x. key x = k) xs" if "(k, ys) \<in> set (group_by key xs)" for k ys
    using map_of_is_SomeI [OF group_by_distinct that] group_by_map_of [of key xs k] by (simp split: if_splits)
  ultimately show ?thesis using group_by_distinct by (auto simp: groups_of_def)
qed

lemma add_to_sum: "(\<Sum>(k, ys) \<leftarrow> add_to j y g. length ys) = Suc (\<Sum>(k, ys) \<leftarrow> g. length ys)"
  by (induction j y g rule: add_to.induct) auto

lemma group_by_sum: "(\<Sum>(k, ys) \<leftarrow> group_by key xs. length ys) = length xs"
proof (induction xs rule: rev_induct)
  case (snoc x xs)
  then show ?case unfolding group_by_snoc add_to_sum by simp
qed (simp add: group_by_def)

subsection \<open>Numbers\<close>

text \<open>\<open>round(q, n)\<close>: half to even.\<close>

definition py_round :: "nat \<Rightarrow> rat \<Rightarrow> rat" where
  "py_round n q =
     (let y = q * 10 ^ n; f = \<lfloor>y\<rfloor>; d = y - of_int f
      in of_int (if d < 1/2 then f else if 1/2 < d then f + 1 else if even f then f else f + 1) / 10 ^ n)"

fun py_float :: "(string \<Rightarrow> rat option) \<Rightarrow> json \<Rightarrow> rat outcome" where
  "py_float fos (JInt i) = Inr (of_int i)"
| "py_float fos (JFloat q) = Inr q"
| "py_float fos (JBool b) = Inr (if b then 1 else 0)"
| "py_float fos (JStr s) =
     (case fos s of Some q \<Rightarrow> Inr q | None \<Rightarrow> Inl (ValueError (''could not convert string to float: '' @ s)))"
| "py_float fos v = Inl (TypeError (''float() argument must be a string or a real number, not '' @ type_name v))"

text \<open>\<open>record.raw_data.get("value")\<close>, with \<open>None\<close> for a missing key and for null.\<close>

definition raw_value :: "row \<Rightarrow> json option" where
  "raw_value r = (case obj_get ''value'' (r_raw_data r) of None \<Rightarrow> None | Some v \<Rightarrow> if v = JNull then None else Some v)"

definition hour_of :: "datetime \<Rightarrow> datetime" where
  "hour_of t = t - t mod micros_per_hour"

subsection \<open>Hourly statistics\<close>

record hour_summary =
  hs_hour :: string
  hs_count :: int
  hs_processed :: int
  hs_pct :: "rat option"
  hs_avg :: "rat option"
  hs_min :: "rat option"
  hs_max :: "rat option"
  hs_sources :: int

definition values_of :: "(string \<Rightarrow> rat option) \<Rightarrow> row list \<Rightarrow> rat list outcome" where
  "values_of fos rs = traverse (py_float fos) (List.map_filter raw_value rs)"

definition hour_stats :: "(string \<Rightarrow> rat option) \<Rightarrow> datetime \<times> row list \<Rightarrow> hour_summary outcome" where
  "hour_stats fos b =
     (case b of (hour, rs) \<Rightarrow>
        try_bind (values_of fos rs) (\<lambda>vs.
          let n = length rs; p = length (filter r_processed rs)
          in Inr \<lparr>hs_hour = isoformat hour, hs_count = int n, hs_processed = int p,
               hs_pct = (if n = 0 then None else Some (py_round 2 (of_nat p / of_nat n * 100))),
               hs_avg = (if vs = [] then None else Some (py_round 4 (sum_list vs / of_nat (length vs)))),
               hs_min = (if vs = [] then None else Some (Min (set vs))),
               hs_max = (if vs = [] then None else Some (Max (set vs))),
               hs_sources = int (card (r_source ` set rs))\<rparr>))"

text \<open>The buckets, the latest hour first.\<close>

definition hourly :: "row list \<Rightarrow> (datetime \<times> row list) list" where
  "hourly rs = rev (sort_key fst (group_by (\<lambda>r. hour_of (r_timestamp r)) rs))"

definition since_query :: "datetime \<Rightarrow> bool \<Rightarrow> query" where
  "since_query since descending =
     \<lparr>q_where = [DeletedIsNull, TimestampGe since], q_order = [(ColTimestamp, descending)], q_offset = 0, q_limit = None\<rparr>"

record summary_response =
  su_summary :: "hour_summary list"
  su_hours_back :: int
  su_since :: string

definition get_summary ::
  "'db engine \<Rightarrow> (string \<Rightarrow> rat option) \<Rightarrow> datetime \<Rightarrow> int \<Rightarrow> 'db \<Rightarrow> summary_response outcome"
where
  "get_summary E fos now hours db =
     (if \<not> (1 \<le> hours \<and> hours \<le> 168) then Inl unprocessable
      else
        let since = now - hours * micros_per_hour
        in try_bind (sql_select E (since_query since False) db) (\<lambda>records.
           try_bind (traverse (hour_stats fos) (hourly records)) (\<lambda>summary.
             Inr \<lparr>su_summary = summary, su_hours_back = hours, su_since = isoformat since\<rparr>)))"

subsection \<open>Percentiles\<close>

record percentile_record =
  pr_id :: int
  pr_timestamp :: string
  pr_value :: "json option"
  pr_rank :: rat

record percentile_response =
  pp_source :: string
  pp_count :: int
  pp_records :: "percentile_record list"

definition percentile_query :: "string \<Rightarrow> query" where
  "percentile_query src =
     \<lparr>q_where = [DeletedIsNull, SourceEq src], q_order = [(ColTimestamp, True)], q_offset = 0, q_limit = Some 100\<rparr>"

definition percentile_rank :: "nat \<Rightarrow> nat \<Rightarrow> rat" where
  "percentile_rank n i = (if n \<le> 1 then 0 else py_round 4 (of_nat i / of_nat (n - 1)))"

definition get_percentile :: "'db engine \<Rightarrow> string \<Rightarrow> 'db \<Rightarrow> percentile_response outcome" where
  "get_percentile E src db =
     try_bind (sql_select E (percentile_query src) db) (\<lambda>records.
       Inr \<lparr>pp_source = src, pp_count = int (length records),
            pp_records = map (\<lambda>(i, r). \<lparr>pr_id = r_id r, pr_timestamp = isoformat (r_timestamp r), pr_value = raw_value r,
              pr_rank = percentile_rank (length records) i\<rparr>) (enumerate 0 records)\<rparr>)"

subsection \<open>The best records of each source\<close>

text \<open>
  \<open>a < b\<close> on the sort keys \<open>(value is not None, value or 0)\<close>; numbers compare with numbers and strings with strings,
  \<open>cmp\<close> compares two containers.
\<close>

fun num_of :: "json \<Rightarrow> rat option" where
  "num_of (JInt i) = Some (of_int i)"
| "num_of (JFloat q) = Some q"
| "num_of (JBool b) = Some (if b then 1 else 0)"
| "num_of v = None"

definition sort_val :: "json option \<Rightarrow> json" where
  "sort_val v = (case v of Some w \<Rightarrow> if truthy w then w else JInt 0 | None \<Rightarrow> JInt 0)"

definition value_less :: "(json \<Rightarrow> json \<Rightarrow> bool outcome) \<Rightarrow> json \<Rightarrow> json \<Rightarrow> bool outcome" where
  "value_less cmp a b =
     (case (num_of a, num_of b) of
        (Some x, Some y) \<Rightarrow> Inr (x < y)
      | _ \<Rightarrow> (case (a, b) of (JStr s, JStr t) \<Rightarrow> Inr (s \<noteq> t \<and> str_le s t) | _ \<Rightarrow> cmp a b))"

definition key_less :: "(json \<Rightarrow> json \<Rightarrow> bool outcome) \<Rightarrow> json option \<Rightarrow> json option \<Rightarrow> bool outcome" where
  "key_less cmp v w =
     (if (v = None) \<noteq> (w = None) then Inr (v = None) else value_less cmp (sort_val v) (sort_val w))"

text \<open>
  \<open>sorted(..., reverse=True)\<close>: stable, the largest first; a comparison that raises ends it. (Python may compare
  other pairs than this insertion does; on keys of one kind the result is the same.)
\<close>

fun insert_desc :: "('a \<Rightarrow> 'a \<Rightarrow> bool outcome) \<Rightarrow> 'a \<Rightarrow> 'a list \<Rightarrow> 'a list outcome" where
  "insert_desc lt x [] = Inr [x]"
| "insert_desc lt x (y # ys) =
     try_bind (lt y x) (\<lambda>b. if b then Inr (x # y # ys) else map_sum id ((#) y) (insert_desc lt x ys))"

fun sorted_desc :: "('a \<Rightarrow> 'a \<Rightarrow> bool outcome) \<Rightarrow> 'a list \<Rightarrow> 'a list \<Rightarrow> 'a list outcome" where
  "sorted_desc lt [] acc = Inr acc"
| "sorted_desc lt (x # xs) acc = try_bind (insert_desc lt x acc) (sorted_desc lt xs)"

record top_record =
  tr_id :: int
  tr_timestamp :: string
  tr_value :: "json option"
  tr_rank :: nat

definition top_of_source ::
  "(json \<Rightarrow> json \<Rightarrow> bool outcome) \<Rightarrow> int \<Rightarrow> string \<times> row list \<Rightarrow> (string \<times> top_record list) outcome"
where
  "top_of_source cmp lmt g =
     (case g of (src, rs) \<Rightarrow>
        try_bind (sorted_desc (\<lambda>r s. key_less cmp (raw_value r) (raw_value s)) rs []) (\<lambda>out.
          Inr (src, map (\<lambda>(i, r). \<lparr>tr_id = r_id r, tr_timestamp = isoformat (r_timestamp r), tr_value = raw_value r, tr_rank = i\<rparr>)
                 (enumerate 1 (take (nat lmt) out)))))"

definition get_top_by_source ::
  "'db engine \<Rightarrow> (json \<Rightarrow> json \<Rightarrow> bool outcome) \<Rightarrow> datetime \<Rightarrow> int \<Rightarrow> int \<Rightarrow> 'db \<Rightarrow> (string \<times> top_record list) list outcome"
where
  "get_top_by_source E cmp now lmt hours db =
     (if \<not> (1 \<le> lmt \<and> lmt \<le> 50 \<and> 1 \<le> hours \<and> hours \<le> 2160) then Inl unprocessable
      else try_bind (sql_select E (since_query (now - hours * micros_per_hour) True) db) (\<lambda>records.
             traverse (top_of_source cmp lmt) (group_by r_source records)))"

subsection \<open>The materialised view\<close>

text \<open>
  \<open>refresh\<close> and \<open>view\<close> are the outcomes of the statements on the view, \<open>rollback\<close> of the rollback after them; every
  \<open>Exception\<close> of the first is answered with the rollback and, for the statistics, the base table.
\<close>

definition refresh_materialized_view :: "unit outcome \<Rightarrow> unit outcome \<Rightarrow> string outcome" where
  "refresh_materialized_view refresh rollback =
     (case refresh of
        Inr _ \<Rightarrow> Inr ''success''
      | Inl e \<Rightarrow> if is_Exception e then try_bind rollback (\<lambda>_. Inr ''success'') else Inl e)"

record view_row =
  vr_stats :: hour_summary
  vr_source_list :: string
  vr_materialized_at :: string

definition base_query :: query where
  "base_query = \<lparr>q_where = [DeletedIsNull], q_order = [(ColTimestamp, False)], q_offset = 0, q_limit = None\<rparr>"

definition sorted_sources :: "row list \<Rightarrow> string list" where
  "sorted_sources rs = map fst (sort_members (map (\<lambda>r. (r_source r, ())) rs))"

definition compute_stats_from_base ::
  "'db engine \<Rightarrow> (string \<Rightarrow> rat option) \<Rightarrow> datetime \<Rightarrow> int \<Rightarrow> 'db \<Rightarrow> view_row list outcome"
where
  "compute_stats_from_base E fos now lmt db =
     try_bind (sql_select E base_query db) (\<lambda>records.
       traverse (\<lambda>b. map_sum id (\<lambda>s. \<lparr>vr_stats = s, vr_source_list = join_with '','' (sorted_sources (snd b)),
           vr_materialized_at = isoformat now @ ''+00:00''\<rparr>) (hour_stats fos b))
         (take (nat lmt) (hourly records)))"

definition get_materialized_view_stats ::
  "'db engine \<Rightarrow> (string \<Rightarrow> rat option) \<Rightarrow> datetime \<Rightarrow> (int \<Rightarrow> view_row list outcome) \<Rightarrow> unit outcome \<Rightarrow> int \<Rightarrow> 'db \<Rightarrow>
   view_row list outcome"
where
  "get_materialized_view_stats E fos now view rollback lmt db =
     (if \<not> (1 \<le> lmt \<and> lmt \<le> 168) then Inl unprocessable
      else (case view lmt of
              Inr stats \<Rightarrow> Inr stats
            | Inl e \<Rightarrow> if is_Exception e then try_bind rollback (\<lambda>_. compute_stats_from_base E fos now lmt db) else Inl e))"

subsection \<open>What the summaries say\<close>

lemma sum_lengths: "(\<Sum>b \<leftarrow> g. int (length (snd b))) = int (\<Sum>(h, ys) \<leftarrow> g. length ys)"
  by (induction g) auto

lemma hourly_groups: "groups_of (\<lambda>r. hour_of (r_timestamp r)) rs (hourly rs)"
proof -
  let ?g = "group_by (\<lambda>r. hour_of (r_timestamp r)) rs"
  have "mset (map fst (hourly rs)) = mset (map fst ?g)" by (simp only: hourly_def mset_map mset_rev mset_sort)
  then have "distinct (map fst (hourly rs))" using group_by_distinct mset_eq_imp_distinct_iff by blast
  moreover have "set (hourly rs) = set ?g" by (simp add: hourly_def)
  ultimately show ?thesis using group_by_groups [of "\<lambda>r. hour_of (r_timestamp r)" rs] unfolding groups_of_def by presburger
qed

lemma hourly_sorted: "sorted_wrt (>) (map fst (hourly rs))"
proof -
  let ?g = "sort_key fst (group_by (\<lambda>r. hour_of (r_timestamp r)) rs)"
  have "sorted (map fst ?g)" by simp
  moreover have "distinct (map fst ?g)"
    using hourly_groups [of rs] by (simp add: groups_of_def hourly_def rev_map [symmetric])
  ultimately have "sorted_wrt (<) (map fst ?g)" by (simp add: strict_sorted_iff)
  then show ?thesis by (simp add: hourly_def rev_map [symmetric] sorted_wrt_rev)
qed

lemma hourly_sum: "(\<Sum>(h, ys) \<leftarrow> hourly rs. length ys) = length rs"
proof -
  let ?g = "group_by (\<lambda>r. hour_of (r_timestamp r)) rs"
  have "mset (map (\<lambda>(h, ys). length ys) (hourly rs)) = mset (map (\<lambda>(h, ys). length ys) ?g)"
    by (simp only: hourly_def mset_map mset_rev mset_sort)
  then show ?thesis using group_by_sum [of "\<lambda>r. hour_of (r_timestamp r)" rs] by (metis sum_mset_sum_list)
qed

lemma since_records:
  assumes "record_store E" and "db_ok E db"
  obtains records where "sql_select E (since_query since desc) db = Inr records"
    "mset records = mset (filter (\<lambda>r. r_deleted_at r = None \<and> since \<le> r_timestamp r) (rows E db))"
proof -
  have "matches (q_where (since_query since desc)) = (\<lambda>r. r_deleted_at r = None \<and> since \<le> r_timestamp r)"
    by (auto simp: since_query_def matches_def)
  then show ?thesis using that record_store.select_all [OF assms, of "since_query since desc"]
    by (auto simp: since_query_def)
qed

lemma hour_stats_fields:
  assumes "hour_stats fos (h, rs) = Inr s"
  shows "hs_hour s = isoformat h" "hs_count s = int (length rs)" "hs_processed s = int (length (filter r_processed rs))"
    "hs_sources s = int (card (r_source ` set rs))"
  using assms by (auto simp: hour_stats_def try_bind_Inr_iff Let_def)

text \<open>
  The summary partitions the records. When it answers, its rows are the hours of the active records since the bound,
  strictly the latest first; each row counts exactly the active records of its hour, the processed ones among them and
  their sources, and the counts of all rows add up to the number of these records.
\<close>

theorem summary_partitions_records:
  assumes "record_store E" and "db_ok E db" and "get_summary E fos now hours db = Inr resp"
  defines "recent \<equiv> filter (\<lambda>r. r_deleted_at r = None \<and> now - hours * micros_per_hour \<le> r_timestamp r) (rows E db)"
  shows "\<exists>hs. sorted_wrt (>) hs \<and> set hs = (\<lambda>r. hour_of (r_timestamp r)) ` set recent \<and>
    list_all2 (\<lambda>h s. hs_hour s = isoformat h \<and>
        hs_count s = int (length (filter (\<lambda>r. hour_of (r_timestamp r) = h) recent)) \<and>
        hs_processed s = int (length (filter (\<lambda>r. hour_of (r_timestamp r) = h \<and> r_processed r) recent)) \<and>
        hs_sources s = int (card {r_source r |r. r \<in> set recent \<and> hour_of (r_timestamp r) = h})) hs (su_summary resp) \<and>
    sum_list (map hs_count (su_summary resp)) = int (length recent)"
proof -
  let ?key = "\<lambda>r. hour_of (r_timestamp r)"
  obtain records where recs: "sql_select E (since_query (now - hours * micros_per_hour) False) db = Inr records" "mset records = mset recent"
    unfolding recent_def by (rule since_records [OF assms(1,2)])
  have t: "traverse (hour_stats fos) (hourly records) = Inr (su_summary resp)"
    using assms(3) recs(1) by (auto simp: get_summary_def Let_def try_bind_Inr_iff split: if_splits)
  then have all: "list_all2 (\<lambda>b s. hour_stats fos b = Inr s) (hourly records) (su_summary resp)" by (simp add: traverse_Inr_iff)
  note g = hourly_groups [of records]
  have eq: "set records = set recent" by (rule mset_eq_setD [OF recs(2)])
  have len: "length (filter P records) = length (filter P recent)" for P by (metis mset_filter recs(2) size_mset)
  have row: "hs_hour s = isoformat h \<and> hs_count s = int (length (filter (\<lambda>r. ?key r = h) recent)) \<and>
      hs_processed s = int (length (filter (\<lambda>r. ?key r = h \<and> r_processed r) recent)) \<and>
      hs_sources s = int (card {r_source r |r. r \<in> set recent \<and> ?key r = h})"
    if "(h, ys) \<in> set (hourly records)" "hour_stats fos (h, ys) = Inr s" for h ys s
  proof -
    have ys: "ys = filter (\<lambda>r. ?key r = h) records" using g that(1) by (auto simp: groups_of_def)
    have "r_source ` set ys = {r_source r |r. r \<in> set recent \<and> ?key r = h}" by (auto simp: ys eq)
    moreover have "filter r_processed ys = filter (\<lambda>r. ?key r = h \<and> r_processed r) records" by (simp add: ys conj_commute)
    ultimately show ?thesis using hour_stats_fields [OF that(2)] len by (simp add: ys)
  qed
  have "list_all2 (\<lambda>b s. hs_hour s = isoformat (fst b) \<and> hs_count s = int (length (filter (\<lambda>r. ?key r = fst b) recent)) \<and>
      hs_processed s = int (length (filter (\<lambda>r. ?key r = fst b \<and> r_processed r) recent)) \<and>
      hs_sources s = int (card {r_source r |r. r \<in> set recent \<and> ?key r = fst b})) (hourly records) (su_summary resp)"
    by (rule list.rel_mono_strong [OF all]) (use row in force)
  then have "list_all2 (\<lambda>h s. hs_hour s = isoformat h \<and> hs_count s = int (length (filter (\<lambda>r. ?key r = h) recent)) \<and>
      hs_processed s = int (length (filter (\<lambda>r. ?key r = h \<and> r_processed r) recent)) \<and>
      hs_sources s = int (card {r_source r |r. r \<in> set recent \<and> ?key r = h})) (map fst (hourly records)) (su_summary resp)"
    by (simp add: list_all2_map1)
  moreover have "map hs_count (su_summary resp) = map (\<lambda>b. int (length (snd b))) (hourly records)"
    using all by (induction rule: list_all2_induct) (auto dest: hour_stats_fields)
  then have "sum_list (map hs_count (su_summary resp)) = int (\<Sum>(h, ys) \<leftarrow> hourly records. length ys)"
    by (simp add: sum_lengths)
  then have "sum_list (map hs_count (su_summary resp)) = int (length recent)"
    using hourly_sum [of records] len [of "\<lambda>r. True"] by simp
  ultimately show ?thesis using hourly_sorted [of records] g eq by (intro exI [of _ "map fst (hourly records)"]) (auto simp: groups_of_def)
qed

definition value_row :: "int \<Rightarrow> string \<Rightarrow> datetime \<Rightarrow> json \<Rightarrow> row" where
  "value_row i src t v = (record_of 0 \<lparr>source = src, timestamp = t, data = [(''value'', v)], tags = []\<rparr>)\<lparr>r_id := i\<rparr>"

definition values_db :: "(string \<times> json) list \<Rightarrow> mem_db" where
  "values_db svs = \<lparr>stored = map (\<lambda>(i, src, v). value_row (int i) src (int i * 1800000000) v) (enumerate 1 svs),
     next_id = int (length svs) + 1\<rparr>"

lemma value_row_fields [simp]:
  "r_id (value_row i src t v) = i" "r_source (value_row i src t v) = src" "r_timestamp (value_row i src t v) = t"
  "r_deleted_at (value_row i src t v) = None" "r_processed (value_row i src t v) = False"
  "raw_value (value_row i src t v) = (if v = JNull then None else Some v)"
  by (simp_all add: value_row_def record_of_def raw_value_def obj_get_Cons)

lemma values_db_ok: "db_ok mem_engine (values_db svs)"
  and values_db_rows: "rows mem_engine (values_db svs) = map (\<lambda>(i, src, v). value_row (int i) src (int i * 1800000000) v) (enumerate 1 svs)"
proof -
  show rows: "rows mem_engine (values_db svs) = map (\<lambda>(i, src, v). value_row (int i) src (int i * 1800000000) v) (enumerate 1 svs)"
    by (simp add: mem_engine_def values_db_def)
  have ids: "map r_id (stored (values_db svs)) = map int [1..<1 + length svs]"
    unfolding values_db_def map_fst_enumerate [symmetric] by (simp add: o_def case_prod_beta del: map_fst_enumerate)
  have ts: "map r_timestamp (stored (values_db svs)) = map (\<lambda>i. int i * 1800000000) [1..<1 + length svs]"
    unfolding values_db_def map_fst_enumerate [symmetric] by (simp add: o_def case_prod_beta del: map_fst_enumerate)
  have d1: "distinct (map r_id (stored (values_db svs)))" unfolding ids by (simp add: distinct_map inj_on_def)
  have "distinct (map r_timestamp (stored (values_db svs)))" unfolding ts by (simp add: distinct_map inj_on_def)
  then have "distinct (map row_key (stored (values_db svs)))" by (auto simp: distinct_map inj_on_def row_key_def)
  moreover have "\<forall>r \<in> set (stored (values_db svs)). r_id r < next_id (values_db svs)"
    by (auto simp: values_db_def in_set_enumerate_eq)
  ultimately show "db_ok mem_engine (values_db svs)" using d1 by (simp add: mem_engine_def mem_ok_def)
qed

lemma get_summary_iff:
  assumes "record_store E" and "db_ok E db" and "1 \<le> hours" and "hours \<le> 168"
  shows "(\<exists>resp. get_summary E fos now hours db = Inr resp) \<longleftrightarrow>
    (\<forall>r \<in> set (rows E db). r_deleted_at r = None \<longrightarrow> now - hours * micros_per_hour \<le> r_timestamp r \<longrightarrow>
       (\<forall>v. raw_value r = Some v \<longrightarrow> (\<exists>q. py_float fos v = Inr q)))"
proof -
  obtain records where recs: "sql_select E (since_query (now - hours * micros_per_hour) False) db = Inr records"
      "mset records = mset (filter (\<lambda>r. r_deleted_at r = None \<and> now - hours * micros_per_hour \<le> r_timestamp r) (rows E db))"
    by (rule since_records [OF assms(1,2)])
  have eq: "set records = {r \<in> set (rows E db). r_deleted_at r = None \<and> now - hours * micros_per_hour \<le> r_timestamp r}"
    using mset_eq_setD [OF recs(2)] by simp
  have trav: "(\<exists>ys. traverse f xs = Inr ys) \<longleftrightarrow> (\<forall>x \<in> set xs. \<exists>y. f x = Inr y)" for f :: "'x \<Rightarrow> 'y outcome" and xs
  proof (induction xs)
    case (Cons x xs)
    then show ?case by (cases "f x"; cases "traverse f xs") (auto simp: traverse_Cons)
  qed (simp add: traverse_Nil)
  have stats: "(\<exists>s. hour_stats fos (h, ys) = Inr s) \<longleftrightarrow> (\<forall>r \<in> set ys. \<forall>v. raw_value r = Some v \<longrightarrow> (\<exists>q. py_float fos v = Inr q))" for h ys
  proof -
    have "(\<exists>s. hour_stats fos (h, ys) = Inr s) \<longleftrightarrow> (\<exists>vs. values_of fos ys = Inr vs)"
      by (auto simp: hour_stats_def try_bind_Inr_iff Let_def)
    also have "\<dots> \<longleftrightarrow> (\<forall>v \<in> set (List.map_filter raw_value ys). \<exists>q. py_float fos v = Inr q)" by (simp add: values_of_def trav)
    also have "\<dots> \<longleftrightarrow> (\<forall>r \<in> set ys. \<forall>v. raw_value r = Some v \<longrightarrow> (\<exists>q. py_float fos v = Inr q))"
      by (induction ys) (auto split: option.split)
    finally show ?thesis .
  qed
  have all: "(\<forall>b \<in> set (hourly records). \<forall>r \<in> set (snd b). P r) \<longleftrightarrow> (\<forall>r \<in> set records. P r)" for P
  proof -
    note g = hourly_groups [of records]
    have entry: "snd b = filter (\<lambda>x. hour_of (r_timestamp x) = fst b) records" if "b \<in> set (hourly records)" for b
      using g that unfolding groups_of_def by (cases b) auto
    have key: "\<exists>b \<in> set (hourly records). fst b = hour_of (r_timestamp r)" if "r \<in> set records" for r
    proof -
      have "hour_of (r_timestamp r) \<in> fst ` set (hourly records)" using g that unfolding groups_of_def by simp
      then show ?thesis by (metis imageE)
    qed
    show ?thesis
    proof (intro iffI ballI)
      fix r
      assume p: "\<forall>b \<in> set (hourly records). \<forall>r \<in> set (snd b). P r" and r: "r \<in> set records"
      then obtain b where "b \<in> set (hourly records)" "fst b = hour_of (r_timestamp r)" using key by blast
      then show "P r" using p r entry [of b] by simp
    next
      fix b r
      assume "\<forall>r \<in> set records. P r" "b \<in> set (hourly records)" "r \<in> set (snd b)"
      then show "P r" using entry [of b] by simp
    qed
  qed
  have "(\<exists>resp. get_summary E fos now hours db = Inr resp) \<longleftrightarrow> (\<exists>rows. traverse (hour_stats fos) (hourly records) = Inr rows)"
    using assms(3,4) recs(1) by (auto simp: get_summary_def Let_def try_bind_Inr_iff)
  also have "\<dots> \<longleftrightarrow> (\<forall>b \<in> set (hourly records). \<forall>r \<in> set (snd b). \<forall>v. raw_value r = Some v \<longrightarrow> (\<exists>q. py_float fos v = Inr q))"
    unfolding trav using stats by (metis prod.collapse)
  also have "\<dots> \<longleftrightarrow> (\<forall>r \<in> set records. \<forall>v. raw_value r = Some v \<longrightarrow> (\<exists>q. py_float fos v = Inr q))" by (rule all)
  finally show ?thesis by (auto simp: eq)
qed

theorem summary_partitions_records_witness:
  "\<exists>resp hs. get_summary mem_engine (\<lambda>s. None) 5400000000 2 (values_db [(''a'', JInt 4), (''b'', JNull), (''a'', JFloat 2)]) = Inr resp \<and>
     sorted_wrt (>) hs \<and> set hs = {0, 3600000000} \<and> map hs_hour (su_summary resp) = map isoformat hs \<and>
     sum_list (map hs_count (su_summary resp)) = 3"
proof -
  let ?db = "values_db [(''a'', JInt 4), (''b'', JNull), (''a'', JFloat 2)]"
  have rows: "rows mem_engine ?db = [value_row 1 ''a'' 1800000000 (JInt 4), value_row 2 ''b'' 3600000000 JNull,
      value_row 3 ''a'' 5400000000 (JFloat 2)]" by (simp add: values_db_rows)
  have "\<exists>resp. get_summary mem_engine (\<lambda>s. None) 5400000000 2 ?db = Inr resp"
    by (subst get_summary_iff [OF mem.record_store_axioms values_db_ok]) (simp_all add: rows)
  then obtain resp where resp: "get_summary mem_engine (\<lambda>s. None) 5400000000 2 ?db = Inr resp" by blast
  have recent: "filter (\<lambda>r. r_deleted_at r = None \<and> 5400000000 - 2 * micros_per_hour \<le> r_timestamp r) (rows mem_engine ?db) = rows mem_engine ?db"
    unfolding rows by (simp add: micros_per_hour_def)
  obtain hs where hs: "sorted_wrt (>) hs" "set hs = (\<lambda>r. hour_of (r_timestamp r)) ` set (rows mem_engine ?db)"
      "list_all2 (\<lambda>h s. hs_hour s = isoformat h) hs (su_summary resp)"
      "sum_list (map hs_count (su_summary resp)) = int (length (rows mem_engine ?db))"
    using summary_partitions_records [OF mem.record_store_axioms values_db_ok resp, unfolded recent]
    by (elim exE conjE) (rule that, auto elim: list.rel_mono_strong)
  have "map hs_hour (su_summary resp) = map isoformat hs"
    using hs(3) by (induction rule: list_all2_induct) auto
  moreover have "set hs = {0, 3600000000}" unfolding hs(2) rows by (simp add: hour_of_def micros_per_hour_def)
  moreover have "int (length (rows mem_engine ?db)) = 3" by (simp add: rows)
  ultimately show ?thesis using resp hs(1,4) by auto
qed

text \<open>
  One value that is not a number takes the summary down. The summary answers exactly when \<open>float()\<close> accepts the value of
  every active record since the bound; one record whose value is, say, a list makes it raise for all sources.
\<close>

theorem summary_needs_numbers:
  assumes "record_store E" and "db_ok E db" and "1 \<le> hours" and "hours \<le> 168"
  shows "(\<exists>resp. get_summary E fos now hours db = Inr resp) \<longleftrightarrow>
    (\<forall>r \<in> set (rows E db). r_deleted_at r = None \<longrightarrow> now - hours * micros_per_hour \<le> r_timestamp r \<longrightarrow>
       (\<forall>v. raw_value r = Some v \<longrightarrow> (\<exists>q. py_float fos v = Inr q)))"
  by (rule get_summary_iff [OF assms])

theorem summary_needs_numbers_witness:
  "\<not> (\<exists>resp. get_summary mem_engine (\<lambda>s. None) 5400000000 2 (values_db [(''a'', JInt 4), (''b'', JList [])]) = Inr resp)"
  by (subst summary_needs_numbers [OF mem.record_store_axioms values_db_ok])
    (simp_all add: values_db_rows micros_per_hour_def)

subsection \<open>What the ranking says\<close>

lemma sorted_sources_set: "set (sorted_sources rs) = r_source ` set rs"
  using sort_members_keys [of "map (\<lambda>r. (r_source r, ())) rs"] by (simp add: sorted_sources_def image_image)

lemma sorted_sources_distinct: "distinct (sorted_sources rs)"
  by (simp add: sorted_sources_def sort_members_distinct)

lemma list_all2_choice: "(\<forall>x \<in> set xs. \<exists>y. P x y) \<Longrightarrow> \<exists>ys. list_all2 P xs ys"
  by (induction xs) (auto simp: list_all2_Cons1)

text \<open>The order of the sort keys on numbers: no value is below every value.\<close>

definition score :: "row \<Rightarrow> rat option" where
  "score r = map_option (\<lambda>v. case num_of (sort_val (Some v)) of Some q \<Rightarrow> q | None \<Rightarrow> 0) (raw_value r)"

definition numeric :: "row \<Rightarrow> bool" where
  "numeric r \<longleftrightarrow> (\<forall>v. raw_value r = Some v \<longrightarrow> num_of (sort_val (Some v)) \<noteq> None)"

lemma key_less_numeric:
  "numeric r \<Longrightarrow> numeric s \<Longrightarrow> key_less cmp (raw_value r) (raw_value s) = Inr (score r < score s)"
  by (cases "raw_value r"; cases "raw_value s") (auto simp: key_less_def numeric_def score_def value_less_def sort_val_def)

lemma insert_desc_ok:
  assumes "\<forall>y \<in> set ys. lt y x = Inr (f y < (f x :: 'k :: linorder))" and "sorted_wrt (\<lambda>a b. f b \<le> f a) ys"
  shows "\<exists>out. insert_desc lt x ys = Inr out \<and> mset out = add_mset x (mset ys) \<and> sorted_wrt (\<lambda>a b. f b \<le> f a) out"
  using assms
proof (induction ys)
  case (Cons y ys)
  then obtain out where out: "insert_desc lt x ys = Inr out" "mset out = add_mset x (mset ys)" "sorted_wrt (\<lambda>a b. f b \<le> f a) out"
    by auto
  have "set out = insert x (set ys)" using mset_eq_setD [of out "x # ys"] out(2) by simp
  then show ?case using Cons.prems out by (cases "f y < f x") (auto intro: order_trans dest: less_imp_le)
qed simp

lemma sorted_desc_ok:
  assumes "\<forall>x \<in> set xs \<union> set acc. \<forall>y \<in> set xs \<union> set acc. lt x y = Inr (f x < (f y :: 'k :: linorder))"
    and "sorted_wrt (\<lambda>a b. f b \<le> f a) acc"
  shows "\<exists>out. sorted_desc lt xs acc = Inr out \<and> mset out = mset xs + mset acc \<and> sorted_wrt (\<lambda>a b. f b \<le> f a) out"
  using assms
proof (induction xs arbitrary: acc)
  case (Cons x xs)
  have "\<forall>y \<in> set acc. lt y x = Inr (f y < f x)" using Cons.prems(1) by simp
  then obtain acc' where acc': "insert_desc lt x acc = Inr acc'" "mset acc' = add_mset x (mset acc)" "sorted_wrt (\<lambda>a b. f b \<le> f a) acc'"
    using insert_desc_ok [of acc lt x f] Cons.prems(2) by auto
  have "set acc' = insert x (set acc)" using mset_eq_setD [of acc' "x # acc"] acc'(2) by simp
  then show ?case using Cons.IH [OF _ acc'(3)] Cons.prems(1) acc'(1,2) by (auto simp: Ball_def)
qed simp

text \<open>The records, the best first, cut and numbered from 1.\<close>

definition ranks_best :: "int \<Rightarrow> row list \<Rightarrow> top_record list \<Rightarrow> bool" where
  "ranks_best lmt rs tops \<longleftrightarrow>
     (\<exists>out. mset out = mset rs \<and> sorted_wrt (\<lambda>a b. score b \<le> score a) out \<and>
        map tr_id tops = map r_id (take (nat lmt) out) \<and> map tr_value tops = map raw_value (take (nat lmt) out) \<and>
        map tr_rank tops = [1..<1 + length tops])"

lemma ranks_best_cong: "mset rs = mset rs' \<Longrightarrow> ranks_best lmt rs tops \<longleftrightarrow> ranks_best lmt rs' tops"
  by (simp add: ranks_best_def)

lemma top_of_source_ok:
  assumes "\<forall>r \<in> set rs. numeric r"
  obtains tops where "top_of_source cmp lmt (src, rs) = Inr (src, tops)" "ranks_best lmt rs tops"
proof -
  obtain out where out: "sorted_desc (\<lambda>r s. key_less cmp (raw_value r) (raw_value s)) rs [] = Inr out" "mset out = mset rs"
      "sorted_wrt (\<lambda>a b. score b \<le> score a) out"
    using sorted_desc_ok [of rs "[]" "\<lambda>r s. key_less cmp (raw_value r) (raw_value s)" score] assms by (auto simp: key_less_numeric)
  let ?tops = "map (\<lambda>(i, r). \<lparr>tr_id = r_id r, tr_timestamp = isoformat (r_timestamp r), tr_value = raw_value r, tr_rank = i\<rparr>)
      (enumerate 1 (take (nat lmt) out))"
  have "map tr_id ?tops = map r_id (map snd (enumerate 1 (take (nat lmt) out)))"
    by (simp add: o_def case_prod_beta del: map_snd_enumerate)
  moreover have "map tr_value ?tops = map raw_value (map snd (enumerate 1 (take (nat lmt) out)))"
    by (simp add: o_def case_prod_beta del: map_snd_enumerate)
  moreover have "map tr_rank ?tops = map fst (enumerate 1 (take (nat lmt) out))"
    by (simp add: o_def case_prod_beta del: map_fst_enumerate)
  ultimately have "ranks_best lmt rs ?tops" unfolding ranks_best_def using out(2,3) by (intro exI [of _ out]) simp
  moreover have "top_of_source cmp lmt (src, rs) = Inr (src, ?tops)" using out(1) by (simp add: top_of_source_def)
  ultimately show ?thesis using that by blast
qed

text \<open>
  The ranking lists the best records of each source. When all values of the active records since the bound are numbers
  (or falsy), the endpoint answers; it lists exactly the sources of these records, each with its records sorted by value
  with the largest first, cut at \<open>limit\<close> and ranked 1, 2, 3, ...
\<close>

theorem top_by_source_best:
  fixes now :: datetime
  assumes "record_store E" and "db_ok E db" and "1 \<le> lmt" and "lmt \<le> 50" and "1 \<le> hours" and "hours \<le> 2160"
    and "\<forall>r \<in> set (rows E db). numeric r"
  defines "recent \<equiv> filter (\<lambda>r. r_deleted_at r = None \<and> now - hours * micros_per_hour \<le> r_timestamp r) (rows E db)"
  shows "\<exists>result. get_top_by_source E cmp now lmt hours db = Inr result \<and> distinct (map fst result) \<and>
    fst ` set result = r_source ` set recent \<and>
    (\<forall>(src, tops) \<in> set result. ranks_best lmt (filter (\<lambda>r. r_source r = src) recent) tops)"
proof -
  obtain records where recs: "sql_select E (since_query (now - hours * micros_per_hour) True) db = Inr records" "mset records = mset recent"
    unfolding recent_def by (rule since_records [OF assms(1,2)])
  have eq: "set records = set recent" by (rule mset_eq_setD [OF recs(2)])
  let ?g = "group_by r_source records"
  have g: "groups_of r_source records ?g" by (rule group_by_groups)
  have entry: "\<exists>y. top_of_source cmp lmt x = Inr y \<and> fst y = fst x \<and> ranks_best lmt (filter (\<lambda>r. r_source r = fst x) recent) (snd y)"
    if "x \<in> set ?g" for x
  proof -
    have x: "snd x = filter (\<lambda>r. r_source r = fst x) records" using g that unfolding groups_of_def by (cases x) auto
    have "\<forall>r \<in> set (snd x). numeric r" using x assms(7) eq by (auto simp: recent_def)
    then obtain tops where t: "top_of_source cmp lmt (fst x, snd x) = Inr (fst x, tops)" "ranks_best lmt (snd x) tops"
      by (rule top_of_source_ok)
    have "mset (snd x) = mset (filter (\<lambda>r. r_source r = fst x) recent)" unfolding x using recs(2) by (metis mset_filter)
    then have "ranks_best lmt (filter (\<lambda>r. r_source r = fst x) recent) tops" using t(2) ranks_best_cong by blast
    then show ?thesis using t(1) by (intro exI [of _ "(fst x, tops)"]) simp
  qed
  let ?ok = "\<lambda>x y. top_of_source cmp lmt x = Inr y \<and> fst y = fst x \<and> ranks_best lmt (filter (\<lambda>r. r_source r = fst x) recent) (snd y)"
  have "\<exists>result. list_all2 ?ok ?g result" by (rule list_all2_choice) (intro ballI entry)
  then obtain result where result: "list_all2 ?ok ?g result" ..
  have "get_top_by_source E cmp now lmt hours db = Inr result"
  proof -
    have "list_all2 (\<lambda>x y. top_of_source cmp lmt x = Inr y) ?g result" by (rule list_all2_mono [OF result]) simp
    then show ?thesis using assms(3-6) recs(1) by (simp add: get_top_by_source_def traverse_Inr_iff)
  qed
  moreover have keys: "map fst result = map fst ?g" using result by (induction rule: list_all2_induct) auto
  moreover have "ranks_best lmt (filter (\<lambda>r. r_source r = src) recent) tops" if "(src, tops) \<in> set result" for src tops
  proof -
    have "\<exists>i < length result. result ! i = (src, tops)" using that by (simp add: in_set_conv_nth)
    then obtain i where i: "i < length result" "result ! i = (src, tops)" by blast
    note ok = list_all2_nthD2 [OF result i(1)]
    have "ranks_best lmt (filter (\<lambda>r. r_source r = fst (?g ! i)) recent) (snd (result ! i))" by (rule ok [THEN conjunct2, THEN conjunct2])
    moreover have "fst (result ! i) = fst (?g ! i)" by (rule ok [THEN conjunct2, THEN conjunct1])
    ultimately show ?thesis unfolding i(2) by simp
  qed
  moreover have "fst ` set result = r_source ` set recent" using keys g eq by (metis groups_of_def set_map)
  ultimately show ?thesis using group_by_distinct [of r_source records] by (intro exI [of _ result]) auto
qed

theorem top_by_source_best_witness:
  "\<exists>result. get_top_by_source mem_engine (\<lambda>a b. Inl (TypeError [])) 7200000000 1 2
      (values_db [(''a'', JInt 4), (''b'', JNull), (''a'', JInt 7)]) = Inr result \<and> fst ` set result = {''a'', ''b''}"
proof -
  let ?db = "values_db [(''a'', JInt 4), (''b'', JNull), (''a'', JInt 7)]"
  have rows: "rows mem_engine ?db = [value_row 1 ''a'' 1800000000 (JInt 4), value_row 2 ''b'' 3600000000 JNull,
      value_row 3 ''a'' 5400000000 (JInt 7)]" by (simp add: values_db_rows)
  have "\<forall>r \<in> set (rows mem_engine ?db). numeric r" unfolding rows by (simp add: numeric_def sort_val_def)
  from top_by_source_best [OF mem.record_store_axioms values_db_ok _ _ _ _ this, of 1 2 "\<lambda>a b. Inl (TypeError [])" 7200000000]
  obtain result where "get_top_by_source mem_engine (\<lambda>a b. Inl (TypeError [])) 7200000000 1 2 ?db = Inr result"
    "fst ` set result = r_source ` set (filter (\<lambda>r. r_deleted_at r = None \<and> 7200000000 - 2 * micros_per_hour \<le> r_timestamp r) (rows mem_engine ?db))"
    by auto
  moreover have "r_source ` set (filter (\<lambda>r. r_deleted_at r = None \<and> 7200000000 - 2 * micros_per_hour \<le> r_timestamp r) (rows mem_engine ?db)) = {''a'', ''b''}"
    unfolding rows by (auto simp: micros_per_hour_def)
  ultimately show ?thesis by auto
qed

text \<open>
  The percentile of a record is its place in time, whatever the values: for a source with \<open>n\<close> selected records the
  ranks depend on \<open>n\<close> only, from 0 to 1.
\<close>

lemma percentile_ignores_values:
  assumes "get_percentile E src db = Inr resp"
  shows "map pr_rank (pp_records resp) = map (percentile_rank (length (pp_records resp))) [0..<length (pp_records resp)] \<and>
    percentile_rank n 0 = 0 \<and> (2 \<le> n \<longrightarrow> percentile_rank n (n - 1) = 1)"
proof -
  obtain records where r: "pp_records resp = map (\<lambda>(i, r). \<lparr>pr_id = r_id r, pr_timestamp = isoformat (r_timestamp r),
      pr_value = raw_value r, pr_rank = percentile_rank (length records) i\<rparr>) (enumerate 0 records)"
    using assms by (auto simp: get_percentile_def try_bind_Inr_iff)
  have "map pr_rank (pp_records resp) = map (percentile_rank (length records)) (map fst (enumerate 0 records))"
    unfolding r by (simp add: o_def case_prod_beta del: map_fst_enumerate)
  moreover have "py_round 4 0 = 0" "py_round 4 1 = 1" by (simp_all add: py_round_def)
  ultimately show ?thesis by (simp add: r percentile_rank_def)
qed

subsection \<open>Hours of equal multisets\<close>

lemma sorted_desc_unique:
  "sorted_wrt (>) xs \<Longrightarrow> sorted_wrt (>) ys \<Longrightarrow> set xs = set ys \<Longrightarrow> xs = (ys :: 'k :: linorder list)"
proof -
  assume a: "sorted_wrt (>) xs" "sorted_wrt (>) ys" "set xs = set ys"
  have "sorted_wrt (<) (rev xs)" "sorted_wrt (<) (rev ys)" using a by (simp_all add: sorted_wrt_rev)
  then have "rev xs = rev ys" using a(3) by (intro sorted_distinct_set_unique) (simp_all add: strict_sorted_iff)
  then show "xs = ys" by simp
qed

lemma hourly_cong:
  assumes "mset rs = mset rs'"
  shows "list_all2 (\<lambda>b c. fst b = fst c \<and> mset (snd b) = mset (snd c) \<and> snd b \<noteq> []) (hourly rs) (hourly rs')"
proof -
  let ?key = "\<lambda>r. hour_of (r_timestamp r)"
  have eq: "set rs = set rs'" by (rule mset_eq_setD [OF assms])
  have keys: "map fst (hourly rs) = map fst (hourly rs')"
    using hourly_groups [of rs] hourly_groups [of rs'] eq
    by (intro sorted_desc_unique hourly_sorted) (simp add: groups_of_def)
  have entry: "snd b = filter (\<lambda>r. ?key r = fst b) rs \<and> snd b \<noteq> []" if "b \<in> set (hourly rs)" for b rs
  proof -
    have "fst b \<in> ?key ` set rs" using hourly_groups [of rs] that unfolding groups_of_def by (metis imageI)
    moreover have "snd b = filter (\<lambda>r. ?key r = fst b) rs" using hourly_groups [of rs] that unfolding groups_of_def by (cases b) auto
    ultimately show ?thesis by (auto simp: filter_empty_conv)
  qed
  show ?thesis
  proof (rule list_all2_all_nthI)
    show len: "length (hourly rs) = length (hourly rs')" using keys by (metis length_map)
    fix i
    assume i: "i < length (hourly rs)"
    have f: "fst (hourly rs ! i) = fst (hourly rs' ! i)" using keys i len by (metis nth_map)
    have "snd (hourly rs ! i) = filter (\<lambda>r. ?key r = fst (hourly rs ! i)) rs \<and> snd (hourly rs ! i) \<noteq> []"
      by (rule entry) (use i in simp)
    moreover have "snd (hourly rs' ! i) = filter (\<lambda>r. ?key r = fst (hourly rs ! i)) rs'" using entry [of "hourly rs' ! i" rs'] i len f by simp
    ultimately show "fst (hourly rs ! i) = fst (hourly rs' ! i) \<and> mset (snd (hourly rs ! i)) = mset (snd (hourly rs' ! i)) \<and> snd (hourly rs ! i) \<noteq> []"
      using f assms by (metis mset_filter)
  qed
qed

end
