(* ===== verification/Query_Api.thy ===== *)
theory Query_Api
  imports Analytics
begin

text \<open>
  The read side \<open>services/query_api/routers/analytics.py\<close>. Its statements are SQL texts; they are translated as
  functions of the rows of the table, and the code around them formats the result rows. The cast of a text to
  \<open>NUMERIC\<close> and the outcomes of the statements on the materialised view are arguments. The view itself is defined in the
  migration \<open>a8f3c2e9d1b4\<close>.
\<close>

subsection \<open>The statements\<close>

text \<open>\<open>(raw_data->>'value')::NUMERIC\<close>: \<open>None\<close> is NULL; a text that is no number ends the statement.\<close>

fun cast_numeric :: "(string \<Rightarrow> rat option) \<Rightarrow> json option \<Rightarrow> rat option outcome" where
  "cast_numeric num None = Inr None"
| "cast_numeric num (Some (JInt i)) = Inr (Some (of_int i))"
| "cast_numeric num (Some (JFloat q)) = Inr (Some q)"
| "cast_numeric num (Some (JStr s)) =
     (case num s of Some q \<Rightarrow> Inr (Some q) | None \<Rightarrow> Inl (OtherException ''invalid input syntax for type numeric''))"
| "cast_numeric num (Some v) = Inl (OtherException ''invalid input syntax for type numeric'')"

definition coalesced :: "(string \<Rightarrow> rat option) \<Rightarrow> row \<Rightarrow> rat outcome" where
  "coalesced num r = map_sum id (\<lambda>v. case v of None \<Rightarrow> 0 | Some q \<Rightarrow> q) (cast_numeric num (raw_value r))"

text \<open>\<open>ROUND(x, n)\<close> on numerics: half away from zero.\<close>

definition sql_round :: "nat \<Rightarrow> rat \<Rightarrow> rat" where
  "sql_round n q =
     (if 0 \<le> q then of_int \<lfloor>q * 10 ^ n + 1/2\<rfloor> / 10 ^ n else - of_int \<lfloor>- q * 10 ^ n + 1/2\<rfloor> / 10 ^ n)"

definition active_since :: "datetime \<Rightarrow> row list \<Rightarrow> row list" where
  "active_since since rs = filter (\<lambda>r. r_deleted_at r = None \<and> since \<le> r_timestamp r) rs"

record agg_row =
  ag_hour :: datetime
  ag_count :: int
  ag_processed :: int
  ag_pct :: rat
  ag_avg :: rat
  ag_min :: "rat option"
  ag_max :: "rat option"
  ag_sources :: int

text \<open>\<open>hourly_agg\<close> of the summary: the values are coalesced before the aggregates.\<close>

definition hour_agg :: "(string \<Rightarrow> rat option) \<Rightarrow> datetime \<times> row list \<Rightarrow> agg_row outcome" where
  "hour_agg num b =
     (case b of (hour, rs) \<Rightarrow>
        try_bind (traverse (coalesced num) rs) (\<lambda>vs.
          let n = length rs; p = length (filter r_processed rs)
          in Inr \<lparr>ag_hour = hour, ag_count = int n, ag_processed = int p, ag_pct = sql_round 2 (of_nat p / of_nat n * 100),
               ag_avg = sql_round 4 (sum_list vs / of_nat n), ag_min = Some (Min (set vs)), ag_max = Some (Max (set vs)),
               ag_sources = int (card (r_source ` set rs))\<rparr>))"

text \<open>The hours of the view: the average is over the coalesced values, the extrema ignore NULL.\<close>

definition view_agg :: "(string \<Rightarrow> rat option) \<Rightarrow> datetime \<times> row list \<Rightarrow> agg_row outcome" where
  "view_agg num b =
     (case b of (hour, rs) \<Rightarrow>
        try_bind (traverse (\<lambda>r. cast_numeric num (raw_value r)) rs) (\<lambda>vs.
          let n = length rs; p = length (filter r_processed rs); nn = List.map_filter id vs
          in Inr \<lparr>ag_hour = hour, ag_count = int n, ag_processed = int p, ag_pct = sql_round 2 (of_nat p / of_nat n * 100),
               ag_avg = sql_round 4 (sum_list nn / of_nat n),
               ag_min = (if nn = [] then None else Some (Min (set nn))), ag_max = (if nn = [] then None else Some (Max (set nn))),
               ag_sources = int (card (r_source ` set rs))\<rparr>))"

definition hourly_view :: "(string \<Rightarrow> rat option) \<Rightarrow> row list \<Rightarrow> agg_row list outcome" where
  "hourly_view num rs = traverse (view_agg num) (hourly (filter (\<lambda>r. r_deleted_at r = None) rs))"

subsection \<open>The endpoints\<close>

text \<open>\<open>float(x) if x else None\<close>: a \<open>Decimal\<close> zero is falsy.\<close>

definition float_or_none :: "rat option \<Rightarrow> rat option" where
  "float_or_none x = (case x of None \<Rightarrow> None | Some q \<Rightarrow> if q = 0 then None else Some q)"

definition format_agg :: "agg_row \<Rightarrow> hour_summary" where
  "format_agg a =
     \<lparr>hs_hour = isoformat (ag_hour a), hs_count = ag_count a, hs_processed = ag_processed a, hs_pct = Some (ag_pct a),
      hs_avg = float_or_none (Some (ag_avg a)), hs_min = float_or_none (ag_min a), hs_max = float_or_none (ag_max a),
      hs_sources = ag_sources a\<rparr>"

definition q_get_summary :: "(string \<Rightarrow> rat option) \<Rightarrow> datetime \<Rightarrow> int \<Rightarrow> row list \<Rightarrow> summary_response outcome" where
  "q_get_summary num now hours rs =
     (if \<not> (1 \<le> hours \<and> hours \<le> 168) then Inl unprocessable
      else
        let since = now - hours * micros_per_hour
        in try_bind (traverse (hour_agg num) (hourly (active_since since rs))) (\<lambda>aggs.
             Inr \<lparr>su_summary = map format_agg aggs, su_hours_back = hours, su_since = isoformat since\<rparr>))"

text \<open>\<open>/top-by-source\<close> leaves the source out of its records, since it is their key; the echoed parameters are left out here.\<close>

record q_record =
  qr_id :: int
  qr_source :: string
  qr_timestamp :: string
  qr_value :: "rat option"
  qr_processed :: bool
  qr_rank :: rat

text \<open>How many rows have a larger value: \<open>RANK() ... ORDER BY value DESC\<close> minus one.\<close>

definition better :: "(row \<times> rat) list \<Rightarrow> row \<times> rat \<Rightarrow> nat" where
  "better rvs x = length (filter (\<lambda>y. r_source (fst y) = r_source (fst x) \<and> snd x < snd y) rvs)"

definition percent_rank :: "(row \<times> rat) list \<Rightarrow> row \<times> rat \<Rightarrow> rat" where
  "percent_rank rvs x = (if length rvs \<le> 1 then 0 else sql_round 4 (of_nat (better rvs x) / of_nat (length rvs - 1)))"

definition with_values :: "(string \<Rightarrow> rat option) \<Rightarrow> row list \<Rightarrow> (row \<times> rat) list outcome" where
  "with_values num rs = traverse (\<lambda>r. map_sum id (\<lambda>v. (r, v)) (coalesced num r)) rs"

definition format_ranked :: "rat \<Rightarrow> row \<times> rat \<Rightarrow> q_record" where
  "format_ranked rank x =
     \<lparr>qr_id = r_id (fst x), qr_source = r_source (fst x), qr_timestamp = isoformat (r_timestamp (fst x)),
      qr_value = float_or_none (Some (snd x)), qr_processed = r_processed (fst x), qr_rank = rank\<rparr>"

text \<open>Rows of one rank come in the order of the scan, where SQL leaves it open.\<close>

definition q_get_percentile :: "(string \<Rightarrow> rat option) \<Rightarrow> string \<Rightarrow> row list \<Rightarrow> q_record list outcome" where
  "q_get_percentile num src rs =
     try_bind (with_values num (filter (\<lambda>r. r_deleted_at r = None \<and> r_source r = src) rs)) (\<lambda>rvs.
       Inr (map (\<lambda>x. format_ranked (percent_rank rvs x) x) (take 100 (sort_key (percent_rank rvs) rvs))))"

definition ranked_rows :: "int \<Rightarrow> (row \<times> rat) list \<Rightarrow> (row \<times> rat) list" where
  "ranked_rows lmt rvs =
     (let kept = filter (\<lambda>x. int (better rvs x) + 1 \<le> lmt) rvs
      in concat (map (\<lambda>src. sort_key (better rvs) (filter (\<lambda>x. r_source (fst x) = src) kept))
           (sorted_sources (map fst kept))))"

definition q_get_top_by_source ::
  "(string \<Rightarrow> rat option) \<Rightarrow> datetime \<Rightarrow> int \<Rightarrow> int \<Rightarrow> row list \<Rightarrow> (string \<times> q_record list) list outcome"
where
  "q_get_top_by_source num now lmt hours rs =
     (if \<not> (1 \<le> lmt \<and> lmt \<le> 50 \<and> 1 \<le> hours \<and> hours \<le> 2160) then Inl unprocessable
      else try_bind (with_values num (active_since (now - hours * micros_per_hour) rs)) (\<lambda>rvs.
             Inr (map (\<lambda>(src, xs). (src, map (\<lambda>x. format_ranked (of_nat (better rvs x) + 1) x) xs))
                    (group_by (\<lambda>x. r_source (fst x)) (ranked_rows lmt rvs)))))"

text \<open>The refresh reports its failure, unlike the ingestor's.\<close>

definition q_refresh_materialized_view :: "unit outcome \<Rightarrow> unit outcome \<Rightarrow> (string \<times> string) outcome" where
  "q_refresh_materialized_view refresh rollback =
     (case refresh of
        Inr _ \<Rightarrow> Inr (''success'', ''Materialized view refreshed'')
      | Inl e \<Rightarrow>
          if is_Exception e then try_bind rollback (\<lambda>_. Inr (''error'', ''Failed to refresh materialized view'')) else Inl e)"

definition q_get_materialized_view_stats ::
  "(int \<Rightarrow> (agg_row \<times> string option) list outcome) \<Rightarrow> int \<Rightarrow> (hour_summary \<times> string option) list outcome"
where
  "q_get_materialized_view_stats view lmt =
     (if \<not> (1 \<le> lmt \<and> lmt \<le> 168) then Inl unprocessable
      else map_sum id (map (\<lambda>(a, stamp). (format_agg a, stamp))) (view lmt))"

subsection \<open>The two summaries agree\<close>

definition number_of :: "row \<Rightarrow> rat option" where
  "number_of r = (case raw_value r of Some (JInt i) \<Rightarrow> Some (of_int i) | Some (JFloat q) \<Rightarrow> Some q | _ \<Rightarrow> None)"

definition plain_numbers :: "row list \<Rightarrow> bool" where
  "plain_numbers rs \<longleftrightarrow> list_all (\<lambda>r. number_of r \<noteq> None) rs"

definition num_val :: "row \<Rightarrow> rat" where
  "num_val r = the (number_of r)"

lemma number_of_Some:
  assumes "number_of r \<noteq> None"
  obtains v where "raw_value r = Some v" "\<And>fos. py_float fos v = Inr (num_val r)" "\<And>num. cast_numeric num (Some v) = Inr (Some (num_val r))"
proof -
  obtain q where q: "number_of r = Some q" using assms by blast
  then have "(\<exists>i. raw_value r = Some (JInt i) \<and> q = of_int i) \<or> raw_value r = Some (JFloat q)"
    by (auto simp: number_of_def split: option.splits json.splits)
  then show ?thesis using that q by (auto simp: num_val_def)
qed

lemma values_of_numbers:
  assumes "plain_numbers rs"
  shows "values_of fos rs = Inr (map num_val rs)"
  using assms
proof (induction rs)
  case (Cons r rs)
  obtain v where "raw_value r = Some v" "py_float fos v = Inr (num_val r)"
    using Cons.prems number_of_Some [of r] unfolding plain_numbers_def list.pred_inject by metis
  then show ?case using Cons by (simp add: plain_numbers_def values_of_def traverse_Cons)
qed (simp add: values_of_def traverse_Nil)

lemma coalesced_numbers:
  assumes "plain_numbers rs"
  shows "traverse (coalesced num) rs = Inr (map num_val rs)"
proof (rule traverse_all_ok)
  fix r
  assume "r \<in> set rs"
  then have "number_of r \<noteq> None" using assms by (auto simp: plain_numbers_def list_all_iff)
  then show "coalesced num r = Inr (num_val r)" by (rule number_of_Some) (simp add: coalesced_def)
qed

lemma plain_numbers_cong: "set rs = set rs' \<Longrightarrow> plain_numbers rs = plain_numbers rs'"
  by (simp add: plain_numbers_def list_all_iff)

definition same_row :: "hour_summary \<Rightarrow> hour_summary \<Rightarrow> bool" where
  "same_row s t \<longleftrightarrow> hs_hour s = hs_hour t \<and> hs_count s = hs_count t \<and> hs_processed s = hs_processed t \<and>
     hs_sources s = hs_sources t \<and> hs_min t = float_or_none (hs_min s) \<and> hs_max t = float_or_none (hs_max s)"

lemma hour_rows_agree:
  assumes "mset ys = mset zs" and "ys \<noteq> []" and "plain_numbers ys"
  shows "\<exists>s a. hour_stats fos (h, ys) = Inr s \<and> hour_agg num (h, zs) = Inr a \<and> same_row s (format_agg a)"
proof -
  have eq: "set ys = set zs" by (rule mset_eq_setD [OF assms(1)])
  have len: "length (filter P ys) = length (filter P zs)" for P by (metis assms(1) mset_filter size_mset)
  have "length ys = length zs" using assms(1) by (metis size_mset)
  moreover have "plain_numbers zs" using assms(3) plain_numbers_cong [OF eq] by simp
  ultimately show ?thesis using assms(2,3) len [of r_processed]
    by (simp add: hour_stats_def hour_agg_def values_of_numbers coalesced_numbers try_bind_def Let_def format_agg_def same_row_def eq)
qed

text \<open>
  C23. The two implementations of the summary agree on plain numbers. When every active record since the bound has an integer
  or a float as its value, the ingestor and the read service both answer, with the same hours, counts, processed counts
  and numbers of sources; their minima and maxima are the same too, except that the read service reports null for 0.
\<close>

theorem summaries_agree:
  assumes "record_store E" and "db_ok E db" and "1 \<le> hours" and "hours \<le> 168"
    and "plain_numbers (active_since (now - hours * micros_per_hour) (rows E db))"
  shows "\<exists>a b. get_summary E fos now hours db = Inr a \<and> q_get_summary num now hours (rows E db) = Inr b \<and>
    su_since a = su_since b \<and> list_all2 same_row (su_summary a) (su_summary b)"
proof -
  let ?since = "now - hours * micros_per_hour" and ?act = "active_since (now - hours * micros_per_hour) (rows E db)"
  obtain records where recs: "sql_select E (since_query ?since False) db = Inr records" "mset records = mset ?act"
    unfolding active_since_def by (rule since_records [OF assms(1,2)])
  have plain: "plain_numbers records" using assms(5) plain_numbers_cong [OF mset_eq_setD [OF recs(2)]] by simp
  have rel: "\<exists>s a. hour_stats fos b = Inr s \<and> hour_agg num c = Inr a \<and> same_row s (format_agg a)"
    if "b \<in> set (hourly records)" "fst b = fst c \<and> mset (snd b) = mset (snd c) \<and> snd b \<noteq> []" for b c
  proof -
    have "snd b = filter (\<lambda>r. hour_of (r_timestamp r) = fst b) records"
      using hourly_groups [of records] that(1) unfolding groups_of_def by (cases b) auto
    then have "plain_numbers (snd b)" using plain by (simp add: plain_numbers_def list_all_iff)
    then show ?thesis using hour_rows_agree [of "snd b" "snd c" fos "fst b" num] that(2) by (cases b; cases c) simp
  qed
  have "list_all2 (\<lambda>b c. \<exists>s a. hour_stats fos b = Inr s \<and> hour_agg num c = Inr a \<and> same_row s (format_agg a)) (hourly records) (hourly ?act)"
    by (rule list.rel_mono_strong [OF hourly_cong [OF recs(2)]]) (use rel in blast)
  then have "\<exists>ss as. traverse (hour_stats fos) (hourly records) = Inr ss \<and> traverse (hour_agg num) (hourly ?act) = Inr as \<and>
      list_all2 same_row ss (map format_agg as)"
  proof (induction rule: list_all2_induct)
    case (Cons b bs c cs)
    then obtain s a ss as where "hour_stats fos b = Inr s" "hour_agg num c = Inr a" "same_row s (format_agg a)"
      "traverse (hour_stats fos) bs = Inr ss" "traverse (hour_agg num) cs = Inr as" "list_all2 same_row ss (map format_agg as)" by blast
    then show ?case by (simp add: traverse_Cons try_bind_def)
  qed (simp add: traverse_Nil)
  then obtain ss as where "traverse (hour_stats fos) (hourly records) = Inr ss" "traverse (hour_agg num) (hourly ?act) = Inr as"
    "list_all2 same_row ss (map format_agg as)" by blast
  then show ?thesis using assms(3,4) recs(1) by (simp add: get_summary_def q_get_summary_def Let_def try_bind_def)
qed

theorem summaries_agree_witness:
  "\<exists>a b. get_summary mem_engine (\<lambda>s. None) 5400000000 2 (values_db [(''a'', JInt 0), (''b'', JFloat 2)]) = Inr a \<and>
     q_get_summary (\<lambda>s. None) 5400000000 2 (rows mem_engine (values_db [(''a'', JInt 0), (''b'', JFloat 2)])) = Inr b \<and>
     list_all2 same_row (su_summary a) (su_summary b)"
proof -
  let ?db = "values_db [(''a'', JInt 0), (''b'', JFloat 2)]"
  have "plain_numbers (active_since (5400000000 - 2 * micros_per_hour) (rows mem_engine ?db))"
    by (simp add: values_db_rows plain_numbers_def active_since_def number_of_def micros_per_hour_def)
  then show ?thesis
    using summaries_agree [OF mem.record_store_axioms values_db_ok, of 2 5400000000 "[(''a'', JInt 0), (''b'', JFloat 2)]" "\<lambda>s. None" "\<lambda>s. None"]
    by (auto simp: micros_per_hour_def)
qed

subsection \<open>Ties\<close>

lemma group_by_members: "(k, ys) \<in> set (group_by key xs) \<Longrightarrow> ys = filter (\<lambda>x. key x = k) xs"
  using group_by_groups [of key xs] by (auto simp: groups_of_def)

lemma mset_concat_filters:
  assumes "distinct ks"
  shows "mset (concat (map (\<lambda>k. sort_key f (filter (\<lambda>x. key x = k) xs)) ks)) = mset (filter (\<lambda>x. key x \<in> set ks) xs)"
  using assms
proof (induction ks)
  case (Cons k ks)
  have "mset (filter (\<lambda>x. key x = k) xs) + mset (filter (\<lambda>x. key x \<in> set ks) xs) = mset (filter (\<lambda>x. key x = k \<or> key x \<in> set ks) xs)"
    using Cons.prems by (induction xs) auto
  then show ?case using Cons by simp
qed simp

lemma mset_ranked_rows: "mset (ranked_rows lmt rvs) = mset (filter (\<lambda>x. int (better rvs x) + 1 \<le> lmt) rvs)"
proof -
  let ?kept = "filter (\<lambda>x. int (better rvs x) + 1 \<le> lmt) rvs"
  have all: "filter (\<lambda>x. r_source (fst x) \<in> set (sorted_sources (map fst ?kept))) ?kept = ?kept"
    by (rule filter_True) (auto simp: sorted_sources_set)
  have "mset (ranked_rows lmt rvs) = mset (filter (\<lambda>x. r_source (fst x) \<in> set (sorted_sources (map fst ?kept))) ?kept)"
    unfolding ranked_rows_def Let_def by (rule mset_concat_filters [OF sorted_sources_distinct])
  then show ?thesis unfolding all .
qed

lemma distinct_singleton:
  assumes "distinct xs" and "set xs = {x}"
  shows "xs = [x]"
proof -
  have "length xs = 1" using assms distinct_card [of xs] by simp
  then obtain y where "xs = [y]" by (metis One_nat_def length_0_conv length_Suc_conv)
  then show ?thesis using assms(2) by simp
qed

definition with_val :: "row \<Rightarrow> row \<times> rat" where
  "with_val r = (r, num_val r)"

lemma with_values_numbers:
  assumes "plain_numbers rs"
  shows "with_values num rs = Inr (map with_val rs)"
  unfolding with_values_def
proof (rule traverse_all_ok)
  fix r
  assume "r \<in> set rs"
  then have "number_of r \<noteq> None" using assms by (auto simp: plain_numbers_def list_all_iff)
  then show "map_sum id (Pair r) (coalesced num r) = Inr (with_val r)"
    using number_of_Some [of r] by (metis coalesced_def map_sum.simps(2) option.simps(5) with_val_def)
qed

text \<open>The rows of one source with a larger value than \<open>r\<close>, and the rows with fewer than \<open>lmt\<close> of them.\<close>

definition larger :: "row list \<Rightarrow> row \<Rightarrow> row list" where
  "larger rs r = filter (\<lambda>s. r_source s = r_source r \<and> num_val r < num_val s) rs"

lemma better_larger: "better (map with_val rs) (with_val r) = length (larger rs r)"
  by (simp add: better_def larger_def with_val_def filter_map o_def)

definition leaders :: "int \<Rightarrow> string \<Rightarrow> row list \<Rightarrow> row list" where
  "leaders lmt src rs = filter (\<lambda>r. r_source r = src \<and> int (length (larger rs r)) < lmt) rs"

lemma leaders_nonempty:
  assumes "r \<in> set rs" and "1 \<le> lmt"
  shows "\<exists>s \<in> set rs. r_source s = r_source r \<and> larger rs s = []"
proof -
  let ?S = "{s \<in> set rs. r_source s = r_source r}"
  have fin: "finite (num_val ` ?S)" and ne: "num_val ` ?S \<noteq> {}" using assms(1) by auto
  from Max_in [OF fin ne] obtain s where s: "Max (num_val ` ?S) = num_val s" "s \<in> ?S" by (rule imageE)
  have "num_val t \<le> num_val s" if "t \<in> ?S" for t
    unfolding s(1) [symmetric] by (rule Max_ge [OF fin imageI [OF that]])
  then have "\<not> (r_source t = r_source s \<and> num_val s < num_val t)" if "t \<in> set rs" for t
    using that s(2) by (simp add: not_less)
  then have "larger rs s = []" by (simp add: larger_def filter_empty_conv)
  then show ?thesis using s(2) by blast
qed

text \<open>
  Ties are all reported. On plain numbers \<open>/top-by-source\<close> of the read service lists for every source of the active
  recent records exactly the records with fewer than \<open>limit\<close> records of larger value: a source whose best values are equal
  gets more than \<open>limit\<close> entries, where the ingestor's endpoint of the same name cuts the list at \<open>limit\<close>.
\<close>

theorem top_by_source_includes_ties:
  fixes now :: datetime and rs :: "row list"
  assumes "1 \<le> lmt" and "lmt \<le> 50" and "1 \<le> hours" and "hours \<le> 2160"
  defines "recent \<equiv> active_since (now - hours * micros_per_hour) rs"
  assumes "plain_numbers recent"
  shows "\<exists>result. q_get_top_by_source num now lmt hours rs = Inr result \<and> distinct (map fst result) \<and>
    fst ` set result = r_source ` set recent \<and>
    (\<forall>(src, recs) \<in> set result. mset (map qr_id recs) = mset (map r_id (leaders lmt src recent)))"
proof -
  let ?rvs = "map with_val recent"
  let ?g = "group_by (\<lambda>x. r_source (fst x)) (ranked_rows lmt ?rvs)"
  let ?f = "\<lambda>(src, xs). (src, map (\<lambda>x. format_ranked (of_nat (better ?rvs x) + 1) x) xs)"
  have fst: "fst \<circ> ?f = fst" by auto
  have kept: "mset (ranked_rows lmt ?rvs) = mset (map with_val (filter (\<lambda>r. int (length (larger recent r)) < lmt) recent))"
    by (simp add: mset_ranked_rows filter_map o_def better_larger add1_zle_eq)
  have result: "q_get_top_by_source num now lmt hours rs = Inr (map ?f ?g)"
    using assms(1-4) with_values_numbers [OF assms(6)] by (simp add: q_get_top_by_source_def recent_def try_bind_def)
  have "r_source ` set recent = r_source ` {r \<in> set recent. int (length (larger recent r)) < lmt}"
  proof (intro subset_antisym subsetI)
    fix src
    assume "src \<in> r_source ` set recent"
    then obtain r where r: "r \<in> set recent" "src = r_source r" by blast
    obtain s where "s \<in> set recent" "r_source s = src" "larger recent s = []"
      using leaders_nonempty [OF r(1) assms(1)] r(2) by blast
    then show "src \<in> r_source ` {r \<in> set recent. int (length (larger recent r)) < lmt}" using assms(1) by force
  qed auto
  moreover have "fst ` set ?g = (\<lambda>x. r_source (fst x)) ` set (ranked_rows lmt ?rvs)"
    using group_by_groups [of "\<lambda>x. r_source (fst x)" "ranked_rows lmt ?rvs"] by (simp add: groups_of_def)
  moreover have "set (ranked_rows lmt ?rvs) = with_val ` {r \<in> set recent. int (length (larger recent r)) < lmt}"
    using mset_eq_setD [OF kept] by simp
  ultimately have keys: "fst ` set (map ?f ?g) = r_source ` set recent" by (simp add: image_image with_val_def case_prod_beta)
  have "mset (map qr_id recs) = mset (map r_id (leaders lmt src recent))" if mem: "(src, recs) \<in> set (map ?f ?g)" for src recs
  proof -
    obtain xs where xs: "(src, xs) \<in> set ?g" "recs = map (\<lambda>x. format_ranked (of_nat (better ?rvs x) + 1) x) xs" using mem by auto
    have "mset xs = filter_mset (\<lambda>x. r_source (fst x) = src) (mset (ranked_rows lmt ?rvs))"
      using group_by_members [OF xs(1)] by (metis mset_filter)
    also have "\<dots> = image_mset with_val (mset (leaders lmt src recent))"
      unfolding kept leaders_def mset_filter [symmetric] by (simp add: filter_map o_def with_val_def conj_commute)
    finally have "image_mset (r_id \<circ> fst) (mset xs) = image_mset r_id (mset (leaders lmt src recent))"
      by (simp add: multiset.map_comp o_def with_val_def)
    then show ?thesis unfolding xs(2) by (simp add: o_def format_ranked_def multiset.map_comp)
  qed
  moreover have "distinct (map fst (map ?f ?g))" unfolding map_map fst by (rule group_by_distinct)
  ultimately show ?thesis using result keys by blast
qed

theorem top_by_source_includes_ties_witness:
  "\<exists>result recs. q_get_top_by_source (\<lambda>s. None) 7200000000 1 2 [value_row 1 ''a'' 0 (JInt 7), value_row 2 ''a'' 1 (JInt 7)] = Inr result \<and>
     map fst result = [''a''] \<and> (''a'', recs) \<in> set result \<and> length recs = 2"
proof -
  let ?rs = "[value_row 1 ''a'' 0 (JInt 7), value_row 2 ''a'' 1 (JInt 7)]"
  have act: "active_since (7200000000 - 2 * micros_per_hour) ?rs = ?rs" by (simp add: active_since_def micros_per_hour_def)
  have nums: "number_of (value_row i src t (JInt v)) = Some (of_int v)" for i src t v by (simp add: number_of_def)
  have plain: "plain_numbers ?rs" by (simp add: plain_numbers_def nums)
  have "\<exists>result. q_get_top_by_source (\<lambda>s. None) 7200000000 1 2 ?rs = Inr result \<and> distinct (map fst result) \<and>
      fst ` set result = r_source ` set ?rs \<and>
      (\<forall>(src, recs) \<in> set result. mset (map qr_id recs) = mset (map r_id (leaders 1 src ?rs)))"
    by (rule top_by_source_includes_ties [of 1 2 7200000000 ?rs "\<lambda>s. None", unfolded act]) (simp_all add: plain del: value_row_fields)
  then obtain result where r: "q_get_top_by_source (\<lambda>s. None) 7200000000 1 2 ?rs = Inr result" "distinct (map fst result)"
      "fst ` set result = r_source ` set ?rs" "\<forall>(src, recs) \<in> set result. mset (map qr_id recs) = mset (map r_id (leaders 1 src ?rs))"
    by (elim exE conjE) (rule that)
  have keys: "fst ` set result = {''a''}" unfolding r(3) by simp
  have "''a'' \<in> fst ` set result" unfolding keys by simp
  then obtain recs where recs: "(''a'', recs) \<in> set result" by auto
  have "set (map fst result) = {''a''}" by (simp only: set_map keys)
  then have "map fst result = [''a'']" by (rule distinct_singleton [OF r(2)])
  moreover have "leaders 1 ''a'' ?rs = ?rs" by (simp add: leaders_def larger_def num_val_def nums)
  then have "mset (map qr_id recs) = mset (map r_id ?rs)" using bspec [OF r(4) recs] by simp
  then have "size (mset (map qr_id recs)) = 2" by simp
  then have "length recs = 2" by simp
  ultimately show ?thesis using r(1) recs by (intro exI conjI)
qed

end
