(* ===== verification/Settings.thy ===== *)
theory Settings
  imports Auth Json_Access
begin

text \<open>
  \<open>ingestor/config.py\<close>: the table of settings and how \<open>Settings()\<close> fills it. A field is its name, type, default and the
  bounds \<open>ge\<close> and \<open>le\<close>. The environment and the \<open>.env\<close> file are lists of pairs in their order. How pydantic reads an
  \<open>int\<close>, a \<open>bool\<close> or a \<open>float\<close> from a text is an argument (infinite and undefined floats count as unreadable: the bounds
  of both float fields reject them), and so is the secret that the default factory draws.
\<close>

datatype setting = SNull | SBool bool | SInt int | SFloat rat | SStr string

datatype setting_type = TStr | TOptStr | TInt | TBool | TFloat

record field =
  fd_name :: string
  fd_type :: setting_type
  fd_default :: setting
  fd_ge :: "rat option"
  fd_le :: "rat option"

definition plain :: "string \<Rightarrow> setting_type \<Rightarrow> setting \<Rightarrow> field" where
  "plain n ty d = \<lparr>fd_name = n, fd_type = ty, fd_default = d, fd_ge = None, fd_le = None\<rparr>"

definition between :: "string \<Rightarrow> setting_type \<Rightarrow> setting \<Rightarrow> rat \<Rightarrow> rat \<Rightarrow> field" where
  "between n ty d lo hi = \<lparr>fd_name = n, fd_type = ty, fd_default = d, fd_ge = Some lo, fd_le = Some hi\<rparr>"

subsection \<open>The table\<close>

definition app_fields :: "field list" where
  "app_fields =
     [plain ''database_url'' TStr (SStr ''postgresql+asyncpg://localhost:5432/data_pipeline''),
      plain ''db_pool_size'' TInt (SInt 5),
      plain ''db_max_overflow'' TInt (SInt 10),
      plain ''db_pool_timeout'' TInt (SInt 30),
      plain ''db_pool_recycle'' TInt (SInt 1800),
      plain ''db_echo'' TBool (SBool False),
      plain ''app_name'' TStr (SStr ''Data Pipeline API (async)''),
      plain ''app_version'' TStr (SStr ''1.0.0''),
      plain ''environment'' TStr (SStr ''development''),
      plain ''log_level'' TStr (SStr ''INFO''),
      plain ''log_sqlalchemy_level'' TOptStr SNull,
      plain ''log_httpx_level'' TOptStr SNull,
      plain ''log_asyncio_level'' TOptStr SNull]"

definition auth_fields :: "string \<Rightarrow> field list" where
  "auth_fields secret =
     [plain ''docs_username'' TOptStr SNull,
      plain ''docs_password'' TOptStr SNull,
      plain ''api_v1_bearer_token'' TOptStr SNull,
      plain ''token_expiry_hours'' TInt (SInt 24),
      plain ''jwt_secret'' TStr (SStr secret),
      plain ''jwt_algorithm'' TStr (SStr ''HS256''),
      plain ''jwt_expiry_minutes'' TInt (SInt 60)]"

definition service_fields :: "field list" where
  "service_fields =
     [plain ''redis_url'' TStr (SStr ''redis://localhost:6379/0''),
      plain ''redis_enabled'' TBool (SBool False),
      plain ''kafka_broker_url'' TStr (SStr ''localhost:9092''),
      plain ''kafka_enabled'' TBool (SBool False),
      plain ''mongo_url'' TStr (SStr ''mongodb://localhost:27017''),
      plain ''mongo_db_name'' TStr (SStr ''datazoo''),
      plain ''mongo_enabled'' TBool (SBool False),
      plain ''otel_enabled'' TBool (SBool False),
      plain ''otel_endpoint'' TStr (SStr ''http://localhost:4317''),
      plain ''otel_service_name'' TStr (SStr ''ingestor''),
      plain ''sentry_dsn'' TOptStr SNull,
      plain ''sentry_enabled'' TBool (SBool False),
      between ''sentry_traces_sample_rate'' TFloat (SFloat (1/10)) 0 1,
      between ''sentry_profiles_sample_rate'' TFloat (SFloat 0) 0 1,
      plain ''sentry_send_default_pii'' TBool (SBool False)]"

definition worker_fields :: "field list" where
  "worker_fields =
     [plain ''background_workers_enabled'' TBool (SBool False),
      between ''background_worker_count'' TInt (SInt 2) 1 32,
      between ''background_worker_queue_size'' TInt (SInt 200) 1 10000,
      between ''background_max_tracked_tasks'' TInt (SInt 500) 10 50000]"

definition notification_fields :: "field list" where
  "notification_fields =
     [plain ''notifications_enabled'' TBool (SBool False),
      plain ''notification_default_channels'' TStr (SStr ''slack,telegram''),
      between ''notification_http_timeout_seconds'' TInt (SInt 5) 1 60,
      plain ''notification_slack_webhook_url'' TOptStr SNull,
      plain ''notification_telegram_bot_token'' TOptStr SNull,
      plain ''notification_telegram_chat_id'' TOptStr SNull,
      plain ''notification_webhook_url'' TOptStr SNull,
      plain ''notification_email_provider'' TStr (SStr ''resend''),
      plain ''notification_resend_api_key'' TOptStr SNull,
      plain ''notification_email_from'' TOptStr SNull,
      plain ''notification_email_to'' TOptStr SNull]"

definition vector_fields :: "field list" where
  "vector_fields =
     [plain ''ai_gateway_url'' TStr (SStr ''http://localhost:8001''),
      plain ''vector_search_collection'' TStr (SStr ''records''),
      between ''vector_search_http_timeout_seconds'' TInt (SInt 10) 1 60]"

definition all_fields :: "string \<Rightarrow> field list" where
  "all_fields secret =
     app_fields @ auth_fields secret @ service_fields @ worker_fields @ notification_fields @ vector_fields"

lemmas field_tables = app_fields_def auth_fields_def service_fields_def worker_fields_def notification_fields_def vector_fields_def

subsection \<open>Loading\<close>

record parsers =
  pd_int :: "string \<Rightarrow> int option"
  pd_bool :: "string \<Rightarrow> bool option"
  pd_float :: "string \<Rightarrow> rat option"

fun parse :: "parsers \<Rightarrow> setting_type \<Rightarrow> string \<Rightarrow> setting option" where
  "parse P TStr s = Some (SStr s)"
| "parse P TOptStr s = Some (SStr s)"
| "parse P TInt s = map_option SInt (pd_int P s)"
| "parse P TBool s = map_option SBool (pd_bool P s)"
| "parse P TFloat s = map_option SFloat (pd_float P s)"

fun magnitude :: "setting \<Rightarrow> rat option" where
  "magnitude (SInt i) = Some (of_int i)"
| "magnitude (SFloat q) = Some q"
| "magnitude v = None"

definition in_range :: "field \<Rightarrow> setting \<Rightarrow> bool" where
  "in_range fd v =
     (case magnitude v of
        None \<Rightarrow> True
      | Some q \<Rightarrow> (case fd_ge fd of None \<Rightarrow> True | Some l \<Rightarrow> l \<le> q) \<and> (case fd_le fd of None \<Rightarrow> True | Some h \<Rightarrow> q \<le> h))"

text \<open>\<open>case_sensitive=False\<close>: the names in lower case; of two entries with one name the later is kept.\<close>

type_synonym environ = "(string \<times> string) list"

definition lookup_var :: "environ \<Rightarrow> string \<Rightarrow> string option" where
  "lookup_var env n = map_of (rev (map (\<lambda>(k, s). (lower k, s)) env)) n"

text \<open>The environment goes before the file, the file before the default; defaults are checked like values.\<close>

definition field_value :: "parsers \<Rightarrow> environ \<Rightarrow> environ \<Rightarrow> field \<Rightarrow> setting option" where
  "field_value P env dotenv fd =
     (let v = (case lookup_var env (fd_name fd) of
                 Some s \<Rightarrow> parse P (fd_type fd) s
               | None \<Rightarrow> (case lookup_var dotenv (fd_name fd) of
                            Some s \<Rightarrow> parse P (fd_type fd) s
                          | None \<Rightarrow> Some (fd_default fd)))
      in case v of None \<Rightarrow> None | Some w \<Rightarrow> if in_range fd w then Some w else None)"

type_synonym settings = "(string \<times> setting) list"

text \<open>\<open>Settings()\<close>: the values, or the names of the fields in the \<open>ValidationError\<close>.\<close>

definition load_settings :: "parsers \<Rightarrow> string \<Rightarrow> environ \<Rightarrow> environ \<Rightarrow> string list + settings" where
  "load_settings P secret env dotenv =
     (let fs = all_fields secret; bad = filter (\<lambda>fd. field_value P env dotenv fd = None) fs
      in if bad = [] then Inr (map (\<lambda>fd. (fd_name fd, the (field_value P env dotenv fd))) fs) else Inl (map fd_name bad))"

text \<open>Attribute access \<open>settings.name\<close>.\<close>

definition str_of :: "settings \<Rightarrow> string \<Rightarrow> string" where
  "str_of st n = (case map_of st n of Some (SStr s) \<Rightarrow> s | _ \<Rightarrow> [])"

definition opt_str_of :: "settings \<Rightarrow> string \<Rightarrow> string option" where
  "opt_str_of st n = (case map_of st n of Some (SStr s) \<Rightarrow> Some s | _ \<Rightarrow> None)"

definition int_of :: "settings \<Rightarrow> string \<Rightarrow> int" where
  "int_of st n = (case map_of st n of Some (SInt i) \<Rightarrow> i | _ \<Rightarrow> 0)"

definition bool_of :: "settings \<Rightarrow> string \<Rightarrow> bool" where
  "bool_of st n = (case map_of st n of Some (SBool b) \<Rightarrow> b | _ \<Rightarrow> False)"

definition rate_of :: "settings \<Rightarrow> string \<Rightarrow> rat" where
  "rate_of st n = (case map_of st n of Some (SFloat q) \<Rightarrow> q | _ \<Rightarrow> 0)"

definition auth_settings_of :: "settings \<Rightarrow> auth_settings" where
  "auth_settings_of st =
     \<lparr>docs_username = opt_str_of st ''docs_username'', docs_password = opt_str_of st ''docs_password'',
      api_v1_bearer_token = opt_str_of st ''api_v1_bearer_token'', token_expiry_hours = int_of st ''token_expiry_hours'',
      jwt_secret = str_of st ''jwt_secret'', jwt_algorithm = str_of st ''jwt_algorithm'',
      jwt_expiry_minutes = int_of st ''jwt_expiry_minutes'', app_name = str_of st ''app_name''\<rparr>"

subsection \<open>Loaded settings are typed and in range\<close>

fun has_type :: "setting_type \<Rightarrow> setting \<Rightarrow> bool" where
  "has_type TStr (SStr s) = True"
| "has_type TOptStr (SStr s) = True"
| "has_type TOptStr SNull = True"
| "has_type TInt (SInt i) = True"
| "has_type TBool (SBool b) = True"
| "has_type TFloat (SFloat q) = True"
| "has_type ty v = False"

fun_cases typed_TStr: "has_type TStr v" and typed_TOptStr: "has_type TOptStr v" and typed_TInt: "has_type TInt v"
  and typed_TBool: "has_type TBool v" and typed_TFloat: "has_type TFloat v"

lemmas typed_cases = typed_TStr typed_TOptStr typed_TInt typed_TBool typed_TFloat

definition well_typed :: "field \<Rightarrow> setting \<Rightarrow> bool" where
  "well_typed fd v \<longleftrightarrow> has_type (fd_type fd) v \<and> in_range fd v"

lemma parse_typed: "parse P ty s = Some v \<Longrightarrow> has_type ty v"
  by (cases ty) auto

lemma defaults_typed: "list_all (\<lambda>fd. well_typed fd (fd_default fd)) (all_fields secret)"
  by (simp add: all_fields_def field_tables plain_def between_def well_typed_def in_range_def)

lemma names_distinct: "distinct (map fd_name (all_fields secret))"
  by (simp add: all_fields_def field_tables plain_def between_def)

lemma field_value_typed:
  assumes "field_value P env dotenv fd = Some v" and "fd \<in> set (all_fields secret)"
  shows "well_typed fd v"
proof -
  have "has_type (fd_type fd) (fd_default fd)"
    using defaults_typed [of secret] assms(2) by (simp add: list_all_iff well_typed_def)
  then show ?thesis
    using assms(1) by (auto simp: field_value_def well_typed_def Let_def split: option.splits if_splits dest: parse_typed)
qed

lemma load_settings_lookup:
  assumes "load_settings P secret env dotenv = Inr st" and "fd \<in> set (all_fields secret)"
  shows "map_of st (fd_name fd) = field_value P env dotenv fd" "field_value P env dotenv fd \<noteq> None"
proof -
  have none: "filter (\<lambda>fd. field_value P env dotenv fd = None) (all_fields secret) = []"
    and st: "st = map (\<lambda>fd. (fd_name fd, the (field_value P env dotenv fd))) (all_fields secret)"
    using assms(1) by (simp_all add: load_settings_def Let_def split: if_splits)
  show ne: "field_value P env dotenv fd \<noteq> None" using none assms(2) by (simp add: filter_empty_conv)
  have "map fst st = map fd_name (all_fields secret)" unfolding st by (simp add: o_def)
  moreover have "(fd_name fd, the (field_value P env dotenv fd)) \<in> set st" unfolding st using assms(2) by simp
  ultimately have "map_of st (fd_name fd) = Some (the (field_value P env dotenv fd))"
    using names_distinct [of secret] by (intro map_of_is_SomeI) simp_all
  then show "map_of st (fd_name fd) = field_value P env dotenv fd" using ne by simp
qed

lemma load_settings_fields:
  assumes "load_settings P secret env dotenv = Inr st"
  shows "map fst st = map fd_name (all_fields secret)" "list_all2 (\<lambda>fd b. well_typed fd (snd b)) (all_fields secret) st"
proof -
  have st: "st = map (\<lambda>fd. (fd_name fd, the (field_value P env dotenv fd))) (all_fields secret)"
    using assms by (simp add: load_settings_def Let_def split: if_splits)
  show "map fst st = map fd_name (all_fields secret)" unfolding st by (simp add: o_def)
  have "well_typed fd (the (field_value P env dotenv fd))" if mem: "fd \<in> set (all_fields secret)" for fd
  proof -
    obtain v where "field_value P env dotenv fd = Some v" using load_settings_lookup(2) [OF assms mem] by blast
    then show ?thesis using field_value_typed mem by simp
  qed
  then show "list_all2 (\<lambda>fd b. well_typed fd (snd b)) (all_fields secret) st"
    unfolding st list_all2_map2 by (simp add: list_all2_same)
qed

lemma load_settings_value:
  assumes "load_settings P secret env dotenv = Inr st" and "fd \<in> set (all_fields secret)"
  obtains v where "map_of st (fd_name fd) = Some v" "well_typed fd v"
  using load_settings_lookup [OF assms] field_value_typed assms(2) by fastforce

lemma int_of_between:
  assumes "load_settings P secret env dotenv = Inr st" and "between n TInt d lo hi \<in> set (all_fields secret)"
  shows "lo \<le> of_int (int_of st n) \<and> of_int (int_of st n) \<le> hi"
proof -
  obtain v where v: "map_of st n = Some v" "well_typed (between n TInt d lo hi) v"
    using load_settings_value [OF assms] by (auto simp: between_def)
  then have "has_type TInt v" by (simp add: well_typed_def between_def)
  then show ?thesis by (cases rule: typed_TInt) (use v in \<open>auto simp: int_of_def well_typed_def in_range_def between_def\<close>)
qed

lemma rate_of_between:
  assumes "load_settings P secret env dotenv = Inr st" and "between n TFloat d lo hi \<in> set (all_fields secret)"
  shows "lo \<le> rate_of st n \<and> rate_of st n \<le> hi"
proof -
  obtain v where v: "map_of st n = Some v" "well_typed (between n TFloat d lo hi) v"
    using load_settings_value [OF assms] by (auto simp: between_def)
  then have "has_type TFloat v" by (simp add: well_typed_def between_def)
  then show ?thesis by (cases rule: typed_TFloat) (use v in \<open>auto simp: rate_of_def well_typed_def in_range_def between_def\<close>)
qed

text \<open>
  C37. Loaded settings are well typed. When \<open>Settings()\<close> does not raise, every field of the table has exactly one value, of
  its declared type and within its declared bounds; in particular the sizes of the worker pool, the HTTP timeouts and the
  sampling rates that the rest of the program reads lie in their ranges, whatever the environment and the \<open>.env\<close> file say.
\<close>

theorem settings_typed:
  assumes "load_settings P secret env dotenv = Inr st"
  shows "map fst st = map fd_name (all_fields secret) \<and> distinct (map fst st) \<and>
    list_all2 (\<lambda>fd b. well_typed fd (snd b)) (all_fields secret) st \<and>
    int_of st ''background_worker_count'' \<in> {1..32} \<and> int_of st ''background_worker_queue_size'' \<in> {1..10000} \<and>
    int_of st ''background_max_tracked_tasks'' \<in> {10..50000} \<and>
    int_of st ''notification_http_timeout_seconds'' \<in> {1..60} \<and> int_of st ''vector_search_http_timeout_seconds'' \<in> {1..60} \<and>
    rate_of st ''sentry_traces_sample_rate'' \<in> {0..1} \<and> rate_of st ''sentry_profiles_sample_rate'' \<in> {0..1}"
proof -
  note i = int_of_between [OF assms] and r = rate_of_between [OF assms]
  have "int_of st ''background_worker_count'' \<in> {1..32}" "int_of st ''background_worker_queue_size'' \<in> {1..10000}"
    "int_of st ''background_max_tracked_tasks'' \<in> {10..50000}"
    using i [of "''background_worker_count''" "SInt 2" 1 32] i [of "''background_worker_queue_size''" "SInt 200" 1 10000]
      i [of "''background_max_tracked_tasks''" "SInt 500" 10 50000]
    by (simp_all add: all_fields_def worker_fields_def)
  moreover have "int_of st ''notification_http_timeout_seconds'' \<in> {1..60}" "int_of st ''vector_search_http_timeout_seconds'' \<in> {1..60}"
    using i [of "''notification_http_timeout_seconds''" "SInt 5" 1 60] i [of "''vector_search_http_timeout_seconds''" "SInt 10" 1 60]
    by (simp_all add: all_fields_def notification_fields_def vector_fields_def)
  moreover have "rate_of st ''sentry_traces_sample_rate'' \<in> {0..1}" "rate_of st ''sentry_profiles_sample_rate'' \<in> {0..1}"
    using r [of "''sentry_traces_sample_rate''" "SFloat (1/10)" 0 1] r [of "''sentry_profiles_sample_rate''" "SFloat 0" 0 1]
    by (simp_all add: all_fields_def service_fields_def)
  ultimately show ?thesis using load_settings_fields [OF assms] names_distinct [of secret] by simp
qed

definition plain_parsers :: parsers where
  "plain_parsers =
     \<lparr>pd_int = \<lambda>s. case int_of_str s of Inr i \<Rightarrow> Some i | Inl e \<Rightarrow> None,
      pd_bool = \<lambda>s. if lower s \<in> {''1'', ''true''} then Some True else if lower s \<in> {''0'', ''false''} then Some False else None,
      pd_float = \<lambda>s. case int_of_str s of Inr i \<Rightarrow> Some (of_int i) | Inl e \<Rightarrow> None\<rparr>"

lemma field_value_default:
  "lookup_var env (fd_name fd) = None \<Longrightarrow> lookup_var dotenv (fd_name fd) = None \<Longrightarrow> in_range fd (fd_default fd) \<Longrightarrow>
   field_value P env dotenv fd = Some (fd_default fd)"
  by (simp add: field_value_def)

lemma load_defaults: "load_settings P secret [] [] = Inr (map (\<lambda>fd. (fd_name fd, fd_default fd)) (all_fields secret))"
proof -
  have "field_value P [] [] fd = Some (fd_default fd)" if "fd \<in> set (all_fields secret)" for fd
    using defaults_typed [of secret] that by (intro field_value_default) (simp_all add: lookup_var_def list_all_iff well_typed_def)
  then show ?thesis by (simp add: load_settings_def Let_def filter_empty_conv)
qed

theorem settings_typed_witness:
  "\<exists>st. load_settings plain_parsers ''s3cret'' [] [] = Inr st \<and> int_of st ''background_worker_count'' \<in> {1..32}"
  using settings_typed [OF load_defaults [of plain_parsers "''s3cret''"]] load_defaults by blast

text \<open>
  The environment wins over the \<open>.env\<close> file. An entry of the file whose name is set in the environment, in any case, has
  no effect, and neither has an entry of the environment that names no field.
\<close>

theorem environment_wins:
  assumes "lookup_var env (lower k) \<noteq> None" and "lower j \<notin> fd_name ` set (all_fields secret)"
  shows "load_settings P secret env (dotenv @ [(k, s)]) = load_settings P secret env dotenv \<and>
    load_settings P secret (env @ [(j, t)]) dotenv = load_settings P secret env dotenv"
proof -
  have "field_value P env (dotenv @ [(k, s)]) fd = field_value P env dotenv fd" for fd
    using assms(1) by (auto simp: field_value_def lookup_var_def Let_def split: option.split)
  moreover have "field_value P (env @ [(j, t)]) dotenv fd = field_value P env dotenv fd" if "fd \<in> set (all_fields secret)" for fd
  proof -
    have "lower j \<noteq> fd_name fd" using assms(2) that by blast
    then show ?thesis by (simp add: field_value_def lookup_var_def)
  qed
  ultimately show ?thesis by (simp add: load_settings_def Let_def cong: filter_cong map_cong)
qed

theorem environment_wins_witness:
  "load_settings plain_parsers ''s'' [(''REDIS_URL'', ''redis://r:1'')] [(''redis_url'', ''redis://other:1'')] =
     load_settings plain_parsers ''s'' [(''REDIS_URL'', ''redis://r:1'')] []"
proof -
  have "lookup_var [(''REDIS_URL'', ''redis://r:1'')] (lower ''redis_url'') \<noteq> None" by code_simp
  moreover have "lower ''PATH'' \<notin> fd_name ` set (all_fields ''s'')" by code_simp
  ultimately show ?thesis
    using environment_wins [of "[(''REDIS_URL'', ''redis://r:1'')]" "''redis_url''" "''PATH''" "''s''" plain_parsers "[]" "''redis://other:1''"]
    by simp
qed

end
