(* ===== verification/Lifecycle.thy ===== *)
theory Lifecycle
  imports Settings Cache Events Scrape_Routes Background_Routes Scheduler Fetch
begin

text \<open>
  Startup and shutdown of the ingestor: \<open>ingestor/services_lifecycle.py\<close>, \<open>ingestor/core/sentry.py\<close> and the lifespan of
  \<open>ingestor/main.py\<close>, composed from the operations of the components. The worker pool is one object that the module
  global and the routes share; \<open>setup_tracing\<close> only configures the tracer and catches its own exceptions, and is left out
  together with the log lines.
\<close>

subsection \<open>External services\<close>

record ('rd, 'k, 'm) services =
  sv_cache :: "'rd cache_state"
  sv_events :: "'k event_state"
  sv_mongo :: "'m mongo_state"

record ('rd, 'k, 'm) service_libs =
  lb_redis :: "'rd redis"
  lb_kafka :: "'k kafka"
  lb_mongo :: "'m mongo_lib"

text \<open>\<open>try: ... except Exception: log\<close>.\<close>

definition attempt :: "'s \<times> unit outcome \<Rightarrow> 's \<times> unit outcome" where
  "attempt r = (case r of (s, Inr u) \<Rightarrow> (s, Inr u) | (s, Inl e) \<Rightarrow> if is_Exception e then (s, Inr ()) else (s, Inl e))"

definition and_then :: "'s \<times> unit outcome \<Rightarrow> ('s \<Rightarrow> 's \<times> unit outcome) \<Rightarrow> 's \<times> unit outcome" where
  "and_then r f = (case r of (s, Inr u) \<Rightarrow> f s | (s, Inl e) \<Rightarrow> (s, Inl e))"

definition init_cache ::
  "('rd, 'k, 'm) service_libs \<Rightarrow> settings \<Rightarrow> ('rd, 'k, 'm) services \<Rightarrow> ('rd, 'k, 'm) services \<times> unit outcome"
where
  "init_cache L st s =
     (if bool_of st ''redis_enabled''
      then attempt (case connect_cache (lb_redis L) (str_of st ''redis_url'') (sv_cache s) of (r, c) \<Rightarrow> (s\<lparr>sv_cache := c\<rparr>, r))
      else (s, Inr ()))"

definition init_events ::
  "('rd, 'k, 'm) service_libs \<Rightarrow> settings \<Rightarrow> ('rd, 'k, 'm) services \<Rightarrow> ('rd, 'k, 'm) services \<times> unit outcome"
where
  "init_events L st s =
     (if bool_of st ''kafka_enabled''
      then attempt (case connect_producer (lb_kafka L) (str_of st ''kafka_broker_url'') (sv_events s) of
                      (r, es) \<Rightarrow> (s\<lparr>sv_events := es\<rparr>, r))
      else (s, Inr ()))"

definition init_mongo ::
  "('rd, 'k, 'm) service_libs \<Rightarrow> settings \<Rightarrow> ('rd, 'k, 'm) services \<Rightarrow> ('rd, 'k, 'm) services \<times> unit outcome"
where
  "init_mongo L st s =
     (if bool_of st ''mongo_enabled''
      then attempt (case connect_mongo (lb_mongo L) (str_of st ''mongo_url'') (str_of st ''mongo_db_name'') (sv_mongo s) of
                      (ms, r) \<Rightarrow> (s\<lparr>sv_mongo := ms\<rparr>, r))
      else (s, Inr ()))"

definition initialize_external_services ::
  "('rd, 'k, 'm) service_libs \<Rightarrow> settings \<Rightarrow> ('rd, 'k, 'm) services \<Rightarrow> ('rd, 'k, 'm) services \<times> unit outcome"
where
  "initialize_external_services L st s = and_then (and_then (init_cache L st s) (init_events L st)) (init_mongo L st)"

definition cleanup_external_services ::
  "('rd, 'k, 'm) service_libs \<Rightarrow> ('rd, 'k, 'm) services \<Rightarrow> ('rd, 'k, 'm) services \<times> unit outcome"
where
  "cleanup_external_services L s =
     and_then
       (and_then
          (attempt (case disconnect_producer (lb_kafka L) (sv_events s) of (r, es) \<Rightarrow> (s\<lparr>sv_events := es\<rparr>, r)))
          (\<lambda>s. attempt (case disconnect_cache (lb_redis L) (sv_cache s) of (r, c) \<Rightarrow> (s\<lparr>sv_cache := c\<rparr>, r))))
       (\<lambda>s. (s\<lparr>sv_mongo := disconnect_mongo (sv_mongo s)\<rparr>, Inr ()))"

subsection \<open>Checks before anything is connected\<close>

text \<open>\<open>setup_sentry\<close>: \<open>sdk\<close> and \<open>integrations\<close> say what could be imported, \<open>init\<close> is the outcome of the SDK's \<open>init\<close>.\<close>

definition setup_sentry :: "bool \<Rightarrow> bool \<Rightarrow> unit outcome \<Rightarrow> settings \<Rightarrow> bool outcome" where
  "setup_sentry sdk integrations init st =
     (if \<not> bool_of st ''sentry_enabled'' then Inr False
      else if \<not> sdk then Inr False
      else if blank (opt_str_of st ''sentry_dsn'') then Inr False
      else if \<not> integrations then Inr False
      else map_sum id (\<lambda>_. True) init)"

text \<open>
  The imports of \<open>ingestor/core/sentry.py\<close> stand in one \<open>try\<close>: the SDK counts as available exactly when the integrations
  are, so that the last check of \<open>setup_sentry\<close> never fails.
\<close>

definition sentry_imports :: "(string \<Rightarrow> bool) \<Rightarrow> bool \<times> bool" where
  "sentry_imports importable =
     (if list_all importable [''sentry_sdk'', ''sentry_sdk.integrations.aiohttp'', ''sentry_sdk.integrations.fastapi'',
           ''sentry_sdk.integrations.logging'', ''sentry_sdk.integrations.sqlalchemy'']
      then (True, True) else (False, False))"

lemma integrations_check_dead:
  "sentry_imports importable = (sdk, integrations) \<Longrightarrow> setup_sentry sdk integrations init st = setup_sentry sdk True init st"
  by (auto simp: sentry_imports_def setup_sentry_def split: if_splits)

definition weak_secrets :: py_exn where
  "weak_secrets = RuntimeError (''Weak default secrets detected in production environment. '' @
     ''Set strong values via environment variables or a secrets manager.'')"

definition validate_production_security_settings :: "environ \<Rightarrow> settings \<Rightarrow> unit outcome" where
  "validate_production_security_settings env st =
     (if lower (str_of st ''environment'') \<notin> {''production'', ''prod''} then Inr ()
      else
        let weak_jwt_secret = length (str_of st ''jwt_secret'') < 32;
            jwt_secret_from_env = \<not> blank (map_of env ''JWT_SECRET'');
            weak_docs_password = opt_str_of st ''docs_password'' \<in> Some ` {''changeme'', ''admin'', ''password''}
        in if weak_jwt_secret \<or> weak_docs_password \<or> \<not> jwt_secret_from_env then Inl weak_secrets else Inr ())"

subsection \<open>The lifespan\<close>

text \<open>
  The globals of the process. \<open>ap_pool\<close> is \<open>_background_workers\<close>, which the routes use when \<open>ap_routed\<close> holds;
  \<open>ap_health\<close> says whether the health routes have the scheduler.
\<close>

record ('rd, 'k, 'm, 'a, 'sess, 'w, 'r, 'trg, 'x, 'y, 'l, 'c) lifespan_app =
  ap_services :: "('rd, 'k, 'm) services"
  ap_scheduler :: "('a, 'sess, 'w, 'r, 'trg) job_scheduler option"
  ap_health :: bool
  ap_pool :: "('x, 'y) pool option"
  ap_routed :: bool
  ap_http :: "('l, 'c) client_table"
  ap_session :: "'c option"

text \<open>The module globals before the startup.\<close>

definition initial_app :: "('rd, 'k, 'm, 'a, 'sess, 'w, 'r, 'trg, 'x, 'y, 'l, 'c) lifespan_app" where
  "initial_app =
     \<lparr>ap_services = \<lparr>sv_cache = \<lparr>client = None, cache_errors = []\<rparr>, sv_events = initial_events, sv_mongo = initial_mongo\<rparr>,
      ap_scheduler = None, ap_health = False, ap_pool = None, ap_routed = False, ap_http = [], ap_session = None\<rparr>"

text \<open>What the lifespan meets: libraries, environment, clock, the jobs, and the closers of the clients.\<close>

record ('rd, 'k, 'm, 'a, 'sess, 'w, 'r, 'trg, 'l, 'c) boot =
  bt_libs :: "('rd, 'k, 'm) service_libs"
  bt_aps :: "('a, 'trg) aps_lib"
  bt_jobs :: "('a, 'sess, 'w, 'r, 'trg) job_scheduler \<Rightarrow> ('a, 'sess, 'w, 'r, 'trg) job_scheduler"
  bt_get_db :: 'sess
  bt_env :: environ
  bt_settings :: settings
  bt_sentry :: "bool outcome"
  bt_now :: datetime
  bt_loop :: "'l option"
  bt_aclose :: "'c \<Rightarrow> unit outcome"
  bt_dispose :: "unit outcome"

definition start_services ::
  "('rd, 'k, 'm, 'a, 'sess, 'w, 'r, 'trg, 'l, 'c) boot \<Rightarrow> ('rd, 'k, 'm, 'a, 'sess, 'w, 'r, 'trg, 'x, 'y, 'l, 'c) lifespan_app \<Rightarrow>
   ('rd, 'k, 'm, 'a, 'sess, 'w, 'r, 'trg, 'x, 'y, 'l, 'c) lifespan_app \<times> unit outcome"
where
  "start_services B a =
     (case initialize_external_services (bt_libs B) (bt_settings B) (ap_services a) of (s, r) \<Rightarrow> (a\<lparr>ap_services := s\<rparr>, r))"

definition start_pool ::
  "settings \<Rightarrow> ('rd, 'k, 'm, 'a, 'sess, 'w, 'r, 'trg, 'x, 'y, 'l, 'c) lifespan_app \<Rightarrow>
   ('rd, 'k, 'm, 'a, 'sess, 'w, 'r, 'trg, 'x, 'y, 'l, 'c) lifespan_app"
where
  "start_pool st a =
     (if bool_of st ''background_workers_enabled''
      then a\<lparr>ap_pool := Some (start (new_pool (int_of st ''background_worker_count'') (int_of st ''background_worker_queue_size'')
               (int_of st ''background_max_tracked_tasks'') True)), ap_routed := True\<rparr>
      else a\<lparr>ap_routed := False\<rparr>)"

definition start_jobs ::
  "('rd, 'k, 'm, 'a, 'sess, 'w, 'r, 'trg, 'l, 'c) boot \<Rightarrow> ('rd, 'k, 'm, 'a, 'sess, 'w, 'r, 'trg, 'x, 'y, 'l, 'c) lifespan_app \<Rightarrow>
   ('rd, 'k, 'm, 'a, 'sess, 'w, 'r, 'trg, 'x, 'y, 'l, 'c) lifespan_app \<times> unit outcome"
where
  "start_jobs B a =
     (case ap_scheduler a of
        None \<Rightarrow> (a, Inr ())
      | Some s \<Rightarrow>
          attempt (case start_scheduler (bt_aps B) (bt_now B) (Some (bt_get_db B)) s of
                     (s', Inr u) \<Rightarrow> (a\<lparr>ap_scheduler := Some s', ap_health := True\<rparr>, Inr u)
                   | (s', Inl e) \<Rightarrow> (a\<lparr>ap_scheduler := Some s'\<rparr>, Inl e)))"

definition startup ::
  "('rd, 'k, 'm, 'a, 'sess, 'w, 'r, 'trg, 'l, 'c) boot \<Rightarrow> ('rd, 'k, 'm, 'a, 'sess, 'w, 'r, 'trg, 'x, 'y, 'l, 'c) lifespan_app \<Rightarrow>
   ('rd, 'k, 'm, 'a, 'sess, 'w, 'r, 'trg, 'x, 'y, 'l, 'c) lifespan_app \<times> unit outcome"
where
  "startup B a =
     (case try_bind (bt_sentry B) (\<lambda>_. validate_production_security_settings (bt_env B) (bt_settings B)) of
        Inl e \<Rightarrow> (a, Inl e)
      | Inr _ \<Rightarrow>
          and_then (start_services B a) (\<lambda>a1.
            let a2 = a1\<lparr>ap_scheduler := Some (bt_jobs B (new_scheduler (bt_aps B)))\<rparr>
            in start_jobs B (start_pool (bt_settings B) a2)))"

definition close_clients ::
  "('rd, 'k, 'm, 'a, 'sess, 'w, 'r, 'trg, 'l, 'c) boot \<Rightarrow> ('rd, 'k, 'm, 'a, 'sess, 'w, 'r, 'trg, 'x, 'y, 'l, 'c) lifespan_app \<Rightarrow>
   ('rd, 'k, 'm, 'a, 'sess, 'w, 'r, 'trg, 'x, 'y, 'l, 'c) lifespan_app \<times> unit outcome"
where
  "close_clients B a =
     and_then
       (and_then
          (case close_http_client (bt_loop B) (bt_aclose B) (ap_http a) of (t, r) \<Rightarrow> (a\<lparr>ap_http := t\<rparr>, r))
          (\<lambda>a. case close_http_session (bt_aclose B) (ap_session a) of (g, r) \<Rightarrow> (a\<lparr>ap_session := g\<rparr>, r)))
       (\<lambda>a. (a, bt_dispose B))"

definition shutdown ::
  "('rd, 'k, 'm, 'a, 'sess, 'w, 'r, 'trg, 'l, 'c) boot \<Rightarrow> ('rd, 'k, 'm, 'a, 'sess, 'w, 'r, 'trg, 'x, 'y, 'l, 'c) lifespan_app \<Rightarrow>
   ('rd, 'k, 'm, 'a, 'sess, 'w, 'r, 'trg, 'x, 'y, 'l, 'c) lifespan_app \<times> unit outcome"
where
  "shutdown B a =
     (let a1 = a\<lparr>ap_scheduler := map_option (stop_scheduler (bt_aps B)) (ap_scheduler a),
                ap_pool := map_option (stop (bt_now B)) (ap_pool a)\<rparr>
      in and_then
           (case cleanup_external_services (bt_libs B) (ap_services a1) of (s, r) \<Rightarrow> (a1\<lparr>ap_services := s\<rparr>, r))
           (close_clients B))"

subsection \<open>Production refuses to start on weak secrets\<close>

lemma lookup_var_unique:
  assumes "distinct (map (lower \<circ> fst) env)" and "map_of env k = Some s"
  shows "lookup_var env (lower k) = Some s"
proof -
  have "(lower k, s) \<in> set (rev (map (\<lambda>(k, s). (lower k, s)) env))" using map_of_SomeD [OF assms(2)] by force
  moreover have "distinct (map fst (rev (map (\<lambda>(k, s). (lower k, s)) env)))"
    using assms(1) by (simp add: rev_map [symmetric] o_def case_prod_beta)
  ultimately show ?thesis unfolding lookup_var_def by (intro map_of_is_SomeI)
qed

lemma startup_validated:
  "startup B a = (a', Inr ()) \<Longrightarrow> validate_production_security_settings (bt_env B) (bt_settings B) = Inr ()"
  by (auto simp: startup_def try_bind_def split: sum.splits)

lemma jwt_secret_field: "plain ''jwt_secret'' TStr (SStr secret) \<in> set (all_fields secret)"
  by (simp add: all_fields_def auth_fields_def)

text \<open>
  In production the signing secret is the one from the environment. When the startup succeeds in an environment named
  production or prod, and no two variables differ only in case, the secret that signs the JWTs is the value of
  \<open>JWT_SECRET\<close> and has at least 32 characters, and the docs password is none of the three weak ones.
\<close>

theorem production_secret_from_env:
  assumes "load_settings P secret (bt_env B) dotenv = Inr (bt_settings B)"
    and "lower (str_of (bt_settings B) ''environment'') \<in> {''production'', ''prod''}"
    and "distinct (map (lower \<circ> fst) (bt_env B))"
    and "startup B a = (a', Inr ())"
  shows "map_of (bt_env B) ''JWT_SECRET'' = Some (jwt_secret (auth_settings_of (bt_settings B))) \<and>
    32 \<le> length (jwt_secret (auth_settings_of (bt_settings B))) \<and>
    docs_password (auth_settings_of (bt_settings B)) \<notin> {Some ''changeme'', Some ''admin'', Some ''password''}"
proof -
  let ?st = "bt_settings B"
  have ok: "32 \<le> length (str_of ?st ''jwt_secret'')" "\<not> blank (map_of (bt_env B) ''JWT_SECRET'')"
    "opt_str_of ?st ''docs_password'' \<notin> {Some ''changeme'', Some ''admin'', Some ''password''}"
    using startup_validated [OF assms(4)] assms(2)
    by (simp_all add: validate_production_security_settings_def Let_def not_less split: if_splits)
  obtain k where k: "map_of (bt_env B) ''JWT_SECRET'' = Some k" using ok(2) by (auto simp: blank_def)
  have "lower ''JWT_SECRET'' = ''jwt_secret''" by code_simp
  then have "lookup_var (bt_env B) ''jwt_secret'' = Some k" using lookup_var_unique [OF assms(3) k] by simp
  then have "field_value P (bt_env B) dotenv (plain ''jwt_secret'' TStr (SStr secret)) = Some (SStr k)"
    by (simp add: field_value_def plain_def in_range_def)
  then have "map_of ?st ''jwt_secret'' = Some (SStr k)"
    using load_settings_lookup(1) [OF assms(1) jwt_secret_field] by (simp add: plain_def)
  then have "str_of ?st ''jwt_secret'' = k" by (simp add: str_of_def)
  then show ?thesis using k ok by (simp add: auth_settings_of_def)
qed

subsection \<open>Startup and shutdown survive the services\<close>

lemma attempt_ok: "snd r \<noteq> Inl CancelledError \<Longrightarrow> attempt r = (fst r, Inr ())"
  by (cases r) (auto simp: attempt_def is_Exception_def split: sum.split)

lemma and_then_ok: "and_then (s, Inr u) f = f s"
  by (simp add: and_then_def)

text \<open>The calls of the libraries may raise anything but a cancellation.\<close>

definition not_cancelled :: "('rd, 'k, 'm) service_libs \<Rightarrow> bool" where
  "not_cancelled L \<longleftrightarrow>
     (\<forall>u. rd_open (lb_redis L) u \<noteq> Inl CancelledError) \<and> (\<forall>c. fst (rd_ping (lb_redis L) c) \<noteq> Inl CancelledError) \<and>
     (\<forall>c. fst (rd_close (lb_redis L) c) \<noteq> Inl CancelledError) \<and> (\<forall>k. snd (k_start (lb_kafka L) k) \<noteq> Inl CancelledError) \<and>
     (\<forall>k. snd (k_stop (lb_kafka L) k) \<noteq> Inl CancelledError) \<and> (\<forall>m. mg_ping (lb_mongo L) m \<noteq> Inl CancelledError)"

definition initialized :: "('rd, 'k, 'm) service_libs \<Rightarrow> settings \<Rightarrow> ('rd, 'k, 'm) services \<Rightarrow> ('rd, 'k, 'm) services" where
  "initialized L st s =
     s\<lparr>sv_cache := (if bool_of st ''redis_enabled'' then snd (connect_cache (lb_redis L) (str_of st ''redis_url'') (sv_cache s)) else sv_cache s),
       sv_events := (if bool_of st ''kafka_enabled'' then snd (connect_producer (lb_kafka L) (str_of st ''kafka_broker_url'') (sv_events s)) else sv_events s),
       sv_mongo := (if bool_of st ''mongo_enabled'' then fst (connect_mongo (lb_mongo L) (str_of st ''mongo_url'') (str_of st ''mongo_db_name'') (sv_mongo s)) else sv_mongo s)\<rparr>"

lemma initialize_services:
  assumes "not_cancelled L"
  shows "initialize_external_services L st s = (initialized L st s, Inr ())"
proof -
  have "fst (connect_cache (lb_redis L) u cs) \<noteq> Inl CancelledError" for u cs
    using assms by (auto simp: connect_cache_def not_cancelled_def split: sum.split prod.split) (metis fst_conv)
  moreover have "fst (connect_producer (lb_kafka L) u es) \<noteq> Inl CancelledError" for u es
    using assms by (auto simp: connect_producer_def not_cancelled_def split: prod.split) (metis snd_conv)
  moreover have "snd (connect_mongo (lb_mongo L) u d ms) \<noteq> Inl CancelledError" for u d ms
    using assms by (simp add: connect_mongo_def not_cancelled_def)
  ultimately show ?thesis
    by (simp add: initialize_external_services_def init_cache_def init_events_def init_mongo_def initialized_def
        attempt_ok and_then_ok case_prod_beta)
qed

lemma start_jobs_ok:
  assumes "apscheduler (bt_aps B)" and "ap_scheduler a = Some s" and "\<not> aps_running (bt_aps B) (js_aps s)"
  shows "\<exists>s'. start_jobs B a = (a\<lparr>ap_scheduler := Some s', ap_health := True\<rparr>, Inr ()) \<and> aps_running (bt_aps B) (js_aps s') \<and>
    js_jobs s' = js_jobs s"
proof -
  obtain s' where s': "start_scheduler (bt_aps B) (bt_now B) (Some (bt_get_db B)) s = (s', Inr ())" "aps_running (bt_aps B) (js_aps s')"
    using apscheduler.start_succeeds [OF assms(1,3)] by blast
  then have "js_jobs s' = js_jobs s" by (auto simp: start_scheduler_def Let_def split: sum.splits)
  moreover have "start_jobs B a = (a\<lparr>ap_scheduler := Some s', ap_health := True\<rparr>, Inr ())"
    using s'(1) assms(2) by (simp add: start_jobs_def attempt_def)
  ultimately show ?thesis using s'(2) by blast
qed

lemma stop_not_running:
  fixes p :: "('x, 'y) pool"
  shows "\<not> running (stop now p) \<and> (running p \<longrightarrow> workers (stop now p) = [])"
proof -
  have step: "\<not> running (cancel_worker now i q)" if "\<not> running q" for i and q :: "('x, 'y) pool"
    using that by (cases "workers q ! i") (auto simp: cancel_worker_def worker_result_def worker_callback_def worker_finally_def Let_def split: sum.split)
  have "\<not> running q \<Longrightarrow> \<not> running (fold (cancel_worker now) is q)" for "is" and q :: "('x, 'y) pool"
    by (induction "is" arbitrary: q) (simp_all add: step)
  then show ?thesis by (simp add: stop_def stop_begin_def stop_end_def)
qed

lemma startup_result:
  assumes "apscheduler (bt_aps B)" and "not_cancelled (bt_libs B)"
    and "bt_sentry B = Inr b" and "validate_production_security_settings (bt_env B) (bt_settings B) = Inr ()"
    and "js_aps (bt_jobs B (new_scheduler (bt_aps B))) = aps_new (bt_aps B)"
  obtains s where "startup B a = ((start_pool (bt_settings B)
      (a\<lparr>ap_services := initialized (bt_libs B) (bt_settings B) (ap_services a)\<rparr>))\<lparr>ap_scheduler := Some s, ap_health := True\<rparr>, Inr ())"
    "aps_running (bt_aps B) (js_aps s)" "js_jobs s = js_jobs (bt_jobs B (new_scheduler (bt_aps B)))"
proof -
  let ?st = "bt_settings B" and ?s0 = "bt_jobs B (new_scheduler (bt_aps B))"
  let ?a2 = "a\<lparr>ap_services := initialized (bt_libs B) ?st (ap_services a), ap_scheduler := Some ?s0\<rparr>"
  have idle: "\<not> aps_running (bt_aps B) (js_aps ?s0)" using apscheduler.new_idle [OF assms(1)] assms(5) by simp
  have "ap_scheduler (start_pool ?st ?a2) = Some ?s0" by (simp add: start_pool_def)
  from start_jobs_ok [OF assms(1) this idle]
  obtain s' where s': "start_jobs B (start_pool ?st ?a2) = ((start_pool ?st ?a2)\<lparr>ap_scheduler := Some s', ap_health := True\<rparr>, Inr ())"
    "aps_running (bt_aps B) (js_aps s')" "js_jobs s' = js_jobs ?s0" by blast
  have "startup B a = start_jobs B (start_pool ?st ?a2)"
    using assms(3,4) by (simp add: startup_def start_services_def initialize_services [OF assms(2)] and_then_ok Let_def)
  then show ?thesis using that [of s'] s' by (simp add: start_pool_def)
qed

text \<open>
  C24. Startup fails open. When the settings were loaded, Sentry and the production check pass and the libraries raise nothing
  but ordinary exceptions, the startup succeeds, whichever connections fail: the scheduler runs with its registered jobs
  and the health routes have it, and the worker pool, when the settings enable it, is routed and runs with their number
  of workers, from 1 to 32, all idle, an empty queue of their size and a history of their length; when they do not, no
  pool is routed. An enabled broker or database that refused the connection is nevertheless kept as the current client.
\<close>

theorem startup_fails_open:
  fixes a :: "('rd, 'k, 'm, 'a, 'sess, 'w, 'r, 'trg, 'x, 'y, 'l, 'c) lifespan_app"
  assumes "load_settings P secret env dotenv = Inr (bt_settings B)" and "apscheduler (bt_aps B)" and "not_cancelled (bt_libs B)"
    and "bt_sentry B = Inr b" and "validate_production_security_settings (bt_env B) (bt_settings B) = Inr ()"
    and "js_aps (bt_jobs B (new_scheduler (bt_aps B))) = aps_new (bt_aps B)"
  shows "\<exists>a' s. startup B a = (a', Inr ()) \<and> ap_services a' = initialized (bt_libs B) (bt_settings B) (ap_services a) \<and>
    ap_scheduler a' = Some s \<and> ap_health a' \<and> aps_running (bt_aps B) (js_aps s) \<and>
    js_jobs s = js_jobs (bt_jobs B (new_scheduler (bt_aps B))) \<and>
    (if bool_of (bt_settings B) ''background_workers_enabled''
     then ap_routed a' \<and> (\<exists>p. ap_pool a' = Some p \<and> running p \<and> queue p = [] \<and> tracked p = [] \<and> has_callback p \<and>
       workers p = replicate (nat (int_of (bt_settings B) ''background_worker_count'')) Waiting \<and>
       int_of (bt_settings B) ''background_worker_count'' \<in> {1..32} \<and>
       queue_max p = int_of (bt_settings B) ''background_worker_queue_size'' \<and>
       max_tracked p = int_of (bt_settings B) ''background_max_tracked_tasks'')
     else \<not> ap_routed a' \<and> ap_pool a' = ap_pool a)"
proof -
  let ?st = "bt_settings B"
  obtain s where s: "startup B a = ((start_pool ?st (a\<lparr>ap_services := initialized (bt_libs B) ?st (ap_services a)\<rparr>))
      \<lparr>ap_scheduler := Some s, ap_health := True\<rparr>, Inr ())"
    "aps_running (bt_aps B) (js_aps s)" "js_jobs s = js_jobs (bt_jobs B (new_scheduler (bt_aps B)))"
    by (rule startup_result [OF assms(2-6)])
  have "int_of ?st ''background_worker_count'' \<in> {1..32}"
    using int_of_between [OF assms(1), of "''background_worker_count''" "SInt 2" 1 32] by (simp add: all_fields_def worker_fields_def)
  then show ?thesis
    using s by (intro exI [of _ "fst (startup B a)"] exI [of _ s]) (simp add: start_pool_def start_def new_pool_def)
qed

lemma cleanup_services:
  assumes "not_cancelled L"
  shows "cleanup_external_services L s =
    (s\<lparr>sv_events := snd (disconnect_producer (lb_kafka L) (sv_events s)), sv_cache := snd (disconnect_cache (lb_redis L) (sv_cache s)),
       sv_mongo := disconnect_mongo (sv_mongo s)\<rparr>, Inr ())"
proof -
  have "fst (disconnect_producer (lb_kafka L) es) \<noteq> Inl CancelledError" for es
    using assms by (auto simp: disconnect_producer_def not_cancelled_def split: option.split prod.split sum.split) (metis snd_conv)
  moreover have "fst (disconnect_cache (lb_redis L) cs) \<noteq> Inl CancelledError" for cs
    using assms by (auto simp: disconnect_cache_def not_cancelled_def split: option.split prod.split sum.split) (metis fst_conv)
  ultimately show ?thesis
    by (simp add: cleanup_external_services_def attempt_ok and_then_ok case_prod_beta)
qed

lemma disconnected_producer:
  "producer es = Some k \<Longrightarrow> producer (snd (disconnect_producer K es)) = None \<longleftrightarrow> snd (k_stop K k) = Inr ()"
  by (auto simp: disconnect_producer_def split: prod.split sum.split)

lemma disconnected_cache:
  "client cs = Some c \<Longrightarrow> client (snd (disconnect_cache R cs)) = None \<longleftrightarrow> fst (rd_close R c) = Inr ()"
  by (auto simp: disconnect_cache_def split: prod.split sum.split)

lemma close_clients_ok:
  assumes "\<forall>c. bt_aclose B c = Inr ()" and "bt_dispose B = Inr ()"
  shows "\<exists>t. close_clients B a = (a\<lparr>ap_http := t, ap_session := None\<rparr>, Inr ())"
proof -
  have "snd (close_http_client (bt_loop B) (bt_aclose B) (ap_http a)) = Inr ()"
    using assms(1) by (simp add: close_http_client_def split: option.split)
  then obtain t where "close_http_client (bt_loop B) (bt_aclose B) (ap_http a) = (t, Inr ())" by (metis prod.collapse)
  moreover have "close_http_session (bt_aclose B) g = (None, Inr ())" for g
    using assms(1) by (auto simp: close_http_session_def split: option.split)
  ultimately show ?thesis using assms(2) by (auto simp: close_clients_def and_then_ok)
qed

text \<open>
  C15. Shutdown releases what it can. When the libraries raise nothing but ordinary exceptions and the HTTP clients and the
  engine close, the shutdown returns: scheduler and pool are stopped, MongoDB and the aiohttp session are gone, and the
  Kafka producer and the Redis client are gone exactly when closing them did not raise, each independently of the other.
\<close>

theorem shutdown_releases:
  assumes "apscheduler (bt_aps B)" and "not_cancelled (bt_libs B)" and "\<forall>c. bt_aclose B c = Inr ()" and "bt_dispose B = Inr ()"
  shows "\<exists>a'. shutdown B a = (a', Inr ()) \<and> (\<forall>s. ap_scheduler a' = Some s \<longrightarrow> \<not> aps_running (bt_aps B) (js_aps s)) \<and>
    (\<forall>p. ap_pool a' = Some p \<longrightarrow> \<not> running p) \<and> mongo_db (sv_mongo (ap_services a')) = None \<and> ap_session a' = None \<and>
    (\<forall>k. producer (sv_events (ap_services a)) = Some k \<longrightarrow>
       (producer (sv_events (ap_services a')) = None \<longleftrightarrow> snd (k_stop (lb_kafka (bt_libs B)) k) = Inr ())) \<and>
    (\<forall>c. client (sv_cache (ap_services a)) = Some c \<longrightarrow>
       (client (sv_cache (ap_services a')) = None \<longleftrightarrow> fst (rd_close (lb_redis (bt_libs B)) c) = Inr ()))"
proof -
  let ?a1 = "a\<lparr>ap_scheduler := map_option (stop_scheduler (bt_aps B)) (ap_scheduler a), ap_pool := map_option (stop (bt_now B)) (ap_pool a)\<rparr>"
  let ?a2 = "?a1\<lparr>ap_services := fst (cleanup_external_services (bt_libs B) (ap_services a))\<rparr>"
  obtain t where t: "close_clients B ?a2 = (?a2\<lparr>ap_http := t, ap_session := None\<rparr>, Inr ())"
    using close_clients_ok [OF assms(3,4)] by blast
  have "shutdown B a = (?a2\<lparr>ap_http := t, ap_session := None\<rparr>, Inr ())"
    using t by (simp add: shutdown_def cleanup_services [OF assms(2)] and_then_ok Let_def)
  moreover have "\<not> aps_running (bt_aps B) (js_aps (stop_scheduler (bt_aps B) s))" for s
    using apscheduler.shutdown_stops [OF assms(1)] by (simp add: stop_scheduler_def)
  ultimately show ?thesis
    by (intro exI [of _ "?a2\<lparr>ap_http := t, ap_session := None\<rparr>"])
      (auto simp: cleanup_services [OF assms(2)] disconnected_producer disconnected_cache disconnect_mongo_def stop_not_running)
qed

subsection \<open>Concrete runs\<close>

lemma load_succeeds:
  "list_all (\<lambda>fd. field_value P env dotenv fd \<noteq> None) (all_fields secret) \<Longrightarrow> \<exists>st. load_settings P secret env dotenv = Inr st"
  by (simp add: load_settings_def Let_def filter_empty_conv list_all_iff)

definition refusing_broker :: "nat kafka" where
  "refusing_broker = dead_broker\<lparr>k_start := (\<lambda>n. (n, Inl (KafkaError ''refused''))), k_stop := (\<lambda>n. (n, Inl (KafkaError ''not started'')))\<rparr>"

definition demo_boot ::
  "environ \<Rightarrow> settings \<Rightarrow> (mem_redis, nat, mem_mongo, mem_aps, (row list \<times> int) engine, (row list \<times> int) job_state, job_result,
     datetime \<Rightarrow> datetime option, nat, unit) boot"
where
  "demo_boot env st =
     \<lparr>bt_libs = \<lparr>lb_redis = mem_redis_lib, lb_kafka = refusing_broker, lb_mongo = mem_mongo_lib\<rparr>, bt_aps = mem_aps_lib,
      bt_jobs = register_jobs demo_env_job, bt_get_db = no_session, bt_env = env, bt_settings = st, bt_sentry = Inr False,
      bt_now = 7, bt_loop = None, bt_aclose = (\<lambda>c. Inr ()), bt_dispose = Inr ()\<rparr>"

lemma demo_boot_fields:
  "bt_env (demo_boot env st) = env" "bt_settings (demo_boot env st) = st" "bt_sentry (demo_boot env st) = Inr False"
  "apscheduler (bt_aps (demo_boot env st))" "not_cancelled (bt_libs (demo_boot env st))"
  "js_aps (bt_jobs (demo_boot env st) (new_scheduler (bt_aps (demo_boot env st)))) = aps_new (bt_aps (demo_boot env st))"
  "\<forall>c. bt_aclose (demo_boot env st) c = Inr ()" "bt_dispose (demo_boot env st) = Inr ()"
  using ma.apscheduler_axioms
  by (simp_all add: demo_boot_def not_cancelled_def mem_redis_lib_def refusing_broker_def dead_broker_def mem_mongo_lib_def
      register_jobs_def register_job_def new_scheduler_def)

definition demo_lifespan ::
  "(mem_redis, nat, mem_mongo, mem_aps, (row list \<times> int) engine, (row list \<times> int) job_state, job_result, datetime \<Rightarrow> datetime option,
    nat, nat, nat, unit) lifespan_app"
where
  "demo_lifespan = initial_app"

definition kafka_env :: environ where
  "kafka_env = [(''KAFKA_ENABLED'', ''true''), (''BACKGROUND_WORKERS_ENABLED'', ''true''), (''BACKGROUND_WORKER_COUNT'', ''3'')]"

definition production_env :: environ where
  "production_env = [(''ENVIRONMENT'', ''Prod''), (''JWT_SECRET'', replicate 40 (CHR ''k''))]"

text \<open>A field that the environment or its default gives a value has it in the settings.\<close>

lemma loaded_field:
  "load_settings P secret env dotenv = Inr st \<Longrightarrow> fd \<in> set (all_fields secret) \<Longrightarrow>
   field_value P env dotenv fd = Some v \<Longrightarrow> map_of st (fd_name fd) = Some v"
  by (simp add: load_settings_lookup(1))

lemma kafka_settings:
  "\<exists>st. load_settings plain_parsers ''s'' kafka_env [] = Inr st \<and> bool_of st ''kafka_enabled'' \<and> str_of st ''environment'' = ''development'' \<and>
     bool_of st ''background_workers_enabled'' \<and> int_of st ''background_worker_count'' = 3"
proof -
  let ?kafka = "plain ''kafka_enabled'' TBool (SBool False)" and ?name = "plain ''environment'' TStr (SStr ''development'')"
  let ?on = "plain ''background_workers_enabled'' TBool (SBool False)"
  let ?count = "between ''background_worker_count'' TInt (SInt 2) 1 32"
  have "list_all (\<lambda>fd. field_value plain_parsers kafka_env [] fd \<noteq> None) (all_fields ''s'')" by code_simp
  then obtain st where st: "load_settings plain_parsers ''s'' kafka_env [] = Inr st" using load_succeeds by blast
  have "field_value plain_parsers kafka_env [] ?kafka = Some (SBool True)"
    "field_value plain_parsers kafka_env [] ?name = Some (SStr ''development'')"
    "field_value plain_parsers kafka_env [] ?on = Some (SBool True)"
    "field_value plain_parsers kafka_env [] ?count = Some (SInt 3)" by code_simp+
  moreover have "?kafka \<in> set (all_fields ''s'')" "?name \<in> set (all_fields ''s'')" "?on \<in> set (all_fields ''s'')"
    "?count \<in> set (all_fields ''s'')"
    by (simp_all add: all_fields_def app_fields_def service_fields_def worker_fields_def)
  ultimately have "map_of st ''kafka_enabled'' = Some (SBool True)" "map_of st ''environment'' = Some (SStr ''development'')"
    "map_of st ''background_workers_enabled'' = Some (SBool True)" "map_of st ''background_worker_count'' = Some (SInt 3)"
    using loaded_field [OF st, of ?kafka] loaded_field [OF st, of ?name] loaded_field [OF st, of ?on] loaded_field [OF st, of ?count]
    by (simp_all add: plain_def between_def)
  then show ?thesis using st by (simp add: bool_of_def str_of_def int_of_def)
qed

theorem startup_fails_open_witness:
  "\<exists>st a' p. load_settings plain_parsers ''s'' kafka_env [] = Inr st \<and>
     startup (demo_boot kafka_env st) demo_lifespan = (a', Inr ()) \<and>
     producer (sv_events (ap_services a')) = Some 0 \<and> ap_pool a' = Some p \<and> workers p = replicate 3 Waiting"
proof -
  obtain st where st: "load_settings plain_parsers ''s'' kafka_env [] = Inr st"
    and vals: "bool_of st ''kafka_enabled''" "str_of st ''environment'' = ''development''"
      "bool_of st ''background_workers_enabled''" "int_of st ''background_worker_count'' = 3"
    using kafka_settings by blast
  have "lower ''development'' \<notin> {''production'', ''prod''}" by code_simp
  then have ok: "validate_production_security_settings kafka_env st = Inr ()"
    by (simp add: validate_production_security_settings_def vals(2))
  note b = demo_boot_fields [of kafka_env st]
  from startup_fails_open [where B = "demo_boot kafka_env st" and a = demo_lifespan, unfolded b(1,2), OF st b(4) b(5) b(3) ok b(6)]
  obtain a' p where a': "startup (demo_boot kafka_env st) demo_lifespan = (a', Inr ())"
    "ap_services a' = initialized (bt_libs (demo_boot kafka_env st)) st (ap_services demo_lifespan)"
    "ap_pool a' = Some p" "workers p = replicate 3 Waiting"
    by (auto simp: vals(3,4))
  have "producer (sv_events (ap_services a')) = Some 0"
    unfolding a'(2) using vals(1) by (simp add: initialized_def demo_boot_def connect_producer_def refusing_broker_def dead_broker_def)
  then show ?thesis using st a'(1,3,4) by blast
qed

text \<open>A process with a producer that cannot be stopped and a Redis client that can.\<close>

definition connected_services :: "(mem_redis, nat, mem_mongo) services" where
  "connected_services =
     \<lparr>sv_cache = \<lparr>client = Some \<lparr>reachable = True, entries = Map.empty\<rparr>, cache_errors = []\<rparr>,
      sv_events = initial_events\<lparr>producer := Some 0\<rparr>, sv_mongo = initial_mongo\<rparr>"

theorem shutdown_releases_witness:
  "\<exists>a'. shutdown (demo_boot [] []) (demo_lifespan\<lparr>ap_services := connected_services\<rparr>) = (a', Inr ()) \<and>
     producer (sv_events (ap_services a')) \<noteq> None \<and> client (sv_cache (ap_services a')) = None"
proof -
  let ?B = "demo_boot [] []"
  have libs: "snd (k_stop (lb_kafka (bt_libs ?B)) 0) \<noteq> Inr ()" "fst (rd_close (lb_redis (bt_libs ?B)) c) = Inr ()" for c
    by (simp_all add: demo_boot_def refusing_broker_def mem_redis_lib_def)
  show ?thesis
    using shutdown_releases [OF demo_boot_fields(4,5,7,8), of "[]" "[]" "demo_lifespan\<lparr>ap_services := connected_services\<rparr>"] libs
    by (auto simp: connected_services_def)
qed

theorem production_secret_from_env_witness:
  "\<exists>st a'. load_settings plain_parsers ''s'' production_env [] = Inr st \<and>
     startup (demo_boot production_env st) demo_lifespan = (a', Inr ()) \<and>
     map_of production_env ''JWT_SECRET'' = Some (jwt_secret (auth_settings_of st))"
proof -
  let ?env_fd = "plain ''environment'' TStr (SStr ''development'')" and ?docs_fd = "plain ''docs_password'' TOptStr SNull"
  have "list_all (\<lambda>fd. field_value plain_parsers production_env [] fd \<noteq> None) (all_fields ''s'')" by code_simp
  then obtain st where st: "load_settings plain_parsers ''s'' production_env [] = Inr st" using load_succeeds by blast
  have "field_value plain_parsers production_env [] ?env_fd = Some (SStr ''Prod'')"
    "field_value plain_parsers production_env [] (plain ''jwt_secret'' TStr (SStr ''s'')) = Some (SStr (replicate 40 (CHR ''k'')))"
    "field_value plain_parsers production_env [] ?docs_fd = Some SNull" by code_simp+
  moreover have "?env_fd \<in> set (all_fields ''s'')" "?docs_fd \<in> set (all_fields ''s'')"
    by (simp_all add: all_fields_def app_fields_def auth_fields_def)
  ultimately have vals: "str_of st ''environment'' = ''Prod''" "str_of st ''jwt_secret'' = replicate 40 (CHR ''k'')"
      "opt_str_of st ''docs_password'' = None"
    using load_settings_lookup(1) [OF st, of ?env_fd] load_settings_lookup(1) [OF st, of ?docs_fd]
      load_settings_lookup(1) [OF st jwt_secret_field] by (simp_all add: str_of_def opt_str_of_def plain_def)
  have prod: "lower ''Prod'' = ''prod''" "map_of production_env ''JWT_SECRET'' = Some (replicate 40 (CHR ''k''))"
    "distinct (map (lower \<circ> fst) production_env)" by code_simp+
  have ok: "validate_production_security_settings production_env st = Inr ()"
    by (simp add: validate_production_security_settings_def vals prod blank_def Let_def)
  note b = demo_boot_fields [of production_env st]
  obtain a' where a': "startup (demo_boot production_env st) demo_lifespan = (a', Inr ())"
    by (rule startup_result [where B = "demo_boot production_env st" and a = demo_lifespan, unfolded b(1,2), OF b(4) b(5) b(3) ok b(6)]) (rule that)
  have "lower (str_of st ''environment'') \<in> {''production'', ''prod''}" by (simp add: vals prod)
  from production_secret_from_env [where B = "demo_boot production_env st" and a = demo_lifespan, unfolded b(1,2), OF st this prod(3) a'] st a'
  show ?thesis by simp
qed

end
