(* ===== verification/Http_App.thy ===== *)
theory Http_App
  imports Settings Notifications
begin

text \<open>
  The HTTP shell of the ingestor, \<open>ingestor/main.py\<close>: the two middlewares around the routes, the protected documentation
  and the probes; and \<open>ingestor/core/logging.py\<close>: the request context, the formatters and the setup. How the framework
  turns exceptions into responses, on the inside and on the outside of the middlewares, is an argument, and so are the
  library's formatting of a time, a path and a \<open>repr\<close>.
\<close>

subsection \<open>Requests, responses, headers\<close>

type_synonym header_list = "(string \<times> string) list"

record web_request =
  rq_method :: string
  rq_path :: string
  rq_scheme :: string
  rq_headers :: header_list
  rq_client :: "string option"

record http_response =
  rs_status :: int
  rs_headers :: header_list

text \<open>Header names are compared in lower case, and stored so.\<close>

definition get_header :: "string \<Rightarrow> header_list \<Rightarrow> string option" where
  "get_header n hs = map_of (map (\<lambda>(k, v). (lower k, v)) hs) (lower n)"

fun set_header :: "string \<Rightarrow> string \<Rightarrow> header_list \<Rightarrow> header_list" where
  "set_header n v [] = [(lower n, v)]"
| "set_header n v ((k, w) # hs) =
     (if lower k = lower n then (lower n, v) # filter (\<lambda>h. lower (fst h) \<noteq> lower n) hs else (k, w) # set_header n v hs)"

subsection \<open>Middlewares\<close>

text \<open>The rest of the application, run with the correlation id of the context.\<close>

type_synonym handler = "string option \<Rightarrow> web_request \<Rightarrow> http_response outcome"

record request_log =
  lg_event :: string
  lg_cid :: string
  lg_method :: string
  lg_path :: string
  lg_client :: "string option"
  lg_status :: "int option"

definition request_cid :: "string \<Rightarrow> web_request \<Rightarrow> string" where
  "request_cid uuid req =
     (case get_header ''X-Correlation-ID'' (rq_headers req) of None \<Rightarrow> uuid | Some c \<Rightarrow> if c = [] then uuid else c)"

definition correlation_dispatch ::
  "string \<Rightarrow> handler \<Rightarrow> web_request \<Rightarrow> request_log list \<times> http_response outcome"
where
  "correlation_dispatch uuid call_next req =
     (let cid = request_cid uuid req;
          started = \<lparr>lg_event = ''request_start'', lg_cid = cid, lg_method = rq_method req, lg_path = rq_path req,
                     lg_client = rq_client req, lg_status = None\<rparr>
      in (case call_next (Some cid) req of
            Inl e \<Rightarrow> ([started], Inl e)
          | Inr resp \<Rightarrow>
              ([started,
                \<lparr>lg_event = ''request_end'', lg_cid = cid, lg_method = rq_method req, lg_path = rq_path req,
                 lg_client = None, lg_status = Some (rs_status resp)\<rparr>],
               Inr (resp\<lparr>rs_headers := set_header ''X-Correlation-ID'' cid (rs_headers resp)\<rparr>))))"

definition security_headers :: header_list where
  "security_headers =
     [(''X-Content-Type-Options'', ''nosniff''), (''X-Frame-Options'', ''DENY''), (''Referrer-Policy'', ''no-referrer''),
      (''Permissions-Policy'', ''geolocation=(), camera=(), microphone=()'')]"

definition hsts :: "string \<times> string" where
  "hsts = (''Strict-Transport-Security'', ''max-age=31536000; includeSubDomains'')"

definition security_dispatch :: "handler \<Rightarrow> handler" where
  "security_dispatch call_next cid req =
     (case call_next cid req of
        Inl e \<Rightarrow> Inl e
      | Inr resp \<Rightarrow>
          let hs = fold (\<lambda>(n, v). set_header n v) security_headers (rs_headers resp)
          in Inr (resp\<lparr>rs_headers := (if rq_scheme req = ''https'' then set_header (fst hsts) (snd hsts) hs else hs)\<rparr>))"

text \<open>
  \<open>add_middleware\<close> puts the correlation id outside the security headers; the framework's handling of exceptions with a
  handler is inside both, that of all others outside both.
\<close>

record framework =
  fw_handled :: "py_exn \<Rightarrow> http_response option"
  fw_server_error :: "py_exn \<Rightarrow> http_response"

definition exception_layer :: "framework \<Rightarrow> handler \<Rightarrow> handler" where
  "exception_layer F route cid req =
     (case route cid req of
        Inr r \<Rightarrow> Inr r
      | Inl e \<Rightarrow> (case fw_handled F e of Some r \<Rightarrow> Inr r | None \<Rightarrow> Inl e))"

definition serve :: "framework \<Rightarrow> string \<Rightarrow> handler \<Rightarrow> web_request \<Rightarrow> request_log list \<times> http_response" where
  "serve F uuid route req =
     (case correlation_dispatch uuid (security_dispatch (exception_layer F route)) req of
        (l, Inr r) \<Rightarrow> (l, r)
      | (l, Inl e) \<Rightarrow> (l, fw_server_error F e))"

definition rate_limit_handler :: http_response where
  "rate_limit_handler = \<lparr>rs_status = 429, rs_headers = []\<rparr>"

subsection \<open>Documentation\<close>

datatype docs_mode = Open_Docs | Protected_Docs | Missing_Docs

text \<open>The default routes exist without a user name, the protected ones with user name and password.\<close>

definition docs_access :: "auth_settings \<Rightarrow> docs_mode" where
  "docs_access st =
     (if \<not> blank (docs_username st) \<and> \<not> blank (docs_password st) then Protected_Docs
      else if \<not> blank (docs_username st) then Missing_Docs
      else Open_Docs)"

text \<open>\<open>basic\<close> is what \<open>HTTPBasic\<close> makes of the \<open>Authorization\<close> header, \<open>page\<close> the rendered page.\<close>

definition get_docs :: "auth_settings \<Rightarrow> (string \<times> string) outcome \<Rightarrow> 'p \<Rightarrow> 'p outcome" where
  "get_docs st basic page =
     (case docs_access st of
        Open_Docs \<Rightarrow> Inr page
      | Missing_Docs \<Rightarrow> Inl (HTTPException 404 ''Not Found'')
      | Protected_Docs \<Rightarrow> try_bind basic (\<lambda>creds. try_bind (verify_docs_credentials st creds) (\<lambda>_. Inr page)))"

definition get_openapi_schema :: "'o option \<Rightarrow> 'o \<Rightarrow> 'o option \<times> 'o" where
  "get_openapi_schema cached generated = (case cached of Some s \<Rightarrow> (cached, s) | None \<Rightarrow> (Some generated, generated))"

subsection \<open>Probes\<close>

definition health_probe :: "settings \<Rightarrow> (string \<times> string) list" where
  "health_probe st = [(''status'', ''healthy''), (''version'', str_of st ''app_version'')]"

definition readyz :: "unit outcome \<Rightarrow> (string \<times> string) list outcome" where
  "readyz select_1 =
     (case select_1 of
        Inr _ \<Rightarrow> Inr [(''status'', ''ready''), (''db'', ''ok'')]
      | Inl e \<Rightarrow> if is_Exception e then Inl (HTTPException 503 ''degraded: db unreachable'') else Inl e)"

subsection \<open>Logging\<close>

record log_record =
  lr_name :: string
  lr_levelname :: string
  lr_lineno :: nat
  lr_func :: string
  lr_message :: string
  lr_dict :: "(string \<times> json) list"

definition standard_attributes :: "string list" where
  "standard_attributes =
     [''name'', ''msg'', ''args'', ''created'', ''filename'', ''funcName'', ''levelname'', ''levelno'', ''lineno'', ''module'', ''msecs'',
      ''pathname'', ''process'', ''processName'', ''relativeCreated'', ''thread'', ''threadName'', ''exc_info'', ''exc_text'',
      ''stack_info'', ''taskName'']"

definition ljust :: "nat \<Rightarrow> string \<Rightarrow> string" where
  "ljust n s = s @ replicate (n - length s) (CHR '' '')"

text \<open>\<open>f"[{x}]" if x else ""\<close>.\<close>

definition bracketed :: "string \<Rightarrow> string option \<Rightarrow> string" where
  "bracketed tag v = (case v of None \<Rightarrow> [] | Some x \<Rightarrow> if x = [] then [] else ''['' @ tag @ x @ '']'')"

text \<open>
  \<open>DevelopmentFormatter.format\<close>: \<open>stamp\<close> is the formatted time, \<open>rel\<close> the path relative to the project, \<open>repr\<close> the
  \<open>repr\<close> of the dictionary of extra fields.
\<close>

definition development_format ::
  "((string \<times> json) list \<Rightarrow> string) \<Rightarrow> string \<Rightarrow> string \<Rightarrow> string option \<Rightarrow> string option \<Rightarrow> log_record \<Rightarrow> string"
where
  "development_format repr stamp rel cid trace r =
     (let extra = filter (\<lambda>(k, v). k \<notin> set standard_attributes) (lr_dict r);
          extra_str = (if extra = [] then [] else '' '' @ repr extra);
          prefix = join_with '' '' (filter (\<lambda>s. s \<noteq> []) [bracketed [] cid, bracketed ''trace:'' (map_option (take 8) trace)]);
          source_link = rel @ '':'' @ show_nat (lr_lineno r) @ '':'' @ lr_func r
      in stamp @ '' | '' @ ljust 8 (lr_levelname r) @ '' | '' @ source_link @ '' | '' @
         (if prefix = [] then [] else prefix @ '' '') @ lr_message r @ extra_str)"

text \<open>\<open>ProductionJsonFormatter.add_fields\<close>, on the fields that the base class has collected.\<close>

definition add_fields :: "string option \<Rightarrow> string option \<Rightarrow> (string \<times> json) list \<Rightarrow> (string \<times> json) list" where
  "add_fields cid trace log_data =
     (let put = \<lambda>k v d. case v of None \<Rightarrow> d | Some x \<Rightarrow> if x = [] then d else AList.update k (JStr x) d
      in put ''trace_id'' trace (put ''cid'' cid log_data))"

datatype log_handler = Json_Stdout | Dev_Stdout | Dev_File string int nat

record logging_setup =
  ls_handlers :: "log_handler list"
  ls_root :: int
  ls_levels :: "(string \<times> int) list"

text \<open>\<open>getattr(logging, name, default)\<close>; \<open>attr\<close> are the integer attributes of the module.\<close>

definition level_of :: "(string \<Rightarrow> int option) \<Rightarrow> string \<Rightarrow> int \<Rightarrow> int" where
  "level_of attr name dflt = (case attr (upper name) of Some l \<Rightarrow> l | None \<Rightarrow> dflt)"

definition dependency_levels :: "(string \<Rightarrow> int option) \<Rightarrow> settings \<Rightarrow> (string \<times> int) list" where
  "dependency_levels attr st =
     concat (map (\<lambda>(field, loggers). if blank (opt_str_of st field) then []
                                      else map (\<lambda>l. (l, level_of attr (the (opt_str_of st field)) 30)) loggers)
       [(''log_sqlalchemy_level'', [''sqlalchemy'', ''sqlalchemy.engine'']), (''log_httpx_level'', [''httpx'']),
        (''log_asyncio_level'', [''asyncio''])])"

definition setup_logging :: "(string \<Rightarrow> int option) \<Rightarrow> settings \<Rightarrow> logging_setup" where
  "setup_logging attr st =
     \<lparr>ls_handlers =
        (if str_of st ''environment'' = ''production'' then [Json_Stdout]
         else [Dev_Stdout, Dev_File ''logs/app.log'' (10 * 1024 * 1024) 5]),
      ls_root = level_of attr (if str_of st ''log_level'' = [] then ''INFO'' else str_of st ''log_level'') 20,
      ls_levels = dependency_levels attr st\<rparr>"

subsection \<open>What a client sees\<close>

lemma get_header_Cons: "get_header n ((k, w) # hs) = (if lower k = lower n then Some w else get_header n hs)"
  by (simp add: get_header_def)

lemma get_header_filter: "lower n \<noteq> lower m \<Longrightarrow> get_header n (filter (\<lambda>h. lower (fst h) \<noteq> lower m) hs) = get_header n hs"
proof (induction hs)
  case (Cons h hs)
  obtain k w where "h = (k, w)" by (cases h)
  then show ?case using Cons by (simp add: get_header_Cons) 
qed simp

lemma get_set_header: "get_header n (set_header m v hs) = (if lower n = lower m then Some v else get_header n hs)"
proof (induction m v hs rule: set_header.induct)
  case (1 m v)
  then show ?case by (simp add: get_header_def)
next
  case (2 m v k w hs)
  then show ?case by (simp add: get_header_Cons get_header_filter)
qed

lemma hardened_headers:
  "list_all (\<lambda>(n, v). get_header n (fold (\<lambda>(n, v). set_header n v) security_headers hs) = Some v) security_headers"
  "get_header (fst hsts) (fold (\<lambda>(n, v). set_header n v) security_headers hs) = get_header (fst hsts) hs"
  by (simp_all add: security_headers_def hsts_def get_set_header lower_def lower_char_def)

lemma header_names_differ:
  "list_all (\<lambda>(n, v). lower n \<noteq> lower ''X-Correlation-ID'' \<and> lower n \<noteq> lower (fst hsts)) security_headers"
  "lower (fst hsts) \<noteq> lower ''X-Correlation-ID''"
  by (simp_all add: security_headers_def hsts_def lower_def lower_char_def)

text \<open>
  C16. Every response that passes the middlewares carries the correlation id and the security headers, and no other does. A
  response of a route, or of an exception that the framework handles on the inside, keeps its status, is sent with the
  request's correlation id (the client's own, or the fresh one), with the four hardening headers and, over https, HSTS,
  and is logged twice under that id. An exception without a handler is answered by the outer error response as it is,
  without the correlation id and the security headers, and only the start of the request is logged.
\<close>

theorem responses_carry_headers:
  "case exception_layer F route (Some (request_cid uuid req)) req of
     Inr r0 \<Rightarrow>
       (case serve F uuid route req of (l, r) \<Rightarrow>
          rs_status r = rs_status r0 \<and> get_header ''X-Correlation-ID'' (rs_headers r) = Some (request_cid uuid req) \<and>
          list_all (\<lambda>(n, v). get_header n (rs_headers r) = Some v) security_headers \<and>
          get_header (fst hsts) (rs_headers r) = (if rq_scheme req = ''https'' then Some (snd hsts) else get_header (fst hsts) (rs_headers r0)) \<and>
          map lg_event l = [''request_start'', ''request_end''] \<and> map lg_cid l = [request_cid uuid req, request_cid uuid req])
   | Inl e \<Rightarrow>
       (case serve F uuid route req of (l, r) \<Rightarrow> r = fw_server_error F e \<and> map lg_event l = [''request_start''])"
proof (cases "exception_layer F route (Some (request_cid uuid req)) req")
  case (Inl e)
  then show ?thesis by (simp add: serve_def correlation_dispatch_def security_dispatch_def Let_def)
next
  case (Inr r0)
  let ?hs = "fold (\<lambda>(n, v). set_header n v) security_headers (rs_headers r0)"
  let ?hs1 = "if rq_scheme req = ''https'' then set_header (fst hsts) (snd hsts) ?hs else ?hs"
  let ?final = "set_header ''X-Correlation-ID'' (request_cid uuid req) ?hs1"
  have "get_header n ?final = Some v" if nv: "(n, v) \<in> set security_headers" for n v
  proof -
    have "lower n \<noteq> lower ''X-Correlation-ID''" "lower n \<noteq> lower (fst hsts)" "get_header n ?hs = Some v"
      using header_names_differ(1) hardened_headers(1) nv by (fastforce simp: list_all_iff)+
    then show ?thesis by (simp add: get_set_header)
  qed
  then have "list_all (\<lambda>(n, v). get_header n ?final = Some v) security_headers" by (auto simp: list_all_iff)
  moreover have "get_header (fst hsts) ?final = (if rq_scheme req = ''https'' then Some (snd hsts) else get_header (fst hsts) (rs_headers r0))"
    using header_names_differ(2) hardened_headers(2) by (simp add: get_set_header)
  moreover have "get_header ''X-Correlation-ID'' ?final = Some (request_cid uuid req)" by (simp add: get_set_header)
  ultimately show ?thesis
    using Inr by (simp add: serve_def correlation_dispatch_def security_dispatch_def Let_def)
qed

text \<open>The docs are served exactly without a user name or with both credentials right; a user name alone hides them.\<close>

lemma docs_served_iff:
  "(\<exists>v. get_docs st (Inr (u, p)) page = Inr v) \<longleftrightarrow>
     blank (docs_username st) \<or>
     (docs_username st = Some u \<and> docs_password st = Some p \<and> u \<noteq> [] \<and> p \<noteq> [])"
  by (auto simp: get_docs_def docs_access_def verify_docs_credentials_def blank_def)

end
