(* ===== verification/Json_Text.thy ===== *)
theory Json_Text
  imports Json_Access "HOL-Library.AList"
begin

text \<open>
  \<open>json.dumps\<close> with its default separators, the text in which the services exchange values, and its round trip through
  \<open>json.loads\<close>. How a float is printed is an interface, \<open>float_printer\<close>, with the one law that the reader needs; the
  decimals of Python's \<open>repr\<close> provide it.
\<close>

subsection \<open>The encoder\<close>

text \<open>The entries of a dict built from pairs: a later pair replaces the value and keeps the place.\<close>

definition dict_of :: "(string \<times> 'a) list \<Rightarrow> (string \<times> 'a) list" where
  "dict_of kvs = fold (\<lambda>(k, v). AList.update k v) kvs []"

definition dump_member :: "string \<times> string \<Rightarrow> string" where
  "dump_member m = dump_str (fst m) @ '': '' @ snd m"

fun json_dumps :: "(rat \<Rightarrow> string) \<Rightarrow> json \<Rightarrow> string" where
  "json_dumps float_repr JNull = ''null''"
| "json_dumps float_repr (JBool b) = (if b then ''true'' else ''false'')"
| "json_dumps float_repr (JInt i) = show_int i"
| "json_dumps float_repr (JFloat q) = float_repr q"
| "json_dumps float_repr (JStr s) = dump_str s"
| "json_dumps float_repr (JList xs) = ''['' @ join_with '', '' (map (json_dumps float_repr) xs) @ '']''"
| "json_dumps float_repr (JObj kvs) =
     ''{'' @ join_with '', '' (map dump_member (dict_of (map (\<lambda>(k, v). (k, json_dumps float_repr v)) kvs))) @ ''}''"

text \<open>A value of Python's: every object has one entry for each key, and every float is one that \<open>printable\<close> admits.\<close>

fun proper_json :: "(rat \<Rightarrow> bool) \<Rightarrow> json \<Rightarrow> bool" where
  "proper_json printable (JFloat q) = printable q"
| "proper_json printable (JList xs) = list_all (proper_json printable) xs"
| "proper_json printable (JObj kvs) =
     (distinct (map fst kvs) \<and> list_all (\<lambda>(k, v). proper_json printable v) kvs)"
| "proper_json printable v = True"

lemma fold_update_distinct:
  "distinct (map fst acc @ map fst xs) \<Longrightarrow> fold (\<lambda>(k, v). AList.update k v) xs acc = acc @ xs"
proof (induction xs arbitrary: acc)
  case (Cons x xs)
  obtain n q where x: "x = (n, q)" by (cases x)
  have "n \<notin> fst ` set acc" using Cons.prems by (auto simp: x)
  then have "AList.update n q acc = acc @ [(n, q)]" by (induction acc) auto
  then show ?case using Cons.IH [of "acc @ [(n, q)]"] Cons.prems by (simp add: x)
qed simp

lemma dict_of_distinct [simp]: "distinct (map fst kvs) \<Longrightarrow> dict_of kvs = kvs"
  using fold_update_distinct [of "[]" kvs] by (simp add: dict_of_def)

subsection \<open>Strings read back\<close>

lemma hex_val_char [simp]: "d < 16 \<Longrightarrow> hex_val (hex_char d) = Some d"
  by (auto simp: hex_char_def hex_val_def)

lemma quote_chars: "char_of (34 :: nat) = CHR 0x22" "char_of (92 :: nat) = CHR 0x5C"
  by (rule iffD1 [OF of_char_eq_iff [where ?'a = nat]], simp)+

lemma scan_str_dump_char [simp]: "scan_str (dump_char c @ s) = cons_char c (scan_str s)"
proof -
  have "(of_char c :: nat) < 256" by (rule of_char_bound)
  then have "(of_char c :: nat) div 16 < 16" by (simp add: less_mult_imp_div_less)
  moreover have "hex_val CHR ''0'' = Some 0" by (simp add: hex_val_def)
  ultimately have nibbles: "of_char c div 16 < (16 :: nat)" "hex_val CHR ''0'' = Some 0" by simp_all
  show ?thesis
  proof (cases "of_char c \<in> {34, 92, 8, 12, 10, 13, 9 :: nat}")
    case True
    then obtain n :: nat where "n \<in> {34, 92, 8, 12, 10, 13, 9}" "c = char_of n"
      using char_of_char [of c, where ?'a = nat] by metis
    then show ?thesis by (auto simp: dump_char_def escape_char_def quote_chars)
  next
    case False
    then show ?thesis
      using nibbles \<open>of_char c < (256 :: nat)\<close> by (auto simp: dump_char_def Let_def mult.commute)
  qed
qed

lemma scan_str_dumped: "scan_str (concat (map dump_char s) @ CHR 0x22 # r) = Some (s, r)"
  by (induction s) (simp_all add: cons_char_def)

subsection \<open>Values read back\<close>

text \<open>What may follow a number, and the interface of the printer of floats.\<close>

definition ends_number :: "string \<Rightarrow> bool" where
  "ends_number r \<longleftrightarrow> r = [] \<or> \<not> is_digit (hd r) \<and> hd r \<noteq> CHR ''.'' \<and> hd r \<noteq> CHR ''e'' \<and> hd r \<noteq> CHR ''E''"

definition starts_number :: "string \<Rightarrow> bool" where
  "starts_number s \<longleftrightarrow> s \<noteq> [] \<and> (is_digit (hd s) \<or> hd s = CHR ''-'')"

text \<open>The first character of a printed value: no blank, no closing bracket, no separator.\<close>

definition starts_value :: "string \<Rightarrow> bool" where
  "starts_value s \<longleftrightarrow> s \<noteq> [] \<and> \<not> json_ws (hd s) \<and> hd s \<noteq> CHR '']'' \<and> hd s \<noteq> CHR ''}''"

lemma starts_valueD: "starts_value s \<Longrightarrow> dropWhile json_ws (s @ r) = s @ r \<and> \<not> json_ws CHR '']'' \<and> \<not> json_ws CHR '',''"
  by (cases s) (auto simp: starts_value_def json_ws_def)

lemma separators_end [simp]: "ends_number (CHR '','' # r)" "ends_number (CHR '']'' # r)" "ends_number (CHR ''}'' # r)"
  by (simp_all add: ends_number_def is_digit_def)

lemma blanks [simp]: "json_ws CHR '' ''" "\<not> json_ws CHR '','' " "\<not> json_ws CHR '']''" "\<not> json_ws CHR ''}''"
  "\<not> json_ws CHR '':''" "\<not> json_ws CHR 0x22"
  by (simp_all add: json_ws_def)

lemma parse_number:
  assumes "starts_number s"
  shows "parse_value (Suc n) (s @ r) = scan_num (s @ r)"
proof -
  obtain c cs where c: "s = c # cs" "is_digit c \<or> c = CHR ''-''"
    using assms by (cases s) (auto simp: starts_number_def)
  have "of_char c \<noteq> (34 :: nat)" "c \<noteq> CHR ''{''" "c \<noteq> CHR ''[''" "c \<noteq> CHR ''n''" "c \<noteq> CHR ''t''" "c \<noteq> CHR ''f''"
    using c(2) by (auto simp: is_digit_def Let_def)
  then show ?thesis by (simp add: c)
qed

locale float_printer =
  fixes float_repr :: "rat \<Rightarrow> string"
    and printable :: "rat \<Rightarrow> bool"
  assumes float_starts: "printable q \<Longrightarrow> starts_number (float_repr q)"
    and float_reads_back: "printable q \<Longrightarrow> ends_number r \<Longrightarrow> scan_num (float_repr q @ r) = Some (JFloat q, r)"
begin

abbreviation dumps :: "json \<Rightarrow> string" where
  "dumps \<equiv> json_dumps float_repr"

definition member_text :: "string \<times> json \<Rightarrow> string" where
  "member_text kv = dump_str (fst kv) @ '': '' @ dumps (snd kv)"

lemma dumps_object:
  assumes "distinct (map fst kvs)"
  shows "dumps (JObj kvs) = ''{'' @ join_with '', '' (map member_text kvs) @ ''}''"
proof -
  have "map fst (map (\<lambda>(k, v). (k, dumps v)) kvs) = map fst kvs" by (simp add: case_prod_unfold)
  then have "dict_of (map (\<lambda>(k, v). (k, dumps v)) kvs) = map (\<lambda>(k, v). (k, dumps v)) kvs"
    using assms by (metis dict_of_distinct)
  moreover have "map dump_member (map (\<lambda>(k, v). (k, dumps v)) kvs) = map member_text kvs"
    by (simp add: member_text_def dump_member_def case_prod_unfold)
  ultimately show ?thesis by (simp only: json_dumps.simps)
qed

lemma dumps_starts: "proper_json printable j \<Longrightarrow> starts_value (dumps j)"
proof (cases j)
  case (JInt i)
  then show ?thesis
    using show_int_hd [of i "hd (show_int i)" "tl (show_int i)"]
    by (auto simp: starts_value_def json_ws_def is_digit_def Let_def)
next
  case (JFloat q)
  assume "proper_json printable j"
  then show ?thesis
    using float_starts [of q] JFloat
    by (auto simp: starts_value_def starts_number_def json_ws_def is_digit_def Let_def)
qed (auto simp: starts_value_def json_ws_def dump_str_def)

lemma parse_items_dumped:
  assumes "xs \<noteq> []"
    and "\<And>v n r. v \<in> set xs \<Longrightarrow> length (dumps v) \<le> n \<Longrightarrow> ends_number r \<Longrightarrow> parse_value n (dumps v @ r) = Some (v, r)"
    and "\<And>v. v \<in> set xs \<Longrightarrow> starts_value (dumps v)"
    and "length (join_with '', '' (map dumps xs)) < n"
  shows "parse_items n (join_with '', '' (map dumps xs) @ CHR '']'' # r) = Some (xs, r)"
  using assms
proof (induction xs arbitrary: n rule: induct_list012)
  case (2 x)
  then obtain m where m: "n = Suc m" by (cases n) auto
  then show ?case using 2(2) [of x m "CHR '']'' # r"] 2(4) by simp
next
  case (3 x y ys)
  then obtain m where m: "n = Suc m" by (cases n) auto
  let ?t = "join_with '', '' (map dumps (y # ys)) @ CHR '']'' # r"
  have "parse_value m (dumps x @ '', '' @ ?t) = Some (x, '', '' @ ?t)"
    using 3(4) [of x m "'', '' @ ?t"] 3(6) m by simp
  moreover have "parse_items m ?t = Some (y # ys, r)"
    using 3(2) [of m] 3(4-6) m by simp
  moreover have "dropWhile json_ws ?t = ?t"
    using 3(5) [of y] by (cases ys; cases "dumps y") (auto simp: starts_value_def)
  ultimately show ?case by (simp add: m)
qed simp

lemma parse_members_dumped:
  assumes "kvs \<noteq> []"
    and "\<And>k v n r. (k, v) \<in> set kvs \<Longrightarrow> length (dumps v) \<le> n \<Longrightarrow> ends_number r \<Longrightarrow> parse_value n (dumps v @ r) = Some (v, r)"
    and "\<And>k v. (k, v) \<in> set kvs \<Longrightarrow> starts_value (dumps v)"
    and "length (join_with '', '' (map member_text kvs)) < n"
  shows "parse_members n (join_with '', '' (map member_text kvs) @ CHR ''}'' # r) = Some (kvs, r)"
  using assms
proof (induction kvs arbitrary: n rule: induct_list012)
  case (2 kv)
  obtain k v where kv: "kv = (k, v)" by (cases kv)
  obtain m where m: "n = Suc m" using 2 by (cases n) auto
  have "parse_value m (dumps v @ CHR ''}'' # r) = Some (v, CHR ''}'' # r)"
    using 2(2) [of k v m "CHR ''}'' # r"] 2(4) by (simp add: kv m member_text_def)
  moreover have "dropWhile json_ws (dumps v @ CHR ''}'' # r) = dumps v @ CHR ''}'' # r"
    using 2(3) [of k v] by (simp add: kv starts_valueD)
  ultimately show ?case by (simp add: kv m member_text_def dump_str_def scan_str_dumped)
next
  case (3 kv kw kvs)
  obtain k v where kv: "kv = (k, v)" by (cases kv)
  obtain m where m: "n = Suc m" using 3 by (cases n) auto
  define t where "t = join_with '', '' (map member_text (kw # kvs)) @ CHR ''}'' # r"
  have e: "join_with '', '' (map member_text (kv # kw # kvs)) @ CHR ''}'' # r = dump_str k @ '': '' @ dumps v @ '', '' @ t"
    by (simp add: t_def kv member_text_def)
  have "parse_value m (dumps v @ '', '' @ t) = Some (v, '', '' @ t)"
    using 3(4) [of k v m "'', '' @ t"] 3(6) by (simp add: kv m member_text_def)
  moreover have "dropWhile json_ws (dumps v @ '', '' @ t) = dumps v @ '', '' @ t"
    using 3(5) [of k v] by (simp add: kv starts_valueD)
  moreover have "parse_members m t = Some (kw # kvs, r)"
    unfolding t_def
  proof (rule 3(2))
    show "length (join_with '', '' (map member_text (kw # kvs))) < m" using 3(6) by (simp add: m)
  qed ((rule 3(4) 3(5); auto) | simp)+
  moreover have "dropWhile json_ws t = t"
    by (cases kvs) (simp_all add: t_def member_text_def dump_str_def)
  ultimately show ?case by (simp only: e m) (simp add: kv dump_str_def scan_str_dumped)
qed simp

theorem parse_dumped:
  "proper_json printable j \<Longrightarrow> length (dumps j) \<le> n \<Longrightarrow> ends_number r \<Longrightarrow> parse_value n (dumps j @ r) = Some (j, r)"
proof (induction j arbitrary: n r)
  case JNull
  then obtain m where "n = Suc m" by (cases n) auto
  then show ?case by simp
next
  case (JBool b)
  then obtain m where "n = Suc m" by (cases n) (auto split: if_splits)
  then show ?case by simp
next
  case (JInt i)
  then obtain m where "n = Suc m" by (cases n) auto
  then show ?case using parse_int [of r m i] JInt by (simp add: ends_number_def)
next
  case (JFloat q)
  then have "starts_number (float_repr q)" by (simp add: float_starts)
  moreover from this JFloat obtain m where "n = Suc m" by (cases n) (auto simp: starts_number_def)
  ultimately show ?case using JFloat parse_number float_reads_back by simp
next
  case (JStr s)
  then obtain m where "n = Suc m" by (cases n) (auto simp: dump_str_def)
  then show ?case by (simp add: dump_str_def scan_str_dumped)
next
  case (JList xs)
  then obtain m where m: "n = Suc m" by (cases n) auto
  show ?case
  proof (cases "xs = []")
    case False
    let ?t = "join_with '', '' (map dumps xs)"
    have "parse_items m (?t @ CHR '']'' # r) = Some (xs, r)"
    proof (rule parse_items_dumped [OF False])
      show "length ?t < m" using JList.prems by (simp add: m)
    qed (use JList in \<open>auto simp: list_all_iff intro: dumps_starts\<close>)
    moreover have "starts_value ?t"
      using False JList.prems dumps_starts by (cases xs rule: remdups_adj.cases) (auto simp: starts_value_def)
    ultimately show ?thesis
      by (cases ?t) (auto simp: m starts_value_def)
  qed (simp add: m)
next
  case (JObj kvs)
  then obtain m where m: "n = Suc m" by (cases n) auto
  have d: "distinct (map fst kvs)" using JObj.prems by simp
  show ?case
  proof (cases "kvs = []")
    case False
    let ?t = "join_with '', '' (map member_text kvs)"
    have "parse_members m (?t @ CHR ''}'' # r) = Some (kvs, r)"
    proof (rule parse_members_dumped [OF False])
      show "length ?t < m" using JObj.prems by (simp add: m dumps_object [OF d] del: json_dumps.simps)
    qed (use JObj in \<open>auto simp: list_all_iff intro: dumps_starts\<close>)
    moreover have "\<exists>ts. ?t = CHR 0x22 # ts"
      using False by (cases kvs rule: remdups_adj.cases) (auto simp: member_text_def dump_str_def)
    ultimately show ?thesis
      by (auto simp: m dumps_object [OF d] simp del: json_dumps.simps)
  qed (simp add: m dict_of_def)
qed

theorem loads_dumps: "proper_json printable j \<Longrightarrow> json_loads (dumps j) = Inr j"
  using parse_dumped [of j "2 * length (dumps j) + 2" "[]"] starts_valueD [OF dumps_starts, of j "[]"]
  by (simp add: json_loads_def ends_number_def)

end

subsection \<open>Decimals\<close>

text \<open>
  \<open>repr\<close> of a float whose shortest decimal has up to 17 places: a sign, the integer part and at least one decimal. Very
  small and very large floats, which Python prints with an exponent, are outside of \<open>decimal\<close>.
\<close>

fun frac_digits :: "nat \<Rightarrow> rat \<Rightarrow> string" where
  "frac_digits 0 f = []"
| "frac_digits (Suc k) f =
     (let d = nat \<lfloor>10 * f\<rfloor>; g = 10 * f - of_nat d
      in char_of (48 + d) # (if g = 0 then [] else frac_digits k g))"

definition decimal_repr :: "rat \<Rightarrow> string" where
  "decimal_repr q =
     (if q < 0 then ''-'' else []) @ show_nat (nat \<lfloor>\<bar>q\<bar>\<rfloor>) @ ''.'' @ frac_digits 17 (\<bar>q\<bar> - of_int \<lfloor>\<bar>q\<bar>\<rfloor>)"

definition decimal :: "rat \<Rightarrow> bool" where
  "decimal q \<longleftrightarrow> of_int \<lfloor>q * 10 ^ 17\<rfloor> = q * 10 ^ 17 \<and> (q = 0 \<or> 1 / 10 ^ 4 \<le> \<bar>q\<bar>) \<and> \<bar>q\<bar> < 10 ^ 16"

lemma digits_val_Cons: "digits_val (c # s) = digit_val c * 10 ^ length s + digits_val s"
  by (induction s rule: rev_induct) (simp_all add: digits_val_def)

lemma frac_digits_scanned:
  "0 \<le> f \<Longrightarrow> f < 1 \<Longrightarrow> of_int m = f * 10 ^ k \<Longrightarrow> 0 < k \<Longrightarrow>
   frac_digits k f \<noteq> [] \<and> (\<forall>c \<in> set (frac_digits k f). is_digit c) \<and>
   (of_nat (digits_val (frac_digits k f)) :: rat) = f * 10 ^ length (frac_digits k f)"
proof (induction k arbitrary: f m)
  case (Suc k)
  define d where "d = nat \<lfloor>10 * f\<rfloor>"
  define g where "g = 10 * f - of_nat d"
  have d: "of_nat d = (of_int \<lfloor>10 * f\<rfloor> :: rat)" using Suc.prems(1) by (simp add: d_def)
  have "\<lfloor>10 * f\<rfloor> < 10" using Suc.prems(2) by (simp add: floor_less_iff)
  then have "d < 10" unfolding d_def by linarith
  have g: "0 \<le> g" "g < 1" unfolding g_def d by linarith+
  have e: "frac_digits (Suc k) f = char_of (48 + d) # (if g = 0 then [] else frac_digits k g)"
    by (simp only: frac_digits.simps Let_def d_def [symmetric] g_def [symmetric])
  have f: "f = (of_nat d + g) / 10" by (simp add: g_def)
  show ?case
  proof (cases "g = 0")
    case True
    then show ?thesis using \<open>d < 10\<close> f by (simp add: e digits_val_Cons del: frac_digits.simps)
  next
    case False
    have m: "of_int (m - int d * 10 ^ k) = g * 10 ^ k"
      using Suc.prems(3) f by (simp add: field_simps)
    have "0 < k"
    proof (rule ccontr)
      assume "\<not> 0 < k"
      then have "g = of_int (m - int d)" using m by simp
      then show False using g False by (metis of_int_0_le_iff of_int_less_1_iff of_int_eq_0_iff order_antisym zle_diff1_eq diff_zero zero_less_one int_one_le_iff_zero_less not_le)
    qed
    have "f * (10 * x) = of_nat d * x + g * x" for x
      using distrib_right [of "of_nat d" g x] by (simp add: g_def)
    with Suc.IH [OF g m \<open>0 < k\<close>] show ?thesis
      using \<open>d < 10\<close> False by (simp add: e digits_val_Cons del: frac_digits.simps)
  qed
qed simp

lemma scan_num_decimal:
  assumes fd: "fd \<noteq> []" "\<forall>c \<in> set fd. is_digit c" and r: "ends_number r"
  shows "scan_num ((if neg then ''-'' else []) @ show_nat n @ ''.'' @ fd @ r) =
    Some (JFloat (float_of (if neg then - 1 else 1) n fd None), r)"
proof -
  have dot: "\<not> is_digit CHR ''.''" by (simp add: is_digit_def)
  have tw: "takeWhile is_digit (show_nat n @ ''.'' @ fd @ r) = show_nat n"
    "dropWhile is_digit (show_nat n @ ''.'' @ fd @ r) = ''.'' @ fd @ r"
    using show_nat_digits [of n] dot by (auto simp: takeWhile_append2 dropWhile_append2)
  have "takeWhile is_digit r = []" "dropWhile is_digit r = r"
    using r by (cases r; auto simp: ends_number_def)+
  then have fr: "scan_frac (''.'' @ fd @ r) = (fd, r)"
    using fd by (simp add: scan_frac_def takeWhile_append2 dropWhile_append2)
  have ex: "scan_exp r = (None, r)"
    using r by (auto simp: scan_exp_def ends_number_def split: list.splits)
  have z: "show_nat n = ''0''" if "n = 0" for n
    using that by (subst show_nat.simps) (simp, rule iffD1 [OF of_char_eq_iff [where ?'a = nat]], simp)
  define body where "body sg t =
    (let ds = takeWhile is_digit t
     in if ds = [] then None
        else let (m, r0) = (if hd ds = CHR ''0'' then (''0'', tl t) else (ds, dropWhile is_digit t));
              (fr, r1) = scan_frac r0; (ex, r2) = scan_exp r1
          in if fr = [] \<and> ex = None then Some (JInt (sg * int (digits_val m)), r0)
             else Some (JFloat (float_of sg (digits_val m) fr ex), r2))" for sg t
  have core: "body sg (show_nat n @ ''.'' @ fd @ r) = Some (JFloat (float_of sg n fd None), r)" for sg
    using z [of n] fd digits_val_show [of n]
    by (cases "n = 0") (simp_all add: body_def tw [simplified] fr [simplified] ex Let_def show_nat_hd is_digit_def [of "CHR ''0''"])
  have minus: "scan_num (CHR ''-'' # t) = body (- 1) t" for t
    by (simp add: scan_num_def body_def)
  have plus: "scan_num t = body 1 t" if "t \<noteq> []" "hd t \<noteq> CHR ''-''" for t
    using that by (cases t) (simp_all add: scan_num_def body_def)
  have "hd (show_nat n @ ''.'' @ fd @ r) \<noteq> CHR ''-''"
    using show_nat_digits [of n] by (cases "show_nat n") (auto simp: is_digit_def)
  then show ?thesis using core minus plus by (cases neg) simp_all
qed

lemma decimal_repr_scanned:
  assumes "decimal q" and "ends_number r"
  shows "scan_num (decimal_repr q @ r) = Some (JFloat q, r)"
proof -
  let ?f = "\<bar>q\<bar> - of_int \<lfloor>\<bar>q\<bar>\<rfloor>" and ?n = "nat \<lfloor>\<bar>q\<bar>\<rfloor>"
  have f: "0 \<le> ?f" "?f < 1" by linarith+
  have "of_int (\<bar>\<lfloor>q * 10 ^ 17\<rfloor>\<bar> - \<lfloor>\<bar>q\<bar>\<rfloor> * 10 ^ 17) = ?f * 10 ^ 17"
    using assms(1) [unfolded decimal_def, THEN conjunct1]
    by (simp only: of_int_diff of_int_mult of_int_abs of_int_power of_int_numeral abs_mult left_diff_distrib) simp
  from frac_digits_scanned [OF f this]
  have fd: "frac_digits 17 ?f \<noteq> []" "\<forall>c \<in> set (frac_digits 17 ?f). is_digit c"
    "(of_nat (digits_val (frac_digits 17 ?f)) :: rat) = ?f * 10 ^ length (frac_digits 17 ?f)"
    by simp_all
  have n: "(of_nat ?n :: rat) = of_int \<lfloor>\<bar>q\<bar>\<rfloor>" by simp
  have "float_of (if q < 0 then - 1 else 1) ?n (frac_digits 17 ?f) None = q"
    unfolding float_of_def fd(3) n by simp
  then show ?thesis
    using scan_num_decimal [OF fd(1,2) assms(2), of "q < 0" ?n] by (simp add: decimal_repr_def)
qed

lemma decimal_repr_starts: "starts_number (decimal_repr q)"
  using show_nat_digits [of "nat \<lfloor>\<bar>q\<bar>\<rfloor>"] show_nat_ne [of "nat \<lfloor>\<bar>q\<bar>\<rfloor>"]
  by (cases "show_nat (nat \<lfloor>\<bar>q\<bar>\<rfloor>)") (auto simp: decimal_repr_def starts_number_def)

interpretation py_repr: float_printer decimal_repr decimal
  by unfold_locales (simp_all add: decimal_repr_starts decimal_repr_scanned)

end
