(* ===== verification/Text_Lines.thy ===== *)
theory Text_Lines
  imports Prelude "HOL-Library.Sublist"
begin

text \<open>\<open>str.splitlines\<close>, \<open>str.split\<close>, substring tests and \<open>fnmatch\<close> patterns, for the modules that read texts line by line.\<close>

text \<open>The line boundaries below 256; a carriage return and a line feed are one.\<close>

definition is_break :: "char \<Rightarrow> bool" where
  "is_break c = (let n = (of_char c :: nat) in 10 \<le> n \<and> n \<le> 13 \<or> 28 \<le> n \<and> n \<le> 30 \<or> n = 133)"

fun unify_crlf :: "string \<Rightarrow> string" where
  "unify_crlf (c # d # cs) = (if c = CHR 0x0D \<and> d = CHR 0x0A then d # unify_crlf cs else c # unify_crlf (d # cs))"
| "unify_crlf cs = cs"

fun lines_from :: "string \<Rightarrow> string \<Rightarrow> string list" where
  "lines_from acc [] = (if acc = [] then [] else [rev acc])"
| "lines_from acc (c # cs) = (if is_break c then rev acc # lines_from [] cs else lines_from (c # acc) cs)"

definition splitlines :: "string \<Rightarrow> string list" where
  "splitlines s = lines_from [] (unify_crlf s)"

function words :: "string \<Rightarrow> string list" where
  "words [] = []"
| "words (c # cs) =
     (if is_space c then words cs
      else (c # takeWhile (\<lambda>d. \<not> is_space d) cs) # words (dropWhile (\<lambda>d. \<not> is_space d) cs))"
  by pat_completeness auto

termination words
  by (relation "measure length") (simp_all add: less_Suc_eq_le length_dropWhile_le)

definition contains :: "string \<Rightarrow> string \<Rightarrow> bool" where
  "contains s k = list_ex (\<lambda>i. take (length k) (drop i s) = k) [0..<Suc (length s)]"

definition endswith :: "string \<Rightarrow> string \<Rightarrow> bool" where
  "endswith s p \<longleftrightarrow> length p \<le> length s \<and> drop (length s - length p) s = p"

definition rstrip :: "string \<Rightarrow> string" where
  "rstrip s = rev (dropWhile is_space (rev s))"

text \<open>A pattern whose only special character is the star.\<close>

fun wild :: "string \<Rightarrow> string \<Rightarrow> bool" where
  "wild [] s = (s = [])"
| "wild (c # p) [] = (c = CHR ''*'' \<and> wild p [])"
| "wild (c # p) (d # s) = (if c = CHR ''*'' then wild p (d # s) \<or> wild (c # p) s else c = d \<and> wild p s)"

subsection \<open>Lines that were printed\<close>

lemma unify_crlf_id: "CHR 0x0D \<notin> set s \<Longrightarrow> unify_crlf s = s"
  by (induction s rule: unify_crlf.induct) auto

lemma lines_from_append: "list_all (\<lambda>c. \<not> is_break c) l \<Longrightarrow> lines_from acc (l @ rest) = lines_from (rev l @ acc) rest"
  by (induction l arbitrary: acc) auto

definition unbroken :: "string \<Rightarrow> bool" where
  "unbroken l \<longleftrightarrow> list_all (\<lambda>c. \<not> is_break c) l"

lemma splitlines_unlines: "list_all unbroken ls \<Longrightarrow> splitlines (concat (map (\<lambda>l. l @ [CHR 0x0A]) ls)) = ls"
proof -
  assume ok: "list_all unbroken ls"
  have "is_break (CHR 0x0D)" by (simp add: is_break_def)
  then have "CHR 0x0D \<notin> set l" if "l \<in> set ls" for l
    using ok that by (auto simp: list_all_iff unbroken_def)
  then have "CHR 0x0D \<notin> set (concat (map (\<lambda>l. l @ [CHR 0x0A]) ls))" by auto
  moreover have "lines_from [] (concat (map (\<lambda>l. l @ [CHR 0x0A]) ls)) = ls"
    using ok by (induction ls) (simp_all add: unbroken_def lines_from_append, simp add: is_break_def)
  ultimately show ?thesis by (simp add: splitlines_def unify_crlf_id)
qed

definition word :: "string \<Rightarrow> bool" where
  "word w \<longleftrightarrow> w \<noteq> [] \<and> list_all (\<lambda>c. \<not> is_space c) w"

lemma break_is_space: "is_break c \<Longrightarrow> is_space c"
  by (auto simp: is_break_def is_space_def Let_def)

lemma word_unbroken: "word w \<Longrightarrow> unbroken w"
  using break_is_space by (auto simp: word_def unbroken_def list_all_iff)

lemma words_word:
  assumes "word w" and "rest = [] \<or> is_space (hd rest)"
  shows "words (w @ rest) = w # words rest"
proof -
  obtain c cs where w: "w = c # cs" using assms(1) by (cases w) (auto simp: word_def)
  have ns: "\<not> is_space c" "\<And>d. d \<in> set cs \<Longrightarrow> \<not> is_space d" using assms(1) by (auto simp: w word_def list_all_iff)
  have "takeWhile (\<lambda>d. \<not> is_space d) (cs @ rest) = cs" "dropWhile (\<lambda>d. \<not> is_space d) (cs @ rest) = rest"
    using ns assms(2) by (cases rest; simp add: takeWhile_append2 dropWhile_append2)+
  then show ?thesis using ns(1) by (simp add: w)
qed

lemma space_is_space: "is_space (CHR '' '')"
  by (simp add: is_space_def)

lemma words_pair: "word a \<Longrightarrow> word b \<Longrightarrow> words (a @ '' '' @ b) = [a, b]"
  using words_word [of a "'' '' @ b"] words_word [of b "[]"] by (simp add: space_is_space)

end
