(* ===== verification/Dashboard.thy ===== *)
theory Dashboard
  imports Settings Json_Text Schemas Text_Lines
begin

text \<open>
  The dashboard service, \<open>services/dashboard/routers/pages.py\<close> and \<open>sse.py\<close>: what its pages fetch from the ingestor and
  the AI gateway, the contexts of the rendered templates, the request that the table template makes when the last row is
  revealed, and the metrics stream. A request to another service is a function of its URL and parameters whose outcome is
  the decoded body or an exception; \<open>httpx.HTTPError\<close> is \<open>HTTPError\<close>.
\<close>

subsection \<open>Fetching\<close>

definition PAGE_ROWS :: int where "PAGE_ROWS = 50"

definition INGESTOR_URL :: string where "INGESTOR_URL = ''http://localhost:8000''"

type_synonym params = "(string \<times> json) list"

fun py_len :: "json \<Rightarrow> int outcome" where
  "py_len (JList xs) = Inr (int (length xs))"
| "py_len (JStr s) = Inr (int (length s))"
| "py_len (JObj kvs) = Inr (int (length (remdups (map fst kvs))))"
| "py_len v = Inl (TypeError (''object has no len(): '' @ type_name v))"

text \<open>\<open>except httpx.HTTPError\<close>; every other exception goes through.\<close>

definition on_http_error :: "(string \<Rightarrow> 'a) \<Rightarrow> 'a outcome \<Rightarrow> 'a outcome" where
  "on_http_error f r = (case r of Inl (HTTPError m) \<Rightarrow> Inr (f m) | _ \<Rightarrow> r)"

definition records_params :: "int \<Rightarrow> string option \<Rightarrow> bool \<Rightarrow> params" where
  "records_params skip src processed =
     [(''skip'', JInt skip), (''limit'', JInt PAGE_ROWS)] @
     (if blank src then [] else [(''source'', JStr (the src))]) @ (if processed then [(''processed'', JStr ''true'')] else [])"

definition fetch_records ::
  "(string \<Rightarrow> params \<Rightarrow> json outcome) \<Rightarrow> int \<Rightarrow> string option \<Rightarrow> bool \<Rightarrow> (json \<times> bool) outcome"
where
  "fetch_records get skip src processed =
     on_http_error (\<lambda>m. (JList [], False))
       (try_bind (get (INGESTOR_URL @ ''/api/v1/records'') (records_params skip src processed)) (\<lambda>body.
          let items = (case body of JObj kvs \<Rightarrow> (case obj_get ''records'' kvs of Some v \<Rightarrow> v | None \<Rightarrow> body) | _ \<Rightarrow> body)
          in try_bind (py_len items) (\<lambda>n. Inr (items, n = PAGE_ROWS))))"

definition fetch_search_results :: "(string \<Rightarrow> params \<Rightarrow> json outcome) \<Rightarrow> string \<Rightarrow> string \<Rightarrow> json outcome" where
  "fetch_search_results post ai_gateway_url query =
     on_http_error (\<lambda>m. JList [])
       (try_bind (post (ai_gateway_url @ ''/search'') [(''query'', JStr query), (''top_k'', JInt 10)]) (\<lambda>body.
          py_get_default body ''results'' (JList [])))"

text \<open>\<open>body if isinstance(body, dict) else ...\<close>.\<close>

definition dict_or :: "params \<Rightarrow> json \<Rightarrow> params" where
  "dict_or dflt body = (case body of JObj kvs \<Rightarrow> kvs | _ \<Rightarrow> dflt)"

definition fetch_workers_health :: "(string \<Rightarrow> params \<Rightarrow> json outcome) \<Rightarrow> params outcome" where
  "fetch_workers_health get =
     on_http_error (\<lambda>m. [(''running'', JBool False), (''detail'', JStr ''unavailable''), (''error'', JStr m)])
       (map_sum id (dict_or [(''running'', JBool False)]) (get (INGESTOR_URL @ ''/api/v1/background/workers/health'') []))"

definition fetch_task_status :: "(string \<Rightarrow> params \<Rightarrow> json outcome) \<Rightarrow> string \<Rightarrow> params outcome" where
  "fetch_task_status get tid =
     on_http_error (\<lambda>m. [(''task_id'', JStr tid), (''status'', JStr ''error''), (''detail'', JStr ''task lookup failed''), (''error'', JStr m)])
       (map_sum id (dict_or [(''status'', JStr ''unknown'')]) (get (INGESTOR_URL @ ''/api/v1/background/tasks/'' @ tid) []))"

text \<open>\<open>now\<close> without its microseconds, as an aware UTC time.\<close>

definition rerun_record :: "datetime \<Rightarrow> string \<Rightarrow> rat \<Rightarrow> json" where
  "rerun_record now src v =
     JObj [(''source'', JStr src), (''timestamp'', JStr (isoformat (now - now mod micros_per_second) @ ''+00:00'')),
           (''data'', JObj [(''value'', JFloat v)]), (''tags'', JList [JStr ''admin-rerun''])]"

definition submit_manual_rerun :: "(string \<Rightarrow> params \<Rightarrow> json outcome) \<Rightarrow> datetime \<Rightarrow> string \<Rightarrow> rat \<Rightarrow> params outcome" where
  "submit_manual_rerun post now src v =
     on_http_error (\<lambda>m. [(''status'', JStr ''error''), (''detail'', JStr ''manual rerun failed''), (''error'', JStr m)])
       (map_sum id (dict_or [(''status'', JStr ''queued'')])
          (post (INGESTOR_URL @ ''/api/v1/background/ingest/batch'') [(''records'', JList [rerun_record now src v])]))"

definition create_session_form :: "(string \<Rightarrow> params \<Rightarrow> json outcome) \<Rightarrow> string \<Rightarrow> string \<Rightarrow> params outcome" where
  "create_session_form post user_id role =
     (let stripped = lower (strip role); normalized_role = (if stripped = [] then ''viewer'' else stripped)
      in on_http_error (\<lambda>m. [(''status'', JStr ''error''), (''detail'', JStr ''session creation failed''), (''error'', JStr m),
                             (''role'', JStr normalized_role)])
           (map_sum id (\<lambda>body. case body of
                          JObj kvs \<Rightarrow> AList.update ''role'' (JStr normalized_role) kvs
                        | _ \<Rightarrow> [(''message'', JStr ''session created''), (''role'', JStr normalized_role)])
              (post (INGESTOR_URL @ ''/api/v1/records/auth/login'') [(''user_id'', JStr user_id), (''role'', JStr normalized_role)])))"

subsection \<open>Pages\<close>

record page =
  pg_records :: json
  pg_has_more :: bool
  pg_next_skip :: int
  pg_source :: "string option"
  pg_processed :: bool

definition records_page :: "(string \<Rightarrow> params \<Rightarrow> json outcome) \<Rightarrow> int \<Rightarrow> string option \<Rightarrow> bool \<Rightarrow> page outcome" where
  "records_page get skip src processed =
     map_sum id (\<lambda>(records, has_more).
         \<lparr>pg_records = records, pg_has_more = has_more, pg_next_skip = skip + PAGE_ROWS, pg_source = src,
          pg_processed = processed\<rparr>)
       (fetch_records get skip src processed)"

definition index :: "(string \<Rightarrow> params \<Rightarrow> json outcome) \<Rightarrow> string option \<Rightarrow> bool \<Rightarrow> page outcome" where
  "index get src processed = records_page get 0 src processed"

definition records_partial :: "(string \<Rightarrow> params \<Rightarrow> json outcome) \<Rightarrow> int \<Rightarrow> string option \<Rightarrow> bool \<Rightarrow> page outcome" where
  "records_partial get skip src processed = (if skip < 0 then Inl unprocessable else records_page get skip src processed)"

text \<open>The admin forms: \<open>min_length=1\<close>.\<close>

definition admin_task_status_partial :: "(string \<Rightarrow> params \<Rightarrow> json outcome) \<Rightarrow> string \<Rightarrow> params outcome" where
  "admin_task_status_partial get tid = (if tid = [] then Inl unprocessable else fetch_task_status get tid)"

definition admin_manual_rerun_partial :: "(string \<Rightarrow> params \<Rightarrow> json outcome) \<Rightarrow> datetime \<Rightarrow> string \<Rightarrow> rat \<Rightarrow> params outcome" where
  "admin_manual_rerun_partial post now src v = (if src = [] then Inl unprocessable else submit_manual_rerun post now src v)"

definition admin_create_session_partial :: "(string \<Rightarrow> params \<Rightarrow> json outcome) \<Rightarrow> string \<Rightarrow> string \<Rightarrow> params outcome" where
  "admin_create_session_partial post user_id role =
     (if user_id = [] \<or> role = [] then Inl unprocessable else create_session_form post user_id role)"

text \<open>
  \<open>partials/records_rows.html\<close>: the last row of a page with more (which is full) gives the browser a URL to request, with \<open>skip\<close>,
  \<open>source or ''\<close> and \<open>processed or ''\<close> put in as they are: the template escapes them for HTML, not for a URL.
\<close>

definition records_query :: "int \<Rightarrow> string \<Rightarrow> string \<Rightarrow> string" where
  "records_query skip src processed =
     (''skip='' @ show_int skip) @ CHR ''&'' # (''source='' @ src) @ CHR ''&'' # (''processed='' @ processed)"

definition records_url :: "int \<Rightarrow> string \<Rightarrow> string \<Rightarrow> string" where
  "records_url skip src processed = ''/partials/records'' @ CHR ''?'' # records_query skip src processed"

definition revealed_request :: "page \<Rightarrow> string option" where
  "revealed_request p =
     (if pg_has_more p
      then Some (records_url (pg_next_skip p) (case pg_source p of None \<Rightarrow> [] | Some s \<Rightarrow> s) (if pg_processed p then ''True'' else []))
      else None)"

text \<open>
  What the route receives of a URL. The query ends at a \<open>#\<close>, its fields are separated by \<open>&\<close> and have a name and a value around
  the first \<open>=\<close>. \<open>fr_decode\<close> is what becomes of the text of a name or a value: the browser encodes what a URL cannot hold, the
  framework reads \<open>+\<close> and \<open>%\<close>; \<open>fr_int\<close> and \<open>fr_bool\<close> are the framework's readers of the typed parameters. A parameter that is
  given twice has its last value.
\<close>

record form_lib =
  fr_decode :: "string \<Rightarrow> string"
  fr_int :: "string \<Rightarrow> int option"
  fr_bool :: "string \<Rightarrow> bool option"

definition query_field :: "form_lib \<Rightarrow> string \<Rightarrow> string \<times> string" where
  "query_field F field = (case partition_on (CHR ''='') field of (n, _, v) \<Rightarrow> (fr_decode F n, fr_decode F v))"

definition query_params :: "form_lib \<Rightarrow> string \<Rightarrow> (string \<times> string) list" where
  "query_params F url =
     (case partition_on (CHR ''?'') (takeWhile (\<lambda>c. c \<noteq> CHR ''#'') url) of
        (_, _, query) \<Rightarrow> map (query_field F) (filter (\<lambda>field. field \<noteq> []) (split_on (CHR ''&'') query)))"

definition param_value :: "string \<Rightarrow> (string \<times> string) list \<Rightarrow> string option" where
  "param_value n ps = map_of (rev ps) n"

definition read_param :: "(string \<Rightarrow> 'a option) \<Rightarrow> 'a \<Rightarrow> string option \<Rightarrow> 'a option" where
  "read_param rd dflt v = (case v of None \<Rightarrow> Some dflt | Some s \<Rightarrow> rd s)"

definition serve_partial :: "form_lib \<Rightarrow> (string \<Rightarrow> params \<Rightarrow> json outcome) \<Rightarrow> string \<Rightarrow> page outcome" where
  "serve_partial F get url =
     (let ps = query_params F url
      in case (read_param (fr_int F) 0 (param_value ''skip'' ps), read_param (fr_bool F) False (param_value ''processed'' ps)) of
           (Some skip, Some processed) \<Rightarrow> records_partial get skip (param_value ''source'' ps) processed
         | _ \<Rightarrow> Inl unprocessable)"

text \<open>Scrolling: the pages that are shown, at most \<open>n\<close> requests after the first; an error response is not shown.\<close>

primrec scroll_on :: "nat \<Rightarrow> form_lib \<Rightarrow> (string \<Rightarrow> params \<Rightarrow> json outcome) \<Rightarrow> page \<Rightarrow> json list" where
  "scroll_on 0 F get p = [pg_records p]"
| "scroll_on (Suc n) F get p =
     pg_records p #
     (case revealed_request p of
        None \<Rightarrow> []
      | Some url \<Rightarrow> (case serve_partial F get url of Inl e \<Rightarrow> [] | Inr q \<Rightarrow> scroll_on n F get q))"

subsection \<open>The metrics stream\<close>

definition surfaced_keys :: "string list" where
  "surfaced_keys = [''http_requests_total'', ''records_created_total'', ''http_responses_total'']"

text \<open>\<open>float(value)\<close> is an argument; a \<open>ValueError\<close> of it drops the line.\<close>

definition parse_line :: "(string \<Rightarrow> rat option) \<Rightarrow> string \<Rightarrow> (string \<times> rat) list \<Rightarrow> (string \<times> rat) list" where
  "parse_line fos line counters =
     (if startswith line ''#'' \<or> strip line = [] then counters
      else (case words line of
              name # value # _ \<Rightarrow>
                if list_ex (contains name) surfaced_keys
                then (case fos value of None \<Rightarrow> counters | Some q \<Rightarrow> AList.update name q counters)
                else counters
            | _ \<Rightarrow> counters))"

definition parse_prometheus_text :: "(string \<Rightarrow> rat option) \<Rightarrow> string \<Rightarrow> (string \<times> rat) list" where
  "parse_prometheus_text fos text = fold (parse_line fos) (splitlines text) []"

definition scrape_metrics :: "(string \<Rightarrow> rat option) \<Rightarrow> (string \<Rightarrow> string outcome) \<Rightarrow> string \<Rightarrow> params outcome" where
  "scrape_metrics fos get url =
     (case get url of
        Inr text \<Rightarrow> Inr (map (\<lambda>(n, q). (n, JFloat q)) (parse_prometheus_text fos text))
      | Inl e \<Rightarrow> if is_Exception e then Inr [(''error'', JStr ''unavailable'')] else Inl e)"

text \<open>One turn of \<open>_metrics_event_generator\<close>; the sleep of five seconds follows it.\<close>

definition metrics_event ::
  "(json \<Rightarrow> string) \<Rightarrow> (string \<Rightarrow> rat option) \<Rightarrow> (string \<Rightarrow> string outcome) \<Rightarrow> string \<Rightarrow> string outcome"
where
  "metrics_event dumps fos get url =
     map_sum id (\<lambda>snapshot. ''data: '' @ dumps (JObj snapshot) @ [CHR 0x0A, CHR 0x0A]) (scrape_metrics fos get url)"

subsection \<open>The metrics survive the text format\<close>

text \<open>Samples as the exposition format prints them, after a comment line.\<close>

definition exposition :: "(rat \<Rightarrow> string) \<Rightarrow> string \<Rightarrow> (string \<times> rat) list \<Rightarrow> string" where
  "exposition repr comment samples =
     concat (map (\<lambda>l. l @ [CHR 0x0A]) ((''# '' @ comment) # map (\<lambda>(n, q). n @ '' '' @ repr q) samples))"

definition surfaced_name :: "string \<Rightarrow> bool" where
  "surfaced_name n \<longleftrightarrow> word n \<and> hd n \<noteq> CHR ''#'' \<and> list_ex (contains n) surfaced_keys"

lemma parse_line_sample:
  assumes "surfaced_name n" and "word (repr q)" and "fos (repr q) = Some q"
  shows "parse_line fos (n @ '' '' @ repr q) counters = AList.update n q counters"
proof -
  obtain c cs where n: "n = c # cs" "c \<noteq> CHR ''#''" "\<not> is_space c"
    using assms(1) by (cases n) (auto simp: surfaced_name_def word_def)
  have "strip (n @ '' '' @ repr q) \<noteq> []" using n by (simp add: strip_def dropWhile_eq_Nil_conv)
  moreover have "\<not> startswith (n @ '' '' @ repr q) ''#''" using n by (simp add: startswith_def)
  ultimately show ?thesis
    using assms words_pair [of n "repr q"] by (simp add: parse_line_def surfaced_name_def del: words.simps)
qed

text \<open>
  The metrics page shows what the ingestor exposes. For samples whose names differ, contain one of the surfaced keys and no
  white space, printed one per line after a comment, the parser returns exactly these samples in their order, whatever
  \<open>float\<close> does, as long as it reads each printed value back.
\<close>

lemma metrics_roundtrip_samples:
  assumes "distinct (map fst samples)" and "list_all (\<lambda>(n, q). surfaced_name n \<and> word (repr q) \<and> fos (repr q) = Some q) samples"
    and "unbroken comment"
  shows "parse_prometheus_text fos (exposition repr comment samples) = samples"
proof -
  let ?lines = "map (\<lambda>(n, q). n @ '' '' @ repr q) samples"
  have unbroken_append: "unbroken (a @ b) \<longleftrightarrow> unbroken a \<and> unbroken b" for a b by (simp add: unbroken_def)
  have "unbroken '' ''" "unbroken ''# ''" by (simp_all add: unbroken_def is_break_def)
  then have "list_all unbroken ((''# '' @ comment) # ?lines)"
    using assms(2,3) by (simp add: list_all_iff unbroken_append surfaced_name_def word_unbroken case_prod_beta del: append.simps)
  then have "splitlines (exposition repr comment samples) = (''# '' @ comment) # ?lines"
    unfolding exposition_def by (rule splitlines_unlines)
  moreover have "parse_line fos (''# '' @ comment) counters = counters" for counters by (simp add: parse_line_def startswith_def)
  moreover have "fold (parse_line fos) ?lines acc = fold (\<lambda>(n, q). AList.update n q) samples acc" for acc
    using assms(2) by (induction samples arbitrary: acc) (auto simp: parse_line_sample simp del: append.simps)
  ultimately show ?thesis
    using fold_update_distinct [of "[]" samples] assms(1) by (simp add: parse_prometheus_text_def)
qed

subsection \<open>Texts in a URL\<close>

text \<open>The characters that stay what they are from the template to the route.\<close>

definition url_plain :: "char \<Rightarrow> bool" where
  "url_plain c \<longleftrightarrow> c \<notin> {CHR ''&'', CHR ''#'', CHR ''+'', CHR ''%'', CHR 0x09, CHR 0x0A, CHR 0x0D}"

text \<open>What browser and framework document of such texts, of numbers and of the two texts of a flag.\<close>

locale form_reader =
  fixes F :: form_lib
  assumes decode_plain: "list_all url_plain s \<Longrightarrow> fr_decode F s = s"
    and int_read: "0 \<le> k \<Longrightarrow> fr_int F (show_int k) = Some k"
    and true_read: "fr_bool F ''True'' = Some True"
    and empty_refused: "fr_bool F [] = None"

lemma partition_on_sep: "c \<notin> set a \<Longrightarrow> partition_on c (a @ c # b) = (a, [c], b)"
proof -
  assume "c \<notin> set a"
  then have "\<forall>x \<in> set a. x \<noteq> c" by auto
  then show ?thesis by (simp add: partition_on_def Let_def takeWhile_append2 dropWhile_append2)
qed

lemma show_int_plain: "list_all url_plain (show_int k) \<and> CHR ''='' \<notin> set (show_int k)"
proof -
  have "is_digit c \<Longrightarrow> url_plain c \<and> c \<noteq> CHR ''=''" for c by (auto simp: is_digit_def url_plain_def Let_def)
  moreover have "url_plain CHR ''-''" by (simp add: url_plain_def)
  ultimately show ?thesis using show_nat_digits by (auto simp: show_int_def list_all_iff)
qed

lemma plain_no_sep: "list_all url_plain s \<Longrightarrow> CHR ''&'' \<notin> set s \<and> CHR ''#'' \<notin> set s"
  by (auto simp: list_all_iff url_plain_def)

lemma split_three:
  "c \<notin> set a \<Longrightarrow> c \<notin> set b \<Longrightarrow> c \<notin> set d \<Longrightarrow> split_on c (a @ c # b @ c # d) = [a, b, d]"
  by (simp add: split_on_append split_on_plain)

text \<open>The fields of the URL, when none of its texts ends it.\<close>

lemma records_url_fields:
  assumes "CHR ''#'' \<notin> set src" and "CHR ''#'' \<notin> set processed"
  shows "query_params F (records_url k src processed) =
    map (query_field F) (filter (\<lambda>field. field \<noteq> []) (split_on (CHR ''&'') (records_query k src processed)))"
proof -
  have "CHR ''#'' \<notin> set (show_int k)" using show_int_plain [of k] by (auto simp: list_all_iff url_plain_def)
  then have "\<forall>c \<in> set (records_url k src processed). c \<noteq> CHR ''#''"
    using assms by (auto simp: records_url_def records_query_def)
  then have "takeWhile (\<lambda>c. c \<noteq> CHR ''#'') (records_url k src processed) = records_url k src processed"
    by (simp only: takeWhile_eq_all_conv)
  moreover have "partition_on (CHR ''?'') (records_url k src processed) = (''/partials/records'', ''?'', records_query k src processed)"
    unfolding records_url_def by (rule partition_on_sep) simp
  ultimately show ?thesis by (simp only: query_params_def prod.case)
qed

lemma named_text: "CHR ''&'' \<notin> set s \<Longrightarrow> CHR ''&'' \<notin> set (''skip='' @ s) \<and> CHR ''&'' \<notin> set (''source='' @ s) \<and> CHR ''&'' \<notin> set (''processed='' @ s)"
  by simp

context form_reader
begin

lemma field_plain:
  "list_all url_plain n \<Longrightarrow> CHR ''='' \<notin> set n \<Longrightarrow> list_all url_plain v \<Longrightarrow> query_field F (n @ CHR ''='' # v) = (n, v)"
  by (simp add: query_field_def partition_on_sep decode_plain)

lemma named_fields:
  "list_all url_plain v \<Longrightarrow> query_field F (''skip='' @ v) = (''skip'', v)"
  "list_all url_plain v \<Longrightarrow> query_field F (''source='' @ v) = (''source'', v)"
  "list_all url_plain v \<Longrightarrow> query_field F (''processed='' @ v) = (''processed'', v)"
  using field_plain [of "''skip''" v] field_plain [of "''source''" v] field_plain [of "''processed''" v]
  by (simp_all add: url_plain_def)

lemma params_plain:
  assumes "list_all url_plain src" and "list_all url_plain processed"
  shows "query_params F (records_url k src processed) =
    [(''skip'', show_int k), (''source'', src), (''processed'', processed)]"
proof -
  have k: "list_all url_plain (show_int k)" using show_int_plain by simp
  note no = plain_no_sep [OF k] plain_no_sep [OF assms(1)] plain_no_sep [OF assms(2)]
  have "split_on (CHR ''&'') (records_query k src processed) = [''skip='' @ show_int k, ''source='' @ src, ''processed='' @ processed]"
    unfolding records_query_def using no named_text by (intro split_three) blast+
  moreover have "filter (\<lambda>field. field \<noteq> []) [''skip='' @ show_int k, ''source='' @ src, ''processed='' @ processed] =
      [''skip='' @ show_int k, ''source='' @ src, ''processed='' @ processed]" by simp
  ultimately show ?thesis
    using records_url_fields [of src processed F k] no
    by (simp only: simp_thms list.map named_fields(1) [OF k] named_fields(2) [OF assms(1)] named_fields(3) [OF assms(2)])
qed

lemma serve_plain:
  assumes "list_all url_plain src" and "0 \<le> k"
  shows "serve_partial F get (records_url k src ''True'') = records_partial get k (Some src) True"
    and "serve_partial F get (records_url k src []) = Inl unprocessable"
proof -
  have "list_all url_plain ''True''" "list_all url_plain []" by (simp_all add: url_plain_def)
  note p = params_plain [OF assms(1) this(1)] params_plain [OF assms(1) this(2)]
  show "serve_partial F get (records_url k src ''True'') = records_partial get k (Some src) True"
    "serve_partial F get (records_url k src []) = Inl unprocessable"
    using int_read [OF assms(2)] true_read empty_refused
    by (simp_all add: serve_partial_def p param_value_def read_param_def)
qed

text \<open>A source with an ampersand asks for what stands before it: the rest is a parameter that the route does not have.\<close>

lemma source_cut:
  assumes "list_all url_plain s" and "list_all url_plain t" and "CHR ''='' \<notin> set t" and "0 \<le> k"
    and "t \<noteq> []" and "t \<notin> {''skip'', ''source'', ''processed''}"
  shows "serve_partial F get (records_url k (s @ CHR ''&'' # t) ''True'') = records_partial get k (Some s) True"
proof -
  have true: "list_all url_plain ''True''" by (simp add: url_plain_def)
  have k: "list_all url_plain (show_int k)" using show_int_plain by simp
  note no = plain_no_sep [OF k] plain_no_sep [OF assms(1)] plain_no_sep [OF assms(2)] plain_no_sep [OF true]
  have "records_query k (s @ CHR ''&'' # t) ''True'' =
      (''skip='' @ show_int k) @ CHR ''&'' # (''source='' @ s) @ CHR ''&'' # (t @ CHR ''&'' # (''processed='' @ ''True''))"
    by (simp add: records_query_def)
  moreover have "split_on (CHR ''&'') \<dots> = (''skip='' @ show_int k) # split_on (CHR ''&'') ((''source='' @ s) @ CHR ''&'' # (t @ CHR ''&'' # (''processed='' @ ''True'')))"
    using no named_text by (intro split_on_append) blast
  moreover have "split_on (CHR ''&'') ((''source='' @ s) @ CHR ''&'' # (t @ CHR ''&'' # (''processed='' @ ''True''))) =
      [''source='' @ s, t, ''processed='' @ ''True'']"
    using no named_text by (intro split_three) blast+
  ultimately have "split_on (CHR ''&'') (records_query k (s @ CHR ''&'' # t) ''True'') =
      [''skip='' @ show_int k, ''source='' @ s, t, ''processed='' @ ''True'']" by simp
  moreover have "filter (\<lambda>field. field \<noteq> []) [''skip='' @ show_int k, ''source='' @ s, t, ''processed='' @ ''True''] =
      [''skip='' @ show_int k, ''source='' @ s, t, ''processed='' @ ''True'']" using assms(5) by simp
  moreover have "query_field F t = (t, fr_decode F [])"
  proof -
    have "\<forall>x \<in> set t. x \<noteq> CHR ''=''" using assms(3) by auto
    then have "takeWhile (\<lambda>x. x \<noteq> CHR ''='') t = t" "dropWhile (\<lambda>x. x \<noteq> CHR ''='') t = []"
      by (simp_all only: takeWhile_eq_all_conv dropWhile_eq_Nil_conv)
    then have "partition_on (CHR ''='') t = (t, [], [])" by (simp only: partition_on_def Let_def list.case)
    then show ?thesis using decode_plain [OF assms(2)] by (simp add: query_field_def)
  qed
  moreover have "CHR ''#'' \<notin> set (s @ CHR ''&'' # t)" using no by simp
  ultimately have "query_params F (records_url k (s @ CHR ''&'' # t) ''True'') =
      [(''skip'', show_int k), (''source'', s), (t, fr_decode F []), (''processed'', ''True'')]"
    using records_url_fields [of "s @ CHR ''&'' # t" "''True''" F k] no
    by (simp only: simp_thms list.map named_fields(1) [OF k] named_fields(2) [OF assms(1)] named_fields(3) [OF true])
  then show ?thesis
    using int_read [OF assms(4)] true_read assms(6) by (auto simp: serve_partial_def param_value_def read_param_def)
qed

end

text \<open>The decoding that the standard describes, on the texts of the model, with a reader of numbers and of the flags in use.\<close>

fun unquote_plus :: "string \<Rightarrow> string" where
  "unquote_plus (c # a # b # cs) =
     (if c = CHR ''%''
      then (case (hex_val a, hex_val b) of
              (Some x, Some y) \<Rightarrow> char_of (16 * x + y) # unquote_plus cs
            | _ \<Rightarrow> c # unquote_plus (a # b # cs))
      else (if c = CHR ''+'' then CHR '' '' else c) # unquote_plus (a # b # cs))"
| "unquote_plus cs = map (\<lambda>c. if c = CHR ''+'' then CHR '' '' else c) cs"

definition plain_reader :: form_lib where
  "plain_reader =
     \<lparr>fr_decode = unquote_plus, fr_int = (\<lambda>s. if s \<noteq> [] \<and> list_all is_digit s then Some (int (digits_val s)) else None),
      fr_bool = (\<lambda>s. if lower s \<in> {''1'', ''true'', ''on'', ''yes''} then Some True
                     else if lower s \<in> {''0'', ''false'', ''off'', ''no''} then Some False else None)\<rparr>"

lemma unquote_plain: "list_all url_plain s \<Longrightarrow> unquote_plus s = s"
  by (induction s rule: unquote_plus.induct) (auto simp: url_plain_def)

interpretation fr: form_reader plain_reader
proof
  show "list_all url_plain s \<Longrightarrow> fr_decode plain_reader s = s" for s by (simp add: plain_reader_def unquote_plain)
  show "0 \<le> k \<Longrightarrow> fr_int plain_reader (show_int k) = Some k" for k
    using show_nat_digits [of "nat k"] by (simp add: plain_reader_def show_int_def list_all_iff)
  have "lower ''True'' = ''true''" by code_simp
  then show "fr_bool plain_reader ''True'' = Some True" by (simp add: plain_reader_def)
  show "fr_bool plain_reader [] = None" by (simp add: plain_reader_def lower_def)
qed

subsection \<open>Scrolling\<close>

text \<open>
  An ingestor whose records with the source \<open>src\<close> are \<open>xs\<close>: it serves them by offset and limit, and its route has no
  \<open>processed\<close> parameter.
\<close>

definition serves :: "(string \<Rightarrow> params \<Rightarrow> json outcome) \<Rightarrow> string option \<Rightarrow> json list \<Rightarrow> bool" where
  "serves get src xs \<longleftrightarrow>
     (\<forall>skip b. 0 \<le> skip \<longrightarrow>
        (\<exists>kvs. get (INGESTOR_URL @ ''/api/v1/records'') (records_params skip src b) = Inr (JObj kvs) \<and>
           obj_get ''records'' kvs = Some (JList (take 50 (drop (nat skip) xs)))))"

lemma serves_again: "serves get src xs \<Longrightarrow> serves get (Some (case src of None \<Rightarrow> [] | Some s \<Rightarrow> s)) xs"
  by (cases src) (simp_all add: serves_def records_params_def blank_def)

text \<open>A source that the URL of the template carries.\<close>

definition plain_source :: "string option \<Rightarrow> bool" where
  "plain_source src \<longleftrightarrow> list_all url_plain (case src of None \<Rightarrow> [] | Some s \<Rightarrow> s)"

lemma records_page_serves:
  assumes "serves get src xs" and "0 \<le> skip"
  shows "records_page get skip src b = Inr \<lparr>pg_records = JList (take 50 (drop (nat skip) xs)),
    pg_has_more = (50 \<le> length xs - nat skip), pg_next_skip = skip + 50, pg_source = src, pg_processed = b\<rparr>"
proof -
  obtain kvs where kvs: "get (INGESTOR_URL @ ''/api/v1/records'') (records_params skip src b) = Inr (JObj kvs)"
    "obj_get ''records'' kvs = Some (JList (take 50 (drop (nat skip) xs)))"
    using assms unfolding serves_def by blast
  have "int (min (length xs - nat skip) 50) = 50 \<longleftrightarrow> 50 \<le> length xs - nat skip" by auto
  then show ?thesis using kvs by (simp add: records_page_def fetch_records_def on_http_error_def PAGE_ROWS_def)
qed

lemma scroll_page:
  assumes "form_reader F" and "plain_source src" and "serves get src xs" and "k \<le> length xs" and "length xs < k + 50 * Suc n"
  shows "concat (map (\<lambda>r. case r of JList ys \<Rightarrow> ys | _ \<Rightarrow> [])
      (scroll_on n F get \<lparr>pg_records = JList (take 50 (drop k xs)), pg_has_more = (50 \<le> length xs - k),
         pg_next_skip = int k + 50, pg_source = src, pg_processed = True\<rparr>)) = drop k xs"
  using assms(2-5)
proof (induction n arbitrary: k src)
  case 0
  then show ?case by simp
next
  case (Suc n)
  let ?src = "case src of None \<Rightarrow> [] | Some s \<Rightarrow> s"
  show ?case
  proof (cases "50 \<le> length xs - k")
    case True
    let ?q = "\<lparr>pg_records = JList (take 50 (drop (k + 50) xs)), pg_has_more = (50 \<le> length xs - (k + 50)),
       pg_next_skip = int (k + 50) + 50, pg_source = Some ?src, pg_processed = True\<rparr>"
    have plain: "list_all url_plain ?src" "plain_source (Some ?src)" using Suc.prems(1) by (simp_all add: plain_source_def)
    have "nat (int k + 50) = k + 50" by simp
    then have "serve_partial F get (records_url (int k + 50) ?src ''True'') = Inr ?q"
      using form_reader.serve_plain(1) [OF assms(1) plain(1), of "int k + 50" get]
        records_page_serves [OF serves_again [OF Suc.prems(2)], of "int k + 50"] by (simp add: records_partial_def)
    moreover have "take 50 (drop k xs) @ drop (k + 50) xs = drop k xs" by (metis add.commute append_take_drop_id drop_drop)
    ultimately show ?thesis
      using True Suc.IH [OF plain(2) serves_again [OF Suc.prems(2)], of "k + 50"] Suc.prems by (simp add: revealed_request_def)
  qed (simp add: revealed_request_def)
qed

text \<open>
  Scrolling shows every record once, but only with the filter on. Against an ingestor that serves a list by offset, for a source
  that the template's URL carries and with the \<open>processed\<close> filter set the pages that scrolling adds up to are the whole list
  in order, after at most one request for each started page; without it, the revealed row sends an empty \<open>processed\<close>,
  which the framework rejects, so that scrolling ends after the first 50 records.
\<close>

lemma scrolling_needs_the_filter:
  assumes "form_reader F" and "plain_source src" and "serves get src xs" and "length xs div 50 \<le> n"
  shows "(\<exists>p. index get src True = Inr p \<and>
      concat (map (\<lambda>r. case r of JList ys \<Rightarrow> ys | _ \<Rightarrow> []) (scroll_on n F get p)) = xs) \<and>
    (\<exists>p. index get src False = Inr p \<and> scroll_on n F get p = [JList (take 50 xs)])"
proof -
  have "length xs < 0 + 50 * Suc n" using assms(4) by (simp add: div_le_mono)
  from scroll_page [where k = 0 and n = n, OF assms(1-3) le0 this] have "index get src True = Inr p \<Longrightarrow>
      concat (map (\<lambda>r. case r of JList ys \<Rightarrow> ys | _ \<Rightarrow> []) (scroll_on n F get p)) = xs" for p
    using records_page_serves [OF assms(3), of 0] by (auto simp: index_def)
  moreover have "scroll_on n F get p = [JList (take 50 xs)]" if "index get src False = Inr p" for p
    using that records_page_serves [OF assms(3), of 0] form_reader.serve_plain(2) [OF assms(1) assms(2) [unfolded plain_source_def], of 50]
    by (cases n) (auto simp: index_def revealed_request_def)
  ultimately show ?thesis using records_page_serves [OF assms(3), of 0] by (auto simp: index_def)
qed

end
