(* ===== verification/Dashboard_App.thy ===== *)
theory Dashboard_App
  imports Dashboard
begin

text \<open>
  The dashboard as an application, \<open>services/dashboard/main.py\<close> over its routers: the request that each route takes, the
  view it answers with, the probes, and the endless stream of metrics as its first events. The services behind it are two
  functions, for the requests with and without a body.
\<close>

subsection \<open>Routes\<close>

datatype dash_request =
    Get_Index "string option" bool
  | Get_Records_Rows int "string option" bool
  | Get_Search
  | Post_Search string
  | Get_Metrics
  | Get_Admin
  | Get_Workers_Health
  | Get_Task_Status string
  | Post_Rerun string rat
  | Post_Session string string
  | Get_Health
  | Get_Ready

datatype dash_view =
    Index_Page page
  | Records_Rows page
  | Search_Page
  | Search_Results json
  | Metrics_Page
  | Admin_Page
  | Workers_Health params
  | Task_Status params
  | Rerun_Result params
  | Session_Result params
  | Probe string

fun template_of :: "dash_view \<Rightarrow> string" where
  "template_of (Index_Page p) = ''index.html''"
| "template_of (Records_Rows p) = ''partials/records_rows.html''"
| "template_of Search_Page = ''search.html''"
| "template_of (Search_Results rs) = ''partials/search_results.html''"
| "template_of Metrics_Page = ''metrics.html''"
| "template_of Admin_Page = ''admin.html''"
| "template_of (Workers_Health h) = ''partials/admin_workers_health.html''"
| "template_of (Task_Status t) = ''partials/admin_task_status.html''"
| "template_of (Rerun_Result r) = ''partials/admin_rerun_result.html''"
| "template_of (Session_Result s) = ''partials/admin_session_result.html''"
| "template_of (Probe s) = []"

record backend =
  bk_get :: "string \<Rightarrow> params \<Rightarrow> json outcome"
  bk_post :: "string \<Rightarrow> params \<Rightarrow> json outcome"

definition search_partial :: "(string \<Rightarrow> params \<Rightarrow> json outcome) \<Rightarrow> string \<Rightarrow> string \<Rightarrow> dash_view outcome" where
  "search_partial post ai_gateway_url query = map_sum id Search_Results (fetch_search_results post ai_gateway_url query)"

definition admin_workers_health_partial :: "(string \<Rightarrow> params \<Rightarrow> json outcome) \<Rightarrow> dash_view outcome" where
  "admin_workers_health_partial get = map_sum id Workers_Health (fetch_workers_health get)"

fun dashboard_serve :: "backend \<Rightarrow> string \<Rightarrow> datetime \<Rightarrow> dash_request \<Rightarrow> dash_view outcome" where
  "dashboard_serve B gateway now (Get_Index src processed) = map_sum id Index_Page (index (bk_get B) src processed)"
| "dashboard_serve B gateway now (Get_Records_Rows skip src processed) =
     map_sum id Records_Rows (records_partial (bk_get B) skip src processed)"
| "dashboard_serve B gateway now Get_Search = Inr Search_Page"
| "dashboard_serve B gateway now (Post_Search query) = search_partial (bk_post B) gateway query"
| "dashboard_serve B gateway now Get_Metrics = Inr Metrics_Page"
| "dashboard_serve B gateway now Get_Admin = Inr Admin_Page"
| "dashboard_serve B gateway now Get_Workers_Health = admin_workers_health_partial (bk_get B)"
| "dashboard_serve B gateway now (Get_Task_Status tid) = map_sum id Task_Status (admin_task_status_partial (bk_get B) tid)"
| "dashboard_serve B gateway now (Post_Rerun src v) = map_sum id Rerun_Result (admin_manual_rerun_partial (bk_post B) now src v)"
| "dashboard_serve B gateway now (Post_Session user role) =
     map_sum id Session_Result (admin_create_session_partial (bk_post B) user role)"
| "dashboard_serve B gateway now Get_Health = Inr (Probe ''ok'')"
| "dashboard_serve B gateway now Get_Ready = Inr (Probe ''ready'')"

text \<open>What the framework's validation of a request accepts.\<close>

fun accepted :: "dash_request \<Rightarrow> bool" where
  "accepted (Get_Records_Rows skip src processed) = (0 \<le> skip)"
| "accepted (Get_Task_Status tid) = (tid \<noteq> [])"
| "accepted (Post_Rerun src v) = (src \<noteq> [])"
| "accepted (Post_Session user role) = (user \<noteq> [] \<and> role \<noteq> [])"
| "accepted rq = True"

subsection \<open>Without the services behind it\<close>

definition unreachable :: "backend \<Rightarrow> bool" where
  "unreachable B \<longleftrightarrow> (\<forall>u ps. \<exists>m. bk_get B u ps = Inl (HTTPError m)) \<and> (\<forall>u ps. \<exists>m. bk_post B u ps = Inl (HTTPError m))"

lemma on_http_error_failed: "on_http_error f (try_bind (Inl (HTTPError m)) g) = Inr (f m)"
  "on_http_error f (map_sum id h (Inl (HTTPError m))) = Inr (f m)" "on_http_error f (Inl (HTTPError m)) = Inr (f m)"
  by (simp_all add: on_http_error_def)

text \<open>
  The dashboard stays up without its services, but its readiness says nothing about them: while neither the ingestor nor the
  gateway can be reached, every accepted request is answered with its view, an empty page included, and both probes answer
  as ever.
\<close>

theorem dashboard_survives_outage:
  assumes "unreachable B"
  shows "(accepted rq \<longrightarrow> (\<exists>v. dashboard_serve B gateway now rq = Inr v)) \<and>
    (\<not> accepted rq \<longrightarrow> dashboard_serve B gateway now rq = Inl unprocessable) \<and>
    dashboard_serve B gateway now (Get_Index src b) =
      Inr (Index_Page \<lparr>pg_records = JList [], pg_has_more = False, pg_next_skip = 50, pg_source = src, pg_processed = b\<rparr>) \<and>
    dashboard_serve B gateway now Get_Ready = Inr (Probe ''ready'')"
proof -
  have get: "\<exists>m. bk_get B u ps = Inl (HTTPError m)" and post: "\<exists>m. bk_post B u ps = Inl (HTTPError m)" for u ps
    using assms by (simp_all add: unreachable_def)
  have records: "fetch_records (bk_get B) skip s c = Inr (JList [], False)" for skip s c
    using get [of "INGESTOR_URL @ ''/api/v1/records''" "records_params skip s c"]
    by (auto simp: fetch_records_def on_http_error_failed)
  have search: "\<exists>v. fetch_search_results (bk_post B) u q = Inr v" for u q
    using post [of "u @ ''/search''" "[(''query'', JStr q), (''top_k'', JInt 10)]"]
    by (auto simp: fetch_search_results_def on_http_error_failed)
  have workers: "\<exists>v. fetch_workers_health (bk_get B) = Inr v"
    using get [of "INGESTOR_URL @ ''/api/v1/background/workers/health''" "[]"]
    by (auto simp: fetch_workers_health_def on_http_error_failed)
  have task: "\<exists>v. fetch_task_status (bk_get B) tid = Inr v" for tid
    using get [of "INGESTOR_URL @ ''/api/v1/background/tasks/'' @ tid" "[]"]
    by (auto simp: fetch_task_status_def on_http_error_failed)
  have rerun: "\<exists>v. submit_manual_rerun (bk_post B) now s q = Inr v" for s q
    using post [of "INGESTOR_URL @ ''/api/v1/background/ingest/batch''" "[(''records'', JList [rerun_record now s q])]"]
    by (auto simp: submit_manual_rerun_def on_http_error_failed)
  have session: "\<exists>v. create_session_form (bk_post B) u r = Inr v" for u r
    using post [of "INGESTOR_URL @ ''/api/v1/records/auth/login''"
        "[(''user_id'', JStr u), (''role'', JStr (if lower (strip r) = [] then ''viewer'' else lower (strip r)))]"]
    by (auto simp: create_session_form_def Let_def on_http_error_failed)
  have page: "records_page (bk_get B) skip s c =
      Inr \<lparr>pg_records = JList [], pg_has_more = False, pg_next_skip = skip + 50, pg_source = s, pg_processed = c\<rparr>" for skip s c
    by (simp add: records_page_def records PAGE_ROWS_def)
  show ?thesis
    using search [of gateway] workers task rerun session
    by (cases rq) (auto simp: index_def page records_partial_def search_partial_def admin_workers_health_partial_def
        admin_task_status_partial_def admin_manual_rerun_partial_def admin_create_session_partial_def, (metis map_sum.simps(2))+)
qed

definition dead_backend :: backend where
  "dead_backend = \<lparr>bk_get = (\<lambda>u ps. Inl (HTTPError ''connection refused'')), bk_post = (\<lambda>u ps. Inl (HTTPError ''connection refused''))\<rparr>"

theorem dashboard_survives_outage_witness:
  "(\<exists>v. dashboard_serve dead_backend ''http://gateway'' 0 (Post_Session ''eve'' ''admin'') = Inr v) \<and>
   dashboard_serve dead_backend ''http://gateway'' 0 (Get_Task_Status []) = Inl unprocessable"
  using dashboard_survives_outage [of dead_backend "Post_Session ''eve'' ''admin''" "''http://gateway''" 0 None False]
    dashboard_survives_outage [of dead_backend "Get_Task_Status []" "''http://gateway''" 0 None False]
  by (simp add: unreachable_def dead_backend_def)

subsection \<open>The stream of metrics\<close>

text \<open>The first \<open>n\<close> events; \<open>get k\<close> is what the ingestor's metrics endpoint answers to poll \<open>k\<close>.\<close>

primrec stream_metrics ::
  "(string \<Rightarrow> rat option) \<Rightarrow> (nat \<Rightarrow> string \<Rightarrow> string outcome) \<Rightarrow> string \<Rightarrow> nat \<Rightarrow> nat \<Rightarrow> string list outcome"
where
  "stream_metrics fos get url k 0 = Inr []"
| "stream_metrics fos get url k (Suc n) =
     try_bind (metrics_event (json_dumps decimal_repr) fos (get k) url) (\<lambda>e.
       map_sum id ((#) e) (stream_metrics fos get url (Suc k) n))"

text \<open>What the page reads from one event: the JSON between the field name and the blank line.\<close>

definition event_snapshot :: "string \<Rightarrow> json outcome" where
  "event_snapshot e = json_loads (take (length e - 8) (drop 6 e))"

lemma event_snapshot_roundtrip:
  assumes "proper_json decimal (JObj kvs)"
  shows "event_snapshot (''data: '' @ json_dumps decimal_repr (JObj kvs) @ [CHR 0x0A, CHR 0x0A]) = Inr (JObj kvs)"
  using py_repr.loads_dumps [OF assms] by (simp add: event_snapshot_def del: json_dumps.simps)

text \<open>
  The numbers on the page are the counters of the ingestor. Whatever the ingestor exposes at each poll, as samples of surfaced
  names with printable values, the events of the stream carry these samples, one object per poll and in their order.
\<close>

theorem stream_shows_counters:
  assumes "\<And>k. get k url = Inr (exposition repr comment (samples k))" and "unbroken comment"
    and "\<And>k. distinct (map fst (samples k))"
    and "\<And>k n q. (n, q) \<in> set (samples k) \<Longrightarrow> surfaced_name n \<and> word (repr q) \<and> fos (repr q) = Some q \<and> decimal q"
  shows "\<exists>es. stream_metrics fos get url k n = Inr es \<and>
    map event_snapshot es = map (\<lambda>i. Inr (JObj (map (\<lambda>(n, q). (n, JFloat q)) (samples i)))) [k..<k + n]"
proof (induction n arbitrary: k)
  case (Suc n)
  let ?snap = "map (\<lambda>(n, q). (n, JFloat q)) (samples k)"
  have "list_all (\<lambda>(n, q). surfaced_name n \<and> word (repr q) \<and> fos (repr q) = Some q) (samples k)"
    using assms(4) [of _ _ k] by (auto simp: list_all_iff)
  then have "parse_prometheus_text fos (exposition repr comment (samples k)) = samples k"
    using metrics_roundtrip_samples [OF assms(3)] assms(2) by blast
  then have e: "metrics_event (json_dumps decimal_repr) fos (get k) url =
      Inr (''data: '' @ json_dumps decimal_repr (JObj ?snap) @ [CHR 0x0A, CHR 0x0A])"
    by (simp add: metrics_event_def scrape_metrics_def assms(1) del: json_dumps.simps)
  have "proper_json decimal (JObj ?snap)"
    using assms(3) [of k] assms(4) [of _ _ k] by (auto simp: list_all_iff case_prod_unfold o_def)
  then have "event_snapshot (''data: '' @ json_dumps decimal_repr (JObj ?snap) @ [CHR 0x0A, CHR 0x0A]) = Inr (JObj ?snap)"
    by (rule event_snapshot_roundtrip)
  moreover obtain es where "stream_metrics fos get url (Suc k) n = Inr es"
    "map event_snapshot es = map (\<lambda>i. Inr (JObj (map (\<lambda>(n, q). (n, JFloat q)) (samples i)))) [Suc k..<Suc k + n]"
    using Suc.IH [of "Suc k"] by blast
  moreover have "[k..<k + Suc n] = k # [Suc k..<Suc k + n]" by (simp add: upt_conv_Cons)
  ultimately show ?case using e by (simp del: json_dumps.simps upt_Suc append.simps)
qed simp

end
