(* ===== verification/Api_Contracts.thy ===== *)
theory Api_Contracts
  imports Json_Text Records_Routes Records_V2 Background_Routes Scrape_Routes Vector_Search Notifications
begin

text \<open>
  The response models of the services: every class of \<open>libs/contracts/schemas.py\<close> and the response classes of
  \<open>ingestor/schemas.py\<close> as a shape, the records of the components as the JSON that the framework makes of them, and the
  lemmas that the one conforms to the other.
\<close>

subsection \<open>Shapes\<close>

datatype shape =
    Int_Field
  | Float_Field
  | Str_Field
  | Bool_Field
  | Time_Field
  | Dict_Field
  | List_Of shape
  | Optional shape
  | Model "(string \<times> shape) list"

definition is_isoformat :: "string \<Rightarrow> bool" where
  "is_isoformat s = (case fromisoformat s of Inr t \<Rightarrow> True | Inl e \<Rightarrow> False)"

text \<open>A response holds every field of its model, in their order, and no other.\<close>

fun conforms :: "shape \<Rightarrow> json \<Rightarrow> bool"
and conforms_fields :: "(string \<times> shape) list \<Rightarrow> (string \<times> json) list \<Rightarrow> bool"
where
  "conforms Int_Field j = (case j of JInt i \<Rightarrow> True | _ \<Rightarrow> False)"
| "conforms Float_Field j = (case j of JFloat q \<Rightarrow> True | JInt i \<Rightarrow> True | _ \<Rightarrow> False)"
| "conforms Str_Field j = (case j of JStr s \<Rightarrow> True | _ \<Rightarrow> False)"
| "conforms Bool_Field j = (case j of JBool b \<Rightarrow> True | _ \<Rightarrow> False)"
| "conforms Time_Field j = (case j of JStr s \<Rightarrow> is_isoformat s | _ \<Rightarrow> False)"
| "conforms Dict_Field j = (case j of JObj kvs \<Rightarrow> True | _ \<Rightarrow> False)"
| "conforms (List_Of sh) j = (case j of JList vs \<Rightarrow> list_all (conforms sh) vs | _ \<Rightarrow> False)"
| "conforms (Optional sh) j = (j = JNull \<or> conforms sh j)"
| "conforms (Model fs) j = (case j of JObj kvs \<Rightarrow> conforms_fields fs kvs | _ \<Rightarrow> False)"
| "conforms_fields [] kvs = (kvs = [])"
| "conforms_fields ((n, sh) # fs) kvs = (case kvs of (k, v) # ms \<Rightarrow> k = n \<and> conforms sh v \<and> conforms_fields fs ms | [] \<Rightarrow> False)"

subsection \<open>The models\<close>

definition PAGINATION_META :: shape where
  "PAGINATION_META = Model [(''total'', Int_Field), (''skip'', Int_Field), (''limit'', Int_Field), (''has_more'', Bool_Field)]"

definition NOTIFICATION_DISPATCH_RESULT :: shape where
  "NOTIFICATION_DISPATCH_RESULT = Model [(''channel'', Str_Field), (''status'', Str_Field), (''detail'', Str_Field)]"

definition BATCH_CREATE_RESPONSE :: shape where
  "BATCH_CREATE_RESPONSE = Model [(''created'', Int_Field), (''impl'', Str_Field)]"

definition SESSION_RESPONSE :: shape where
  "SESSION_RESPONSE = Model [(''session_id'', Str_Field), (''message'', Str_Field)]"

definition SCRAPE_RESPONSE :: shape where
  "SCRAPE_RESPONSE = Model [(''source'', Str_Field), (''scraped'', Int_Field), (''stored'', Int_Field)]"

definition BACKGROUND_BATCH_SUBMIT_RESPONSE :: shape where
  "BACKGROUND_BATCH_SUBMIT_RESPONSE =
     Model [(''task_id'', Str_Field), (''status'', Str_Field), (''batch_size'', Int_Field), (''queued_at'', Time_Field)]"

definition BACKGROUND_TASK_STATUS_RESPONSE :: shape where
  "BACKGROUND_TASK_STATUS_RESPONSE =
     Model [(''task_id'', Str_Field), (''status'', Str_Field), (''batch_size'', Int_Field), (''queued_at'', Time_Field),
            (''started_at'', Optional Time_Field), (''finished_at'', Optional Time_Field), (''result'', Optional Dict_Field),
            (''error'', Optional Str_Field)]"

definition NOTIFICATION_TEST_RESPONSE :: shape where
  "NOTIFICATION_TEST_RESPONSE =
     Model [(''event'', Str_Field), (''severity'', Str_Field), (''sent'', Int_Field), (''failed'', Int_Field),
            (''results'', List_Of NOTIFICATION_DISPATCH_RESULT), (''detail'', Optional Str_Field)]"

definition VECTOR_SEARCH_RESULT :: shape where
  "VECTOR_SEARCH_RESULT = Model [(''id'', Int_Field), (''score'', Float_Field), (''metadata'', Dict_Field)]"

definition VECTOR_SEARCH_QUERY_RESPONSE :: shape where
  "VECTOR_SEARCH_QUERY_RESPONSE =
     Model [(''results'', List_Of VECTOR_SEARCH_RESULT), (''count'', Int_Field), (''query'', Str_Field), (''collection'', Str_Field)]"

definition VECTOR_SEARCH_INDEX_RESPONSE :: shape where
  "VECTOR_SEARCH_INDEX_RESPONSE =
     Model [(''requested_count'', Int_Field), (''indexed_count'', Int_Field), (''missing_record_ids'', List_Of Int_Field),
            (''collection'', Str_Field)]"

definition VECTOR_SEARCH_HEALTH_RESPONSE :: shape where
  "VECTOR_SEARCH_HEALTH_RESPONSE = Model [(''status'', Str_Field), (''ai_gateway_connected'', Bool_Field), (''collection'', Str_Field)]"

definition RECORD_RESPONSE :: shape where
  "RECORD_RESPONSE =
     Model [(''id'', Int_Field), (''source'', Str_Field), (''timestamp'', Time_Field), (''raw_data'', Dict_Field),
            (''tags'', List_Of Str_Field), (''processed'', Bool_Field), (''created_at'', Time_Field),
            (''updated_at'', Optional Time_Field), (''deleted_at'', Optional Time_Field)]"

definition RECORD_LIST_RESPONSE :: shape where
  "RECORD_LIST_RESPONSE = Model [(''records'', List_Of RECORD_RESPONSE), (''pagination'', PAGINATION_META)]"

definition ENRICHED_RECORD :: shape where
  "ENRICHED_RECORD =
     Model [(''record_id'', Int_Field), (''source'', Str_Field), (''external_title'', Optional Str_Field),
            (''external_body'', Optional Str_Field), (''enriched'', Bool_Field), (''error'', Optional Str_Field)]"

definition ENRICH_RESPONSE :: shape where
  "ENRICH_RESPONSE =
     Model [(''enriched_count'', Int_Field), (''failed_count'', Int_Field), (''duration_ms'', Float_Field), (''results'', List_Of ENRICHED_RECORD)]"

definition UPSERT_RESPONSE :: shape where
  "UPSERT_RESPONSE = Model [(''record'', RECORD_RESPONSE), (''created'', Bool_Field), (''mode'', Str_Field)]"

definition CURSOR_PAGINATION_RESPONSE :: shape where
  "CURSOR_PAGINATION_RESPONSE =
     Model [(''records'', List_Of RECORD_RESPONSE), (''next_cursor'', Optional Str_Field), (''has_more'', Bool_Field), (''limit'', Int_Field)]"

lemmas contract_models =
  PAGINATION_META_def NOTIFICATION_DISPATCH_RESULT_def BATCH_CREATE_RESPONSE_def SESSION_RESPONSE_def SCRAPE_RESPONSE_def
  BACKGROUND_BATCH_SUBMIT_RESPONSE_def BACKGROUND_TASK_STATUS_RESPONSE_def NOTIFICATION_TEST_RESPONSE_def VECTOR_SEARCH_RESULT_def
  VECTOR_SEARCH_QUERY_RESPONSE_def VECTOR_SEARCH_INDEX_RESPONSE_def VECTOR_SEARCH_HEALTH_RESPONSE_def RECORD_RESPONSE_def
  RECORD_LIST_RESPONSE_def ENRICHED_RECORD_def ENRICH_RESPONSE_def UPSERT_RESPONSE_def CURSOR_PAGINATION_RESPONSE_def

subsection \<open>Responses as JSON\<close>

definition or_null :: "('a \<Rightarrow> json) \<Rightarrow> 'a option \<Rightarrow> json" where
  "or_null f x = (case x of None \<Rightarrow> JNull | Some y \<Rightarrow> f y)"

definition time_json :: "datetime \<Rightarrow> json" where
  "time_json t = JStr (isoformat t)"

fun task_state_text :: "task_state \<Rightarrow> string" where
  "task_state_text Queued = ''queued''"
| "task_state_text Running = ''running''"
| "task_state_text Succeeded = ''succeeded''"
| "task_state_text Failed = ''failed''"
| "task_state_text Cancelled = ''cancelled''"

definition record_json :: "record_response \<Rightarrow> json" where
  "record_json x =
     JObj [(''id'', JInt (rr_id x)), (''source'', JStr (rr_source x)), (''timestamp'', time_json (rr_timestamp x)),
           (''raw_data'', JObj (rr_raw_data x)), (''tags'', JList (map JStr (rr_tags x))), (''processed'', JBool (rr_processed x)),
           (''created_at'', time_json (rr_created_at x)), (''updated_at'', or_null time_json (rr_updated_at x)),
           (''deleted_at'', or_null time_json (rr_deleted_at x))]"

definition pagination_json :: "list_response \<Rightarrow> json" where
  "pagination_json r =
     JObj [(''total'', JInt (lr_total r)), (''skip'', JInt (lr_skip r)), (''limit'', JInt (lr_limit r)), (''has_more'', JBool (lr_has_more r))]"

definition list_json :: "list_response \<Rightarrow> json" where
  "list_json r = JObj [(''records'', JList (map record_json (lr_records r))), (''pagination'', pagination_json r)]"

definition cursor_page_json :: "cursor_page \<Rightarrow> json" where
  "cursor_page_json r =
     JObj [(''records'', JList (map record_json (cp_records r))), (''next_cursor'', or_null JStr (cp_next_cursor r)),
           (''has_more'', JBool (cp_has_more r)), (''limit'', JInt (cp_limit r))]"

definition batch_json :: "batch_response \<Rightarrow> json" where
  "batch_json r = JObj [(''created'', JInt (created r)), (''impl'', JStr (impl r))]"

definition session_json :: "string \<times> string \<Rightarrow> json" where
  "session_json r = JObj [(''session_id'', JStr (fst r)), (''message'', JStr (snd r))]"

definition scrape_json :: "scrape_response \<Rightarrow> json" where
  "scrape_json r = JObj [(''source'', JStr (sr_source r)), (''scraped'', JInt (sr_scraped r)), (''stored'', JInt (sr_stored r))]"

definition submit_json :: "submit_response \<Rightarrow> json" where
  "submit_json r =
     JObj [(''task_id'', JStr (sr_task_id r)), (''status'', JStr (task_state_text (sr_status r))), (''batch_size'', JInt (sr_batch_size r)),
           (''queued_at'', time_json (sr_queued_at r))]"

text \<open>The result of a batch is the dict that \<open>ingest_api_batch\<close> returns.\<close>

definition summary_json :: "batch_summary \<Rightarrow> json" where
  "summary_json b = JObj [(''inserted'', JInt (inserted b)), (''errors'', JInt (errors b)), (''first_error'', or_null JStr (first_error b))]"

definition task_json :: "batch_summary task \<Rightarrow> json" where
  "task_json st =
     JObj [(''task_id'', JStr (task_id st)), (''status'', JStr (task_state_text (task_st st))), (''batch_size'', JInt (batch_size st)),
           (''queued_at'', time_json (queued_at st)), (''started_at'', or_null time_json (started_at st)),
           (''finished_at'', or_null time_json (finished_at st)), (''result'', or_null summary_json (task_result st)),
           (''error'', or_null JStr (task_error st))]"

definition channel_json :: "channel_result \<Rightarrow> json" where
  "channel_json c =
     JObj [(''channel'', JStr (cr_channel c)), (''status'', JStr (case cr_status c of Sent \<Rightarrow> ''sent'' | NotSent \<Rightarrow> ''failed'')),
           (''detail'', JStr (cr_detail c))]"

definition dispatch_json :: "dispatch_report \<Rightarrow> json" where
  "dispatch_json r =
     JObj [(''event'', JStr (dr_event r)), (''severity'', JStr (dr_severity r)), (''sent'', JInt (dr_sent r)), (''failed'', JInt (dr_failed r)),
           (''results'', JList (map channel_json (dr_results r))), (''detail'', or_null JStr (dr_detail r))]"

definition enriched_json :: "enriched_record \<Rightarrow> json" where
  "enriched_json x =
     JObj [(''record_id'', JInt (er_record_id x)), (''source'', JStr (er_source x)), (''external_title'', or_null JStr (er_title x)),
           (''external_body'', or_null JStr (er_body x)), (''enriched'', JBool (er_enriched x)), (''error'', or_null JStr (er_error x))]"

definition enrich_json :: "enrich_response \<Rightarrow> json" where
  "enrich_json r =
     JObj [(''enriched_count'', JInt (enriched_count r)), (''failed_count'', JInt (failed_count r)), (''duration_ms'', JFloat (duration_ms r)),
           (''results'', JList (map enriched_json (results r)))]"

definition upsert_json :: "upsert_response \<Rightarrow> json" where
  "upsert_json r = JObj [(''record'', record_json (up_record r)), (''created'', JBool (up_created r)), (''mode'', JStr (up_mode r))]"

definition index_json :: "index_response \<Rightarrow> json" where
  "index_json r =
     JObj [(''requested_count'', JInt (xi_requested r)), (''indexed_count'', JInt (xi_indexed r)),
           (''missing_record_ids'', JList (map JInt (xi_missing r))), (''collection'', JStr (xi_collection r))]"

definition match_json :: "search_result \<Rightarrow> json" where
  "match_json r = JObj [(''id'', JInt (sr_id r)), (''score'', JFloat (sr_score r)), (''metadata'', JObj (sr_metadata r))]"

definition query_json :: "query_response \<Rightarrow> json" where
  "query_json r =
     JObj [(''results'', JList (map match_json (vq_results r))), (''count'', JInt (vq_count r)), (''query'', JStr (vq_query r)),
           (''collection'', JStr (vq_collection r))]"

definition vs_health_json :: "vs_health \<Rightarrow> json" where
  "vs_health_json r =
     JObj [(''status'', JStr (vh_status r)), (''ai_gateway_connected'', JBool (vh_connected r)), (''collection'', JStr (vh_collection r))]"

lemmas response_json =
  record_json_def pagination_json_def list_json_def batch_json_def session_json_def scrape_json_def submit_json_def summary_json_def
  task_json_def channel_json_def dispatch_json_def enriched_json_def enrich_json_def upsert_json_def index_json_def vs_health_json_def

subsection \<open>Every response conforms to its model\<close>

text \<open>The times of a record and of a task are ones that Python's \<open>datetime\<close> can hold.\<close>

definition dated :: "record_response \<Rightarrow> bool" where
  "dated x \<longleftrightarrow> valid_datetime (rr_timestamp x) \<and> valid_datetime (rr_created_at x) \<and> pred_option valid_datetime (rr_updated_at x) \<and>
     pred_option valid_datetime (rr_deleted_at x)"

lemma conforms_time [simp]: "valid_datetime t \<Longrightarrow> conforms Time_Field (time_json t)"
  by (simp add: time_json_def is_isoformat_def fromisoformat_isoformat)

lemma conforms_or_null [simp]: "(\<And>y. x = Some y \<Longrightarrow> conforms sh (f y)) \<Longrightarrow> conforms (Optional sh) (or_null f x)"
  by (cases x) (simp_all add: or_null_def)

declare conforms.simps(5,8) [simp del]

lemma record_conforms: "dated x \<Longrightarrow> conforms RECORD_RESPONSE (record_json x)"
  by (simp add: dated_def contract_models record_json_def list_all_iff option.pred_set)

lemma list_conforms: "list_all dated (lr_records r) \<Longrightarrow> conforms RECORD_LIST_RESPONSE (list_json r)"
  using record_conforms
  by (auto simp: RECORD_LIST_RESPONSE_def PAGINATION_META_def list_json_def pagination_json_def list_all_iff)

lemma cursor_conforms: "list_all dated (cp_records r) \<Longrightarrow> conforms CURSOR_PAGINATION_RESPONSE (cursor_page_json r)"
  using record_conforms by (auto simp: CURSOR_PAGINATION_RESPONSE_def cursor_page_json_def list_all_iff)

lemma task_conforms:
  assumes "valid_datetime (queued_at st)" and "pred_option valid_datetime (started_at st)" and "pred_option valid_datetime (finished_at st)"
  shows "conforms BACKGROUND_TASK_STATUS_RESPONSE (task_json st)"
  using assms by (simp add: BACKGROUND_TASK_STATUS_RESPONSE_def task_json_def option.pred_set summary_json_def)

lemma responses_conform:
  "conforms BATCH_CREATE_RESPONSE (batch_json b)"
  "conforms SESSION_RESPONSE (session_json s)"
  "conforms SCRAPE_RESPONSE (scrape_json sc)"
  "valid_datetime (sr_queued_at sb) \<Longrightarrow> conforms BACKGROUND_BATCH_SUBMIT_RESPONSE (submit_json sb)"
  "conforms NOTIFICATION_TEST_RESPONSE (dispatch_json d)"
  "conforms ENRICH_RESPONSE (enrich_json e)"
  "dated (up_record u) \<Longrightarrow> conforms UPSERT_RESPONSE (upsert_json u)"
  "conforms VECTOR_SEARCH_INDEX_RESPONSE (index_json x)"
  "conforms VECTOR_SEARCH_HEALTH_RESPONSE (vs_health_json h)"
  "conforms VECTOR_SEARCH_QUERY_RESPONSE (query_json q)"
  using record_conforms [of "up_record u"]
  by (simp_all add: BATCH_CREATE_RESPONSE_def SESSION_RESPONSE_def SCRAPE_RESPONSE_def BACKGROUND_BATCH_SUBMIT_RESPONSE_def
      NOTIFICATION_TEST_RESPONSE_def NOTIFICATION_DISPATCH_RESULT_def ENRICH_RESPONSE_def ENRICHED_RECORD_def UPSERT_RESPONSE_def
      VECTOR_SEARCH_INDEX_RESPONSE_def VECTOR_SEARCH_HEALTH_RESPONSE_def
      VECTOR_SEARCH_QUERY_RESPONSE_def VECTOR_SEARCH_RESULT_def match_json_def query_json_def response_json(4-) list_all_iff del: response_json(1))

end
