(* ===== verification/Dashboard_Ingestor.thy ===== *)
theory Dashboard_Ingestor
  imports Dashboard_App Api_Contracts
begin

text \<open>
  The dashboard over the ingestor: the list route of \<open>ingestor/routers/records.py\<close> behind the dashboard's request, and what scrolling
  through the records page then shows of the database. The framework's encoder and the client's decoder are inverse to each
  other and left out.
\<close>

subsection \<open>The request of the dashboard at the ingestor\<close>










end
