(* ===== verification/Pipeline.thy ===== *)
theory Pipeline
  imports Records_Routes Processor Json_Text
begin

text \<open>
  The path of an event through the system: \<open>ingestor/routers/records.py\<close> creates a record, \<open>ingestor/events.py\<close> serialises
  the event and sends the bytes to its topic, \<open>services/processor/main.py\<close> reads the topic it subscribes to. The statement
  composes the models of the two services over any broker that keeps Kafka's contract: partitions, at least one copy of
  what was acknowledged, at least one delivery of what a partition holds.
\<close>

subsection \<open>The broker between the services\<close>

definition message_bytes :: "json \<Rightarrow> string" where
  "message_bytes msg = json_dumps decimal_repr msg"

text \<open>
  What Kafka documents of a producer without idempotence. The log of a topic is the history of its messages, each on the
  partition that was chosen for it. A send appends copies of its message to its own topic: at least one when it is
  acknowledged, none or some when it is not, since a send is retried and its answer may be lost.
\<close>

locale kafka_broker =
  fixes K :: "'k kafka"
    and topic_log :: "'k \<Rightarrow> string \<Rightarrow> (int \<times> string) list"
  assumes send_appends: "\<exists>ps. topic_log (fst (k_send K t m k)) t = topic_log k t @ map (\<lambda>p. (p, message_bytes m)) ps \<and>
      (snd (k_send K t m k) = Inr () \<longrightarrow> ps \<noteq> [])"
    and send_elsewhere: "t' \<noteq> t \<Longrightarrow> topic_log (fst (k_send K t m k)) t' = topic_log k t'"

text \<open>A broker that answers every send, and one that also keeps one copy of each.\<close>

definition accepts_all :: "'k kafka \<Rightarrow> bool" where
  "accepts_all K \<longleftrightarrow> (\<forall>t m k. snd (k_send K t m k) = Inr ())"

definition writes_once :: "'k kafka \<Rightarrow> ('k \<Rightarrow> string \<Rightarrow> (int \<times> string) list) \<Rightarrow> bool" where
  "writes_once K topic_log \<longleftrightarrow>
     (\<forall>t m k. snd (k_send K t m k) = Inr () \<and> length (topic_log (fst (k_send K t m k)) t) = Suc (length (topic_log k t)))"

text \<open>The messages of a topic under their partition and their offset in it.\<close>

definition offsets :: "(int \<times> string) list \<Rightarrow> ((int \<times> int) \<times> string) list" where
  "offsets ms =
     map (\<lambda>i. ((fst (ms ! i), int (length (filter (\<lambda>m. fst m = fst (ms ! i)) (take i ms)))), snd (ms ! i))) [0..<length ms]"

text \<open>
  What the replicas of the processor receive, one list of deliveries for each: every message of the topic at least once,
  in any order and any number of times, and nothing else.
\<close>

definition delivered :: "(int \<times> string) list \<Rightarrow> (kmsg \<times> unit outcome) list list \<Rightarrow> bool" where
  "delivered ms dss \<longleftrightarrow>
     (\<lambda>d. (msg_key (fst d), km_value (fst d))) ` set (concat dss) = (\<lambda>(k, v). (k, Some v)) ` set (offsets ms)"

definition delivered_once :: "(kmsg \<times> unit outcome) list list \<Rightarrow> bool" where
  "delivered_once dss \<longleftrightarrow> distinct (map (\<lambda>d. msg_key (fst d)) (concat dss))"

lemma offsets_values: "map snd (offsets ms) = map snd ms"
  by (rule nth_equalityI) (simp_all add: offsets_def)

lemma offsets_distinct: "distinct (map fst (offsets ms))"
proof -
  let ?off = "\<lambda>i. length (filter (\<lambda>m. fst m = fst (ms ! i)) (take i ms))"
  have "?off i < ?off j" if "i < j" "j < length ms" "fst (ms ! i) = fst (ms ! j)" for i j
  proof -
    have "take j ms = take i ms @ ms ! i # drop (Suc i) (take j ms)"
      using that id_take_nth_drop [of i "take j ms"] by (simp add: min_def)
    then have "filter (\<lambda>m. fst m = fst (ms ! j)) (take j ms) =
        filter (\<lambda>m. fst m = fst (ms ! j)) (take i ms @ ms ! i # drop (Suc i) (take j ms))"
      by (rule arg_cong)
    then show ?thesis using that(3) by simp
  qed
  then have "i = j" if "i < length ms" "j < length ms" "fst (ms ! i) = fst (ms ! j)" "?off i = ?off j" for i j
    using that by (metis linorder_neqE_nat less_irrefl)
  then have "inj_on (\<lambda>i. (fst (ms ! i), int (?off i))) {0..<length ms}" by (auto simp: inj_on_def)
  then show ?thesis by (simp add: offsets_def comp_def distinct_map)
qed

lemma delivered_values:
  assumes "delivered ms dss"
  shows "(\<lambda>d. km_value (fst d)) ` set (concat dss) = Some ` set (map snd ms)"
proof -
  have "(\<lambda>d. km_value (fst d)) ` set (concat dss) = snd ` (\<lambda>d. (msg_key (fst d), km_value (fst d))) ` set (concat dss)"
    by (simp only: image_image snd_conv)
  also have "\<dots> = (\<lambda>x. Some (snd x)) ` set (offsets ms)"
    by (simp only: assms [unfolded delivered_def] image_image case_prod_unfold snd_conv)
  also have "\<dots> = Some ` set (map snd (offsets ms))" by (simp only: set_map image_image)
  finally show ?thesis by (simp only: offsets_values)
qed

lemma delivered_multiset:
  assumes "delivered ms dss" and "delivered_once dss"
  shows "mset (map (\<lambda>d. km_value (fst d)) (concat dss)) = mset (map Some (map snd ms))"
proof -
  let ?got = "map (\<lambda>d. (msg_key (fst d), km_value (fst d))) (concat dss)" and ?all = "map (\<lambda>(k, v). (k, Some v)) (offsets ms)"
  have "map fst ?got = map (\<lambda>d. msg_key (fst d)) (concat dss)" "map fst ?all = map fst (offsets ms)"
    by (simp_all add: case_prod_unfold)
  then have "distinct (map fst ?got)" "distinct (map fst ?all)"
    using assms(2) offsets_distinct by (simp_all only: delivered_once_def)
  then have "distinct ?got" "distinct ?all" by (simp_all only: distinct_map)
  moreover have "set ?got = set ?all" using assms(1) by (simp only: delivered_def set_map)
  ultimately have "mset ?got = mset ?all" by (simp only: set_eq_iff_mset_eq_distinct)
  then have "mset (map snd ?got) = mset (map snd ?all)" by (simp only: mset_map)
  moreover have "map snd ?got = map (\<lambda>d. km_value (fst d)) (concat dss)" "map snd ?all = map Some (map snd (offsets ms))"
    by (simp_all add: case_prod_unfold)
  ultimately show ?thesis by (simp only: offsets_values)
qed

subsection \<open>What the ingestor does\<close>

text \<open>A created record, a batch of them, and the event at the end of a scrape.\<close>

datatype ingest_step =
    Create_One req_clock bool raw_request
  | Create_Batch req_clock string "raw_request list"
  | Scrape_Done req_clock string int

definition on_events ::
  "('k event_state \<Rightarrow> 'k event_state \<times> unit outcome) \<Rightarrow> ('db, 'rd, 'k) app \<Rightarrow> ('db, 'rd, 'k) app"
where
  "on_events f a = a\<lparr>a_events := fst (f (a_events a))\<rparr>"

text \<open>The new state, and the record of a request that was answered with one.\<close>

fun ingest :: "('db, 'rd, 'k) env \<Rightarrow> ingest_step \<Rightarrow> ('db, 'rd, 'k) app \<Rightarrow> record_response list \<times> ('db, 'rd, 'k) app" where
  "ingest V (Create_One t within_limit raw) a =
     (case route_create_record V t within_limit raw a of (Inl e, a') \<Rightarrow> ([], a') | (Inr x, a') \<Rightarrow> ([x], a'))"
| "ingest V (Create_Batch t which raws) a = ([], snd (route_create_records_batch V t which raws a))"
| "ingest V (Scrape_Done t src n) a =
     ([], on_events (publish_doc_scraped (kafka_lib V) (send_start t) (send_end t) src n) a)"

fun ingest_all :: "('db, 'rd, 'k) env \<Rightarrow> ingest_step list \<Rightarrow> ('db, 'rd, 'k) app \<Rightarrow> record_response list \<times> ('db, 'rd, 'k) app" where
  "ingest_all V [] a = ([], a)"
| "ingest_all V (s # ss) a =
     (case ingest V s a of (xs, a1) \<Rightarrow> (case ingest_all V ss a1 of (ys, a2) \<Rightarrow> (xs @ ys, a2)))"

text \<open>The event of a created record, as the processor decodes it.\<close>

definition created_event :: "record_response \<Rightarrow> json \<times> json" where
  "created_event x =
     (JStr EVENT_RECORD_CREATED, JObj [(''record_id'', JInt (rr_id x)), (''source'', JStr (rr_source x))])"

definition event_bytes :: "json \<times> json \<Rightarrow> string" where
  "event_bytes ev = message_bytes (JObj [(''event_type'', fst ev), (''payload'', snd ev)])"

declare json_dumps.simps [simp del]

subsection \<open>From a request to the topic\<close>

text \<open>
  What the topic gains while the ingestor answers with the records \<open>xs\<close>: copies of their events only; at least one of each
  while a broker in good health accepts every send, and exactly one when it keeps each message once.
\<close>

definition gained ::
  "'k kafka \<Rightarrow> ('k \<Rightarrow> string \<Rightarrow> (int \<times> string) list) \<Rightarrow> bool \<Rightarrow> bool \<Rightarrow> string list \<Rightarrow> record_response list \<Rightarrow> bool"
where
  "gained K topic_log healthy healthy' vs xs \<longleftrightarrow>
     set vs \<subseteq> (event_bytes \<circ> created_event) ` set xs \<and>
     (accepts_all K \<and> healthy \<longrightarrow> healthy' \<and> set vs = (event_bytes \<circ> created_event) ` set xs \<and>
        (writes_once K topic_log \<longrightarrow> vs = map (event_bytes \<circ> created_event) xs))"

definition healthy :: "'k event_state \<Rightarrow> bool" where
  "healthy es \<longleftrightarrow> cb_state (kafka_breaker es) = CLOSED"

definition carries ::
  "'k kafka \<Rightarrow> ('k \<Rightarrow> string \<Rightarrow> (int \<times> string) list) \<Rightarrow> 'k event_state \<Rightarrow> 'k event_state \<Rightarrow> record_response list \<Rightarrow> bool"
where
  "carries K topic_log es es' xs \<longleftrightarrow>
     (\<forall>k. producer es = Some k \<longrightarrow> (\<exists>k' vs. producer es' = Some k' \<and>
        map snd (topic_log k' PROC_TOPIC) = map snd (topic_log k PROC_TOPIC) @ vs \<and>
        gained K topic_log (healthy es) (healthy es') vs xs))"

lemma carriesI:
  "(\<And>k. producer es = Some k \<Longrightarrow> \<exists>k' vs. producer es' = Some k' \<and>
      map snd (topic_log k' PROC_TOPIC) = map snd (topic_log k PROC_TOPIC) @ vs \<and>
      gained K topic_log (healthy es) (healthy es') vs xs) \<Longrightarrow> carries K topic_log es es' xs"
  by (simp add: carries_def)

lemma carries_nothing: "carries K topic_log es es []"
  by (simp add: carries_def gained_def)

lemma gained_append:
  "gained K topic_log h1 h2 vs xs \<Longrightarrow> gained K topic_log h2 h3 ws ys \<Longrightarrow> gained K topic_log h1 h3 (vs @ ws) (xs @ ys)"
  by (auto simp: gained_def)

lemma carries_append:
  assumes "carries K topic_log es1 es2 xs" and "carries K topic_log es2 es3 ys"
  shows "carries K topic_log es1 es3 (xs @ ys)"
proof (rule carriesI)
  fix k1 assume "producer es1 = Some k1"
  with assms(1) obtain k2 vs where 1: "producer es2 = Some k2"
    "map snd (topic_log k2 PROC_TOPIC) = map snd (topic_log k1 PROC_TOPIC) @ vs" "gained K topic_log (healthy es1) (healthy es2) vs xs"
    unfolding carries_def by blast
  with assms(2) obtain k3 ws where 2: "producer es3 = Some k3"
    "map snd (topic_log k3 PROC_TOPIC) = map snd (topic_log k2 PROC_TOPIC) @ ws" "gained K topic_log (healthy es2) (healthy es3) ws ys"
    unfolding carries_def by blast
  show "\<exists>k' us. producer es3 = Some k' \<and> map snd (topic_log k' PROC_TOPIC) = map snd (topic_log k1 PROC_TOPIC) @ us \<and>
      gained K topic_log (healthy es1) (healthy es3) us (xs @ ys)"
    using 1(2) 2(1,2) gained_append [OF 1(3) 2(3)] by (intro exI [of _ k3] exI [of _ "vs @ ws"]) simp
qed

lemma batch_sends_nothing: "a_events (snd (route_create_records_batch V t which raws a)) = a_events a"
  by (auto simp: route_create_records_batch_def on_db_def then_do_def count_metric_def Let_def
      split: sum.splits prod.splits if_splits)

context kafka_broker
begin

lemma publish_logged:
  assumes "producer es = Some k" and "kafka_errors_only K"
  shows "\<exists>es' k' n. publish K t0 t1 t ev es = (es', Inr ()) \<and> producer es' = Some k' \<and>
    (\<forall>t'. t' \<noteq> t \<longrightarrow> topic_log k' t' = topic_log k t') \<and>
    map snd (topic_log k' t) = map snd (topic_log k t) @ replicate n (message_bytes (event_to_dict ev)) \<and>
    (accepts_all K \<and> healthy es \<longrightarrow> healthy es' \<and> 0 < n \<and> (writes_once K topic_log \<longrightarrow> n = 1))"
proof -
  let ?m = "event_to_dict ev"
  obtain es' where p: "publish K t0 t1 t ev es = (es', Inr ())"
    using publish_never_raises [OF assms(2), of t0 t1 t ev es] by (metis prod.collapse)
  obtain k1 r where s: "k_send K t ?m k = (k1, r)" by fastforce
  obtain ps where ps: "topic_log k1 t = topic_log k t @ map (\<lambda>p. (p, message_bytes ?m)) ps" "r = Inr () \<longrightarrow> ps \<noteq> []"
    using send_appends [of t ?m k] s by auto
  have other: "topic_log k1 t' = topic_log k t'" if "t' \<noteq> t" for t'
    using send_elsewhere [OF that, of ?m k] s by simp
  have vals: "map snd (topic_log k1 t) = map snd (topic_log k t) @ replicate (length ps) (message_bytes ?m)"
    by (simp add: ps(1) comp_def map_replicate_const)
  have once: "length ps = 1" if "writes_once K topic_log"
    using that ps(1) s unfolding writes_once_def by (metis Suc_eq_plus1 add_left_cancel fst_conv length_append length_map)
  obtain b1 entered where c: "call_enter t0 (kafka_breaker es) = (b1, entered)" by fastforce
  show ?thesis
  proof (cases entered)
    case (Inl e)
    have "\<not> healthy es" using c Inl by (auto simp: healthy_def breaker_ops Let_def split: if_splits)
    moreover have "producer es' = Some k"
      using p c Inl assms(1) by (auto simp: publish_def send_to_kafka_def breaker_call_def split: if_splits)
    ultimately show ?thesis using p by (intro exI [of _ es'] exI [of _ k] exI [of _ 0]) simp
  next
    case (Inr u)
    have es': "producer es' = Some k1" "kafka_breaker es' = call_finish t1 r b1"
      using p c Inr assms(1) s
      by (auto simp: publish_def send_to_kafka_def breaker_call_def raw_send_def split: if_splits sum.splits)
    have "healthy es' \<and> ps \<noteq> []" if "accepts_all K"
    proof -
      have "r = Inr ()" using that s unfolding accepts_all_def by (metis snd_conv)
      then show ?thesis using es'(2) ps(2) by (simp add: healthy_def call_finish_def on_success_def)
    qed
    then show ?thesis
      using p es'(1) other vals once by (intro exI [of _ es'] exI [of _ k1] exI [of _ "length ps"]) auto
  qed
qed

lemma published_carries:
  assumes "kafka_errors_only K" and "message_bytes (event_to_dict ev) = event_bytes (created_event x)"
    and "publish K t0 t1 PROC_TOPIC ev es = (es', r)"
  shows "carries K topic_log es es' [x]"
proof (rule carriesI)
  fix k assume "producer es = Some k"
  from publish_logged [OF this assms(1), of t0 t1 PROC_TOPIC ev, unfolded assms(2,3) prod.inject]
  obtain k' n where n: "producer es' = Some k'"
    "map snd (topic_log k' PROC_TOPIC) = map snd (topic_log k PROC_TOPIC) @ replicate n (event_bytes (created_event x))"
    "accepts_all K \<and> healthy es \<longrightarrow> healthy es' \<and> 0 < n \<and> (writes_once K topic_log \<longrightarrow> n = 1)"
    by blast
  have "gained K topic_log (healthy es) (healthy es') (replicate n (event_bytes (created_event x))) [x]"
    using n(3) by (auto simp: gained_def set_replicate_conv_if)
  with n(1,2) show "\<exists>k' vs. producer es' = Some k' \<and>
      map snd (topic_log k' PROC_TOPIC) = map snd (topic_log k PROC_TOPIC) @ vs \<and> gained K topic_log (healthy es) (healthy es') vs [x]"
    by blast
qed

lemma elsewhere_carries:
  assumes "kafka_errors_only K" and "t \<noteq> PROC_TOPIC" and "publish K t0 t1 t ev es = (es', r)"
  shows "carries K topic_log es es' []"
proof (rule carriesI)
  fix k assume "producer es = Some k"
  from publish_logged [OF this assms(1), of t0 t1 t ev, unfolded assms(3) prod.inject]
  obtain k' where k': "producer es' = Some k'" "\<forall>t'. t' \<noteq> t \<longrightarrow> topic_log k' t' = topic_log k t'"
    "accepts_all K \<and> healthy es \<longrightarrow> healthy es'"
    by blast
  then have "topic_log k' PROC_TOPIC = topic_log k PROC_TOPIC" using assms(2) by auto
  moreover have "gained K topic_log (healthy es) (healthy es') [] []" using k'(3) by (simp add: gained_def)
  ultimately show "\<exists>k' vs. producer es' = Some k' \<and>
      map snd (topic_log k' PROC_TOPIC) = map snd (topic_log k PROC_TOPIC) @ vs \<and> gained K topic_log (healthy es) (healthy es') vs []"
    using k'(1) by (intro exI [of _ k'] exI [of _ "[]"]) simp
qed

lemma ingest_carries:
  assumes "kafka_lib V = K" and "kafka_errors_only K"
  shows "carries K topic_log (a_events a) (a_events (snd (ingest V s a))) (fst (ingest V s a))"
proof (cases s)
  case (Create_One t within_limit raw)
  show ?thesis
  proof (cases "\<exists>body. validate_record_request (wall t) raw = Inr body \<and> within_limit \<and>
      (\<exists>rec. fst (create_record (eng V) (wall t) body (a_db a)) = Inr rec)")
    case False
    then have "fst (ingest V s a) = [] \<and> a_events (snd (ingest V s a)) = a_events a"
      by (auto simp: Create_One route_create_record_def on_db_def then_do_def split: sum.splits prod.splits)
    then show ?thesis by (simp add: carries_nothing)
  next
    case True
    then obtain body rec db' where b: "validate_record_request (wall t) raw = Inr body" within_limit
      "create_record (eng V) (wall t) body (a_db a) = (Inr rec, db')"
      by (metis prod.collapse)
    let ?ev = "\<lparr>event_type = EVENT_RECORD_CREATED,
      payload = [(''record_id'', JInt (r_id rec)), (''source'', JStr (r_source rec))]\<rparr>"
    obtain es' where e: "publish K (send_start t) (send_end t) PROC_TOPIC ?ev (a_events a) = (es', Inr ())"
      using publish_never_raises [OF assms(2)] by (metis prod.collapse)
    then have p: "publish_record_created K (send_start t) (send_end t) (r_id rec)
        [(''source'', JStr (r_source rec))] (a_events a) = (es', Inr ())"
      by (simp add: publish_record_created_def TOPIC_RECORD_CREATED_def PROC_TOPIC_def)
    have bytes: "message_bytes (event_to_dict ?ev) = event_bytes (created_event (response_of rec))"
      by (simp add: event_bytes_def created_event_def event_to_dict_def response_of_def)
    have "ingest V s a = ([response_of rec], (count_metric ''records_created_total.single'' 1 (a\<lparr>a_db := db'\<rparr>))\<lparr>a_events := es'\<rparr>)"
      using b p assms(1) by (simp add: Create_One route_create_record_def on_db_def count_metric_def)
    then show ?thesis using published_carries [OF assms(2) bytes e] by simp
  qed
next
  case (Create_Batch t which raws)
  then show ?thesis by (simp add: batch_sends_nothing carries_nothing)
next
  case (Scrape_Done t src n)
  have "TOPIC_SCRAPED \<noteq> PROC_TOPIC" by (simp add: TOPIC_SCRAPED_def PROC_TOPIC_def)
  from elsewhere_carries [OF assms(2) this prod.collapse [symmetric]] show ?thesis
    using assms(1) by (simp add: Scrape_Done on_events_def publish_doc_scraped_def)
qed

lemma ingest_all_carries:
  assumes "kafka_lib V = K" and "kafka_errors_only K"
  shows "carries K topic_log (a_events a) (a_events (snd (ingest_all V ss a))) (fst (ingest_all V ss a))"
proof (induction ss arbitrary: a)
  case Nil
  then show ?case by (simp add: carries_nothing)
next
  case (Cons s ss)
  show ?case
    using carries_append [OF ingest_carries [OF assms, of a s] Cons.IH]
    by (simp add: case_prod_beta del: ingest.simps)
qed

end

subsection \<open>From the topic to the log of the processor\<close>

lemma event_decoded:
  fixes m :: kmsg and x :: record_response
  assumes "km_value m = Some (event_bytes (created_event x))"
  shows "message_outcome json_loads m = Inr (created_event x)"
proof -
  obtain n p where x: "created_event x = (JStr n, JObj p)" "proper_json decimal (JObj p)"
    by (simp add: created_event_def)
  then have "json_loads (event_bytes (created_event x)) = Inr (JObj [(''event_type'', JStr n), (''payload'', JObj p)])"
    unfolding event_bytes_def message_bytes_def by (subst py_repr.loads_dumps) simp_all
  then show ?thesis using assms x by (simp add: message_outcome_def process_message_def obj_get_def)
qed

text \<open>The event in the bytes of a message, for the bytes of an event.\<close>

definition event_in :: "string option \<Rightarrow> json \<times> json" where
  "event_in v = projr (message_outcome json_loads \<lparr>km_partition = 0, km_offset = 0, km_value = v\<rparr>)"

lemma event_in_bytes: "event_in (Some (event_bytes (created_event x))) = created_event x"
  by (simp add: event_in_def event_decoded)

lemma event_processed:
  assumes "km_value m = Some (event_bytes (created_event x))" and "retry_counts s = (\<lambda>k. None)"
  shows "handle_message json_loads m out s = (s\<lparr>processed_log := processed_log s @ [event_in (km_value m)]\<rparr>, Inr ())"
  using assms event_decoded [OF assms(1)] by (simp add: handle_message_def Let_def fun_upd_idem event_in_bytes)

lemma events_processed:
  assumes "\<And>d. d \<in> set ds \<Longrightarrow> \<exists>x. km_value (fst d) = Some (event_bytes (created_event x))" and "retry_counts s = (\<lambda>k. None)"
  shows "consume_msgs json_loads ds s =
    (s\<lparr>processed_log := processed_log s @ map (\<lambda>d. event_in (km_value (fst d))) ds\<rparr>, [], Inr ())"
  using assms
proof (induction ds arbitrary: s)
  case (Cons d ds)
  obtain m out where d: "d = (m, out)" by (cases d)
  obtain x where "km_value m = Some (event_bytes (created_event x))" using Cons.prems(1) [of d] by (auto simp: d)
  from event_processed [OF this Cons.prems(2), of out] show ?case
    using Cons.IH [of "s\<lparr>processed_log := processed_log s @ [event_in (km_value m)]\<rparr>"] Cons.prems by (simp add: d)
qed simp

text \<open>What all replicas log as processed, each with its own connection attempts.\<close>

definition all_processed :: "(nat \<Rightarrow> unit outcome \<times> unit outcome) \<Rightarrow> (kmsg \<times> unit outcome) list list \<Rightarrow> (json \<times> json) list" where
  "all_processed starts dss = concat (map (\<lambda>ds. processed_log (fst (consume_messages json_loads starts ds))) dss)"

lemma replica_run:
  assumes "\<And>d. d \<in> set ds \<Longrightarrow> \<exists>x. km_value (fst d) = Some (event_bytes (created_event x))"
    and "snd (connect_loop starts 1 0) = Inr ()"
  shows "consume_messages json_loads starts ds =
    (fresh_processor\<lparr>processed_log := map (\<lambda>d. event_in (km_value (fst d))) ds\<rparr>, [], Inr ())"
  using events_processed [OF assms(1), of ds fresh_processor] assms(2)
  by (auto simp: consume_messages_def fresh_processor_def split: prod.splits)

lemma all_processed_run:
  assumes "\<And>d. d \<in> set (concat dss) \<Longrightarrow> \<exists>x. km_value (fst d) = Some (event_bytes (created_event x))"
    and "snd (connect_loop starts 1 0) = Inr ()"
  shows "all_processed starts dss = map event_in (map (\<lambda>d. km_value (fst d)) (concat dss))"
proof -
  have "processed_log (fst (consume_messages json_loads starts ds)) = map (\<lambda>d. event_in (km_value (fst d))) ds" if "ds \<in> set dss" for ds
  proof -
    have "\<exists>x. km_value (fst d) = Some (event_bytes (created_event x))" if "d \<in> set ds" for d
      using assms(1) [of d] that \<open>ds \<in> set dss\<close> by auto
    from replica_run [OF this assms(2)] show ?thesis by simp
  qed
  then show ?thesis by (simp add: all_processed_def map_concat comp_def cong: map_cong)
qed

text \<open>
  C8. Every created record reaches the processor. Take any broker that keeps Kafka's contract and raises Kafka errors only,
  over a topic that is empty at first, with any number of partitions and of processor replicas. Whatever the ingestor is
  asked to do and however often the messages are delivered, each replica reads its deliveries without a failure and
  hands nothing to the dead letter queue, and what they log as processed are events of records that a single creation
  answered with, decoded to the id and the source of the record; a batch of records and the end of a scrape never reach
  them. If the broker accepts every send and the breaker of the producer is closed, the event of every such record is
  processed; and if the broker also keeps each message once and each is delivered once, each event is processed once.
\<close>

theorem created_records_processed:
  assumes "kafka_broker (kafka_lib V) topic_log" and "kafka_errors_only (kafka_lib V)"
    and "producer (a_events a) = Some k" and "topic_log k PROC_TOPIC = []"
    and "ingest_all V ss a = (xs, a')" and "snd (connect_loop starts 1 0) = Inr ()"
  shows "\<exists>k'. producer (a_events a') = Some k' \<and> (\<forall>dss. delivered (topic_log k' PROC_TOPIC) dss \<longrightarrow>
    (\<forall>ds \<in> set dss. \<exists>s. consume_messages json_loads starts ds = (s, [], Inr ()) \<and> dlq_log s = [] \<and> dlq_lost s = []) \<and>
    set (all_processed starts dss) \<subseteq> created_event ` set xs \<and>
    (accepts_all (kafka_lib V) \<and> cb_state (kafka_breaker (a_events a)) = CLOSED \<longrightarrow>
       set (all_processed starts dss) = created_event ` set xs \<and>
       (writes_once (kafka_lib V) topic_log \<and> delivered_once dss \<longrightarrow>
          mset (all_processed starts dss) = image_mset created_event (mset xs))))"
proof -
  let ?K = "kafka_lib V" and ?e = "event_bytes \<circ> created_event"
  have "carries ?K topic_log (a_events a) (a_events a') xs"
    using kafka_broker.ingest_all_carries [OF assms(1) refl assms(2), of a ss] assms(5) by simp
  with assms(3,4) obtain k' where k': "producer (a_events a') = Some k'" "set (map snd (topic_log k' PROC_TOPIC)) \<subseteq> ?e ` set xs"
    and fine: "accepts_all ?K \<and> cb_state (kafka_breaker (a_events a)) = CLOSED \<longrightarrow>
      set (map snd (topic_log k' PROC_TOPIC)) = ?e ` set xs \<and>
      (writes_once ?K topic_log \<longrightarrow> map snd (topic_log k' PROC_TOPIC) = map ?e xs)"
    by (auto simp: carries_def gained_def healthy_def)
  have "(\<forall>ds \<in> set dss. \<exists>s. consume_messages json_loads starts ds = (s, [], Inr ()) \<and> dlq_log s = [] \<and> dlq_lost s = []) \<and>
    set (all_processed starts dss) \<subseteq> created_event ` set xs \<and>
    (accepts_all ?K \<and> cb_state (kafka_breaker (a_events a)) = CLOSED \<longrightarrow>
       set (all_processed starts dss) = created_event ` set xs \<and>
       (writes_once ?K topic_log \<and> delivered_once dss \<longrightarrow>
          mset (all_processed starts dss) = image_mset created_event (mset xs)))"
    if d: "delivered (topic_log k' PROC_TOPIC) dss" for dss
  proof -
    note vals = delivered_values [OF d]
    have event: "\<exists>x. km_value (fst m) = Some (event_bytes (created_event x))" if "m \<in> set (concat dss)" for m
    proof -
      have "km_value (fst m) \<in> Some ` set (map snd (topic_log k' PROC_TOPIC))" using that vals by blast
      then have "km_value (fst m) \<in> Some ` ?e ` set xs" using k'(2) by blast
      then show ?thesis by auto
    qed
    have one: "\<exists>s. consume_messages json_loads starts ds = (s, [], Inr ()) \<and> dlq_log s = [] \<and> dlq_lost s = []" if "ds \<in> set dss" for ds
    proof -
      have "\<exists>x. km_value (fst m) = Some (event_bytes (created_event x))" if "m \<in> set ds" for m
        using event [of m] that \<open>ds \<in> set dss\<close> by auto
      from replica_run [OF this assms(6)] show ?thesis by (simp add: fresh_processor_def)
    qed
    have all: "all_processed starts dss = map event_in (map (\<lambda>m. km_value (fst m)) (concat dss))"
      by (rule all_processed_run [OF _ assms(6)]) (rule event)
    then have "set (all_processed starts dss) = event_in ` (\<lambda>m. km_value (fst m)) ` set (concat dss)" by (simp only: set_map)
    then have seen: "set (all_processed starts dss) = (\<lambda>v. event_in (Some v)) ` set (map snd (topic_log k' PROC_TOPIC))"
      by (simp only: vals image_image)
    have decode: "(\<lambda>v. event_in (Some v)) ` ?e ` X = created_event ` X" for X
      by (simp add: image_image event_in_bytes)
    have "mset (all_processed starts dss) = image_mset event_in (mset (map Some (map snd (topic_log k' PROC_TOPIC))))"
      if "delivered_once dss" using arg_cong [OF all, of mset] delivered_multiset [OF d that] by (simp only: mset_map)
    then have "mset (all_processed starts dss) = image_mset created_event (mset xs)"
      if "map snd (topic_log k' PROC_TOPIC) = map ?e xs" "delivered_once dss"
      using that by (simp add: multiset.map_comp comp_def event_in_bytes)
    then show ?thesis using one seen decode fine image_mono [OF k'(2), of "\<lambda>v. event_in (Some v)"] by auto
  qed
  then show ?thesis using k'(1) by blast
qed

subsection \<open>A broker with two partitions\<close>

type_synonym stored_message = "string \<times> int \<times> string"

definition log_broker :: "stored_message list kafka" where
  "log_broker = \<lparr>k_new = (\<lambda>servers. []), k_start = (\<lambda>l. (l, Inr ())), k_stop = (\<lambda>l. (l, Inr ())),
     k_send = (\<lambda>topic msg l. (l @ [(topic, int (length l mod 2), message_bytes msg)], Inr ()))\<rparr>"

definition stored :: "stored_message list \<Rightarrow> string \<Rightarrow> (int \<times> string) list" where
  "stored l topic = map snd (filter (\<lambda>m. fst m = topic) l)"

interpretation pb: kafka_broker log_broker stored
proof
  show "\<exists>ps. stored (fst (k_send log_broker t m l)) t = stored l t @ map (\<lambda>p. (p, message_bytes m)) ps \<and>
      (snd (k_send log_broker t m l) = Inr () \<longrightarrow> ps \<noteq> [])" for t m l
    by (rule exI [of _ "[int (length l mod 2)]"]) (simp add: log_broker_def stored_def)
qed (simp add: log_broker_def stored_def)

lemma log_broker_facts: "kafka_errors_only log_broker" "accepts_all log_broker" "writes_once log_broker stored"
  by (simp_all add: kafka_errors_only_def accepts_all_def writes_once_def log_broker_def stored_def)

text \<open>One replica that is given each message once.\<close>

definition each_once :: "(int \<times> string) list \<Rightarrow> (kmsg \<times> unit outcome) list" where
  "each_once ms = map (\<lambda>(k, v). (\<lparr>km_partition = fst k, km_offset = snd k, km_value = Some v\<rparr>, Inr ())) (offsets ms)"

lemma each_once_delivered:
  "delivered ms [each_once ms]" "delivered ms [each_once ms, each_once ms]" "delivered_once [each_once ms]"
  using offsets_distinct [of ms]
  by (simp_all add: delivered_def delivered_once_def each_once_def msg_key_def image_image case_prod_unfold comp_def)

definition logging_env :: "(mem_db, mem_redis, stored_message list) env" where
  "logging_env = \<lparr>eng = mem_engine, redis_lib = mem_redis_lib, kafka_lib = log_broker, auth_cfg = demo_settings, str_of = (\<lambda>_. [])\<rparr>"

definition logging_app :: "(mem_db, mem_redis, stored_message list) app" where
  "logging_app = \<lparr>a_db = empty_db, a_cache = \<lparr>client = None, cache_errors = []\<rparr>,
     a_events = snd (connect_producer log_broker [] initial_events), a_sessions = Map.empty, a_metrics = []\<rparr>"

definition raw_from :: "string \<Rightarrow> raw_request" where
  "raw_from src = \<lparr>raw_source = src, raw_timestamp = Some \<lparr>wall_clock = 5, tzinfo = None\<rparr>, raw_data_in = [], raw_tags = []\<rparr>"

lemma ingest_created:
  assumes "record_store (eng V)" and "kafka_errors_only (kafka_lib V)" and "db_ok (eng V) (a_db a)"
    and "validate_record_request (wall t) raw = Inr q"
    and "(source q, timestamp q) \<notin> row_key ` set (rows (eng V) (a_db a))"
  shows "\<exists>x a'. ingest V (Create_One t True raw) a = ([x], a') \<and> rr_source x = source q \<and> db_ok (eng V) (a_db a') \<and>
    row_key ` set (rows (eng V) (a_db a')) = insert (source q, timestamp q) (row_key ` set (rows (eng V) (a_db a)))"
proof -
  obtain r db' where c: "create_record (eng V) (wall t) q (a_db a) = (Inr r, db')" "db_ok (eng V) db'"
    "mset (rows (eng V) db') = add_mset r (mset (rows (eng V) (a_db a)))" "content r = record_of (wall t) q"
    using record_store.create_record_new [OF assms(1,3,5)] by blast
  have "r_source (content r) = r_source r" "row_key (content r) = row_key r" by (simp_all add: content_def row_key_def)
  then have k: "r_source r = source q" "row_key r = (source q, timestamp q)"
    using c(4) by (simp_all add: record_of_def row_key_def)
  have "set (rows (eng V) db') = insert r (set (rows (eng V) (a_db a)))"
    using c(3) by (metis set_mset_mset set_mset_add_mset_insert)
  moreover obtain es' where "publish_record_created (kafka_lib V) (send_start t) (send_end t) (r_id r)
      [(''source'', JStr (r_source r))] (a_events a) = (es', Inr ())"
    unfolding publish_record_created_def using publish_never_raises [OF assms(2)] by (metis prod.collapse)
  ultimately show ?thesis
    using c assms(4) k by (auto simp: route_create_record_def on_db_def count_metric_def response_of_def)
qed

lemma demo_requests:
  "validate_record_request 9 (raw_from ''a'') = Inr (req ''a'' 5)"
  "validate_record_request 9 (raw_from ''c'') = Inr (req ''c'' 5)"
  by code_simp+

text \<open>Two creations; both messages given to two replicas, and then to one.\<close>

theorem created_records_processed_witness:
  "\<exists>x y a' l. ingest_all logging_env
      [Create_One (clock_at 9) True (raw_from ''a''), Create_One (clock_at 9) True (raw_from ''c'')] logging_app = ([x, y], a') \<and>
     producer (a_events a') = Some l \<and> rr_source x = ''a'' \<and> rr_source y = ''c'' \<and>
     set (all_processed (\<lambda>n. (Inr (), Inr ())) [each_once (stored l PROC_TOPIC), each_once (stored l PROC_TOPIC)]) =
       {created_event x, created_event y} \<and>
     mset (all_processed (\<lambda>n. (Inr (), Inr ())) [each_once (stored l PROC_TOPIC)]) = {#created_event x, created_event y#}"
proof -
  let ?up = "\<lambda>n :: nat. (Inr () :: unit outcome, Inr () :: unit outcome)"
  have V: "record_store (eng logging_env)" "kafka_lib logging_env = log_broker"
    using mem.record_store_axioms by (simp_all add: logging_env_def)
  have K: "kafka_broker (kafka_lib logging_env) stored" "kafka_errors_only (kafka_lib logging_env)"
    using pb.kafka_broker_axioms log_broker_facts(1) by (simp_all add: V(2))
  have p: "producer (a_events logging_app) = Some []" "cb_state (kafka_breaker (a_events logging_app)) = CLOSED" "stored [] PROC_TOPIC = []"
    by (simp_all add: logging_app_def connect_producer_def log_broker_def initial_events_def new_breaker_def stored_def)
  have db: "db_ok (eng logging_env) (a_db logging_app)" "rows (eng logging_env) (a_db logging_app) = []"
    by (simp_all add: logging_env_def logging_app_def mem_engine_def mem_ok_def empty_db_def)
  obtain x a1 where 1: "ingest logging_env (Create_One (clock_at 9) True (raw_from ''a'')) logging_app = ([x], a1)"
    "rr_source x = ''a''" "db_ok (eng logging_env) (a_db a1)" "row_key ` set (rows (eng logging_env) (a_db a1)) = {(''a'', 5)}"
    using ingest_created [OF V(1) K(2) db(1), of "clock_at 9" "raw_from ''a''" "req ''a'' 5"] demo_requests(1) db(2)
    by (auto simp: req_def clock_at_def)
  obtain y a2 where 2: "ingest logging_env (Create_One (clock_at 9) True (raw_from ''c'')) a1 = ([y], a2)" "rr_source y = ''c''"
    using ingest_created [OF V(1) K(2) 1(3), of "clock_at 9" "raw_from ''c''" "req ''c'' 5"] demo_requests(2) 1(4)
    by (auto simp: req_def clock_at_def)
  have run: "ingest_all logging_env
      [Create_One (clock_at 9) True (raw_from ''a''), Create_One (clock_at 9) True (raw_from ''c'')] logging_app = ([x, y], a2)"
    using 1(1) 2(1) by (simp del: ingest.simps)
  have up: "snd (connect_loop ?up 1 0) = Inr ()" by (simp add: connect_loop.simps RETRY_MAX_ATTEMPTS_def)
  from created_records_processed [OF K p(1,3) run up] obtain l where l: "producer (a_events a2) = Some l"
    "\<And>dss. delivered (stored l PROC_TOPIC) dss \<Longrightarrow> set (all_processed ?up dss) = created_event ` set [x, y] \<and>
      (delivered_once dss \<longrightarrow> mset (all_processed ?up dss) = image_mset created_event (mset [x, y]))"
    using log_broker_facts p(2) V(2) by auto
  show ?thesis
    using run 1(2) 2(2) l(1) l(2) [OF each_once_delivered(1)] l(2) [OF each_once_delivered(2)] each_once_delivered(3)
    by (intro exI [of _ x] exI [of _ y] exI [of _ a2] exI [of _ l]) simp
qed

end
