(* ===== verification/Repo_Checks.thy ===== *)
theory Repo_Checks
  imports Text_Lines Json_Access
begin

text \<open>
  The checks that CI runs over the repository itself: \<open>scripts/ci/check_service_boundaries.py\<close> on the import statements of
  the Python files, which \<open>ast\<close> has parsed, and \<open>scripts/ci/docs_quality_check.py\<close> on the lines of the Markdown files. A path
  is the list of its parts relative to the repository; which files exist is an argument.
\<close>

type_synonym path = "string list"

subsection \<open>Service boundaries\<close>

definition SHARED_LIBS :: "string list" where
  "SHARED_LIBS = [''libs.platform'', ''libs.contracts'']"

definition LIBS_ROOTS :: "path list" where
  "LIBS_ROOTS = [[''libs'', ''platform''], [''libs'', ''contracts'']]"

definition SERVICE_ROOTS :: "(string \<times> path) list" where
  "SERVICE_ROOTS =
     [(''ingestor'', [''ingestor'']), (''ai_gateway'', [''services'', ''ai_gateway'']), (''query_api'', [''services'', ''query_api'']),
      (''processor'', [''services'', ''processor'']), (''dashboard'', [''services'', ''dashboard''])]"

definition PERSISTENCE_MODULE_HINTS :: "string list" where
  "PERSISTENCE_MODULE_HINTS = [''database'', ''models'', ''crud'', ''storage'', ''repository'', ''repositories'']"

text \<open>\<open>import a, b\<close>, \<open>from m import ...\<close> with its level, and every other node.\<close>

datatype ast_node = Import nat "string list" | ImportFrom nat "string option" nat "string list" | Other_Node

record violation =
  vi_file :: path
  vi_line :: nat
  vi_code :: string
  vi_module :: string

definition under :: "path \<Rightarrow> path \<Rightarrow> bool" where
  "under dir p \<longleftrightarrow> take (length dir) p = dir"

definition detect_service_owner :: "path \<Rightarrow> string option" where
  "detect_service_owner p = map_option fst (find (\<lambda>(s, dir). under dir p) SERVICE_ROOTS)"

definition is_or_in :: "string \<Rightarrow> string \<Rightarrow> bool" where
  "is_or_in m p \<longleftrightarrow> m = p \<or> startswith m (p @ ''.'')"

definition module_to_service :: "string \<Rightarrow> string option" where
  "module_to_service m =
     (if m = ''libs'' \<or> list_ex (is_or_in m) SHARED_LIBS then None
      else if is_or_in m ''ingestor'' then Some ''ingestor''
      else if is_or_in m ''services'' then
        (case split_on (CHR ''.'') m of
           _ # svc # _ \<Rightarrow> if svc \<in> set [''ai_gateway'', ''query_api'', ''processor'', ''dashboard''] then Some svc else None
         | _ \<Rightarrow> None)
      else None)"

definition references_persistence_module :: "string \<Rightarrow> bool" where
  "references_persistence_module m = list_ex (\<lambda>part. part \<in> set PERSISTENCE_MODULE_HINTS) (split_on (CHR ''.'') m)"

fun extract_import_modules :: "ast_node \<Rightarrow> (nat \<times> string) list" where
  "extract_import_modules (Import line names) = map (Pair line) names"
| "extract_import_modules (ImportFrom line m level names) =
     (if 0 < level then [] else (case m of None \<Rightarrow> [] | Some s \<Rightarrow> if s = [] then [] else [(line, s)]))"
| "extract_import_modules Other_Node = []"

definition check_import :: "path \<Rightarrow> string \<Rightarrow> nat \<times> string \<Rightarrow> violation list" where
  "check_import p service_owner i =
     (case i of (line, m) \<Rightarrow>
        (case module_to_service m of
           None \<Rightarrow> []
         | Some target \<Rightarrow>
             (if target \<noteq> service_owner then [\<lparr>vi_file = p, vi_line = line, vi_code = ''SVC001'', vi_module = m\<rparr>] else []) @
             (if target \<noteq> service_owner \<and> references_persistence_module m
              then [\<lparr>vi_file = p, vi_line = line, vi_code = ''SVC002'', vi_module = m\<rparr>] else [])))"

definition scan_file :: "path \<Rightarrow> ast_node list \<Rightarrow> violation list" where
  "scan_file p nodes =
     (case detect_service_owner p of
        None \<Rightarrow> []
      | Some service_owner \<Rightarrow> concat (map (\<lambda>n. concat (map (check_import p service_owner) (extract_import_modules n))) nodes))"

definition scan_libs_file :: "path \<Rightarrow> ast_node list \<Rightarrow> violation list" where
  "scan_libs_file p nodes =
     concat (map (\<lambda>n. concat (map (\<lambda>(line, m).
         if module_to_service m \<noteq> None then [\<lparr>vi_file = p, vi_line = line, vi_code = ''SVC003'', vi_module = m\<rparr>] else [])
       (extract_import_modules n))) nodes)"

text \<open>\<open>rglob("*.py")\<close> under the roots; the files come in the order of their paths.\<close>

definition python_file :: "path \<Rightarrow> bool" where
  "python_file p \<longleftrightarrow> p \<noteq> [] \<and> endswith (last p) ''.py'' \<and> ''__pycache__'' \<notin> set p"

definition boundary_violations :: "(path \<times> ast_node list) list \<Rightarrow> violation list" where
  "boundary_violations files =
     concat (map (\<lambda>(p, nodes). scan_file p nodes)
       (filter (\<lambda>(p, nodes). python_file p \<and> list_ex (\<lambda>(s, dir). under dir p) SERVICE_ROOTS) files)) @
     concat (map (\<lambda>(p, nodes). scan_libs_file p nodes)
       (filter (\<lambda>(p, nodes). python_file p \<and> list_ex (\<lambda>dir. under dir p) LIBS_ROOTS) files))"

definition boundaries_main :: "(path \<times> ast_node list) list \<Rightarrow> int" where
  "boundaries_main files = (if boundary_violations files = [] then 0 else 1)"

subsection \<open>Markdown quality\<close>

datatype check_level = CHECK_STRICT | CHECK_RELAXED

definition STRICT_MD_GLOBS :: "path list" where
  "STRICT_MD_GLOBS = [[''README.md''], [''docs'', ''**'', ''*.md''], [''.github'', ''pull_request_template.md'']]"

definition RELAXED_MD_GLOBS :: "path list" where
  "RELAXED_MD_GLOBS =
     [[''.github'', ''prompts'', ''**'', ''*.md''], [''learning_docs'', ''**'', ''*.md''], [''_archive'', ''**'', ''*.md''], [''CV.md'']]"

text \<open>\<open>PurePath.match\<close> with a relative pattern: part by part from the right; \<open>**\<close> is a single star there.\<close>

definition path_match :: "path \<Rightarrow> path \<Rightarrow> bool" where
  "path_match pat p \<longleftrightarrow> length pat \<le> length p \<and> list_all2 wild pat (drop (length p - length pat) p)"

definition path_matches_any :: "path list \<Rightarrow> path \<Rightarrow> bool" where
  "path_matches_any globs p = list_ex (\<lambda>g. path_match g p) globs"

definition classify_check_level :: "path \<Rightarrow> check_level option" where
  "classify_check_level p =
     (if path_matches_any STRICT_MD_GLOBS p then Some CHECK_STRICT
      else if path_matches_any RELAXED_MD_GLOBS p then Some CHECK_RELAXED
      else None)"

text \<open>\<open>Path.glob\<close>: here \<open>**\<close> stands for any number of directories.\<close>

fun glob_match :: "path \<Rightarrow> path \<Rightarrow> bool" where
  "glob_match [] p = (p = [])"
| "glob_match (g # gs) [] = (g = ''**'' \<and> glob_match gs [])"
| "glob_match (g # gs) (d # p) =
     (if g = ''**'' then glob_match gs (d # p) \<or> glob_match (g # gs) p else wild g d \<and> glob_match gs p)"

definition is_external_link :: "string \<Rightarrow> bool" where
  "is_external_link t \<longleftrightarrow> startswith t ''http://'' \<or> startswith t ''https://'' \<or> startswith t ''mailto:'' \<or> startswith t ''#''"

text \<open>\<open>(base / t).resolve()\<close> is an argument.\<close>

definition normalize_target :: "(path \<Rightarrow> string \<Rightarrow> path) \<Rightarrow> path \<Rightarrow> string \<Rightarrow> path" where
  "normalize_target resolve base target =
     (let no_anchor = takeWhile (\<lambda>c. c \<noteq> CHR ''#'') target
      in if startswith no_anchor ''.github/'' then resolve [] no_anchor else resolve base no_anchor)"

text \<open>The pattern \<open>^\*\*[^*].*\*\*\s*$\<close> on a line.\<close>

definition bold_heading :: "string \<Rightarrow> bool" where
  "bold_heading line \<longleftrightarrow>
     startswith line ''**'' \<and> (case drop 2 line of [] \<Rightarrow> False | c # rest \<Rightarrow> c \<noteq> CHR ''*'' \<and> endswith (rstrip rest) ''**'')"

text \<open>An opening fence without a language: \<open>^```([^\s`].*)?$\<close> fails, or nothing but the fence is there.\<close>

definition bare_fence :: "string \<Rightarrow> bool" where
  "bare_fence line \<longleftrightarrow>
     (case drop 3 line of [] \<Rightarrow> True | c # _ \<Rightarrow> is_space c \<or> c = CHR ''`'') \<or> strip line = ''```''"

text \<open>\<open>finditer\<close> of \<open>\[[^\]]+\]\(([^)]+)\)\<close>: the targets, from left to right; \<open>n\<close> bounds the characters that remain.\<close>

fun link_targets :: "nat \<Rightarrow> string \<Rightarrow> string list" where
  "link_targets 0 s = []"
| "link_targets (Suc n) [] = []"
| "link_targets (Suc n) (c # cs) =
     (let body = takeWhile (\<lambda>d. d \<noteq> CHR '']'') cs; rest = dropWhile (\<lambda>d. d \<noteq> CHR '']'') cs
      in if c = CHR ''['' \<and> body \<noteq> [] \<and> startswith rest ''](''
         then (let target = takeWhile (\<lambda>d. d \<noteq> CHR '')'') (drop 2 rest); rest' = dropWhile (\<lambda>d. d \<noteq> CHR '')'') (drop 2 rest)
               in if target \<noteq> [] \<and> rest' \<noteq> [] then target # link_targets n (tl rest') else link_targets n cs)
         else link_targets n cs)"

datatype doc_error = Bold_Heading nat | No_Language nat | Broken_Link nat string | Unclosed_Fence

definition broken_links :: "(path \<Rightarrow> bool) \<Rightarrow> (path \<Rightarrow> string \<Rightarrow> path) \<Rightarrow> path \<Rightarrow> nat \<Rightarrow> string \<Rightarrow> doc_error list" where
  "broken_links exists resolve p line_no line =
     concat (map (\<lambda>t. let target = strip t
                      in if target = [] \<or> is_external_link target \<or> startswith target ''`'' then []
                         else if exists (normalize_target resolve (butlast p) target) then []
                         else [Broken_Link line_no target])
       (link_targets (length line) line))"

text \<open>One line of the loop of \<open>check_file\<close>: the errors so far and whether a fence is open.\<close>

definition check_line ::
  "(path \<Rightarrow> bool) \<Rightarrow> (path \<Rightarrow> string \<Rightarrow> path) \<Rightarrow> path \<Rightarrow> check_level \<Rightarrow> nat \<times> string \<Rightarrow> doc_error list \<times> bool \<Rightarrow> doc_error list \<times> bool"
where
  "check_line exists resolve p level nl st =
     (case (nl, st) of ((line_no, line), (errors, in_fence)) \<Rightarrow>
        let strict = (level = CHECK_STRICT);
            fence = startswith line ''```''
        in (errors @ (if strict \<and> bold_heading line then [Bold_Heading line_no] else []) @
              (if fence \<and> \<not> in_fence \<and> strict \<and> bare_fence line then [No_Language line_no] else []) @
              (if strict then broken_links exists resolve p line_no line else []),
            if fence then \<not> in_fence else in_fence))"

definition check_file ::
  "(path \<Rightarrow> bool) \<Rightarrow> (path \<Rightarrow> string \<Rightarrow> path) \<Rightarrow> (path \<Rightarrow> string) \<Rightarrow> path \<Rightarrow> check_level \<Rightarrow> doc_error list"
where
  "check_file exists resolve read p level =
     (case fold (check_line exists resolve p level) (enumerate 1 (splitlines (read p))) ([], False) of
        (errors, in_fence) \<Rightarrow> errors @ (if in_fence then [Unclosed_Fence] else []))"

text \<open>\<open>markdown_files("ci", [])\<close> over the files of the repository, and the loop of \<open>main\<close>.\<close>

definition ci_files :: "path list \<Rightarrow> path list" where
  "ci_files files = filter (\<lambda>p. list_ex (\<lambda>g. glob_match g p) STRICT_MD_GLOBS) files"

definition docs_errors ::
  "(path \<Rightarrow> bool) \<Rightarrow> (path \<Rightarrow> string \<Rightarrow> path) \<Rightarrow> (path \<Rightarrow> string) \<Rightarrow> bool \<Rightarrow> path list \<Rightarrow> (path \<times> doc_error) list"
where
  "docs_errors exists resolve read ci files =
     concat (map (\<lambda>p. case classify_check_level p of
                        Some level \<Rightarrow> map (Pair p) (check_file exists resolve read p level)
                      | None \<Rightarrow> if ci then [] else map (Pair p) (check_file exists resolve read p CHECK_RELAXED)) files)"

definition docs_main ::
  "(path \<Rightarrow> bool) \<Rightarrow> (path \<Rightarrow> string \<Rightarrow> path) \<Rightarrow> (path \<Rightarrow> string) \<Rightarrow> path list \<Rightarrow> int"
where
  "docs_main exists resolve read files = (if docs_errors exists resolve read True (ci_files files) = [] then 0 else 1)"

text \<open>
  \<open>markdown_files\<close> for any profile and list of files. \<open>resolve_name\<close> gives the path of a name below the repository, and
  \<open>staged\<close> what git lists; the result is sorted part by part and holds no path twice.
\<close>

datatype docs_profile = Ci | Precommit | All_Docs

fun path_le :: "path \<Rightarrow> path \<Rightarrow> bool" where
  "path_le [] q = True"
| "path_le (a # p) [] = False"
| "path_le (a # p) (b # q) = (if a = b then path_le p q else str_le a b)"

fun insert_path :: "path \<Rightarrow> path list \<Rightarrow> path list" where
  "insert_path p [] = [p]"
| "insert_path p (q # qs) = (if p = q then q # qs else if path_le p q then p # q # qs else q # insert_path p qs)"

definition sort_paths :: "path list \<Rightarrow> path list" where
  "sort_paths ps = foldr insert_path ps []"

definition get_staged_files_from_git :: "string \<Rightarrow> string list" where
  "get_staged_files_from_git stdout = map strip (filter (\<lambda>l. strip l \<noteq> []) (splitlines stdout))"

text \<open>\<open>path.suffix.lower() == ".md"\<close> of the last part: a name that starts with its only dot has no suffix.\<close>

definition md_suffix :: "path \<Rightarrow> bool" where
  "md_suffix p \<longleftrightarrow> p \<noteq> [] \<and> 3 < length (last p) \<and> lower (drop (length (last p) - 3) (last p)) = ''.md''"

definition markdown_files ::
  "(string \<Rightarrow> path) \<Rightarrow> string outcome \<Rightarrow> path list \<Rightarrow> docs_profile \<Rightarrow> string list \<Rightarrow> path list outcome"
where
  "markdown_files resolve_name staged files profile file_args =
     try_bind (if profile = Precommit \<and> file_args = [] then map_sum id get_staged_files_from_git staged else Inr file_args)
       (\<lambda>candidates. Inr (sort_paths
          (if candidates \<noteq> [] then filter (\<lambda>p. p \<in> set files \<and> md_suffix p) (map resolve_name candidates)
           else filter (\<lambda>p. list_ex (\<lambda>g. glob_match g p)
                        (if profile = Ci then STRICT_MD_GLOBS else STRICT_MD_GLOBS @ RELAXED_MD_GLOBS)) files)))"

definition docs_run ::
  "(path \<Rightarrow> bool) \<Rightarrow> (path \<Rightarrow> string \<Rightarrow> path) \<Rightarrow> (path \<Rightarrow> string) \<Rightarrow> (string \<Rightarrow> path) \<Rightarrow> string outcome \<Rightarrow> path list \<Rightarrow>
   docs_profile \<Rightarrow> string list \<Rightarrow> int outcome"
where
  "docs_run exists resolve read resolve_name staged files profile file_args =
     map_sum id (\<lambda>chosen. if docs_errors exists resolve read (profile = Ci) chosen = [] then 0 else 1)
       (markdown_files resolve_name staged files profile file_args)"

lemma insert_path_set: "set (insert_path p ps) = insert p (set ps)"
  by (induction p ps rule: insert_path.induct) auto

lemma sort_paths_set [simp]: "set (sort_paths ps) = set ps"
  by (induction ps) (simp_all add: sort_paths_def insert_path_set)

text \<open>
  A commit that touches a Markdown file is checked more than CI checks it: with staged files the check passes only when
  each of them that is Markdown passes the check of its class, or the relaxed one when it has none.
\<close>

lemma precommit_passes_iff:
  assumes "get_staged_files_from_git out \<noteq> []"
  shows "docs_run exists resolve read resolve_name (Inr out) files Precommit [] = Inr 0 \<longleftrightarrow>
    (\<forall>n \<in> set (get_staged_files_from_git out). resolve_name n \<in> set files \<longrightarrow> md_suffix (resolve_name n) \<longrightarrow>
       check_file exists resolve read (resolve_name n)
         (case classify_check_level (resolve_name n) of Some l \<Rightarrow> l | None \<Rightarrow> CHECK_RELAXED) = [])"
proof -
  have "docs_errors exists resolve read False ps = [] \<longleftrightarrow>
      (\<forall>p \<in> set ps. check_file exists resolve read p (case classify_check_level p of Some l \<Rightarrow> l | None \<Rightarrow> CHECK_RELAXED) = [])" for ps
    by (auto simp: docs_errors_def split: option.splits)
  then show ?thesis
    using assms by (auto simp: docs_run_def markdown_files_def)
qed

subsection \<open>What a passing boundary check says\<close>

definition imported :: "ast_node list \<Rightarrow> string list" where
  "imported nodes = concat (map (\<lambda>n. map snd (extract_import_modules n)) nodes)"

lemma concat_map_Nil: "concat (map f xs) = [] \<longleftrightarrow> list_all (\<lambda>x. f x = []) xs"
  by (induction xs) auto

lemma find_Some_iff: "find P xs \<noteq> None \<longleftrightarrow> list_ex P xs"
  by (induction xs) auto

lemma owner_iff: "list_ex (\<lambda>(s, dir). under dir p) SERVICE_ROOTS \<longleftrightarrow> detect_service_owner p \<noteq> None"
  using find_Some_iff [of "\<lambda>(s, dir). under dir p" SERVICE_ROOTS] by (simp add: detect_service_owner_def)

text \<open>The modules that a file of the service (or library) \<open>owner\<close> may import.\<close>

definition may_import :: "string option \<Rightarrow> string \<Rightarrow> bool" where
  "may_import owner m \<longleftrightarrow> module_to_service m = None \<or> module_to_service m = owner"

lemma scan_file_Nil:
  "scan_file p nodes = [] \<longleftrightarrow> detect_service_owner p = None \<or> list_all (may_import (detect_service_owner p)) (imported nodes)"
proof (cases "detect_service_owner p")
  case (Some s)
  have "check_import p s i = [] \<longleftrightarrow> may_import (Some s) (snd i)" for i
    by (cases i) (auto simp: check_import_def may_import_def split: option.split)
  then show ?thesis using Some by (simp add: scan_file_def imported_def concat_map_Nil list_all_iff)
qed (simp add: scan_file_def)

lemma scan_libs_file_Nil: "scan_libs_file p nodes = [] \<longleftrightarrow> list_all (may_import None) (imported nodes)"
proof -
  have "(case i of (line, m) \<Rightarrow> if module_to_service m \<noteq> None then [\<lparr>vi_file = p, vi_line = line, vi_code = c, vi_module = m\<rparr>] else []) = []
      \<longleftrightarrow> may_import None (snd i)" for i c by (cases i) (simp add: may_import_def)
  then show ?thesis unfolding scan_libs_file_def imported_def concat_map_Nil by (simp add: list_all_iff)
qed

text \<open>What the check is meant to enforce on one file.\<close>

definition respects_boundaries :: "path \<times> ast_node list \<Rightarrow> bool" where
  "respects_boundaries f =
     (case f of (p, nodes) \<Rightarrow>
        (if python_file p \<and> detect_service_owner p \<noteq> None then list_all (may_import (detect_service_owner p)) (imported nodes) else True) \<and>
        (if python_file p \<and> list_ex (\<lambda>dir. under dir p) LIBS_ROOTS then list_all (may_import None) (imported nodes) else True))"

lemma respects_iff:
  "respects_boundaries f \<longleftrightarrow>
     (python_file (fst f) \<and> detect_service_owner (fst f) \<noteq> None \<longrightarrow> scan_file (fst f) (snd f) = []) \<and>
     (python_file (fst f) \<and> list_ex (\<lambda>dir. under dir (fst f)) LIBS_ROOTS \<longrightarrow> scan_libs_file (fst f) (snd f) = [])"
  by (cases f) (auto simp: respects_boundaries_def scan_file_Nil scan_libs_file_Nil)

text \<open>
  The boundary check passes exactly when every Python file of a service imports, by absolute name, only modules of its own
  service or of none, and every file of the shared libraries only modules of none; and it does not see an import that
  names the service after \<open>from services import\<close> or by a relative path: adding one changes nothing.
\<close>

theorem boundaries_pass_iff:
  "(boundaries_main files = 0 \<longleftrightarrow> list_all respects_boundaries files) \<and>
   boundaries_main (map (\<lambda>(p, nodes). (p, ImportFrom l (Some ''services'') 0 names # ImportFrom l m (Suc level) names # nodes)) files) =
     boundaries_main files"
proof -
  have main: "boundaries_main files = 0 \<longleftrightarrow> list_all respects_boundaries files" for files
    by (simp add: boundaries_main_def boundary_violations_def concat_map_Nil list_all_iff respects_iff owner_iff case_prod_beta) (metis fst_conv snd_conv)
  have "module_to_service ''services'' = None" by code_simp
  then have "respects_boundaries (p, ImportFrom l (Some ''services'') 0 names # ImportFrom l m (Suc level) names # nodes) =
      respects_boundaries (p, nodes)" for p nodes
    by (auto simp: respects_boundaries_def imported_def may_import_def)
  then have "list_all respects_boundaries
      (map (\<lambda>(p, nodes). (p, ImportFrom l (Some ''services'') 0 names # ImportFrom l m (Suc level) names # nodes)) files) \<longleftrightarrow>
      list_all respects_boundaries files" by (simp add: list_all_iff case_prod_beta)
  moreover have "boundaries_main fs = 0 \<or> boundaries_main fs = 1" for fs by (simp add: boundaries_main_def)
  ultimately show ?thesis using main by metis
qed

subsection \<open>What the Markdown check skips\<close>

lemma wild_literal: "CHR ''*'' \<notin> set p \<Longrightarrow> wild p s \<longleftrightarrow> s = p"
  by (induction p s rule: wild.induct) auto

text \<open>
  The pages directly under \<open>docs/\<close> are never checked in CI. The glob that collects the files finds them, but the match
  that classifies them reads \<open>**\<close> as exactly one directory: such a file has no check level and is skipped, whatever it
  contains, unless it is called README.md or CV.md.
\<close>

theorem top_level_docs_unchecked:
  assumes "f \<noteq> ''README.md''" and "f \<noteq> ''CV.md''" and "wild ''*.md'' f"
  shows "ci_files [[''docs'', f]] = [[''docs'', f]] \<and> docs_main exists resolve read [[''docs'', f]] = 0"
proof -
  have "wild ''docs'' ''docs''" "\<not> wild ''.github'' ''docs''" "\<not> wild ''README.md'' f" "\<not> wild ''CV.md'' f"
    using assms(1,2) by (simp_all add: wild_literal)
  then have "classify_check_level [''docs'', f] = None" "ci_files [[''docs'', f]] = [[''docs'', f]]"
    using assms(3)
    by (simp_all add: classify_check_level_def path_matches_any_def path_match_def STRICT_MD_GLOBS_def RELAXED_MD_GLOBS_def ci_files_def
        del: wild.simps)
  then show ?thesis by (simp add: docs_main_def docs_errors_def)
qed

theorem top_level_docs_unchecked_witness:
  "docs_main (\<lambda>p. False) (\<lambda>b t. []) (\<lambda>p. ''[x](y)'') [[''docs'', ''cloud-deployment.md'']] = 0 \<and>
   docs_main (\<lambda>p. False) (\<lambda>b t. []) (\<lambda>p. ''[x](y)'') [[''docs'', ''adr'', ''cloud-deployment.md'']] = 1"
proof -
  have "wild ''*.md'' ''cloud-deployment.md''" by code_simp
  from top_level_docs_unchecked [OF _ _ this]
  have "docs_main (\<lambda>p. False) (\<lambda>b t. []) (\<lambda>p. ''[x](y)'') [[''docs'', ''cloud-deployment.md'']] = 0" by simp
  moreover have "docs_main (\<lambda>p. False) (\<lambda>b t. []) (\<lambda>p. ''[x](y)'') [[''docs'', ''adr'', ''cloud-deployment.md'']] = 1" by code_simp
  ultimately show ?thesis by simp
qed

lemma relaxed_fold:
  "fold (check_line exists resolve p CHECK_RELAXED) (enumerate k ls) (errors, b) =
     (errors, b \<noteq> odd (length (filter (\<lambda>l. startswith l ''```'') ls)))"
  by (induction ls arbitrary: k b) (auto simp: check_line_def Let_def)

text \<open>The relaxed check reports exactly an odd number of fence lines.\<close>

lemma relaxed_check:
  "check_file exists resolve read p CHECK_RELAXED =
     (if odd (length (filter (\<lambda>l. startswith l ''```'') (splitlines (read p)))) then [Unclosed_Fence] else [])"
  using relaxed_fold [of exists resolve p 1 "splitlines (read p)" "[]" False] by (simp add: check_file_def)

end
