(* ===== verification/Repo_Tools.thy ===== *)
theory Repo_Tools
  imports Text_Lines
begin

text \<open>
  The remaining maintenance scripts: the Dependabot age gate \<open>scripts/ci/dependabot_age_gate.py\<close>, the audit wrapper
  \<open>scripts/ci/pip_audit_wrapper.py\<close>, the weekly report \<open>scripts/tools/generate-weekly-portfolio-report.py\<close> and the
  selections of \<open>alembic/env.py\<close>. What GitHub, PyPI, git and the audit tool answer are arguments, and so are
  \<open>datetime.fromisoformat\<close> with an offset and the TOML reader. Regular expressions are written out as scanners.
\<close>

subsection \<open>Scanning\<close>

text \<open>\<open>s.replace(old, new)\<close> for a non-empty \<open>old\<close>; \<open>n\<close> bounds the characters that remain.\<close>

fun replace_upto :: "nat \<Rightarrow> string \<Rightarrow> string \<Rightarrow> string \<Rightarrow> string" where
  "replace_upto 0 old new s = s"
| "replace_upto (Suc n) old new [] = []"
| "replace_upto (Suc n) old new (c # cs) =
     (if startswith (c # cs) old then new @ replace_upto n old new (drop (length old) (c # cs))
      else c # replace_upto n old new cs)"

definition replace :: "string \<Rightarrow> string \<Rightarrow> string \<Rightarrow> string" where
  "replace old new s = replace_upto (length s) old new s"

text \<open>\<open>s.strip(chars)\<close>.\<close>

definition strip_chars :: "string \<Rightarrow> string \<Rightarrow> string" where
  "strip_chars chars s = rev (dropWhile (\<lambda>c. c \<in> set chars) (rev (dropWhile (\<lambda>c. c \<in> set chars) s)))"

text \<open>The text before and after the first occurrence.\<close>

fun split_first :: "string \<Rightarrow> string \<Rightarrow> (string \<times> string) option" where
  "split_first sep [] = (if sep = [] then Some ([], []) else None)"
| "split_first sep (c # cs) =
     (if startswith (c # cs) sep then Some ([], drop (length sep) (c # cs))
      else map_option (\<lambda>(a, b). (c # a, b)) (split_first sep cs))"

text \<open>One or more characters of a class, a literal, one or more blanks.\<close>

definition scan_many :: "(char \<Rightarrow> bool) \<Rightarrow> string \<Rightarrow> (string \<times> string) option" where
  "scan_many P s = (let w = takeWhile P s in if w = [] then None else Some (w, dropWhile P s))"

definition scan_lit :: "string \<Rightarrow> string \<Rightarrow> string option" where
  "scan_lit l s = (if startswith s l then Some (drop (length l) s) else None)"

definition scan_blanks :: "string \<Rightarrow> string option" where
  "scan_blanks s = map_option snd (scan_many (\<lambda>c. c = CHR '' '') s)"

definition alnum :: "char \<Rightarrow> bool" where
  "alnum c = (let n = (of_char c :: nat) in 48 \<le> n \<and> n \<le> 57 \<or> 65 \<le> n \<and> n \<le> 90 \<or> 97 \<le> n \<and> n \<le> 122)"

subsection \<open>The age gate\<close>

definition MIN_DAYS :: rat where "MIN_DAYS = 7"

text \<open>\<open>Bump[ ]+(?P<name>...)[ ]+from[ ]+(?P<old>[^ ]+)[ ]+to[ ]+(?P<new>[^ ]+)\<close> at the start of the title.\<close>

definition name_char :: "char \<Rightarrow> bool" where
  "name_char c \<longleftrightarrow> alnum c \<or> c \<in> set ''_.-''"

definition parse_from_title :: "string \<Rightarrow> (string \<times> string) option" where
  "parse_from_title title =
     Option.bind (scan_lit ''Bump'' title) (\<lambda>s1. Option.bind (scan_blanks s1) (\<lambda>s2.
     Option.bind (scan_many name_char s2) (\<lambda>(name, s3). Option.bind (scan_blanks s3) (\<lambda>s4.
     Option.bind (scan_lit ''from'' s4) (\<lambda>s5. Option.bind (scan_blanks s5) (\<lambda>s6.
     Option.bind (scan_many (\<lambda>c. c \<noteq> CHR '' '') s6) (\<lambda>(old, s7). Option.bind (scan_blanks s7) (\<lambda>s8.
     Option.bind (scan_lit ''to'' s8) (\<lambda>s9. Option.bind (scan_blanks s9) (\<lambda>s10.
     map_option (\<lambda>(new, _). (name, new)) (scan_many (\<lambda>c. c \<noteq> CHR '' '') s10)))))))))))"

definition version_char :: "char \<Rightarrow> bool" where
  "version_char c \<longleftrightarrow> alnum c \<or> c \<in> set ''.-+''"

text \<open>One separator on an added line: the name and the start of the version.\<close>

definition parse_with :: "string \<Rightarrow> string \<Rightarrow> (string \<times> string) option" where
  "parse_with sep line =
     Option.bind (split_first sep line) (\<lambda>(a, b).
       let name = strip_chars [CHR 0x22, CHR 0x27] (strip a);
           ver = strip_chars [CHR 0x22, CHR 0x27] (strip_chars '','' (strip b))
       in map_option (\<lambda>(v, _). (name, v)) (scan_many version_char ver))"

definition first_some :: "('a \<Rightarrow> 'b option) \<Rightarrow> 'a list \<Rightarrow> 'b option" where
  "first_some f xs = Option.bind (find (\<lambda>x. f x \<noteq> None) xs) f"

definition parse_added_line :: "string \<Rightarrow> (string \<times> string) option" where
  "parse_added_line line =
     (if startswith line ''+'' then first_some (\<lambda>sep. parse_with sep (strip (tl line))) [''=='', ''='', '':''] else None)"

text \<open>\<open>find_in_files\<close>: the status of the listing and the patches of its files.\<close>

definition find_in_files :: "int \<times> string option list \<Rightarrow> (string \<times> string) option" where
  "find_in_files listing =
     (case listing of (status, patches) \<Rightarrow>
        if status \<noteq> 200 then None
        else first_some (\<lambda>p. first_some parse_added_line (splitlines (case p of None \<Rightarrow> [] | Some s \<Rightarrow> s))) patches)"

record release_file =
  rf_iso :: "string option"
  rf_plain :: "string option"

definition upload_time :: "release_file \<Rightarrow> string option" where
  "upload_time f = (case rf_iso f of Some s \<Rightarrow> if s = [] then rf_plain f else Some s | None \<Rightarrow> rf_plain f)"

text \<open>A parsed time is aware or naive, and its instant; the smallest of mixed ones raises \<open>TypeError\<close>.\<close>

definition release_times :: "(string \<Rightarrow> (bool \<times> datetime) option) \<Rightarrow> release_file list \<Rightarrow> (bool \<times> datetime) list" where
  "release_times fromiso fs =
     List.map_filter (\<lambda>f. case upload_time f of
         None \<Rightarrow> None
       | Some t \<Rightarrow> if t = [] then None
                   else fromiso (if endswith t ''Z'' then replace ''Z'' ''+00:00'' t else t)) fs"

definition pypi_release_time ::
  "(string \<Rightarrow> (bool \<times> datetime) option) \<Rightarrow> (string \<Rightarrow> int \<times> (string \<times> release_file list) list) \<Rightarrow> string \<Rightarrow> string \<Rightarrow>
   datetime option outcome"
where
  "pypi_release_time fromiso pypi package version =
     (case pypi package of (status, releases) \<Rightarrow>
        if status \<noteq> 200 then Inr None
        else (case map_of releases version of
                None \<Rightarrow> Inr None
              | Some files \<Rightarrow>
                  (case release_times fromiso files of
                     [] \<Rightarrow> Inr None
                   | t # ts \<Rightarrow>
                       if list_all (\<lambda>u. fst u = fst t) ts then Inr (Some (Min (snd ` set (t # ts))))
                       else Inl (TypeError ''can't compare offset-naive and offset-aware datetimes''))))"

record pr_event =
  ev_complete :: bool
  ev_author :: string
  ev_title :: string

datatype gh_call = Post_Comment string string rat | Ensure_Label string | Add_Label string

definition comment_and_close :: "string \<Rightarrow> string \<Rightarrow> rat \<Rightarrow> gh_call list" where
  "comment_and_close package version age_days =
     [Post_Comment package version age_days, Ensure_Label ''early-dependency'', Add_Label ''early-dependency'']"

text \<open>\<open>main\<close>: the calls that change the pull request.\<close>

definition gate ::
  "(string \<Rightarrow> (bool \<times> datetime) option) \<Rightarrow> (string \<Rightarrow> int \<times> (string \<times> release_file list) list) \<Rightarrow> int \<times> string option list \<Rightarrow>
   datetime \<Rightarrow> pr_event \<Rightarrow> gh_call list outcome"
where
  "gate fromiso pypi listing now ev =
     (if \<not> ev_complete ev then Inr []
      else if \<not> startswith (lower (ev_author ev)) ''dependabot'' then Inr []
      else (case (case parse_from_title (ev_title ev) of Some f \<Rightarrow> Some f | None \<Rightarrow> find_in_files listing) of
              None \<Rightarrow> Inr []
            | Some (package, version) \<Rightarrow>
                try_bind (pypi_release_time fromiso pypi package version) (\<lambda>released.
                  case released of
                    None \<Rightarrow> Inr []
                  | Some t \<Rightarrow>
                      let age = of_int (now - t) / (86400 * 1000000)
                      in Inr (if age < MIN_DAYS then comment_and_close package version age else []))))"

subsection \<open>The audit wrapper\<close>

text \<open>\<open>^\s*([A-Za-z0-9_.+\-]+)==([^\s;]+)\<close>: the name.\<close>

definition requirement_char :: "char \<Rightarrow> bool" where
  "requirement_char c \<longleftrightarrow> alnum c \<or> c \<in> set ''_.+-''"

definition pinned_name :: "string \<Rightarrow> string option" where
  "pinned_name line =
     Option.bind (scan_many requirement_char (dropWhile is_space line)) (\<lambda>(name, r1). Option.bind (scan_lit ''=='' r1) (\<lambda>r2.
       map_option (\<lambda>_. name) (scan_many (\<lambda>c. \<not> is_space c \<and> c \<noteq> CHR '';'') r2)))"

definition filter_requirements :: "string list \<Rightarrow> string \<Rightarrow> string list" where
  "filter_requirements top_names text =
     filter (\<lambda>line. case pinned_name line of None \<Rightarrow> False | Some n \<Rightarrow> lower n \<in> set top_names) (splitlines text)"

text \<open>The \<open>project.dependencies\<close> and the Poetry dependencies of the TOML file, \<open>None\<close> when absent.\<close>

definition top_level_packages :: "string list option \<Rightarrow> string list option \<Rightarrow> string list" where
  "top_level_packages deps poetry =
     map lower (List.map_filter (\<lambda>d. map_option fst (scan_many requirement_char (dropWhile is_space d)))
                  (case deps of None \<Rightarrow> [] | Some ds \<Rightarrow> ds)) @
     map lower (filter (\<lambda>k. k \<noteq> ''python'') (case poetry of None \<Rightarrow> [] | Some ks \<Rightarrow> ks))"

text \<open>\<open>generate_requirements\<close>: the file as it is afterwards; an export that fails ends the process with code 2.\<close>

definition generate_requirements :: "string option \<Rightarrow> string outcome \<Rightarrow> string option \<times> string outcome" where
  "generate_requirements existing export =
     (case existing of
        Some text \<Rightarrow> (existing, Inr text)
      | None \<Rightarrow> (case export of Inl e \<Rightarrow> (None, Inl e) | Inr out \<Rightarrow> (Some out, Inr out)))"

text \<open>\<open>main\<close>: the exit code. \<open>audit\<close> runs the tool on the lines of a requirements file.\<close>

definition audit_main :: "(string list \<Rightarrow> int \<times> string) \<Rightarrow> string outcome \<Rightarrow> string list \<Rightarrow> int" where
  "audit_main audit requirements top_names =
     (case requirements of
        Inl e \<Rightarrow> 2
      | Inr text \<Rightarrow>
          (case audit (splitlines text) of (rc, out) \<Rightarrow>
             if rc = 0 then 0
             else if contains out ''ResolutionImpossible'' \<or> contains out ''Cannot install'' then
               (if top_names = [] then 2
                else let filtered = filter_requirements top_names text
                     in if filtered = [] then 2 else fst (audit filtered))
             else rc))"

definition audit_script ::
  "(string list \<Rightarrow> int \<times> string) \<Rightarrow> string outcome \<Rightarrow> string list \<Rightarrow> string option \<Rightarrow> string option \<times> int"
where
  "audit_script audit export top_names existing =
     (case generate_requirements existing export of (f, requirements) \<Rightarrow> (f, audit_main audit requirements top_names))"

text \<open>The exported file is never renewed: whatever is exported later, the audit sees the first export.\<close>

lemma audit_keeps_first_export:
  "audit_script audit (Inr out) names None = (Some out, audit_main audit (Inr out) names) \<and>
   audit_script audit export names (Some out) = (Some out, audit_main audit (Inr out) names)"
  by (simp add: audit_script_def generate_requirements_def)

subsection \<open>The weekly report\<close>

text \<open>What git answers to its arguments: the exit code and the two streams.\<close>

type_synonym git = "string list \<Rightarrow> int \<times> string \<times> string"

definition run_git :: "git \<Rightarrow> string list \<Rightarrow> string outcome" where
  "run_git git args =
     (case git args of (rc, out, err) \<Rightarrow>
        if rc \<noteq> 0 then Inl (RuntimeError (if strip err = [] then ''git command failed'' else strip err)) else Inr (strip out))"

definition since_arg :: "int \<Rightarrow> string" where
  "since_arg since_days = ''--since='' @ show_int since_days @ '' days ago''"

definition collect_commits :: "git \<Rightarrow> int \<Rightarrow> string list outcome" where
  "collect_commits git since_days =
     map_sum id (\<lambda>output. filter (\<lambda>l. strip l \<noteq> []) (splitlines output))
       (run_git git [''log'', since_arg since_days, ''--pretty=format:- %h %ad %s'', ''--date=short''])"

definition collect_changed_files :: "git \<Rightarrow> int \<Rightarrow> string list outcome" where
  "collect_changed_files git since_days =
     map_sum id (\<lambda>output. map strip (filter (\<lambda>l. strip l \<noteq> []) (splitlines output)))
       (run_git git [''log'', since_arg since_days, ''--name-only'', ''--pretty=format:''])"

text \<open>\<open>Counter(files).most_common(limit)\<close>: first seen first among equal counts.\<close>

definition counts :: "string list \<Rightarrow> (string \<times> nat) list" where
  "counts files = map (\<lambda>p. (p, count_list files p)) (rev (remdups (rev files)))"

definition top_paths :: "string list \<Rightarrow> nat \<Rightarrow> string list" where
  "top_paths files limit =
     map (\<lambda>(p, n). ''- '' @ p @ '' ('' @ show_nat n @ '' touches)'')
       (take limit (sort_key (\<lambda>(p, n). - int n) (counts files)))"

definition render_report :: "string \<Rightarrow> string \<Rightarrow> string \<Rightarrow> int \<Rightarrow> string list \<Rightarrow> string list \<Rightarrow> string" where
  "render_report template week_label today since_days commits changed_paths =
     (let commit_block = (if commits = [] then ''- No commits found in selected window'' else join_with [CHR 0x0A] commits);
          path_block = (if changed_paths = [] then ''- No changed files found'' else join_with [CHR 0x0A] changed_paths)
      in replace ''{{TOP_CHANGED_PATHS}}'' path_block (replace ''{{COMMIT_SUMMARY}}'' commit_block
           (replace ''{{SINCE_DAYS}}'' (show_int since_days) (replace ''{{DATE}}'' today (replace ''{{WEEK_LABEL}}'' week_label template)))))"

definition resolve_week_label :: "string option \<Rightarrow> string \<Rightarrow> string" where
  "resolve_week_label explicit_label today =
     (case explicit_label of None \<Rightarrow> ''Week ending '' @ today
      | Some l \<Rightarrow> if l = [] then ''Week ending '' @ today else l)"

text \<open>
  \<open>main\<close> from the parsed arguments: the file it writes, if any, and the exit code. A path is its text; \<open>repo\<close> is the
  repository, which \<open>relative_to\<close> wants as a prefix of what was written. Making the directory is left out.
\<close>

definition report_main ::
  "git \<Rightarrow> string \<Rightarrow> string option \<Rightarrow> string \<Rightarrow> int \<Rightarrow> string option \<Rightarrow> string option \<Rightarrow> (string \<times> string) option \<times> int outcome"
where
  "report_main git repo template today since_days week_label output =
     (case template of
        None \<Rightarrow> (None, Inl (OtherException ''SystemExit: Template not found''))
      | Some tpl \<Rightarrow>
          (case try_bind (collect_commits git since_days) (\<lambda>commits.
                  try_bind (collect_changed_files git since_days) (\<lambda>files.
                    Inr (render_report tpl (resolve_week_label week_label today) today since_days commits (top_paths files 8)))) of
             Inl e \<Rightarrow> (None, Inl e)
           | Inr rendered \<Rightarrow>
               let path = (case output of None \<Rightarrow> repo @ ''/docs/progress/weekly-progress-'' @ today @ ''.md'' | Some p \<Rightarrow> p)
               in (Some (path, rendered),
                   if path = repo \<or> startswith path (repo @ ''/'') then Inr 0
                   else Inl (ValueError (path @ '' is not in the subpath of '' @ repo)))))"

text \<open>
  An output path outside the repository, such as any relative one, ends the script with an error after the report has been
  written; without an output the report goes to its default path and the exit code is 0, unless git fails.
\<close>

lemma report_outcome:
  assumes "collect_commits git n = Inr cs" and "collect_changed_files git n = Inr fs"
  shows "(\<exists>text. report_main git repo (Some tpl) today n label None =
      (Some (repo @ ''/docs/progress/weekly-progress-'' @ today @ ''.md'', text), Inr 0)) \<and>
    (p \<noteq> repo \<longrightarrow> \<not> startswith p (repo @ ''/'') \<longrightarrow>
      (\<exists>text msg. report_main git repo (Some tpl) today n label (Some p) = (Some (p, text), Inl (ValueError msg))))"
  using assms by (simp add: report_main_def Let_def startswith_def)

subsection \<open>Migrations\<close>

definition include_object :: "string option \<Rightarrow> string \<Rightarrow> bool \<Rightarrow> bool" where
  "include_object name kind reflected \<longleftrightarrow>
     \<not> (kind = ''table'' \<and> reflected \<and>
        (case name of None \<Rightarrow> False | Some n \<Rightarrow> n = ''records_archive'' \<or> startswith n ''records_archive_''))"

definition sync_url :: "string option \<Rightarrow> string \<Rightarrow> string" where
  "sync_url config_url database_url =
     (case config_url of Some u \<Rightarrow> if u \<noteq> [] then u else replace ''postgresql+asyncpg://'' ''postgresql+psycopg://'' database_url
      | None \<Rightarrow> replace ''postgresql+asyncpg://'' ''postgresql+psycopg://'' database_url)"

subsection \<open>What the gate decides\<close>

lemma scan_lit_append [simp]: "scan_lit l (l @ s) = Some s"
  by (simp add: scan_lit_def startswith_def)

lemma scan_many_append:
  assumes "w \<noteq> []" and "list_all P w" and "rest = [] \<or> \<not> P (hd rest)"
  shows "scan_many P (w @ rest) = Some (w, rest)"
proof -
  have "takeWhile P (w @ rest) = w" "dropWhile P (w @ rest) = rest"
    using assms(2,3) by (cases rest; simp add: takeWhile_append2 dropWhile_append2 list_all_iff)+
  then show ?thesis using assms(1) by (simp add: scan_many_def Let_def)
qed

lemma scan_blanks_append: "s = [] \<or> hd s \<noteq> CHR '' '' \<Longrightarrow> scan_blanks ('' '' @ s) = Some s"
  using scan_many_append [of "'' ''" "\<lambda>c. c = CHR '' ''" s] by (simp add: scan_blanks_def)

definition blank_free :: "string \<Rightarrow> bool" where
  "blank_free w \<longleftrightarrow> w \<noteq> [] \<and> list_all (\<lambda>c. c \<noteq> CHR '' '') w"

definition package_name :: "string \<Rightarrow> bool" where
  "package_name w \<longleftrightarrow> w \<noteq> [] \<and> list_all name_char w"

definition bump_title :: "string \<Rightarrow> string \<Rightarrow> string \<Rightarrow> string" where
  "bump_title name old new = ''Bump'' @ '' '' @ name @ '' '' @ ''from'' @ '' '' @ old @ '' '' @ ''to'' @ '' '' @ new"

lemma blank_no_name: "\<not> name_char (CHR '' '')"
  by code_simp

lemma hd_not_blank: "blank_free w \<Longrightarrow> hd (w @ s) \<noteq> CHR '' ''" "package_name w \<Longrightarrow> hd (w @ s) \<noteq> CHR '' ''"
  using blank_no_name by (cases w; auto simp: blank_free_def package_name_def)+

lemma parse_bump_title:
  assumes "package_name name" and "blank_free old" and "blank_free new"
  shows "parse_from_title (bump_title name old new) = Some (name, new)"
proof -
  have name: "scan_many name_char (name @ '' '' @ r) = Some (name, '' '' @ r)" for r
    using assms(1) blank_no_name by (intro scan_many_append) (auto simp: package_name_def)
  have word: "scan_many (\<lambda>c. c \<noteq> CHR '' '') (w @ r) = Some (w, r)" if "blank_free w" "r = [] \<or> hd r = CHR '' ''" for w r
    using that by (intro scan_many_append) (auto simp: blank_free_def)
  have b1: "scan_blanks ('' '' @ name @ r) = Some (name @ r)" for r using hd_not_blank(2) [OF assms(1)] by (intro scan_blanks_append) simp
  have b2: "scan_blanks ('' '' @ old @ r) = Some (old @ r)" for r using hd_not_blank(1) [OF assms(2)] by (intro scan_blanks_append) simp
  have b3: "scan_blanks ('' '' @ new) = Some new" using hd_not_blank(1) [OF assms(3), of "[]"] by (intro scan_blanks_append) simp
  have b4: "scan_blanks ('' '' @ ''from'' @ r) = Some (''from'' @ r)" "scan_blanks ('' '' @ ''to'' @ r) = Some (''to'' @ r)" for r
    by (intro scan_blanks_append; simp)+
  have old: "scan_many (\<lambda>c. c \<noteq> CHR '' '') (old @ '' '' @ r) = Some (old, '' '' @ r)" for r by (rule word [OF assms(2)]) simp
  have new: "scan_many (\<lambda>c. c \<noteq> CHR '' '') new = Some (new, [])" using word [OF assms(3), of "[]"] by simp
  show ?thesis
    unfolding parse_from_title_def bump_title_def
    by (simp only: scan_lit_append bind.bind_lunit name old new b1 b2 b3 b4 prod.case option.map)
qed

text \<open>
  The gate labels exactly the young releases. For a Dependabot pull request with a title of the usual form, whose target
  version PyPI lists with upload times that parse and carry an offset, the gate comments and labels when the earliest
  upload is less than seven days old, and otherwise does nothing; it never closes the pull request.
\<close>

theorem gate_labels_young_releases:
  fixes now :: datetime
  assumes "ev_complete ev" and "startswith (lower (ev_author ev)) ''dependabot''" and "ev_title ev = bump_title name old new"
    and "package_name name" and "blank_free old" and "blank_free new"
    and "pypi name = (200, releases)" and "map_of releases new = Some files"
    and "release_times fromiso files = ts" and "ts \<noteq> []" and "list_all fst ts"
  defines "age \<equiv> (of_int (now - Min (snd ` set ts)) / (86400 * 1000000) :: rat)"
  shows "gate fromiso pypi listing now ev =
    Inr (if age < 7 then [Post_Comment name new age, Ensure_Label ''early-dependency'', Add_Label ''early-dependency''] else [])"
proof -
  obtain t us where ts: "ts = t # us" using assms(10) by (cases ts) auto
  have "list_all (\<lambda>u. fst u = fst t) us" using assms(11) by (simp add: ts list_all_iff)
  then have "pypi_release_time fromiso pypi name new = Inr (Some (Min (snd ` set ts)))"
    using assms(7-9) by (simp add: pypi_release_time_def ts)
  then show ?thesis
    using assms(1,2) parse_bump_title [OF assms(4-6)]
    by (simp add: gate_def assms(3) comment_and_close_def MIN_DAYS_def age_def Let_def)
qed

theorem gate_labels_young_releases_witness:
  "gate (\<lambda>s. if s = ''t'' then Some (True, 0) else None) (\<lambda>p. (200, [(''2.0'', [\<lparr>rf_iso = Some ''t'', rf_plain = None\<rparr>])])) (404, [])
     86400000000 \<lparr>ev_complete = True, ev_author = ''dependabot[bot]'', ev_title = bump_title ''fastapi'' ''1.0'' ''2.0''\<rparr> =
   Inr [Post_Comment ''fastapi'' ''2.0'' 1, Ensure_Label ''early-dependency'', Add_Label ''early-dependency'']"
proof -
  have "package_name ''fastapi''" "blank_free ''1.0''" "blank_free ''2.0''" "startswith (lower ''dependabot[bot]'') ''dependabot''"
    "release_times (\<lambda>s. if s = ''t'' then Some (True, 0) else None) [\<lparr>rf_iso = Some ''t'', rf_plain = None\<rparr>] = [(True, 0)]"
    by code_simp+
  from gate_labels_young_releases [where ev = "\<lparr>ev_complete = True, ev_author = ''dependabot[bot]'', ev_title = bump_title ''fastapi'' ''1.0'' ''2.0''\<rparr>",
    OF _ _ _ this(1-3) _ _ this(5), where pypi = "\<lambda>p. (200, [(''2.0'', [\<lparr>rf_iso = Some ''t'', rf_plain = None\<rparr>])])" and now = 86400000000 and listing = "(404, [])"] this(4)
  show ?thesis by simp
qed

text \<open>
  A lower bound is looked up under a wrong name: an added line such as \<open>fastapi>=0.136.1\<close> is split at its equals sign, so
  the name that goes to PyPI ends in a greater-than sign.
\<close>

lemma lower_bound_misread: "parse_added_line ''+fastapi>=0.136.1'' = Some (''fastapi>'', ''0.136.1'')"
  by code_simp

end
