(* ===== verification/Seed_Data.thy ===== *)
theory Seed_Data
  imports Records_Routes Crud_Laws
begin

text \<open>
  \<open>scripts/testing/seed_data.py\<close>: the load-test data and the loop that posts it in batches, and what it does to a running
  ingestor, whose batch route is the model of \<open>Records_Routes\<close>. A request is a step of an arbitrary server state; a status
  of 400 or more is the \<open>HTTPError\<close> of \<open>raise_for_status\<close>.
\<close>

definition BATCH_SIZE :: nat where "BATCH_SIZE = 1000"

definition SOURCES :: "string list" where
  "SOURCES = [''sensor-alpha'', ''sensor-beta'', ''api-ingest'', ''etl-pipeline'', ''webhook-receiver'']"

definition base_ts :: datetime where
  "base_ts = int (day_of 2024 1 1) * micros_per_day"

definition seed_time :: "nat \<Rightarrow> datetime" where
  "seed_time idx = base_ts + int idx * micros_per_second"

definition seed_record :: "nat \<Rightarrow> raw_request" where
  "seed_record idx =
     \<lparr>raw_source = SOURCES ! (idx mod length SOURCES), raw_timestamp = Some \<lparr>wall_clock = seed_time idx, tzinfo = Some 0\<rparr>,
      raw_data_in = [(''value'', JInt (int idx)), (''batch'', JInt (int (idx div BATCH_SIZE)))],
      raw_tags = [''tag-'' @ show_nat (idx mod 10), ''bucket-'' @ show_nat (idx mod 5)]\<rparr>"

definition make_records :: "nat \<Rightarrow> nat \<Rightarrow> raw_request list" where
  "make_records cnt offset = map (\<lambda>i. seed_record (offset + i)) [0..<cnt]"

text \<open>The loop over the batches, \<open>n\<close> of them left.\<close>

primrec seed_loop :: "nat \<Rightarrow> nat \<Rightarrow> nat \<Rightarrow> (raw_request list \<Rightarrow> 's \<Rightarrow> unit outcome \<times> 's) \<Rightarrow> 's \<Rightarrow> nat outcome \<times> 's" where
  "seed_loop 0 amount so_far post s = (Inr so_far, s)"
| "seed_loop (Suc n) amount so_far post s =
     (let cnt = min BATCH_SIZE (amount - so_far)
      in (case post (make_records cnt so_far) s of
            (Inl e, s') \<Rightarrow> (Inl e, s')
          | (Inr _, s') \<Rightarrow> seed_loop n amount  (so_far + cnt) post s'))"

definition seed ::
  "unit outcome \<Rightarrow> (raw_request list \<Rightarrow> 's \<Rightarrow> unit outcome \<times> 's) \<Rightarrow> nat \<Rightarrow> 's \<Rightarrow> nat outcome \<times> 's"
where
  "seed health post amount s =
     (case health of
        Inl (HTTPError m) \<Rightarrow> (Inl (OtherException ''SystemExit: 1''), s)
      | Inl e \<Rightarrow> (Inl e, s)
      | Inr _ \<Rightarrow> seed_loop ((amount + BATCH_SIZE - 1) div BATCH_SIZE) amount 0 post s)"

subsection \<open>The batches\<close>

definition seed_request :: "nat \<Rightarrow> record_request" where
  "seed_request idx =
     \<lparr>source = SOURCES ! (idx mod 5), timestamp = seed_time idx, data = raw_data_in (seed_record idx),
      tags = lowercase_tags (raw_tags (seed_record idx))\<rparr>"

lemma sources_ok: "list_all (\<lambda>s. validate_source s = Inr s) SOURCES"
  by code_simp

lemma seed_record_valid:
  assumes "seed_time idx \<le> now"
  shows "validate_record_request now (seed_record idx) = Inr (seed_request idx)"
proof -
  have "SOURCES ! (idx mod 5) \<in> set SOURCES" by (rule nth_mem) (simp add: SOURCES_def)
  then have "validate_source (SOURCES ! (idx mod 5)) = Inr (SOURCES ! (idx mod 5))"
    using sources_ok by (simp add: list_all_iff)
  moreover have "length SOURCES = 5" by (simp add: SOURCES_def)
  ultimately show ?thesis
    using assms unfolding validate_record_request_iff
    by (simp add: seed_record_def seed_request_def validate_timestamp_iff validate_tags_iff)
qed

lemma seed_time_mono: "i \<le> j \<Longrightarrow> seed_time i \<le> seed_time j"
  by (simp add: seed_time_def micros_per_second_def)

lemma seed_time_inj: "seed_time i = seed_time j \<longleftrightarrow> i = j"
  by (simp add: seed_time_def micros_per_second_def)

lemma seed_batch_valid:
  assumes "0 < n" and "n \<le> 1000" and "seed_time (k + n) \<le> now"
  shows "validate_batch now (make_records n k) = Inr (map seed_request [k..<k + n])"
proof -
  have "validate_record_request now (seed_record (k + i)) = Inr (seed_request (k + i))" if "i < n" for i
    using that assms(3) seed_time_mono [of "k + i" "k + n"] by (intro seed_record_valid) simp
  then have "traverse (\<lambda>i. validate_record_request now (seed_record (k + i))) [0..<n] = Inr (map (\<lambda>i. seed_request (k + i)) [0..<n])"
    by (intro traverse_all_ok) simp
  then have "traverse (validate_record_request now) (make_records n k) = Inr (map (\<lambda>i. seed_request (k + i)) [0..<n])"
    by (simp add: make_records_def traverse_def foldr_map o_def)
  moreover have "map (\<lambda>i. seed_request (k + i)) [0..<n] = map seed_request [k..<k + n]"
    by (rule nth_equalityI) simp_all
  ultimately show ?thesis
    using assms(1,2) by (simp add: validate_batch_def length_between_def make_records_def schema_bounds)
qed

subsection \<open>Against the ingestor\<close>

definition post_batch ::
  "('db, 'rd, 'k) env \<Rightarrow> req_clock \<Rightarrow> raw_request list \<Rightarrow> ('db, 'rd, 'k) app \<Rightarrow> unit outcome \<times> ('db, 'rd, 'k) app"
where
  "post_batch V t raws a =
     (case route_create_records_batch V t ''optimized'' raws a of
        (Inl e, a') \<Rightarrow> (Inl (HTTPError (exn_str e)), a')
      | (Inr _, a') \<Rightarrow> (Inr (), a'))"

text \<open>The rows that seeding the numbers below \<open>n\<close> creates, without their ids, and their keys.\<close>

definition seed_rows :: "datetime \<Rightarrow> nat list \<Rightarrow> row list" where
  "seed_rows now ns = map (\<lambda>i. record_of now (seed_request i)) ns"

definition seed_keys :: "nat list \<Rightarrow> (string \<times> datetime) set" where
  "seed_keys ns = (\<lambda>i. (source (seed_request i), seed_time i)) ` set ns"

definition stored_content :: "'db engine \<Rightarrow> 'db \<Rightarrow> row multiset" where
  "stored_content E db = mset (map content (rows E db))"

lemma seed_rows_keys: "row_key ` set (seed_rows now ns) = seed_keys ns" "distinct ns \<Longrightarrow> distinct (map row_key (seed_rows now ns))"
  by (auto simp: seed_rows_def seed_keys_def image_image o_def seed_request_def seed_time_inj distinct_map inj_on_def)

lemma seed_keys_append: "seed_keys (ns @ ms) = seed_keys ns \<union> seed_keys ms"
  by (auto simp: seed_keys_def)

lemma seed_keys_disjoint: "set ns \<inter> set ms = {} \<Longrightarrow> seed_keys ns \<inter> seed_keys ms = {}"
  by (auto simp: seed_keys_def seed_time_inj)

lemma post_batch_ok:
  assumes "record_store (eng V)" and "db_ok (eng V) (a_db a)" and "0 < n" and "n \<le> 1000" and "seed_time (k + n) \<le> wall t"
    and "seed_keys [k..<k + n] \<inter> row_key ` set (rows (eng V) (a_db a)) = {}"
  shows "\<exists>a'. post_batch V t (make_records n k) a = (Inr (), a') \<and> db_ok (eng V) (a_db a') \<and>
    stored_content (eng V) (a_db a') = stored_content (eng V) (a_db a) + mset (seed_rows (wall t) [k..<k + n]) \<and>
    row_key ` set (rows (eng V) (a_db a')) = row_key ` set (rows (eng V) (a_db a)) \<union> seed_keys [k..<k + n]"
proof -
  let ?qs = "map seed_request [k..<k + n]" and ?rs = "seed_rows (wall t) [k..<k + n]"
  have rs: "map (record_of (wall t)) ?qs = ?rs" by (simp add: seed_rows_def)
  obtain out db' where o: "sql_insert (eng V) ?rs (a_db a) = Inr (out, db')" "db_ok (eng V) db'"
    "mset (rows (eng V) db') = mset (rows (eng V) (a_db a)) + mset out" "mset (map content out) = mset (map content ?rs)"
    using record_store.insert_new [OF assms(1,2), of ?rs] seed_rows_keys [where now = "wall t" and ns = "[k..<k + n]"] assms(6) by auto
  have "map content ?rs = ?rs" by (simp add: seed_rows_def)
  then have con: "mset (map content out) = mset ?rs" using o(4) by simp
  have m: "mset (map content (rows (eng V) db')) = mset (map content (rows (eng V) (a_db a))) + mset (map content out)"
    using arg_cong [OF o(3), of "image_mset content"] by simp
  then have stored: "stored_content (eng V) db' = stored_content (eng V) (a_db a) + mset ?rs" unfolding stored_content_def m con ..
  have keys: "row_key ` set rs = row_key ` set_mset (mset (map content rs))" for rs by (simp add: image_image)
  have "row_key ` set (rows (eng V) db') = row_key ` set (rows (eng V) (a_db a)) \<union> seed_keys [k..<k + n]"
    unfolding keys stored [unfolded stored_content_def] by (simp add: image_Un image_image seed_rows_keys)
  moreover have "?qs \<noteq> []" using assms(3) by simp
  then have "create_records_batch (eng V) (wall t) ?qs (a_db a) = (Inr out, db')"
    using o(1) by (simp add: create_records_batch_def rs del: map_is_Nil_conv map_map)
  ultimately show ?thesis
    using o(2) stored by (simp add: post_batch_def route_create_records_batch_def seed_batch_valid [OF assms(3-5)] on_db_def Let_def
        count_metric_def)
qed

lemma seed_loop_ok:
  assumes "record_store (eng V)" and "seed_time amount \<le> wall t"
    and "so_far \<le> amount" and "(amount - so_far + 999) div 1000 = n"
    and "db_ok (eng V) (a_db a)" and "seed_keys [so_far..<amount] \<inter> row_key ` set (rows (eng V) (a_db a)) = {}"
  shows "\<exists>a'. seed_loop n amount so_far (post_batch V t) a = (Inr amount, a') \<and> db_ok (eng V) (a_db a') \<and>
    stored_content (eng V) (a_db a') = stored_content (eng V) (a_db a) + mset (seed_rows (wall t) [so_far..<amount]) \<and>
    row_key ` set (rows (eng V) (a_db a')) = row_key ` set (rows (eng V) (a_db a)) \<union> seed_keys [so_far..<amount]"
  using assms(3-6)
proof (induction n arbitrary: so_far a)
  case 0
  then have "so_far = amount" by simp
  then show ?case using 0 by (simp add: seed_rows_def seed_keys_def)
next
  case (Suc n)
  let ?c = "min 1000 (amount - so_far)"
  have c: "0 < ?c" "?c \<le> 1000" "so_far + ?c \<le> amount" using Suc.prems(1,2) by auto
  have split: "[so_far..<amount] = [so_far..<so_far + ?c] @ [so_far + ?c..<amount]"
    using c(3) upt_add_eq_append [of so_far "so_far + ?c" "amount - (so_far + ?c)"] by simp
  have "seed_time (so_far + ?c) \<le> wall t" using seed_time_mono [OF c(3)] assms(2) by simp
  from post_batch_ok [OF assms(1) Suc.prems(3) c(1,2) this] Suc.prems(4)
  obtain a1 where a1: "post_batch V t (make_records ?c so_far) a = (Inr (), a1)" "db_ok (eng V) (a_db a1)"
    "stored_content (eng V) (a_db a1) = stored_content (eng V) (a_db a) + mset (seed_rows (wall t) [so_far..<so_far + ?c])"
    "row_key ` set (rows (eng V) (a_db a1)) = row_key ` set (rows (eng V) (a_db a)) \<union> seed_keys [so_far..<so_far + ?c]"
    unfolding split seed_keys_append by blast
  have "seed_keys [so_far + ?c..<amount] \<inter> seed_keys [so_far..<so_far + ?c] = {}" by (rule seed_keys_disjoint) auto
  then have fresh: "seed_keys [so_far + ?c..<amount] \<inter> row_key ` set (rows (eng V) (a_db a1)) = {}"
    using Suc.prems(4) a1(4) unfolding split seed_keys_append by blast
  have "(amount - (so_far + ?c) + 999) div 1000 = n" using Suc.prems(1,2) by (cases "1000 \<le> amount - so_far") auto
  from Suc.IH [OF c(3) this a1(2) fresh]
  obtain a' where "seed_loop n amount (so_far + ?c) (post_batch V t) a1 = (Inr amount, a')" "db_ok (eng V) (a_db a')"
    "stored_content (eng V) (a_db a') = stored_content (eng V) (a_db a1) + mset (seed_rows (wall t) [so_far + ?c..<amount])"
    "row_key ` set (rows (eng V) (a_db a')) = row_key ` set (rows (eng V) (a_db a1)) \<union> seed_keys [so_far + ?c..<amount]" by blast
  moreover have "mset (seed_rows (wall t) [so_far..<amount]) =
      mset (seed_rows (wall t) [so_far..<so_far + ?c]) + mset (seed_rows (wall t) [so_far + ?c..<amount])"
    unfolding split by (simp add: seed_rows_def)
  moreover have "seed_loop (Suc n) amount so_far (post_batch V t) a = seed_loop n amount (so_far + ?c) (post_batch V t) a1"
    using a1(1) by (simp add: BATCH_SIZE_def Let_def)
  ultimately show ?case unfolding split seed_keys_append using a1(3,4) by (simp add: Un_assoc add.assoc) 
qed

text \<open>
  C18. Seeding works once. On a running ingestor whose database has none of the generated keys, the script posts its batches,
  every one of them valid and accepted, and the database then holds exactly one new row for each number below
  \<open>total\<close>; run again with the same or another positive total, it stops at its first batch with an error and changes nothing.
\<close>

theorem seeding_works_once:
  assumes "record_store (eng V)" and "db_ok (eng V) (a_db a)" and "seed_time amount \<le> wall t"
    and "seed_keys [0..<amount] \<inter> row_key ` set (rows (eng V) (a_db a)) = {}" and "0 < amount" and "0 < again"
    and "seed_time again \<le> wall t"
  shows "\<exists>a' e. seed (Inr ()) (post_batch V t) amount a = (Inr amount, a') \<and>
    stored_content (eng V) (a_db a') = stored_content (eng V) (a_db a) + mset (seed_rows (wall t) [0..<amount]) \<and>
    seed (Inr ()) (post_batch V t) again a' = (Inl (HTTPError e), a')"
proof -
  have "(amount - 0 + 999) div 1000 = (amount + BATCH_SIZE - 1) div BATCH_SIZE" by (simp add: BATCH_SIZE_def)
  from seed_loop_ok [OF assms(1,3) le0 this assms(2,4)]
  obtain a' where a': "seed (Inr ()) (post_batch V t) amount a = (Inr amount, a')" "db_ok (eng V) (a_db a')"
    "stored_content (eng V) (a_db a') = stored_content (eng V) (a_db a) + mset (seed_rows (wall t) [0..<amount])"
    "row_key ` set (rows (eng V) (a_db a')) = row_key ` set (rows (eng V) (a_db a)) \<union> seed_keys [0..<amount]"
    by (auto simp: seed_def)
  let ?c = "min 1000 again"
  have c: "0 < ?c" "?c \<le> 1000" "seed_time (0 + ?c) \<le> wall t"
    using assms(6,7) seed_time_mono [of ?c again] by auto
  let ?rs = "seed_rows (wall t) [0..<0 + ?c]"
  have "(source (seed_request 0), seed_time 0) \<in> seed_keys [0..<0 + ?c]" "(source (seed_request 0), seed_time 0) \<in> seed_keys [0..<amount]"
    using c(1) assms(5) by (auto simp: seed_keys_def)
  then have "row_key ` set ?rs \<inter> row_key ` set (rows (eng V) (a_db a')) \<noteq> {}"
    unfolding seed_rows_keys a'(4) by blast
  then have dup: "sql_insert (eng V) ?rs (a_db a') = Inl IntegrityError"
    using record_store.insert_dup [OF assms(1) a'(2)] by blast
  have rs: "map (record_of (wall t)) (map seed_request [0..<0 + ?c]) = ?rs" by (simp add: seed_rows_def)
  have "map seed_request [0..<0 + ?c] \<noteq> []" using c(1) by simp
  then have "create_records_batch (eng V) (wall t) (map seed_request [0..<0 + ?c]) (a_db a') = (Inl IntegrityError, a_db a')"
    using dup unfolding create_records_batch_def rs by simp
  then have "post_batch V t (make_records ?c 0) a' = (Inl (HTTPError ''IntegrityError''), a')"
    by (simp add: post_batch_def route_create_records_batch_def seed_batch_valid [OF c] on_db_def)
  moreover obtain n where "(again + BATCH_SIZE - 1) div BATCH_SIZE = Suc n"
    using assms(6) by (cases "(again + BATCH_SIZE - 1) div BATCH_SIZE") (auto simp: BATCH_SIZE_def)
  ultimately have "seed (Inr ()) (post_batch V t) again a' = (Inl (HTTPError ''IntegrityError''), a')"
    by (simp add: seed_def BATCH_SIZE_def)
  then show ?thesis using a'(1,3) by blast
qed

theorem seeding_works_once_witness:
  "\<exists>a' e. seed (Inr ()) (post_batch demo_env (clock_at (seed_time 3000))) 2500 (demo_app\<lparr>a_db := empty_db\<rparr>) = (Inr 2500, a') \<and>
     seed (Inr ()) (post_batch demo_env (clock_at (seed_time 3000))) 1 a' = (Inl (HTTPError e), a')"
proof -
  have "rows (eng demo_env) (a_db (demo_app\<lparr>a_db := empty_db\<rparr>)) = []" by (simp add: demo_env_def mem_engine_def empty_db_def)
  then show ?thesis
    using seeding_works_once [of demo_env "demo_app\<lparr>a_db := empty_db\<rparr>" 2500 "clock_at (seed_time 3000)" 1] demo_lawful(1)
    by (auto simp: demo_env_def clock_at_def seed_time_mono)
qed

end
