(* ===== verification/Migrations.thy ===== *)
theory Migrations
  imports Codec Repo_Tools
begin

text \<open>
  The database schema: the migrations of \<open>alembic/versions/\<close> as data, the tables that \<open>ingestor/models.py\<close> declares, and
  what a server that runs the migrations ends up with. The server is a parameter: a catalogue with a function that runs
  one statement. Its law, the locale \<open>ddl_catalog\<close>, is the documented effect of the statement on a catalogue without
  rows whose server offers the extension.
\<close>

subsection \<open>Schemas\<close>

datatype sql_type = SQL_Integer | SQL_String nat | SQL_DateTime | SQL_JSON | SQL_Boolean

record sql_column =
  co_name :: string
  co_type :: sql_type
  co_nullable :: bool
  co_default :: "string option"

record sql_table =
  tb_columns :: "sql_column list"
  tb_primary :: "string list"
  tb_uniques :: "(string \<times> string list) list"

text \<open>The columns of an index, with whether each is descending.\<close>

record sql_index =
  ix_table :: string
  ix_columns :: "(string \<times> bool) list"
  ix_unique :: bool
  ix_where :: "string option"

record schema =
  sc_tables :: "(string \<times> sql_table) list"
  sc_indexes :: "(string \<times> sql_index) list"
  sc_views :: "(string \<times> string \<times> string list) list"
  sc_partitions :: "(string \<times> string \<times> datetime \<times> datetime) list"
  sc_extensions :: "string list"

definition empty_schema :: schema where
  "empty_schema = \<lparr>sc_tables = [], sc_indexes = [], sc_views = [], sc_partitions = [], sc_extensions = []\<rparr>"

definition has_relation :: "schema \<Rightarrow> string \<Rightarrow> bool" where
  "has_relation s n \<longleftrightarrow>
     n \<in> set (map fst (sc_tables s) @ map fst (sc_indexes s) @ map fst (sc_views s) @ map fst (sc_partitions s))"

definition table_columns :: "schema \<Rightarrow> string \<Rightarrow> string list" where
  "table_columns s n = (case map_of (sc_tables s) n of None \<Rightarrow> [] | Some t \<Rightarrow> map co_name (tb_columns t))"

definition relation_columns :: "schema \<Rightarrow> string \<Rightarrow> string list" where
  "relation_columns s n =
     (case map_of (sc_partitions s) n of
        Some (parent, _) \<Rightarrow> table_columns s parent
      | None \<Rightarrow> (case map_of (sc_views s) n of Some (_, cs) \<Rightarrow> cs | None \<Rightarrow> table_columns s n))"

subsection \<open>Statements\<close>

datatype ddl =
    Create_Table string sql_table
  | Create_Table_If_Not_Exists string sql_table
  | Drop_Table string
  | Drop_Table_Cascade string
  | Add_Column string sql_column
  | Drop_Column string string
  | Create_Index string sql_index
  | Create_Index_If_Not_Exists string sql_index
  | Drop_Index string bool
  | Create_Unique string string "string list"
  | Drop_Constraint string string
  | Create_Extension string
  | Drop_Extension string
  | Create_View string string "string list"
  | Drop_View string
  | Create_Partition string string datetime datetime
  | Update_Rows string

definition without :: "string \<Rightarrow> (string \<times> 'a) list \<Rightarrow> (string \<times> 'a) list" where
  "without n xs = filter (\<lambda>x. fst x \<noteq> n) xs"

definition on_table :: "string \<Rightarrow> (sql_table \<Rightarrow> sql_table) \<Rightarrow> schema \<Rightarrow> schema option" where
  "on_table n f s =
     (if n \<in> set (map fst (sc_tables s)) then Some (s\<lparr>sc_tables := map (\<lambda>(m, t). (m, if m = n then f t else t)) (sc_tables s)\<rparr>)
      else None)"

text \<open>A dropped table takes its partitions and all their indexes with it.\<close>

definition drop_relations :: "string list \<Rightarrow> schema \<Rightarrow> schema" where
  "drop_relations ns s =
     s\<lparr>sc_tables := filter (\<lambda>(m, _). m \<notin> set ns) (sc_tables s),
       sc_indexes := filter (\<lambda>(_, i). ix_table i \<notin> set ns) (sc_indexes s),
       sc_views := filter (\<lambda>(m, _). m \<notin> set ns) (sc_views s),
       sc_partitions := filter (\<lambda>(m, _). m \<notin> set ns) (sc_partitions s)\<rparr>"

definition partition_names :: "schema \<Rightarrow> string \<Rightarrow> string list" where
  "partition_names s parent = map fst (filter (\<lambda>(_, p, _). p = parent) (sc_partitions s))"

text \<open>\<open>None\<close> where the statement fails or where nothing is claimed about it.\<close>

fun ddl_effect :: "ddl \<Rightarrow> schema \<Rightarrow> schema option" where
  "ddl_effect (Create_Table n t) s = (if has_relation s n then None else Some (s\<lparr>sc_tables := sc_tables s @ [(n, t)]\<rparr>))"
| "ddl_effect (Create_Table_If_Not_Exists n t) s =
     (if has_relation s n then Some s else Some (s\<lparr>sc_tables := sc_tables s @ [(n, t)]\<rparr>))"
| "ddl_effect (Drop_Table n) s =
     (if n \<in> set (map fst (sc_tables s)) \<and> partition_names s n = [] \<and> list_all (\<lambda>(_, src, _). src \<noteq> n) (sc_views s)
      then Some (drop_relations [n] s) else None)"
| "ddl_effect (Drop_Table_Cascade n) s =
     (if list_all (\<lambda>(_, src, _). src \<noteq> n) (sc_views s) then Some (drop_relations (n # partition_names s n) s) else None)"
| "ddl_effect (Add_Column n c) s =
     (if co_name c \<in> set (table_columns s n) then None else on_table n (\<lambda>t. t\<lparr>tb_columns := tb_columns t @ [c]\<rparr>) s)"
| "ddl_effect (Drop_Column n c) s =
     (if c \<notin> set (table_columns s n) \<or> \<not> list_all (\<lambda>(_, src, _). src \<noteq> n) (sc_views s) \<or>
         \<not> list_all (\<lambda>(_, i). ix_table i = n \<longrightarrow> c \<notin> set (map fst (ix_columns i))) (sc_indexes s) then None
      else on_table n (\<lambda>t. t\<lparr>tb_columns := filter (\<lambda>d. co_name d \<noteq> c) (tb_columns t)\<rparr>) s)"
| "ddl_effect (Create_Index n i) s =
     (if has_relation s n \<or> \<not> set (map fst (ix_columns i)) \<subseteq> set (relation_columns s (ix_table i)) then None
      else Some (s\<lparr>sc_indexes := sc_indexes s @ [(n, i)]\<rparr>))"
| "ddl_effect (Create_Index_If_Not_Exists n i) s =
     (if \<not> set (map fst (ix_columns i)) \<subseteq> set (relation_columns s (ix_table i)) then None
      else if has_relation s n then Some s
      else Some (s\<lparr>sc_indexes := sc_indexes s @ [(n, i)]\<rparr>))"
| "ddl_effect (Drop_Index n if_exists) s =
     (if n \<in> set (map fst (sc_indexes s)) then Some (s\<lparr>sc_indexes := without n (sc_indexes s)\<rparr>)
      else if if_exists then Some s else None)"
| "ddl_effect (Create_Unique n m cs) s =
     (if has_relation s n \<or> \<not> set cs \<subseteq> set (table_columns s m) \<or> list_ex (\<lambda>(_, t). n \<in> set (map fst (tb_uniques t))) (sc_tables s)
      then None else on_table m (\<lambda>t. t\<lparr>tb_uniques := tb_uniques t @ [(n, cs)]\<rparr>) s)"
| "ddl_effect (Drop_Constraint n m) s =
     (case map_of (sc_tables s) m of
        None \<Rightarrow> None
      | Some t \<Rightarrow> if n \<in> set (map fst (tb_uniques t)) then on_table m (\<lambda>t. t\<lparr>tb_uniques := without n (tb_uniques t)\<rparr>) s else None)"
| "ddl_effect (Create_Extension n) s =
     (if n \<in> set (sc_extensions s) then Some s else Some (s\<lparr>sc_extensions := sc_extensions s @ [n]\<rparr>))"
| "ddl_effect (Drop_Extension n) s = Some (s\<lparr>sc_extensions := filter (\<lambda>m. m \<noteq> n) (sc_extensions s)\<rparr>)"
| "ddl_effect (Create_View n src cs) s =
     (if has_relation s n \<or> src \<notin> set (map fst (sc_tables s)) then None else Some (s\<lparr>sc_views := sc_views s @ [(n, src, cs)]\<rparr>))"
| "ddl_effect (Drop_View n) s = Some (drop_relations [n] s)"
| "ddl_effect (Create_Partition n parent lo hi) s =
     (if parent \<notin> set (map fst (sc_tables s)) then None
      else if has_relation s n then Some s
      else if list_ex (\<lambda>(_, p, l, h). p = parent \<and> l < hi \<and> lo < h) (sc_partitions s) \<or> \<not> lo < hi then None
      else Some (s\<lparr>sc_partitions := sc_partitions s @ [(n, parent, lo, hi)]\<rparr>))"
| "ddl_effect (Update_Rows n) s = (if n \<in> set (map fst (sc_tables s)) then Some s else None)"

primrec ddl_effects :: "ddl list \<Rightarrow> schema \<Rightarrow> schema option" where
  "ddl_effects [] s = Some s"
| "ddl_effects (op # ops) s = Option.bind (ddl_effect op s) (ddl_effects ops)"

text \<open>A server: its catalogue, whether it holds no rows, and one statement run on it.\<close>

record 'c catalog =
  ct_view :: "'c \<Rightarrow> schema"
  ct_no_rows :: "'c \<Rightarrow> bool"
  ct_run :: "ddl \<Rightarrow> 'c \<Rightarrow> 'c outcome"

locale ddl_catalog =
  fixes C :: "'c catalog"
  assumes run_effect: "ct_no_rows C c \<Longrightarrow> ddl_effect op (ct_view C c) = Some s \<Longrightarrow>
    \<exists>c'. ct_run C op c = Inr c' \<and> ct_view C c' = s \<and> ct_no_rows C c'"

subsection \<open>The migrations\<close>

definition col :: "string \<Rightarrow> sql_type \<Rightarrow> sql_column" where
  "col n ty = \<lparr>co_name = n, co_type = ty, co_nullable = False, co_default = None\<rparr>"

definition opt_col :: "string \<Rightarrow> sql_type \<Rightarrow> sql_column" where
  "opt_col n ty = \<lparr>co_name = n, co_type = ty, co_nullable = True, co_default = None\<rparr>"

definition idx :: "string \<Rightarrow> string list \<Rightarrow> sql_index" where
  "idx t cs = \<lparr>ix_table = t, ix_columns = map (\<lambda>c. (c, False)) cs, ix_unique = False, ix_where = None\<rparr>"

record migration =
  mg_revision :: string
  mg_down :: "string option"
  mg_upgrade :: "ddl list"
  mg_downgrade :: "ddl list"

definition timestamps :: "sql_column list" where
  "timestamps = [col ''created_at'' SQL_DateTime, opt_col ''updated_at'' SQL_DateTime, opt_col ''deleted_at'' SQL_DateTime]"

definition records_table :: sql_table where
  "records_table =
     \<lparr>tb_columns = [col ''id'' SQL_Integer, col ''source'' (SQL_String 255), col ''timestamp'' SQL_DateTime,
        col ''raw_data'' SQL_JSON, col ''tags'' SQL_JSON, col ''processed'' SQL_Boolean] @ timestamps,
      tb_primary = [''id''], tb_uniques = []\<rparr>"

definition initial_schema :: migration where
  "initial_schema =
     \<lparr>mg_revision = ''2a45941f1152'', mg_down = None,
      mg_upgrade = [Create_Table ''records'' records_table],
      mg_downgrade = [Drop_Table ''records'']\<rparr>"

definition add_partial_index :: migration where
  "add_partial_index =
     \<lparr>mg_revision = ''21878e22a57b'', mg_down = Some ''2a45941f1152'',
      mg_upgrade = [Create_Index ''ix_records_active_source'' ((idx ''records'' [''source''])\<lparr>ix_where := Some ''deleted_at IS NULL''\<rparr>)],
      mg_downgrade = [Drop_Index ''ix_records_active_source'' False]\<rparr>"

definition add_indexes :: migration where
  "add_indexes =
     \<lparr>mg_revision = ''3343a3d6c4b7'', mg_down = Some ''21878e22a57b'',
      mg_upgrade = [Create_Index ''ix_records_processed'' (idx ''records'' [''processed'']),
                    Create_Index ''ix_records_timestamp'' (idx ''records'' [''timestamp''])],
      mg_downgrade = [Drop_Index ''ix_records_timestamp'' True, Drop_Index ''ix_records_processed'' True]\<rparr>"

definition add_processed_at :: migration where
  "add_processed_at =
     \<lparr>mg_revision = ''b770f07991cf'', mg_down = Some ''3343a3d6c4b7'',
      mg_upgrade = [Add_Column ''records'' (opt_col ''processed_at'' SQL_DateTime), Update_Rows ''records''],
      mg_downgrade = [Drop_Column ''records'' ''processed_at'']\<rparr>"

definition events_table :: sql_table where
  "events_table =
     \<lparr>tb_columns = [col ''id'' SQL_Integer, col ''kafka_topic'' (SQL_String 255), col ''kafka_partition'' SQL_Integer,
        col ''kafka_offset'' SQL_Integer, col ''idempotency_key'' (SQL_String 255), col ''event_type'' (SQL_String 100),
        col ''payload'' SQL_JSON, col ''status'' (SQL_String 50), col ''processing_attempts'' SQL_Integer,
        opt_col ''error_message'' (SQL_String 500), opt_col ''error_details'' SQL_JSON, col ''dead_letter_queue'' SQL_Boolean,
        opt_col ''dlq_reason'' (SQL_String 500), opt_col ''processed_at'' SQL_DateTime] @ timestamps,
      tb_primary = [''id''], tb_uniques = []\<rparr>"

definition add_processed_events :: migration where
  "add_processed_events =
     \<lparr>mg_revision = ''a326ea4bd1da'', mg_down = Some ''b770f07991cf'',
      mg_upgrade =
       [Create_Table ''processed_events'' events_table,
        Create_Index ''ix_events_dead_letter_queue'' (idx ''processed_events'' [''dead_letter_queue'']),
        Create_Index ''ix_events_idempotency_key'' ((idx ''processed_events'' [''idempotency_key''])\<lparr>ix_unique := True\<rparr>),
        Create_Index ''ix_events_kafka_offset'' (idx ''processed_events'' [''kafka_offset'']),
        Create_Index ''ix_events_status'' (idx ''processed_events'' [''status'']),
        Create_Unique ''uq_records_source_timestamp'' ''records'' [''source'', ''timestamp'']],
      mg_downgrade =
       [Drop_Constraint ''uq_records_source_timestamp'' ''records'', Drop_Index ''ix_events_status'' False,
        Drop_Index ''ix_events_kafka_offset'' False, Drop_Index ''ix_events_idempotency_key'' False,
        Drop_Index ''ix_events_dead_letter_queue'' False, Drop_Table ''processed_events'']\<rparr>"

text \<open>The view's columns; what it computes is \<open>hourly_view\<close> of the read service's model.\<close>

definition hourly_stats_columns :: "string list" where
  "hourly_stats_columns =
     [''hour'', ''record_count'', ''processed_count'', ''processed_pct'', ''avg_value'', ''min_value'', ''max_value'', ''unique_sources'',
      ''source_list'', ''materialized_at'']"

definition records_archive :: sql_table where
  "records_archive =
     \<lparr>tb_columns = [col ''id'' SQL_Integer, col ''source'' (SQL_String 255), col ''timestamp'' SQL_DateTime, col ''raw_data'' SQL_JSON,
        (col ''tags'' SQL_JSON)\<lparr>co_default := Some ''[]''\<rparr>, (col ''processed'' SQL_Boolean)\<lparr>co_default := Some ''false''\<rparr>,
        opt_col ''processed_at'' SQL_DateTime] @ timestamps,
      tb_primary = [''id'', ''timestamp''], tb_uniques = [(''uq_archive_source_timestamp'', [''source'', ''timestamp''])]\<rparr>"

definition partition_months :: "(string \<times> string) list" where
  "partition_months =
     [(''2025-04'', ''2025-05''), (''2025-05'', ''2025-06''), (''2025-06'', ''2025-07''), (''2025-07'', ''2025-08''),
      (''2025-08'', ''2025-09''), (''2025-09'', ''2025-10''), (''2025-10'', ''2025-11''), (''2025-11'', ''2025-12''),
      (''2025-12'', ''2026-01''), (''2026-01'', ''2026-02''), (''2026-02'', ''2026-03''), (''2026-03'', ''2026-04''),
      (''2026-04'', ''2026-05'')]"

text \<open>\<open>f"{month}-01"\<close> as a timestamp.\<close>

definition month_start :: "string \<Rightarrow> datetime" where
  "month_start m = int (day_of (digits_val (take 4 m)) (digits_val (drop 5 m)) 1) * micros_per_day"

definition partition_ops :: "string \<times> string \<Rightarrow> ddl list" where
  "partition_ops m =
     (let n = ''records_archive_'' @ replace ''-'' '''' (fst m)
      in [Create_Partition n ''records_archive'' (month_start (fst m)) (month_start (snd m)),
          Create_Index_If_Not_Exists (''idx_'' @ n @ ''_timestamp'')
            \<lparr>ix_table = n, ix_columns = [(''timestamp'', True)], ix_unique = False, ix_where = None\<rparr>])"

definition add_views_and_partitions :: migration where
  "add_views_and_partitions =
     \<lparr>mg_revision = ''a8f3c2e9d1b4'', mg_down = Some ''a326ea4bd1da'',
      mg_upgrade =
       [Create_Extension ''vector'', Create_View ''records_hourly_stats'' ''records'' hourly_stats_columns,
        Create_Index ''idx_records_hourly_stats_hour''
          \<lparr>ix_table = ''records_hourly_stats'', ix_columns = [(''hour'', True)], ix_unique = False, ix_where = None\<rparr>,
        Create_Table_If_Not_Exists ''records_archive'' records_archive] @
       concat (map partition_ops partition_months) @
       [Create_Index ''idx_records_archive_source'' (idx ''records_archive'' [''source''])],
      mg_downgrade = [Drop_View ''records_hourly_stats'', Drop_Table_Cascade ''records_archive'', Drop_Extension ''vector'']\<rparr>"

definition add_performance_indexes :: migration where
  "add_performance_indexes =
     \<lparr>mg_revision = ''c1d9e8f4a7b2'', mg_down = Some ''a8f3c2e9d1b4'',
      mg_upgrade =
       [Create_Index ''ix_records_unprocessed_by_source_timestamp''
          \<lparr>ix_table = ''records'', ix_columns = [(''source'', False), (''timestamp'', True)], ix_unique = False,
           ix_where = Some ''deleted_at IS NULL AND processed = false''\<rparr>,
        Create_Index ''ix_events_pending_by_topic''
          ((idx ''processed_events'' [''kafka_topic'', ''created_at''])
             \<lparr>ix_where := Some ''status = 'pending' AND deleted_at IS NULL''\<rparr>),
        Drop_Index ''ix_records_processed'' True],
      mg_downgrade = [Drop_Index ''ix_records_unprocessed_by_source_timestamp'' True, Drop_Index ''ix_events_pending_by_topic'' True]\<rparr>"

definition users_table :: sql_table where
  "users_table =
     \<lparr>tb_columns = [col ''id'' SQL_Integer, col ''username'' (SQL_String 64), col ''email'' (SQL_String 255),
        col ''password_hash'' (SQL_String 255), (col ''role'' (SQL_String 32))\<lparr>co_default := Some ''viewer''\<rparr>,
        (col ''is_active'' SQL_Boolean)\<lparr>co_default := Some ''true''\<rparr>] @ timestamps,
      tb_primary = [''id''], tb_uniques = []\<rparr>"

definition add_users :: migration where
  "add_users =
     \<lparr>mg_revision = ''f4a9b2c7d8e1'', mg_down = Some ''c1d9e8f4a7b2'',
      mg_upgrade =
       [Create_Table ''users'' users_table,
        Create_Index ''ix_users_username'' ((idx ''users'' [''username''])\<lparr>ix_unique := True\<rparr>),
        Create_Index ''ix_users_email'' ((idx ''users'' [''email''])\<lparr>ix_unique := True\<rparr>),
        Create_Index ''ix_users_role'' (idx ''users'' [''role''])],
      mg_downgrade = [Drop_Index ''ix_users_role'' False, Drop_Index ''ix_users_email'' False, Drop_Index ''ix_users_username'' False,
        Drop_Table ''users'']\<rparr>"

text \<open>The files in the order of the directory, and the chain that their \<open>down_revision\<close>s give, at most \<open>n\<close> long.\<close>

definition versions :: "migration list" where
  "versions = [initial_schema, add_partial_index, add_indexes, add_processed_at, add_processed_events, add_views_and_partitions,
     add_performance_indexes, add_users]"

fun chain :: "nat \<Rightarrow> migration list \<Rightarrow> string option \<Rightarrow> migration list" where
  "chain 0 ms cur = []"
| "chain (Suc n) ms cur =
     (case find (\<lambda>m. mg_down m = cur) ms of None \<Rightarrow> [] | Some m \<Rightarrow> m # chain n ms (Some (mg_revision m)))"

definition revisions :: "migration list" where
  "revisions = chain (length versions) versions None"

subsection \<open>Running them\<close>

primrec run_ops :: "'c catalog \<Rightarrow> ddl list \<Rightarrow> 'c \<Rightarrow> 'c outcome" where
  "run_ops C [] c = Inr c"
| "run_ops C (op # ops) c = try_bind (ct_run C op c) (run_ops C ops)"

text \<open>\<open>alembic upgrade\<close> by the first \<open>n\<close> revisions, and \<open>alembic downgrade\<close> from the head until \<open>n\<close> are left.\<close>

definition upgrade :: "'c catalog \<Rightarrow> nat \<Rightarrow> 'c \<Rightarrow> 'c outcome" where
  "upgrade C n = run_ops C (concat (map mg_upgrade (take n revisions)))"

definition downgrade :: "'c catalog \<Rightarrow> nat \<Rightarrow> 'c \<Rightarrow> 'c outcome" where
  "downgrade C n = run_ops C (concat (map mg_downgrade (rev (drop n revisions))))"

subsection \<open>The declared tables\<close>

definition orm_tables :: "(string \<times> sql_table) list" where
  "orm_tables =
     [(''processed_events'',
       \<lparr>tb_columns = timestamps @
          [col ''id'' SQL_Integer, col ''kafka_topic'' (SQL_String 255), col ''kafka_partition'' SQL_Integer,
           col ''kafka_offset'' SQL_Integer, col ''idempotency_key'' (SQL_String 255), col ''event_type'' (SQL_String 100),
           col ''payload'' SQL_JSON, col ''status'' (SQL_String 50), col ''processing_attempts'' SQL_Integer,
           opt_col ''error_message'' (SQL_String 500), opt_col ''error_details'' SQL_JSON, col ''dead_letter_queue'' SQL_Boolean,
           opt_col ''dlq_reason'' (SQL_String 500), opt_col ''processed_at'' SQL_DateTime],
        tb_primary = [''id''], tb_uniques = []\<rparr>),
      (''records'',
       \<lparr>tb_columns = timestamps @
          [col ''id'' SQL_Integer, col ''source'' (SQL_String 255), col ''timestamp'' SQL_DateTime, col ''raw_data'' SQL_JSON,
           col ''tags'' SQL_JSON, col ''processed'' SQL_Boolean, opt_col ''processed_at'' SQL_DateTime],
        tb_primary = [''id''], tb_uniques = [(''uq_records_source_timestamp'', [''source'', ''timestamp''])]\<rparr>),
      (''users'',
       \<lparr>tb_columns = timestamps @
          [col ''id'' SQL_Integer, col ''username'' (SQL_String 64), col ''email'' (SQL_String 255),
           col ''password_hash'' (SQL_String 255), col ''role'' (SQL_String 32), col ''is_active'' SQL_Boolean],
        tb_primary = [''id''], tb_uniques = []\<rparr>)]"

definition orm_indexes :: "(string \<times> sql_index) list" where
  "orm_indexes =
     [(''ix_events_idempotency_key'', (idx ''processed_events'' [''idempotency_key''])\<lparr>ix_unique := True\<rparr>),
      (''ix_events_status'', idx ''processed_events'' [''status'']),
      (''ix_events_kafka_offset'', idx ''processed_events'' [''kafka_offset'']),
      (''ix_events_dead_letter_queue'', idx ''processed_events'' [''dead_letter_queue'']),
      (''ix_records_active_source'', (idx ''records'' [''source''])\<lparr>ix_where := Some ''deleted_at IS NULL''\<rparr>),
      (''ix_records_timestamp'', idx ''records'' [''timestamp'']),
      (''ix_records_processed'', idx ''records'' [''processed'']),
      (''ix_users_username'', (idx ''users'' [''username''])\<lparr>ix_unique := True\<rparr>),
      (''ix_users_email'', (idx ''users'' [''email''])\<lparr>ix_unique := True\<rparr>),
      (''ix_users_role'', idx ''users'' [''role''])]"

subsection \<open>The schema at every revision\<close>

definition active_source :: "string \<times> sql_index" where
  "active_source = (''ix_records_active_source'', (idx ''records'' [''source''])\<lparr>ix_where := Some ''deleted_at IS NULL''\<rparr>)"

definition with_processed_at :: sql_table where
  "with_processed_at = records_table\<lparr>tb_columns := tb_columns records_table @ [opt_col ''processed_at'' SQL_DateTime]\<rparr>"

definition with_unique :: sql_table where
  "with_unique = with_processed_at\<lparr>tb_uniques := [(''uq_records_source_timestamp'', [''source'', ''timestamp''])]\<rparr>"

definition event_indexes :: "(string \<times> sql_index) list" where
  "event_indexes =
     [(''ix_events_dead_letter_queue'', idx ''processed_events'' [''dead_letter_queue'']),
      (''ix_events_idempotency_key'', (idx ''processed_events'' [''idempotency_key''])\<lparr>ix_unique := True\<rparr>),
      (''ix_events_kafka_offset'', idx ''processed_events'' [''kafka_offset'']),
      (''ix_events_status'', idx ''processed_events'' [''status''])]"

definition archive_parts :: "(string \<times> datetime \<times> datetime) list" where
  "archive_parts =
     [(''records_archive_202504'', 63879062400000000, 63881654400000000),
      (''records_archive_202505'', 63881654400000000, 63884332800000000),
      (''records_archive_202506'', 63884332800000000, 63886924800000000),
      (''records_archive_202507'', 63886924800000000, 63889603200000000),
      (''records_archive_202508'', 63889603200000000, 63892281600000000),
      (''records_archive_202509'', 63892281600000000, 63894873600000000),
      (''records_archive_202510'', 63894873600000000, 63897552000000000),
      (''records_archive_202511'', 63897552000000000, 63900144000000000),
      (''records_archive_202512'', 63900144000000000, 63902822400000000),
      (''records_archive_202601'', 63902822400000000, 63905500800000000),
      (''records_archive_202602'', 63905500800000000, 63907920000000000),
      (''records_archive_202603'', 63907920000000000, 63910598400000000),
      (''records_archive_202604'', 63910598400000000, 63913190400000000)]"

definition part_index :: "string \<Rightarrow> string \<times> sql_index" where
  "part_index n =
     (''idx_'' @ n @ ''_timestamp'', \<lparr>ix_table = n, ix_columns = [(''timestamp'', True)], ix_unique = False, ix_where = None\<rparr>)"

definition archive_indexes :: "(string \<times> sql_index) list" where
  "archive_indexes =
     (''idx_records_hourly_stats_hour'',
       \<lparr>ix_table = ''records_hourly_stats'', ix_columns = [(''hour'', True)], ix_unique = False, ix_where = None\<rparr>) #
     map (\<lambda>(n, _). part_index n) archive_parts @ [(''idx_records_archive_source'', idx ''records_archive'' [''source''])]"

definition performance_indexes :: "(string \<times> sql_index) list" where
  "performance_indexes =
     [(''ix_records_unprocessed_by_source_timestamp'',
       \<lparr>ix_table = ''records'', ix_columns = [(''source'', False), (''timestamp'', True)], ix_unique = False,
        ix_where = Some ''deleted_at IS NULL AND processed = false''\<rparr>),
      (''ix_events_pending_by_topic'',
       (idx ''processed_events'' [''kafka_topic'', ''created_at''])\<lparr>ix_where := Some ''status = 'pending' AND deleted_at IS NULL''\<rparr>)]"

definition user_indexes :: "(string \<times> sql_index) list" where
  "user_indexes =
     [(''ix_users_username'', (idx ''users'' [''username''])\<lparr>ix_unique := True\<rparr>),
      (''ix_users_email'', (idx ''users'' [''email''])\<lparr>ix_unique := True\<rparr>), (''ix_users_role'', idx ''users'' [''role''])]"

text \<open>After the first \<open>n\<close> revisions; \<open>p\<close> says whether the index on \<open>processed\<close> is there where the revision has it.\<close>

definition record_indexes :: "nat \<Rightarrow> bool \<Rightarrow> (string \<times> sql_index) list" where
  "record_indexes n p =
     (if n < 2 then [] else [active_source]) @
     (if p \<and> 3 \<le> n \<and> n < 7 then [(''ix_records_processed'', idx ''records'' [''processed''])] else []) @
     (if n < 3 then [] else [(''ix_records_timestamp'', idx ''records'' [''timestamp''])])"

definition schema_at :: "nat \<Rightarrow> bool \<Rightarrow> schema" where
  "schema_at n p =
     \<lparr>sc_tables =
        (if n < 1 then [] else [(''records'', if n < 4 then records_table else if n < 5 then with_processed_at else with_unique)]) @
        (if n < 5 then [] else [(''processed_events'', events_table)]) @ (if n < 6 then [] else [(''records_archive'', records_archive)]) @
        (if n < 8 then [] else [(''users'', users_table)]),
      sc_indexes = record_indexes n p @ (if n < 5 then [] else event_indexes) @ (if n < 6 then [] else archive_indexes) @
        (if n < 7 then [] else performance_indexes) @ (if n < 8 then [] else user_indexes),
      sc_views = (if n < 6 then [] else [(''records_hourly_stats'', ''records'', hourly_stats_columns)]),
      sc_partitions = (if n < 6 then [] else map (\<lambda>(n, lo, hi). (n, ''records_archive'', lo, hi)) archive_parts),
      sc_extensions = (if n < 6 then [] else [''vector''])\<rparr>"

lemmas migration_defs = initial_schema_def add_partial_index_def add_indexes_def add_processed_at_def add_processed_events_def
  add_views_and_partitions_def add_performance_indexes_def add_users_def

lemmas schema_simps = timestamps_def col_def opt_col_def idx_def has_relation_def table_columns_def relation_columns_def without_def
  on_table_def drop_relations_def partition_names_def

lemmas schema_at_simps = schema_at_def record_indexes_def active_source_def records_table_def with_processed_at_def with_unique_def
  events_table_def event_indexes_def performance_indexes_def users_table_def user_indexes_def

lemmas archive_simps = archive_indexes_def archive_parts_def part_index_def records_archive_def hourly_stats_columns_def

lemma revisions_versions: "revisions = versions"
  by (simp add: revisions_def versions_def migration_defs)

lemma archive_ops:
  "concat (map partition_ops partition_months) =
     concat (map (\<lambda>(n, lo, hi). [Create_Partition n ''records_archive'' lo hi,
       Create_Index_If_Not_Exists (fst (part_index n)) (snd (part_index n))]) archive_parts)"
  by (simp add: partition_months_def partition_ops_def replace_def startswith_def archive_parts_def part_index_def numeral_eq_Suc Let_def)
    (simp add: month_start_def digits_val_def digit_val_def day_of_def days_before_year_def leap_def month_lengths_def micros_per_day_def)

lemma upgrade_1: "ddl_effects (mg_upgrade initial_schema) (schema_at 0 p) = Some (schema_at 1 True)"
  by (simp add: migration_defs schema_simps schema_at_simps)

lemma upgrade_2: "ddl_effects (mg_upgrade add_partial_index) (schema_at 1 True) = Some (schema_at 2 True)"
  by (simp add: migration_defs schema_simps schema_at_simps)

lemma upgrade_3: "ddl_effects (mg_upgrade add_indexes) (schema_at 2 True) = Some (schema_at 3 True)"
  by (simp add: migration_defs schema_simps schema_at_simps)

lemma upgrade_4: "ddl_effects (mg_upgrade add_processed_at) (schema_at 3 True) = Some (schema_at 4 True)"
  by (simp add: migration_defs schema_simps schema_at_simps)

lemma upgrade_5: "ddl_effects (mg_upgrade add_processed_events) (schema_at 4 True) = Some (schema_at 5 True)"
  by (simp add: migration_defs schema_simps schema_at_simps)

lemma upgrade_6: "ddl_effects (mg_upgrade add_views_and_partitions) (schema_at 5 True) = Some (schema_at 6 True)"
  unfolding add_views_and_partitions_def archive_ops
  by (simp add: migration_defs schema_simps schema_at_simps archive_simps)

lemma upgrade_7: "ddl_effects (mg_upgrade add_performance_indexes) (schema_at 6 True) = Some (schema_at 7 True)"
  by (simp add: migration_defs schema_simps schema_at_simps archive_simps)

lemma upgrade_8: "ddl_effects (mg_upgrade add_users) (schema_at 7 True) = Some (schema_at 8 True)"
  by (simp add: migration_defs schema_simps schema_at_simps archive_simps)

lemma downgrade_8: "ddl_effects (mg_downgrade add_users) (schema_at 8 p) = Some (schema_at 7 p)"
  by (simp add: migration_defs schema_simps schema_at_simps archive_simps)

lemma downgrade_7: "ddl_effects (mg_downgrade add_performance_indexes) (schema_at 7 p) = Some (schema_at 6 False)"
  by (simp add: migration_defs schema_simps schema_at_simps archive_simps)

lemma downgrade_6: "ddl_effects (mg_downgrade add_views_and_partitions) (schema_at 6 False) = Some (schema_at 5 False)"
  by (simp add: migration_defs schema_simps schema_at_simps archive_simps)

lemma downgrade_5: "ddl_effects (mg_downgrade add_processed_events) (schema_at 5 False) = Some (schema_at 4 False)"
  by (simp add: migration_defs schema_simps schema_at_simps)

lemma downgrade_4: "ddl_effects (mg_downgrade add_processed_at) (schema_at 4 False) = Some (schema_at 3 False)"
  by (simp add: migration_defs schema_simps schema_at_simps)

lemma downgrade_3: "ddl_effects (mg_downgrade add_indexes) (schema_at 3 False) = Some (schema_at 2 False)"
  by (simp add: migration_defs schema_simps schema_at_simps)

lemma downgrade_2: "ddl_effects (mg_downgrade add_partial_index) (schema_at 2 False) = Some (schema_at 1 False)"
  by (simp add: migration_defs schema_simps schema_at_simps)

lemma downgrade_1: "ddl_effects (mg_downgrade initial_schema) (schema_at 1 False) = Some (schema_at 0 False)"
  by (simp add: migration_defs schema_simps schema_at_simps)

subsection \<open>The schema at the head is the declared one, up to indexes\<close>

lemma ddl_effects_append: "ddl_effects (xs @ ys) s = Option.bind (ddl_effects xs s) (ddl_effects ys)"
proof (induction xs arbitrary: s)
  case (Cons x xs)
  then show ?case by (cases "ddl_effect x s") simp_all
qed simp

lemmas upgrade_steps = upgrade_1 upgrade_2 upgrade_3 upgrade_4 upgrade_5 upgrade_6 upgrade_7 upgrade_8

lemmas downgrade_steps = downgrade_1 downgrade_2 downgrade_3 downgrade_4 downgrade_5 downgrade_6 downgrade_7 downgrade_8

lemma length_versions: "length versions = 8"
  by (simp add: versions_def)

lemma up_to_eight:
  assumes "n \<le> length versions"
  shows "n = 0 \<or> n = 1 \<or> n = 2 \<or> n = 3 \<or> n = 4 \<or> n = 5 \<or> n = 6 \<or> n = 7 \<or> n = 8"
  using assms unfolding length_versions by arith

lemma empty_is_start: "empty_schema = schema_at 0 p"
  by (simp add: empty_schema_def schema_at_simps)

lemma upgrade_effects:
  assumes "n \<le> length versions"
  shows "ddl_effects (concat (map mg_upgrade (take n versions))) empty_schema = Some (schema_at n True)"
  unfolding empty_is_start [of True] using up_to_eight [OF assms]
  by (elim disjE; simp add: versions_def ddl_effects_append upgrade_steps [simplified])

lemma downgrade_effects:
  assumes "n \<le> length versions"
  shows "ddl_effects (concat (map mg_downgrade (rev (drop n versions)))) (schema_at 8 True) = Some (schema_at n (7 \<le> n))"
  using up_to_eight [OF assms]
  by (elim disjE; simp add: versions_def ddl_effects_append downgrade_steps [simplified])

lemma lost_index:
  "schema_at n False = (schema_at n True)\<lparr>sc_indexes := without ''ix_records_processed'' (sc_indexes (schema_at n True))\<rparr>"
  by (simp add: schema_at_simps archive_simps without_def idx_def)

lemma late_schemas: "7 \<le> n \<Longrightarrow> schema_at n True = schema_at n False"
  by (simp add: schema_at_def record_indexes_def)

context ddl_catalog
begin

lemma run_effects:
  "ct_no_rows C c \<Longrightarrow> ddl_effects ops (ct_view C c) = Some s \<Longrightarrow>
     \<exists>c'. run_ops C ops c = Inr c' \<and> ct_view C c' = s \<and> ct_no_rows C c'"
proof (induction ops arbitrary: c)
  case (Cons op ops)
  then obtain s1 where s1: "ddl_effect op (ct_view C c) = Some s1" "ddl_effects ops s1 = Some s"
    by (auto split: Option.bind_splits)
  obtain c1 where "ct_run C op c = Inr c1" "ct_view C c1 = s1" "ct_no_rows C c1"
    using run_effect [OF Cons.prems(1) s1(1)] by blast
  then show ?case using Cons.IH [of c1] s1(2) by (simp add: try_bind_def)
qed simp

lemma upgraded:
  assumes "ct_no_rows C c" and "ct_view C c = empty_schema" and "n \<le> length versions"
  shows "\<exists>c'. upgrade C n c = Inr c' \<and> ct_view C c' = schema_at n True \<and> ct_no_rows C c'"
  using run_effects [OF assms(1), of "concat (map mg_upgrade (take n versions))"] upgrade_effects [OF assms(3)]
  by (simp add: upgrade_def revisions_versions assms(2))

end

definition column_shape :: "sql_column \<Rightarrow> string \<times> sql_type \<times> bool" where
  "column_shape c = (co_name c, co_type c, co_nullable c)"

definition same_shape :: "sql_table \<Rightarrow> sql_table \<Rightarrow> bool" where
  "same_shape t u \<longleftrightarrow>
     set (map column_shape (tb_columns t)) = set (map column_shape (tb_columns u)) \<and> tb_primary t = tb_primary u \<and>
     set (tb_uniques t) = set (tb_uniques u)"

lemma head_tables:
  "list_all (\<lambda>(n, t). case map_of (sc_tables (schema_at 8 True)) n of None \<Rightarrow> False | Some u \<Rightarrow> same_shape t u) orm_tables"
  by (simp add: orm_tables_def schema_at_simps same_shape_def column_shape_def timestamps_def col_def opt_col_def)
    (simp add: insert_commute)

lemma head_lacks:
  "filter (\<lambda>i. i \<notin> set (sc_indexes (schema_at 8 True))) orm_indexes =
     [(''ix_records_processed'', idx ''records'' [''processed''])]"
  by (simp add: orm_indexes_def schema_at_simps archive_simps idx_def)

lemma head_extra:
  "map fst (filter (\<lambda>(n, i). ix_table i \<in> fst ` set orm_tables \<and> (n, i) \<notin> set orm_indexes)
     (sc_indexes (schema_at 8 True))) =
   [''ix_records_unprocessed_by_source_timestamp'', ''ix_events_pending_by_topic'']"
  by (simp add: orm_indexes_def orm_tables_def schema_at_simps archive_simps idx_def)

lemma head_excluded:
  "list_all (\<lambda>n. n \<in> fst ` set orm_tables \<or> \<not> include_object (Some n) ''table'' True)
     (map fst (sc_tables (schema_at 8 True)) @ map fst (sc_partitions (schema_at 8 True)))"
  by (simp add: orm_tables_def schema_at_simps archive_simps include_object_def startswith_def)

text \<open>
  C20. Running the migrations on an empty database whose server keeps the law succeeds, and every file is on the chain. The
  result has every declared table with its columns (name, type, nullability), key and unique constraints, among them the
  one on source and timestamp that the upsert relies on. The indexes differ: the declared one on \<open>processed\<close> is not
  there, and two that are there are not declared, so a generated migration would undo what the last but one did. All
  other tables are left out of the comparison.
\<close>

theorem schema_matches_models:
  assumes "ddl_catalog C" and "ct_no_rows C c" and "ct_view C c = empty_schema"
  shows "length revisions = length versions \<and>
    (\<exists>c'. upgrade C (length revisions) c = Inr c' \<and>
      list_all (\<lambda>(n, t). case map_of (sc_tables (ct_view C c')) n of None \<Rightarrow> False | Some u \<Rightarrow> same_shape t u) orm_tables \<and>
      filter (\<lambda>i. i \<notin> set (sc_indexes (ct_view C c'))) orm_indexes = [(''ix_records_processed'', idx ''records'' [''processed''])] \<and>
      map fst (filter (\<lambda>(n, i). ix_table i \<in> fst ` set orm_tables \<and> (n, i) \<notin> set orm_indexes) (sc_indexes (ct_view C c'))) =
        [''ix_records_unprocessed_by_source_timestamp'', ''ix_events_pending_by_topic''] \<and>
      list_all (\<lambda>n. n \<in> fst ` set orm_tables \<or> \<not> include_object (Some n) ''table'' True)
        (map fst (sc_tables (ct_view C c')) @ map fst (sc_partitions (ct_view C c'))))"
proof -
  obtain c' where "upgrade C 8 c = Inr c'" "ct_view C c' = schema_at 8 True"
    using ddl_catalog.upgraded [OF assms, of 8] by (auto simp: length_versions)
  then show ?thesis using head_tables head_lacks head_extra head_excluded by (simp add: revisions_versions length_versions)
qed

text \<open>A concrete server: the catalogue is the schema, and a statement does what its law says.\<close>

definition plain_catalog :: "schema catalog" where
  "plain_catalog =
     \<lparr>ct_view = id, ct_no_rows = (\<lambda>_. True),
      ct_run = (\<lambda>op s. case ddl_effect op s of None \<Rightarrow> Inl (OtherException ''ProgrammingError'') | Some s' \<Rightarrow> Inr s')\<rparr>"

interpretation pc: ddl_catalog plain_catalog
  by unfold_locales (simp add: plain_catalog_def)

theorem schema_matches_models_witness:
  "\<exists>c'. upgrade plain_catalog (length revisions) empty_schema = Inr c' \<and>
     filter (\<lambda>i. i \<notin> set (sc_indexes c')) orm_indexes = [(''ix_records_processed'', idx ''records'' [''processed''])]"
  using schema_matches_models [of plain_catalog empty_schema] pc.ddl_catalog_axioms by (auto simp: plain_catalog_def)

subsection \<open>Downgrading\<close>

text \<open>
  C38. From the head, downgrading until \<open>n\<close> revisions are left gives the schema that upgrading by \<open>n\<close> gives, less the index
  on \<open>processed\<close>, which the migration that dropped it does not restore; down to the base nothing is left.
\<close>

theorem downgrade_restores:
  assumes "ddl_catalog C" and "ct_no_rows C c" and "ct_view C c = empty_schema" and "n \<le> length revisions"
  shows "\<exists>cn ch cd. upgrade C n c = Inr cn \<and> upgrade C (length revisions) c = Inr ch \<and> downgrade C n ch = Inr cd \<and>
    ct_view C cd = (ct_view C cn)\<lparr>sc_indexes := without ''ix_records_processed'' (sc_indexes (ct_view C cn))\<rparr>"
proof -
  have n: "n \<le> length versions" using assms(4) by (simp add: revisions_versions)
  obtain cn where cn: "upgrade C n c = Inr cn" "ct_view C cn = schema_at n True"
    using ddl_catalog.upgraded [OF assms(1-3) n] by blast
  obtain ch where ch: "upgrade C (length revisions) c = Inr ch" "ct_view C ch = schema_at 8 True" "ct_no_rows C ch"
    using ddl_catalog.upgraded [OF assms(1-3), of 8] by (auto simp: length_versions revisions_versions)
  have "ddl_effects (concat (map mg_downgrade (rev (drop n revisions)))) (ct_view C ch) = Some (schema_at n (7 \<le> n))"
    using downgrade_effects [OF n] by (simp add: revisions_versions ch(2))
  then obtain cd where cd: "downgrade C n ch = Inr cd" "ct_view C cd = schema_at n (7 \<le> n)"
    using ddl_catalog.run_effects [OF assms(1) ch(3)] unfolding downgrade_def by blast
  have "schema_at n (7 \<le> n) = schema_at n False" using late_schemas [of n] by (cases "7 \<le> n") simp_all
  then show ?thesis using cn ch(1) cd lost_index [of n] by auto
qed

theorem downgrade_restores_witness:
  "\<exists>cn ch cd. upgrade plain_catalog 6 empty_schema = Inr cn \<and> upgrade plain_catalog (length revisions) empty_schema = Inr ch \<and>
     downgrade plain_catalog 6 ch = Inr cd \<and> cd = cn\<lparr>sc_indexes := without ''ix_records_processed'' (sc_indexes cn)\<rparr>"
proof -
  have "6 \<le> length revisions" by (simp add: revisions_versions length_versions)
  then show ?thesis
    using downgrade_restores [of plain_catalog empty_schema 6] pc.ddl_catalog_axioms by (simp add: plain_catalog_def)
qed

subsection \<open>The environment\<close>

text \<open>
  \<open>alembic/env.py\<close> on an upgrade by \<open>n\<close> revisions: offline it emits the statements, online it runs them in one transaction on
  the server behind the chosen URL. \<open>servers\<close> are the databases that can be reached.
\<close>

definition run_migrations_offline :: "nat \<Rightarrow> ddl list" where
  "run_migrations_offline n = concat (map mg_upgrade (take n revisions))"

definition run_migrations_online ::
  "'c catalog \<Rightarrow> string \<Rightarrow> nat \<Rightarrow> (string \<Rightarrow> 'c option) \<Rightarrow> (string \<Rightarrow> 'c option) \<times> unit outcome"
where
  "run_migrations_online C url n servers =
     (case servers url of
        None \<Rightarrow> (servers, Inl (OtherException ''OperationalError''))
      | Some c \<Rightarrow> (case upgrade C n c of Inl e \<Rightarrow> (servers, Inl e) | Inr c' \<Rightarrow> (servers(url := Some c'), Inr ())))"

definition env_script ::
  "'c catalog \<Rightarrow> bool \<Rightarrow> string option \<Rightarrow> string \<Rightarrow> nat \<Rightarrow> (string \<Rightarrow> 'c option) \<Rightarrow>
   (string \<Rightarrow> 'c option) \<times> ddl list \<times> unit outcome"
where
  "env_script C offline config_url database_url n servers =
     (if offline then (servers, run_migrations_offline n, Inr ())
      else case run_migrations_online C (sync_url config_url database_url) n servers of (servers', r) \<Rightarrow> (servers', [], r))"

text \<open>
  The two modes agree, and an override spares the application's database: run by hand on the database of the chosen URL,
  the statements that the offline mode emits give what the online mode leaves there, and the online mode touches no other.
\<close>

lemma modes_agree:
  assumes "ddl_catalog C" and "servers (sync_url config_url database_url) = Some c" and "ct_no_rows C c"
    and "ct_view C c = empty_schema" and "n \<le> length revisions"
  shows "\<exists>c'. env_script C False config_url database_url n servers =
      (servers(sync_url config_url database_url := Some c'), [], Inr ()) \<and>
    run_ops C (fst (snd (env_script C True config_url database_url n servers))) c = Inr c' \<and> ct_view C c' = schema_at n True"
proof -
  have "n \<le> length versions" using assms(5) by (simp add: revisions_versions)
  from ddl_catalog.upgraded [OF assms(1,3,4) this] obtain c' where "upgrade C n c = Inr c'" "ct_view C c' = schema_at n True"
    by blast
  then show ?thesis
    using assms(2) by (simp add: env_script_def run_migrations_online_def run_migrations_offline_def upgrade_def)
qed

subsection \<open>The archive's partitions\<close>

fun consecutive :: "datetime \<Rightarrow> (string \<times> datetime \<times> datetime) list \<Rightarrow> datetime \<Rightarrow> bool" where
  "consecutive lo [] hi = (lo = hi)"
| "consecutive lo ((n, l, h) # ps) hi = (l = lo \<and> l < h \<and> consecutive h ps hi)"

lemma consecutive_le: "consecutive lo ps hi \<Longrightarrow> lo \<le> hi"
  by (induction lo ps hi rule: consecutive.induct) auto

lemma consecutive_tile:
  "consecutive lo ps hi \<Longrightarrow> length (filter (\<lambda>(n, l, h). l \<le> t \<and> t < h) ps) = (if lo \<le> t \<and> t < hi then 1 else 0)"
proof (induction lo ps hi rule: consecutive.induct)
  case (2 lo n l h ps hi)
  then show ?case using consecutive_le [of h ps hi] by auto
qed simp

text \<open>Every time from April 2025 to April 2026 has exactly one partition, any other time none.\<close>

lemma archive_tiled:
  "length (filter (\<lambda>(n, l, h). l \<le> t \<and> t < h) archive_parts) =
     (if month_start ''2025-04'' \<le> t \<and> t < month_start ''2026-05'' then 1 else 0)"
proof -
  have "consecutive 63879062400000000 archive_parts 63913190400000000" by (simp add: archive_parts_def)
  moreover have "month_start ''2025-04'' = 63879062400000000" "month_start ''2026-05'' = 63913190400000000"
    by (simp_all add: month_start_def digits_val_def digit_val_def day_of_def days_before_year_def leap_def month_lengths_def
      micros_per_day_def)
  ultimately show ?thesis using consecutive_tile [of 63879062400000000 archive_parts 63913190400000000 t] by simp
qed

end
