(* ===== verification/Query_Service.thy ===== *)
theory Query_Service
  imports Query_Api Settings
begin

text \<open>
  The process of the read service: \<open>services/query_api/main.py\<close> and \<open>services/query_api/dependencies.py\<close> around the
  endpoints of \<open>Query_Api\<close>. The module-level statements run in their order on the attribute \<open>get_db\<close> of the module
  \<open>dependencies\<close> and on the routes; \<open>from ... import get_db\<close> and \<open>Depends(get_db)\<close> keep the function that the name has at
  that moment. SQLAlchemy's \<open>create_async_engine\<close> is a parameter that receives the arguments of the call; opening a
  session and \<open>SELECT 1\<close> are outcomes.
\<close>

subsection \<open>Module-level statements\<close>

text \<open>The two functions called \<open>get_db\<close>: that of \<open>dependencies.py\<close> and that of \<open>main.py\<close>.\<close>

datatype provider = Placeholder | Session_Provider

record query_process =
  qp_get_db :: "provider option"
  qp_router :: "(string \<times> provider) list"
  qp_app :: "(string \<times> provider) list"

definition fresh_process :: query_process where
  "fresh_process = \<lparr>qp_get_db = None, qp_router = [], qp_app = []\<rparr>"

definition analytics_paths :: "string list" where
  "analytics_paths = [''/summary'', ''/percentile'', ''/top-by-source'', ''/refresh-materialized-view'', ''/materialized-view-stats'']"

definition import_dependencies :: "query_process \<Rightarrow> query_process" where
  "import_dependencies p = (case qp_get_db p of None \<Rightarrow> p\<lparr>qp_get_db := Some Placeholder\<rparr> | Some _ \<Rightarrow> p)"

text \<open>The module of the routes: \<open>from services.query_api.dependencies import get_db\<close>, then the decorated functions.\<close>

definition import_analytics :: "query_process \<Rightarrow> query_process" where
  "import_analytics p =
     (let p1 = import_dependencies p
      in case qp_get_db p1 of
           None \<Rightarrow> p1
         | Some get_db \<Rightarrow> p1\<lparr>qp_router := map (\<lambda>path. (''/analytics'' @ path, get_db)) analytics_paths\<rparr>)"

definition configure_get_db :: "query_process \<Rightarrow> query_process" where
  "configure_get_db p = p\<lparr>qp_get_db := Some Session_Provider\<rparr>"

definition include_router :: "query_process \<Rightarrow> query_process" where
  "include_router p = p\<lparr>qp_app := qp_app p @ qp_router p\<rparr>"

definition database_url_required :: py_exn where
  "database_url_required = RuntimeError (''DATABASE_URL is required for query_api. '' @
     ''Set it via environment variables or a secrets manager.'')"

text \<open>The arguments of the call; \<open>None\<close> where the call leaves one out.\<close>

datatype pool_class = NullPool | Default_Pool

record engine_args =
  ea_url :: string
  ea_echo :: bool
  ea_pool_size :: "int option"
  ea_max_overflow :: "int option"
  ea_pre_ping :: bool
  ea_poolclass :: pool_class

definition main_engine_args :: "string \<Rightarrow> engine_args" where
  "main_engine_args url =
     \<lparr>ea_url = url, ea_echo = False, ea_pool_size = Some 5, ea_max_overflow = Some 10, ea_pre_ping = True,
      ea_poolclass = NullPool\<rparr>"

definition DATABASE_URL :: "environ \<Rightarrow> string" where
  "DATABASE_URL env = strip (case map_of env ''DATABASE_URL'' of None \<Rightarrow> [] | Some u \<Rightarrow> u)"

definition load_main :: "(engine_args \<Rightarrow> unit outcome) \<Rightarrow> environ \<Rightarrow> query_process outcome" where
  "load_main create_engine env =
     (let p = import_analytics (import_dependencies fresh_process); url = DATABASE_URL env
      in if url = [] then Inl database_url_required
         else try_bind (create_engine (main_engine_args url)) (\<lambda>_. Inr (include_router (configure_get_db p))))"

text \<open>
  What SQLAlchemy documents of the call: \<open>pool_size\<close> and \<open>max_overflow\<close> are arguments of \<open>QueuePool\<close>, \<open>NullPool\<close> takes neither,
  and an argument that the pool does not take is a \<open>TypeError\<close>, unless the call fails for another reason before.
\<close>

definition without_sizes :: "engine_args \<Rightarrow> engine_args" where
  "without_sizes a = a\<lparr>ea_pool_size := None, ea_max_overflow := None\<rparr>"

definition checks_pool_arguments :: "(engine_args \<Rightarrow> unit outcome) \<Rightarrow> bool" where
  "checks_pool_arguments create_engine \<longleftrightarrow>
     (\<forall>a. ea_poolclass a = NullPool \<and> (ea_pool_size a \<noteq> None \<or> ea_max_overflow a \<noteq> None) \<longrightarrow>
        (case create_engine (without_sizes a) of
           Inl e \<Rightarrow> \<exists>e'. create_engine a = Inl e'
         | Inr _ \<Rightarrow> \<exists>m. create_engine a = Inl (TypeError m)))"

subsection \<open>Requests\<close>

definition not_configured :: py_exn where
  "not_configured = NotImplementedError ''get_db dependency not configured at app startup''"

fun get_db :: "provider \<Rightarrow> 'db outcome \<Rightarrow> 'db outcome" where
  "get_db Placeholder opened = Inl not_configured"
| "get_db Session_Provider opened = opened"

text \<open>A request: its route's dependency, then the endpoint on the session.\<close>

definition request :: "query_process \<Rightarrow> string \<Rightarrow> 'db outcome \<Rightarrow> ('db \<Rightarrow> 'a outcome) \<Rightarrow> 'a outcome" where
  "request p path opened endpoint =
     (case map_of (qp_app p) path of
        None \<Rightarrow> Inl (HTTPException 404 ''Not Found'')
      | Some d \<Rightarrow> try_bind (get_db d opened) endpoint)"

definition summary_request ::
  "query_process \<Rightarrow> row list outcome \<Rightarrow> (string \<Rightarrow> rat option) \<Rightarrow> datetime \<Rightarrow> int \<Rightarrow> summary_response outcome"
where
  "summary_request p opened num now hours = request p ''/analytics/summary'' opened (q_get_summary num now hours)"

definition percentile_request ::
  "query_process \<Rightarrow> row list outcome \<Rightarrow> (string \<Rightarrow> rat option) \<Rightarrow> string \<Rightarrow> q_record list outcome"
where
  "percentile_request p opened num src = request p ''/analytics/percentile'' opened (q_get_percentile num src)"

definition top_request ::
  "query_process \<Rightarrow> row list outcome \<Rightarrow> (string \<Rightarrow> rat option) \<Rightarrow> datetime \<Rightarrow> int \<Rightarrow> int \<Rightarrow> (string \<times> q_record list) list outcome"
where
  "top_request p opened num now lmt hours = request p ''/analytics/top-by-source'' opened (q_get_top_by_source num now lmt hours)"

definition refresh_request :: "query_process \<Rightarrow> row list outcome \<Rightarrow> unit outcome \<Rightarrow> unit outcome \<Rightarrow> (string \<times> string) outcome" where
  "refresh_request p opened refresh rollback =
     request p ''/analytics/refresh-materialized-view'' opened (\<lambda>_. q_refresh_materialized_view refresh rollback)"

definition stats_request ::
  "query_process \<Rightarrow> row list outcome \<Rightarrow> (int \<Rightarrow> (agg_row \<times> string option) list outcome) \<Rightarrow> int \<Rightarrow>
   (hour_summary \<times> string option) list outcome"
where
  "stats_request p opened view lmt =
     request p ''/analytics/materialized-view-stats'' opened (\<lambda>_. q_get_materialized_view_stats view lmt)"

subsection \<open>Startup and probes\<close>

text \<open>The check of the lifespan raises what the database raises.\<close>

definition query_startup :: "unit outcome \<Rightarrow> unit outcome" where
  "query_startup select_1 = select_1"

definition query_health :: "(string \<times> string) list" where
  "query_health = [(''status'', ''healthy''), (''service'', ''query_api'')]"

text \<open>\<open>readiness\<close>: the status of the response, \<open>ready\<close> and \<open>reason\<close>.\<close>

definition readiness :: "unit outcome \<Rightarrow> (int \<times> bool \<times> string option) outcome" where
  "readiness select_1 =
     (case select_1 of
        Inr _ \<Rightarrow> Inr (200, True, None)
      | Inl e \<Rightarrow> if is_Exception e then Inr (200, False, Some (exn_str e)) else Inl e)"

subsection \<open>A service that never answers\<close>

lemma loaded_routes:
  "load_main create_engine env = Inr p \<Longrightarrow> qp_app p = map (\<lambda>path. (''/analytics'' @ path, Placeholder)) analytics_paths"
  by (auto simp: load_main_def Let_def import_analytics_def import_dependencies_def fresh_process_def configure_get_db_def
      include_router_def try_bind_Inr_iff split: if_splits)

lemma loaded_request:
  "load_main create_engine env = Inr p \<Longrightarrow> path \<in> set analytics_paths \<Longrightarrow>
     request p (''/analytics'' @ path) opened endpoint = Inl not_configured"
  using loaded_routes [of create_engine env p] by (auto simp: request_def analytics_paths_def)

lemma loaded_requests:
  assumes "load_main create_engine env = Inr p"
  shows "summary_request p opened num now hours = Inl not_configured \<and>
    percentile_request p opened num src = Inl not_configured \<and>
    top_request p opened num now lmt hours = Inl not_configured \<and>
    refresh_request p opened refresh rollback = Inl not_configured \<and>
    stats_request p opened view lmt = Inl not_configured"
proof -
  note r = loaded_request [OF assms, unfolded analytics_paths_def]
  show ?thesis
    by (simp add: summary_request_def percentile_request_def top_request_def refresh_request_def stats_request_def
        r [of "''/summary''", simplified] r [of "''/percentile''", simplified] r [of "''/top-by-source''", simplified]
        r [of "''/refresh-materialized-view''", simplified] r [of "''/materialized-view-stats''", simplified])
qed

lemma strip_empty: "strip s = [] \<longleftrightarrow> list_all is_space s"
proof -
  have "list_all is_space s" if "list_all is_space (dropWhile is_space s)"
    using that by (metis Ball_set hd_dropWhile dropWhile_eq_Nil_conv hd_in_set)
  moreover have "list_all is_space (dropWhile is_space s)" if "list_all is_space s"
    using that by (metis Ball_set set_dropWhileD)
  ultimately show ?thesis by (auto simp: strip_def Ball_set)
qed

lemma DATABASE_URL_empty:
  "DATABASE_URL env = [] \<longleftrightarrow> (\<forall>u. map_of env ''DATABASE_URL'' = Some u \<longrightarrow> list_all is_space u)"
  by (simp add: DATABASE_URL_def strip_empty split: option.splits)

lemma load_refused:
  assumes "checks_pool_arguments create_engine"
  shows "\<exists>e. load_main create_engine env = Inl e \<and>
    (if \<forall>u. map_of env ''DATABASE_URL'' = Some u \<longrightarrow> list_all is_space u then e = database_url_required
     else create_engine (without_sizes (main_engine_args (DATABASE_URL env))) = Inr () \<longrightarrow> (\<exists>m. e = TypeError m))"
proof -
  have "ea_poolclass (main_engine_args url) = NullPool \<and> ea_pool_size (main_engine_args url) \<noteq> None" for url
    by (simp add: main_engine_args_def)
  with assms have "case create_engine (without_sizes (main_engine_args url)) of
      Inl e \<Rightarrow> \<exists>e'. create_engine (main_engine_args url) = Inl e'
    | Inr _ \<Rightarrow> \<exists>m. create_engine (main_engine_args url) = Inl (TypeError m)" for url
    unfolding checks_pool_arguments_def by blast
  from this [of "DATABASE_URL env"] show ?thesis
    by (auto simp: load_main_def Let_def simp flip: DATABASE_URL_empty split: sum.splits)
qed

text \<open>
  C21. The read service never answers an analytics request, for two reasons, one behind the other. Over the engine
  factory that SQLAlchemy documents its module cannot be imported: without a \<open>DATABASE_URL\<close>, or with a blank one, it raises the
  \<open>RuntimeError\<close> that says so, and with one that the factory accepts the sizes of a pool passed for a \<open>NullPool\<close> are a \<open>TypeError\<close>. And
  were it imported, over a factory that lets the sizes pass, it would start and report that it is ready whenever its
  database answers, and yet each of the five endpoints would end with the \<open>NotImplementedError\<close> of the placeholder, for
  every session, argument and content of the database, because the routes kept the function that \<open>get_db\<close> named when
  their module was imported.
\<close>

theorem never_answers:
  assumes "checks_pool_arguments create_engine"
  shows "(\<exists>e. load_main create_engine env = Inl e \<and>
      (if \<forall>u. map_of env ''DATABASE_URL'' = Some u \<longrightarrow> list_all is_space u then e = database_url_required
       else create_engine (without_sizes (main_engine_args (DATABASE_URL env))) = Inr () \<longrightarrow> (\<exists>m. e = TypeError m))) \<and>
    (\<forall>lenient p. load_main lenient env = Inr p \<longrightarrow>
      query_startup (Inr ()) = Inr () \<and> readiness (Inr ()) = Inr (200, True, None) \<and>
      summary_request p opened num now hours = Inl not_configured \<and>
      percentile_request p opened num src = Inl not_configured \<and>
      top_request p opened num now lmt hours = Inl not_configured \<and>
      refresh_request p opened refresh rollback = Inl not_configured \<and>
      stats_request p opened view lmt = Inl not_configured)"
  using load_refused [OF assms, of env] loaded_requests
  by (auto simp: query_startup_def readiness_def)

text \<open>A factory that has the documented check, and what it makes of the service.\<close>

definition checking_engine :: "engine_args \<Rightarrow> unit outcome" where
  "checking_engine a =
     (if ea_poolclass a = NullPool \<and> (ea_pool_size a \<noteq> None \<or> ea_max_overflow a \<noteq> None)
      then Inl (TypeError ''Invalid argument(s) sent to create_engine()'') else Inr ())"

theorem never_answers_witness:
  "(\<exists>m. load_main checking_engine [(''DATABASE_URL'', ''postgresql://db'')] = Inl (TypeError m)) \<and>
   (\<exists>p. load_main (\<lambda>_. Inr ()) [(''DATABASE_URL'', ''postgresql://db'')] = Inr p \<and>
     summary_request p (Inr []) (\<lambda>_. None) 0 24 = Inl not_configured)"
proof -
  let ?env = "[(''DATABASE_URL'', ''postgresql://db'')]"
  have c: "checks_pool_arguments checking_engine"
    by (simp add: checks_pool_arguments_def checking_engine_def without_sizes_def)
  have u: "DATABASE_URL ?env = ''postgresql://db''" by (simp add: DATABASE_URL_def strip_def is_space_def)
  then obtain p where p: "load_main (\<lambda>_. Inr ()) ?env = Inr p" by (simp add: load_main_def)
  from never_answers [OF c, of ?env "Inr []" "\<lambda>_. None" 0 24 "[]" 0 "Inr ()" "Inr ()" "\<lambda>_. Inr []"] u p show ?thesis
    by (auto simp: is_space_def checking_engine_def without_sizes_def)
qed

text \<open>Configured before the routes are imported, the endpoints would run on the session.\<close>

lemma configured_first:
  "request (include_router (import_analytics (configure_get_db fresh_process))) ''/analytics/summary'' opened endpoint =
     try_bind opened endpoint"
  by (simp add: request_def include_router_def import_analytics_def import_dependencies_def configure_get_db_def fresh_process_def
      analytics_paths_def)

end
