(* ===== verification/Load_Test.thy ===== *)
theory Load_Test
  imports Records_V2 Cursor_Pages
begin

text \<open>
  \<open>scripts/testing/locustfile.py\<close>: the two virtual users, and what the cursor user does against the ingestor, whose cursor
  route is the model of \<open>Records_V2\<close>. \<open>random.choice\<close> is the position it draws; the framework's statistics and waiting
  times are left out. The query string carries the cursor verbatim, which is right because a cursor has no plus sign.
\<close>

definition LIMIT :: int where "LIMIT = 50"

definition SHALLOW_OFFSETS :: "int list" where "SHALLOW_OFFSETS = [0, 50, 100, 200]"

definition DEEP_OFFSETS :: "int list" where "DEEP_OFFSETS = [1000, 2500, 5000, 7500, 9000]"

definition offset_url :: "int \<Rightarrow> string" where
  "offset_url skip = ''/api/v1/records?skip='' @ show_int skip @ ''&limit='' @ show_int LIMIT"

text \<open>The url and the name of a request of the offset user.\<close>

definition shallow_page :: "nat \<Rightarrow> string \<times> string" where
  "shallow_page k = (offset_url (SHALLOW_OFFSETS ! (k mod length SHALLOW_OFFSETS)), ''/api/v1/records [shallow]'')"

definition deep_page :: "nat \<Rightarrow> string \<times> string" where
  "deep_page k = (offset_url (DEEP_OFFSETS ! (k mod length DEEP_OFFSETS)), ''/api/v1/records [deep]'')"

subsection \<open>The cursor user\<close>

record cursor_user =
  cu_cursor :: "string option"
  cu_page :: nat

definition reset_user :: "cursor_user \<Rightarrow> cursor_user" where
  "reset_user u = u\<lparr>cu_cursor := None, cu_page := 0\<rparr>"

definition on_start :: cursor_user where
  "on_start = \<lparr>cu_cursor = None, cu_page = 0\<rparr>"

definition sent_cursor :: "cursor_user \<Rightarrow> string option" where
  "sent_cursor u = (if blank (cu_cursor u) then None else cu_cursor u)"

definition page_url :: "cursor_user \<Rightarrow> string" where
  "page_url u =
     ''/api/v2/records/cursor?'' @ ''limit='' @ show_int LIMIT @
     (case sent_cursor u of None \<Rightarrow> [] | Some c \<Rightarrow> ''&cursor='' @ c)"

definition page_name :: "cursor_user \<Rightarrow> string" where
  "page_name u =
     (if cu_page u = 0 then ''/api/v2/records/cursor [first-page]''
      else if cu_page u < 10 then ''/api/v2/records/cursor [shallow]''
      else ''/api/v2/records/cursor [deep]'')"

text \<open>A task: the body of a response with status 200, or nothing; \<open>fetch\<close> answers the limit and the cursor of the url.\<close>

definition next_cursor_page ::
  "(int \<Rightarrow> string option \<Rightarrow> cursor_page outcome) \<Rightarrow> cursor_user \<Rightarrow> cursor_page option \<times> cursor_user"
where
  "next_cursor_page fetch u =
     (case fetch LIMIT (sent_cursor u) of
        Inl _ \<Rightarrow> (None, reset_user u)
      | Inr body \<Rightarrow>
          (Some body,
           if cp_has_more body \<and> \<not> blank (cp_next_cursor body)
           then u\<lparr>cu_cursor := cp_next_cursor body, cu_page := cu_page u + 1\<rparr> else reset_user u))"

primrec browse ::
  "nat \<Rightarrow> (int \<Rightarrow> string option \<Rightarrow> cursor_page outcome) \<Rightarrow> cursor_user \<Rightarrow> cursor_page option list \<times> cursor_user"
where
  "browse 0 fetch u = ([], u)"
| "browse (Suc n) fetch u =
     (case next_cursor_page fetch u of (b, u1) \<Rightarrow> (case browse n fetch u1 of (bs, u2) \<Rightarrow> (b # bs, u2)))"

lemma browse_add:
  "browse (m + n) fetch u =
     (case browse m fetch u of (bs, u1) \<Rightarrow> (case browse n fetch u1 of (cs, u2) \<Rightarrow> (bs @ cs, u2)))"
  by (induction m arbitrary: u) (auto split: prod.splits)

subsection \<open>Cursors in a url\<close>

lemma b64_char_plus: "n < 64 \<Longrightarrow> b64_char n = CHR ''+'' \<longleftrightarrow> n = 62"
  using b64_val_char [of n] by (auto simp: b64_char_def b64_val_def)

definition plus_free :: "char \<Rightarrow> bool" where
  "plus_free c = (let n = (of_char c :: nat) in n < 128 \<and> n \<noteq> 62 \<and> n \<noteq> 126)"

lemma sextet:
  fixes p q z :: nat
  shows "p < 4 \<Longrightarrow> q < 8 \<Longrightarrow> p * 16 + q < 64 \<and> p * 16 + q \<noteq> 62"
    and "p < 16 \<Longrightarrow> q < 2 \<Longrightarrow> p * 4 + q < 64 \<and> p * 4 + q \<noteq> 62"
    and "z < 128 \<Longrightarrow> z \<noteq> 62 \<Longrightarrow> z \<noteq> 126 \<Longrightarrow> z mod 64 \<noteq> 62"
  by presburger+

lemma plus_free_chars:
  assumes "plus_free a" and "plus_free b" and "plus_free c"
  shows "b64_char (of_char a div 4) \<noteq> CHR ''+''"
    and "b64_char (of_char a mod 4 * 16) \<noteq> CHR ''+''"
    and "b64_char (of_char a mod 4 * 16 + of_char b div 16) \<noteq> CHR ''+''"
    and "b64_char (of_char b mod 16 * 4) \<noteq> CHR ''+''"
    and "b64_char (of_char b mod 16 * 4 + of_char c div 64) \<noteq> CHR ''+''"
    and "b64_char (of_char c mod 64) \<noteq> CHR ''+''"
proof -
  define x y z :: nat where "x = of_char a" "y = of_char b" "z = of_char c"
  have b: "x < 128" "y < 128" "z < 128" "z \<noteq> 62" "z \<noteq> 126"
    using assms by (simp_all add: plus_free_def Let_def x_y_z_def)
  have q: "x mod 4 < 4" "y mod 16 < 16" "y div 16 < 8" "z div 64 < 2" using b by auto
  have "x div 4 < 64" "x div 4 \<noteq> 62" using b by linarith+
  then show "b64_char (of_char a div 4) \<noteq> CHR ''+''" by (simp add: b64_char_plus x_y_z_def)
  show "b64_char (of_char a mod 4 * 16) \<noteq> CHR ''+''"
    using sextet(1) [OF q(1), of 0] by (simp add: b64_char_plus x_y_z_def)
  show "b64_char (of_char a mod 4 * 16 + of_char b div 16) \<noteq> CHR ''+''"
    using sextet(1) [OF q(1,3)] by (simp add: b64_char_plus x_y_z_def)
  show "b64_char (of_char b mod 16 * 4) \<noteq> CHR ''+''"
    using sextet(2) [OF q(2), of 0] by (simp add: b64_char_plus x_y_z_def)
  show "b64_char (of_char b mod 16 * 4 + of_char c div 64) \<noteq> CHR ''+''"
    using sextet(2) [OF q(2,4)] by (simp add: b64_char_plus x_y_z_def)
  have "z mod 64 < 64" "z mod 64 \<noteq> 62" using sextet(3) [OF b(3-5)] by simp_all
  then show "b64_char (of_char c mod 64) \<noteq> CHR ''+''" by (simp add: b64_char_plus x_y_z_def)
qed

lemma b64encode_plus_free: "list_all plus_free s \<Longrightarrow> CHR ''+'' \<notin> set (b64encode s)"
proof (induction s rule: b64encode.induct)
  case (2 a)
  then show ?case using plus_free_chars [of a a a] by (simp add: Let_def)
next
  case (3 a b)
  then show ?case using plus_free_chars [of a b b] by (simp add: Let_def)
next
  case (4 a b c r)
  then show ?case using plus_free_chars [of a b c] by (simp add: Let_def)
qed simp

lemma digits_plus_free: "list_all plus_free (show_nat n)"
proof -
  have "is_digit c \<Longrightarrow> plus_free c" for c by (auto simp: is_digit_def plus_free_def Let_def)
  then show ?thesis using show_nat_digits [of n] by (auto simp: list_all_iff)
qed

lemma isoformat_plus_free: "list_all plus_free (isoformat t)"
  by (simp add: isoformat_def pad_def Let_def digits_plus_free list_all_iff [where xs = "replicate n c" for n c]
      split: prod.splits) (simp add: plus_free_def)

lemma cursor_plus_free: "CHR ''+'' \<notin> set (encode_cursor i (Some t))"
proof -
  have j: "list_all plus_free (cursor_json i (Some t))"
    using isoformat_plus_free [of t] digits_plus_free
    by (simp add: cursor_json_def show_int_def plus_free_def Let_def)
  then have "\<forall>c \<in> set (cursor_json i (Some t)). of_char c < (128 :: nat)" by (auto simp: list_all_iff plus_free_def Let_def)
  then have "utf8_encode (cursor_json i (Some t)) = cursor_json i (Some t)" using utf8_ascii by blast
  then show ?thesis using b64encode_plus_free [OF j] by (simp add: encode_cursor_def)
qed

subsection \<open>A user over an unchanged table\<close>

definition fetch_from :: "'db engine \<Rightarrow> 'db \<Rightarrow> int \<Rightarrow> string option \<Rightarrow> cursor_page outcome" where
  "fetch_from E db lmt cursor = list_records_cursor E cursor lmt None db"

lemma more_has_cursor:
  assumes "get_records_cursor_paginated E c lmt src db = Inr (records, next_cursor, True)" and "1 \<le> lmt"
  shows "\<exists>d. next_cursor = Some d \<and> d \<noteq> []"
proof -
  obtain all where "records = take (nat lmt) all" "lmt < int (length all)"
    and n: "next_cursor = (if records \<noteq> [] then Some (encode_cursor (r_id (last records)) (Some (r_timestamp (last records)))) else None)"
    using assms(1) by (auto simp: get_records_cursor_paginated_def try_bind_Inr_iff Let_def)
  then have "records \<noteq> []" using assms(2) by auto
  then show ?thesis by (simp add: n encode_cursor_def cursor_json_def utf8_encode_def)
qed

lemma walk_browse:
  assumes "client_walk E LIMIT None c (replicate n db) = Inr (pages, True)" and "c \<noteq> Some []"
  shows "\<exists>bodies. browse (length pages) (fetch_from E db) \<lparr>cu_cursor = c, cu_page = m\<rparr> = (map Some bodies, on_start) \<and>
    map cp_records bodies = map (map response_of) pages"
  using assms
proof (induction n arbitrary: c pages m)
  case (Suc n)
  have sent: "sent_cursor \<lparr>cu_cursor = c, cu_page = m\<rparr> = c" using Suc.prems(2) by (cases c) (auto simp: sent_cursor_def blank_def)
  obtain records next_cursor has_more where page: "get_records_cursor_paginated E c LIMIT None db = Inr (records, next_cursor, has_more)"
    using Suc.prems(1) by (auto simp: try_bind_Inr_iff)
  define body where "body = \<lparr>cp_records = map response_of records, cp_next_cursor = next_cursor, cp_has_more = has_more, cp_limit = LIMIT\<rparr>"
  have answer: "fetch_from E db LIMIT c = Inr body"
    by (simp add: fetch_from_def list_records_cursor_def page body_def) (simp add: LIMIT_def)
  show ?case
  proof (cases has_more)
    case False
    then have "pages = [records]" using Suc.prems(1) page by simp
    then show ?thesis using answer False
      by (intro exI [of _ "[body]"]) (simp add: next_cursor_page_def sent body_def reset_user_def on_start_def)
  next
    case True
    then obtain d where d: "next_cursor = Some d" "d \<noteq> []" using more_has_cursor [of E c LIMIT None db records] page by (auto simp: LIMIT_def)
    obtain pages' where p: "pages = records # pages'" "client_walk E LIMIT None next_cursor (replicate n db) = Inr (pages', True)"
      using Suc.prems(1) page True by (cases "client_walk E LIMIT None next_cursor (replicate n db)") auto
    obtain bodies where "browse (length pages') (fetch_from E db) \<lparr>cu_cursor = next_cursor, cu_page = Suc m\<rparr> = (map Some bodies, on_start)"
      "map cp_records bodies = map (map response_of) pages'"
      using Suc.IH [OF p(2), of "Suc m"] d by auto
    then show ?thesis using answer True d
      by (intro exI [of _ "body # bodies"]) (simp add: next_cursor_page_def sent body_def blank_def p(1))
  qed
qed simp

lemma walk_pages: "client_walk E lmt src c (replicate n db) = Inr (pages, True) \<Longrightarrow> pages \<noteq> []"
proof (induction n arbitrary: c pages)
  case (Suc n)
  then show ?case
    by (cases "get_records_cursor_paginated E c lmt src db"; cases "client_walk E lmt src (fst (snd (projr
         (get_records_cursor_paginated E c lmt src db)))) (replicate n db)") (auto split: if_splits)
qed simp

lemma browse_rounds:
  "browse n fetch u = (bs, u) \<Longrightarrow> browse (k * n) fetch u = (concat (replicate k bs), u)"
  by (induction k) (simp_all add: browse_add)

text \<open>
  C22. Over a lawful engine with an unchanged table, a cursor user that has just started meets no failure and comes back to
  its start after a fixed number of tasks: in these it has received every active record exactly once, in the order of
  time and id, and any number of rounds repeats the same responses. No page depth ends a round early, however long the
  table: the code resets the chain at its end and after a failed request only, where the docstring of the class also
  announces a reset once a page depth threshold is passed.
\<close>

theorem user_covers_table:
  assumes "record_store E" and "db_ok E db" and "\<forall>r \<in> set (rows E db). valid_datetime (r_timestamp r)"
  shows "\<exists>bodies rs. bodies \<noteq> [] \<and> concat (map cp_records bodies) = map response_of rs \<and>
    sorted_wrt (\<lambda>a b. (r_timestamp a, r_id a) < (r_timestamp b, r_id b)) rs \<and>
    set rs = {r \<in> set (rows E db). r_deleted_at r = None} \<and>
    (\<forall>k. browse (k * length bodies) (fetch_from E db) on_start = (concat (replicate k (map Some bodies)), on_start))"
proof -
  let ?rs = "active_listing None (rows E db)"
  have all: "filter (later_than None) xs = xs" for xs by (simp add: later_than_def)
  obtain pages where pages: "client_walk E LIMIT None (cursor_at None) (replicate (Suc (length ?rs)) db) = Inr (pages, True)"
    "concat pages = ?rs"
    using record_store.static_walk [OF assms(1,2) _ _ assms(3), of LIMIT None None "Suc (length ?rs)"]
    unfolding all by (auto simp: LIMIT_def valid_pos_def)
  obtain bodies where b: "browse (length pages) (fetch_from E db) on_start = (map Some bodies, on_start)"
    "map cp_records bodies = map (map response_of) pages"
    using walk_browse [OF pages(1), of 0] by (auto simp: cursor_at_def on_start_def)
  have n: "length bodies = length pages" using b(2) by (metis length_map)
  have "pages \<noteq> []" using walk_pages [of E LIMIT None "cursor_at None" "Suc (length ?rs)" db pages] pages(1) by blast
  then have "bodies \<noteq> []" using n by auto
  moreover have "concat (map cp_records bodies) = map response_of ?rs" by (simp add: b(2) pages(2) [symmetric] map_concat)
  moreover have "sorted_wrt (\<lambda>a b. (r_timestamp a, r_id a) < (r_timestamp b, r_id b)) ?rs"
    using record_store.active_sorted [OF assms(1,2), of None None] unfolding all pos_def .
  moreover have "set ?rs = {r \<in> set (rows E db). r_deleted_at r = None}"
    by (auto simp: active_listing_set source_filter_def)
  moreover have "browse (k * length bodies) (fetch_from E db) on_start = (concat (replicate k (map Some bodies)), on_start)" for k
    using browse_rounds [OF b(1)] by (simp add: n)
  ultimately show ?thesis by blast
qed

theorem user_covers_table_witness:
  "\<exists>bodies. bodies \<noteq> [] \<and> browse (3 * length bodies) (fetch_from mem_engine three_rows) on_start = (concat (replicate 3 (map Some bodies)), on_start)"
  using user_covers_table [OF mem.record_store_axioms three_rows_ok(1,2)] by blast

end
