(* ===== verification/Telemetry.thy ===== *)
theory Telemetry
  imports Http_App Dashboard "HOL-Library.Word"
begin

text \<open>
  \<open>ingestor/metrics.py\<close>, the table of the application's metrics, and \<open>libs/platform/tracing.py\<close>: the guarded setup of the
  tracer and the trace id that the log formatters print. The tracing library's answers are outcomes; a trace id is a
  number of 128 bits.
\<close>

subsection \<open>Metrics\<close>

datatype metric_kind = Counter | Gauge | Histogram "rat list"

record metric =
  mt_kind :: metric_kind
  mt_name :: string
  mt_labels :: "string list"

definition metric_of :: "metric_kind \<Rightarrow> string \<Rightarrow> string list \<Rightarrow> metric" where
  "metric_of k n ls = \<lparr>mt_kind = k, mt_name = n, mt_labels = ls\<rparr>"

definition record_metrics :: "metric list" where
  "record_metrics =
     [metric_of Counter ''pipeline_records_created_total'' [''endpoint''],
      metric_of Counter ''pipeline_records_upsert_conflicts_total'' [''mode'']]"

definition circuit_metrics :: "metric list" where
  "circuit_metrics = [metric_of Gauge ''pipeline_circuit_breaker_state'' [''circuit'']]"

definition batch_size_histogram :: metric where
  "batch_size_histogram = metric_of (Histogram [1, 5, 10, 25, 50, 100, 250, 500, 1000]) ''pipeline_batch_insert_size'' []"

definition enrich_duration_seconds :: metric where
  "enrich_duration_seconds = metric_of (Histogram [1/10, 1/4, 1/2, 1, 5/2, 5, 10]) ''pipeline_enrich_duration_seconds'' []"

definition cache_metrics :: "metric list" where
  "cache_metrics =
     [metric_of Counter ''pipeline_cache_hits_total'' [''operation''], metric_of Counter ''pipeline_cache_misses_total'' [''operation''],
      metric_of Counter ''pipeline_cache_errors_total'' [''operation'']]"

definition job_metrics :: "metric list" where
  "job_metrics =
     [metric_of Counter ''pipeline_job_executions_total'' [''job_name'', ''status''],
      metric_of (Histogram [1/10, 1/2, 1, 5, 10, 30, 60, 120, 300]) ''pipeline_job_duration_seconds'' [''job_name'']]"

definition background_metrics :: "metric list" where
  "background_metrics =
     [metric_of Counter ''pipeline_background_jobs_submitted_total'' [''kind''],
      metric_of Counter ''pipeline_background_jobs_processed_total'' [''kind'', ''status''],
      metric_of Gauge ''pipeline_background_jobs_in_queue'' [], metric_of Gauge ''pipeline_background_jobs_active'' []]"

definition all_metrics :: "metric list" where
  "all_metrics =
     record_metrics @ circuit_metrics @ [batch_size_histogram, enrich_duration_seconds] @ cache_metrics @ job_metrics @ background_metrics"

lemmas metric_tables = all_metrics_def record_metrics_def circuit_metrics_def batch_size_histogram_def enrich_duration_seconds_def
  cache_metrics_def job_metrics_def background_metrics_def metric_of_def

fun buckets :: "metric_kind \<Rightarrow> rat list" where
  "buckets (Histogram bs) = bs"
| "buckets k = []"

text \<open>Registering a name twice raises; every histogram's buckets increase; a batch of any valid size has a bucket.\<close>

lemma metrics_register: "distinct (map mt_name all_metrics)"
  by (simp add: metric_tables)

lemma buckets_increase: "list_all (\<lambda>m. sorted_wrt (<) (buckets (mt_kind m))) all_metrics"
  by (simp add: metric_tables)

lemma batch_in_bucket:
  assumes "validate_batch now raws = Inr rs"
  shows "of_nat (length rs) \<le> Max (set (buckets (mt_kind batch_size_histogram)))"
proof -
  have "length rs \<le> 1000"
    using assms by (auto simp: validate_batch_def length_between_def schema_bounds traverse_length split: if_splits)
  then have "(of_nat (length rs) :: rat) \<le> of_nat 1000" by (simp only: of_nat_le_iff)
  then show ?thesis by (simp add: batch_size_histogram_def metric_of_def)
qed

text \<open>Of these metrics the dashboard surfaces one.\<close>

lemma dashboard_surfaces:
  "map mt_name (filter (\<lambda>m. surfaced_name (mt_name m)) all_metrics) = [''pipeline_records_created_total'']"
  by (simp add: metric_tables surfaced_name_def surfaced_keys_def contains_def word_def is_space_def)

subsection \<open>Tracing\<close>

text \<open>\<open>setup_tracing\<close>: the flag \<open>_initialized\<close>; \<open>installed\<close> is the outcome of the body of the \<open>try\<close>.\<close>

definition setup_tracing :: "unit outcome \<Rightarrow> bool \<Rightarrow> unit outcome \<times> bool" where
  "setup_tracing installed initialized =
     (if initialized then (Inr (), True)
      else (case installed of
              Inr _ \<Rightarrow> (Inr (), True)
            | Inl e \<Rightarrow> if is_Exception e then (Inr (), False) else (Inl e, False)))"

text \<open>
  \<open>_setup_otel\<close> of \<open>services/processor/main.py\<close>: the tracer, if the environment enables it and nothing raises; \<open>install\<close>
  is the outcome of the imports and the calls for an endpoint and a service name.
\<close>

definition getenv :: "environ \<Rightarrow> string \<Rightarrow> string \<Rightarrow> string" where
  "getenv env name dflt = (case map_of env name of Some v \<Rightarrow> v | None \<Rightarrow> dflt)"

definition setup_otel :: "environ \<Rightarrow> (string \<Rightarrow> string \<Rightarrow> 't outcome) \<Rightarrow> 't option outcome" where
  "setup_otel env install =
     (if lower (getenv env ''OTEL_ENABLED'' ''false'') \<noteq> ''true'' then Inr None
      else (case install (getenv env ''OTEL_EXPORTER_OTLP_ENDPOINT'' ''http://localhost:4317'')
                   (getenv env ''OTEL_SERVICE_NAME'' ''processor'') of
              Inr t \<Rightarrow> Inr (Some t)
            | Inl e \<Rightarrow> if is_Exception e then Inr None else Inl e))"

text \<open>Tracing never keeps the processor from starting.\<close>

lemma setup_otel_starts: "(\<And>u n e. install u n = Inl e \<Longrightarrow> is_Exception e) \<Longrightarrow> \<exists>t. setup_otel env install = Inr t"
  by (auto simp: setup_otel_def split: sum.split)

definition hex_nibble :: "nat \<Rightarrow> char" where
  "hex_nibble n = (if n < 10 then char_of (48 + n) else char_of (87 + n))"

fun hex_digits :: "nat \<Rightarrow> nat \<Rightarrow> string" where
  "hex_digits 0 n = []"
| "hex_digits (Suc k) n = hex_digits k (n div 16) @ [hex_nibble (n mod 16)]"

text \<open>\<open>format(trace_id, "032x")\<close>.\<close>

definition format_trace_id :: "128 word \<Rightarrow> string" where
  "format_trace_id w = hex_digits 32 (unat w)"

text \<open>\<open>get_trace_id\<close>: the context of the current span is valid or not, and its id.\<close>

definition get_trace_id :: "(bool \<times> 128 word) outcome \<Rightarrow> string option outcome" where
  "get_trace_id current =
     (case current of
        Inr (is_valid, w) \<Rightarrow> Inr (if is_valid then Some (format_trace_id w) else None)
      | Inl e \<Rightarrow> if is_Exception e then Inr None else Inl e)"

definition hex_of :: "char \<Rightarrow> nat" where
  "hex_of c = (let n = of_char c in if n < 58 then n - 48 else n - 87)"

lemma hex_of_digit: "n < 16 \<Longrightarrow> hex_of (hex_nibble n) = n"
  by (simp add: hex_of_def hex_nibble_def)

lemma hex_digits_length: "length (hex_digits k n) = k"
  by (induction k arbitrary: n) simp_all

lemma hex_digits_value: "fold (\<lambda>c v. 16 * v + hex_of c) (hex_digits k n) 0 = n mod 16 ^ k"
proof (induction k arbitrary: n)
  case (Suc k)
  have "16 * (n div 16 mod 16 ^ k) + n mod 16 = n mod 16 ^ Suc k" by (simp add: mod_mult2_eq)
  then show ?case using Suc.IH [of "n div 16"] by (simp add: hex_of_digit)
qed simp

text \<open>The printed id has 32 digits and determines the number: no two traces share one.\<close>

lemma trace_id_roundtrip:
  "length (format_trace_id w) = 32 \<and> of_nat (fold (\<lambda>c v. 16 * v + hex_of c) (format_trace_id w) 0) = w"
proof -
  have "unat w < 16 ^ 32" using unsigned_less [of w, where ?'a = nat] by simp
  then show ?thesis by (simp add: format_trace_id_def hex_digits_length hex_digits_value)
qed

lemma trace_id_inj: "format_trace_id v = format_trace_id w \<longleftrightarrow> v = w"
  using trace_id_roundtrip by metis

text \<open>Setting up twice is setting up once.\<close>

lemma setup_tracing_once:
  "setup_tracing a False = (Inr (), True) \<Longrightarrow> setup_tracing b (snd (setup_tracing a False)) = (Inr (), True)"
  by (simp add: setup_tracing_def)

end
