(* ===== verification/Client_Demos.thy ===== *)
theory Client_Demos
  imports Fetch Json_Access
begin

text \<open>
  \<open>scripts/tools/http-clients-demo.py\<close>: the demonstrations of the two HTTP clients over the models of \<open>ingestor/fetch.py\<close>
  and \<open>ingestor/fetch_aiohttp.py\<close>. A demonstration is a state transformer over the clients that gives the lines it logs
  (banners left out), the seconds it sleeps and its outcome. What the services answer to attempt \<open>k\<close> of call \<open>i\<close>,
  which sleeps are cancelled and what closing a client raises are arguments.
\<close>

subsection \<open>Scripts with output\<close>

datatype demo_line =
    Fetched_Post json
  | Body_Excerpt json
  | Fetched_Country json
  | Capital json
  | Region json
  | Got_Posts nat
  | Got_Countries nat
  | Demo_Error py_exn
  | Clients_Closed

type_synonym ('s, 'a) demo = "'s \<Rightarrow> 's \<times> demo_line list \<times> int list \<times> 'a outcome"

definition pass :: "'a outcome \<Rightarrow> ('s, 'a) demo" where
  "pass r s = (s, [], [], r)"

definition say :: "demo_line \<Rightarrow> ('s, unit) demo" where
  "say l s = (s, [l], [], Inr ())"

definition demo_bind :: "('s, 'a) demo \<Rightarrow> ('a \<Rightarrow> ('s, 'b) demo) \<Rightarrow> ('s, 'b) demo" where
  "demo_bind m f s =
     (case m s of
        (s1, ls, ds, Inl e) \<Rightarrow> (s1, ls, ds, Inl e)
      | (s1, ls, ds, Inr v) \<Rightarrow> (case f v s1 of (s2, ls2, ds2, r) \<Rightarrow> (s2, ls @ ls2, ds @ ds2, r)))"

text \<open>\<open>except Exception as e\<close> with its error line, and \<open>finally\<close>.\<close>

definition log_errors :: "('s, unit) demo \<Rightarrow> ('s, unit) demo" where
  "log_errors m s =
     (case m s of
        (s1, ls, ds, Inl e) \<Rightarrow> if is_Exception e then (s1, ls @ [Demo_Error e], ds, Inr ()) else (s1, ls, ds, Inl e)
      | (s1, ls, ds, Inr u) \<Rightarrow> (s1, ls, ds, Inr u))"

definition demo_finally :: "('s, unit) demo \<Rightarrow> ('s, unit) demo \<Rightarrow> ('s, unit) demo" where
  "demo_finally m fin s =
     (case m s of (s1, ls, ds, r) \<Rightarrow>
        (case fin s1 of
           (s2, ls2, ds2, Inl e) \<Rightarrow> (s2, ls @ ls2, ds @ ds2, Inl e)
         | (s2, ls2, ds2, Inr u) \<Rightarrow> (s2, ls @ ls2, ds @ ds2, r)))"

subsection \<open>The clients and the network\<close>

record ('l, 'c, 'g) clients_state =
  httpx_clients :: "('l, 'c) client_table"
  aio_session :: "'g option"

record ('l, 'c, 'g) network =
  this_loop :: 'l
  fresh_client :: 'c
  fresh_session :: 'g
  post_answer :: "nat \<Rightarrow> nat \<Rightarrow> 'c \<Rightarrow> string \<Rightarrow> json outcome"
  country_answer :: "nat \<Rightarrow> nat \<Rightarrow> 'g \<Rightarrow> string \<Rightarrow> json outcome"
  stopped :: "nat \<Rightarrow> nat \<Rightarrow> bool"
  client_close :: "'c \<Rightarrow> unit outcome"
  session_close :: "'g \<Rightarrow> unit outcome"
  finish_order :: "nat \<Rightarrow> nat list"

definition httpx_fetch :: "('l, 'c, 'g) network \<Rightarrow> nat \<Rightarrow> string \<Rightarrow> int \<Rightarrow> (('l, 'c, 'g) clients_state, json) demo" where
  "httpx_fetch N i url retries s =
     (case fetch_with_retry (post_answer N i) (this_loop N) (fresh_client N) False (\<lambda>k. 0) (stopped N i) url retries
         (httpx_clients s) of (t, ds, r) \<Rightarrow> (s\<lparr>httpx_clients := t\<rparr>, [], ds, r))"

definition aiohttp_fetch :: "('l, 'c, 'g) network \<Rightarrow> nat \<Rightarrow> string \<Rightarrow> int \<Rightarrow> (('l, 'c, 'g) clients_state, json) demo" where
  "aiohttp_fetch N i resource retries s =
     (case fetch_countries_with_retry (country_answer N i) (fresh_session N) False (\<lambda>k. 0) (stopped N i) resource retries
         (aio_session s) of (g, ds, r) \<Rightarrow> (s\<lparr>aio_session := g\<rparr>, [], ds, r))"

definition close_httpx :: "('l, 'c, 'g) network \<Rightarrow> (('l, 'c, 'g) clients_state, unit) demo" where
  "close_httpx N s =
     (case close_http_client (Some (this_loop N)) (client_close N) (httpx_clients s) of
        (t, r) \<Rightarrow> (s\<lparr>httpx_clients := t\<rparr>, [], [], r))"

definition close_aiohttp :: "('l, 'c, 'g) network \<Rightarrow> (('l, 'c, 'g) clients_state, unit) demo" where
  "close_aiohttp N s =
     (case close_http_session (session_close N) (aio_session s) of (g, r) \<Rightarrow> (s\<lparr>aio_session := g\<rparr>, [], [], r))"

subsection \<open>The demonstrations\<close>

definition DEMO_POSTS_URL :: string where "DEMO_POSTS_URL = ''https://jsonplaceholder.typicode.com/posts/''"

text \<open>\<open>v[:80]\<close> and \<open>v[0]\<close>.\<close>

fun py_excerpt :: "json \<Rightarrow> json outcome" where
  "py_excerpt (JStr s) = Inr (JStr (take 80 s))"
| "py_excerpt (JList xs) = Inr (JList (take 80 xs))"
| "py_excerpt (JObj kvs) = Inl (KeyError ''slice(None, 80, None)'')"
| "py_excerpt v = Inl (TypeError (''object is not subscriptable: '' @ type_name v))"

fun py_first :: "json \<Rightarrow> json outcome" where
  "py_first (JStr (c # s)) = Inr (JStr [c])"
| "py_first (JStr []) = Inl (IndexError ''string index out of range'')"
| "py_first (JList (x # xs)) = Inr x"
| "py_first (JList []) = Inl (IndexError ''list index out of range'')"
| "py_first (JObj kvs) = Inl (KeyError ''0'')"
| "py_first v = Inl (TypeError (''object is not subscriptable: '' @ type_name v))"

text \<open>The body of the \<open>try\<close> of each demonstration, and the demonstration.\<close>

definition httpx_script :: "('l, 'c, 'g) network \<Rightarrow> (('l, 'c, 'g) clients_state, unit) demo" where
  "httpx_script N =
     demo_bind (httpx_fetch N 0 (DEMO_POSTS_URL @ ''1'') 2) (\<lambda>result.
     demo_bind (pass (py_subscript result ''title'')) (\<lambda>title.
     demo_bind (say (Fetched_Post title)) (\<lambda>_.
     demo_bind (pass (try_bind (py_subscript result ''body'') py_excerpt)) (\<lambda>body.
     demo_bind (say (Body_Excerpt body)) (\<lambda>_.
     demo_bind (httpx_fetch N 1 (DEMO_POSTS_URL @ ''2'') 2) (\<lambda>result2.
     demo_bind (pass (py_subscript result2 ''title'')) (\<lambda>title2.
     say (Fetched_Post title2))))))))"

definition demo_httpx :: "('l, 'c, 'g) network \<Rightarrow> (('l, 'c, 'g) clients_state, unit) demo" where
  "demo_httpx N = demo_finally (log_errors (httpx_script N)) (demo_bind (close_httpx N) (\<lambda>_. say Clients_Closed))"

definition say_country_name :: "json \<Rightarrow> ('s, unit) demo" where
  "say_country_name country =
     demo_bind (pass (try_bind (py_subscript country ''name'') (\<lambda>n. py_subscript n ''common''))) (\<lambda>c. say (Fetched_Country c))"

definition say_country :: "json \<Rightarrow> ('s, unit) demo" where
  "say_country country =
     demo_bind (say_country_name country) (\<lambda>_.
     demo_bind (pass (try_bind (py_get_default country ''capital'' (JList [JStr ''N/A''])) py_first)) (\<lambda>cap.
     demo_bind (say (Capital cap)) (\<lambda>_.
     demo_bind (pass (py_get_default country ''region'' (JStr ''N/A''))) (\<lambda>reg.
     say (Region reg)))))"

text \<open>\<open>if isinstance(result, list) and result\<close>, with the first element.\<close>

definition if_first :: "json \<Rightarrow> (json \<Rightarrow> ('s, unit) demo) \<Rightarrow> ('s, unit) demo" where
  "if_first result f = (case result of JList (x # _) \<Rightarrow> f x | _ \<Rightarrow> pass (Inr ()))"

definition aiohttp_script :: "('l, 'c, 'g) network \<Rightarrow> (('l, 'c, 'g) clients_state, unit) demo" where
  "aiohttp_script N =
     demo_bind (aiohttp_fetch N 0 ''name/United%20States'' 2) (\<lambda>result.
     demo_bind (if_first result say_country) (\<lambda>_.
     demo_bind (aiohttp_fetch N 1 ''name/Germany'' 2) (\<lambda>result2.
     if_first result2 say_country_name)))"

definition demo_aiohttp :: "('l, 'c, 'g) network \<Rightarrow> (('l, 'c, 'g) clients_state, unit) demo" where
  "demo_aiohttp N = demo_finally (log_errors (aiohttp_script N)) (demo_bind (close_aiohttp N) (\<lambda>_. say Clients_Closed))"

text \<open>
  \<open>asyncio.gather\<close>: the tasks start in order and suspend at their request; the first to fail, in the order in which they
  finish, decides the outcome. With one attempt each, no task touches the clients after its request.
\<close>

fun start_all :: "('s, 'a) demo list \<Rightarrow> 's \<Rightarrow> 's \<times> int list \<times> 'a outcome list" where
  "start_all [] s = (s, [], [])"
| "start_all (m # ms) s =
     (case m s of (s1, _, ds, r) \<Rightarrow> (case start_all ms s1 of (s2, ds2, rs) \<Rightarrow> (s2, ds @ ds2, r # rs)))"

definition first_failure :: "nat list \<Rightarrow> 'a outcome list \<Rightarrow> 'a list outcome" where
  "first_failure order rs =
     (case List.find (\<lambda>i. isl (rs ! i)) order of Some i \<Rightarrow> Inl (projl (rs ! i)) | None \<Rightarrow> Inr (map projr rs))"

definition gather :: "nat list \<Rightarrow> ('s, 'a) demo list \<Rightarrow> ('s, 'a list) demo" where
  "gather order ms s = (case start_all ms s of (s1, ds, rs) \<Rightarrow> (s1, [], ds, first_failure order rs))"

definition concurrent_script :: "('l, 'c, 'g) network \<Rightarrow> (('l, 'c, 'g) clients_state, unit) demo" where
  "concurrent_script N =
     demo_bind (gather (finish_order N 0) (map (\<lambda>i. httpx_fetch N (i + 1) (DEMO_POSTS_URL @ show_nat i) 1) [1, 2, 3])) (\<lambda>posts.
     demo_bind (say (Got_Posts (length posts))) (\<lambda>_.
     demo_bind (gather (finish_order N 1)
       (map (\<lambda>(i, country). aiohttp_fetch N i (''name/'' @ country) 1) [(2, ''France''), (3, ''Spain''), (4, ''Italy'')])) (\<lambda>countries.
     say (Got_Countries (length countries)))))"

definition demo_concurrent_requests :: "('l, 'c, 'g) network \<Rightarrow> (('l, 'c, 'g) clients_state, unit) demo" where
  "demo_concurrent_requests N =
     demo_finally (log_errors (concurrent_script N))
       (demo_bind (close_httpx N) (\<lambda>_. demo_bind (close_aiohttp N) (\<lambda>_. say Clients_Closed)))"

definition run_demos :: "('l, 'c, 'g) network \<Rightarrow> (('l, 'c, 'g) clients_state, unit) demo" where
  "run_demos N =
     demo_bind (demo_httpx N) (\<lambda>_. demo_bind (demo_aiohttp N) (\<lambda>_. demo_concurrent_requests N))"

subsection \<open>What the demonstrations leave behind\<close>

text \<open>\<open>costs P k m\<close>: \<open>m\<close> keeps \<open>P\<close>, on every outcome, and sleeps at most \<open>k\<close> seconds.\<close>

definition costs :: "('s \<Rightarrow> bool) \<Rightarrow> int \<Rightarrow> ('s, 'a) demo \<Rightarrow> bool" where
  "costs P k m \<longleftrightarrow> 0 \<le> k \<and> (\<forall>s s1 ls ds r. P s \<longrightarrow> m s = (s1, ls, ds, r) \<longrightarrow> P s1 \<and> sum_list ds \<le> k)"

named_theorems cost_rules

lemma costs_pass [cost_rules]: "costs P 0 (pass r)"
  by (simp add: costs_def pass_def)

lemma costs_say [cost_rules]: "costs P 0 (say l)"
  by (simp add: costs_def say_def)

lemma costs_bind [cost_rules]:
  assumes "costs P j m" and "\<And>v. costs P k (f v)"
  shows "costs P (j + k) (demo_bind m f)"
  unfolding costs_def
proof (intro conjI allI impI)
  show "0 \<le> j + k" using assms by (simp add: costs_def)
  fix s s1 ls ds r
  assume P: "P s" and run: "demo_bind m f s = (s1, ls, ds, r)"
  obtain s2 ls2 ds2 r2 where m: "m s = (s2, ls2, ds2, r2)" by (cases "m s") auto
  then have 2: "P s2" "sum_list ds2 \<le> j" using assms(1) P unfolding costs_def by blast+
  have k: "0 \<le> k" using assms(2) by (simp add: costs_def)
  have "P s1 \<and> sum_list ds \<le> j + k"
  proof (cases r2)
    case (Inl e)
    then show ?thesis using run m 2 k by (simp add: demo_bind_def)
  next
    case (Inr v)
    obtain s3 ls3 ds3 r3 where f: "f v s2 = (s3, ls3, ds3, r3)" by (cases "f v s2") auto
    then have "P s3" "sum_list ds3 \<le> k" using assms(2) 2(1) unfolding costs_def by blast+
    then show ?thesis using run m f Inr 2(2) by (auto simp: demo_bind_def)
  qed
  then show "P s1" "sum_list ds \<le> j + k" by auto
qed

lemma costs_log_errors [cost_rules]: "costs P k m \<Longrightarrow> costs P k (log_errors m)"
  by (fastforce simp: costs_def log_errors_def split: prod.splits sum.splits if_splits)

lemma costs_weaken: "costs P j m \<Longrightarrow> j \<le> k \<Longrightarrow> costs P k m"
  by (fastforce simp: costs_def)

text \<open>The sleeps of a fetch with \<open>n\<close> attempts, and what it does to the clients.\<close>

lemma retry_loop_sleeps:
  "sum_list (fst (snd (retry_loop n fetch cancelled a last_exc s))) \<le> (if int a < n then 2 ^ (nat n - 1) - 2 ^ a else 0)"
proof (induction n fetch cancelled a last_exc s rule: retry_loop.induct)
  case (1 n fetch cancelled a last_exc s)
  show ?case
  proof (cases "int a < n")
    case False
    then show ?thesis by (simp add: retry_loop.simps [of n fetch cancelled a])
  next
    case True
    obtain s1 r where f: "fetch a s = (s1, r)" by fastforce
    have mono: "(2 :: int) ^ a \<le> 2 ^ (nat n - 1)" using True by (intro power_increasing) auto
    show ?thesis
    proof (cases r)
      case (Inr v)
      then show ?thesis using True f mono by (simp add: retry_loop.simps [of n fetch cancelled a])
    next
      case (Inl e)
      have double: "int a < n - 1 \<Longrightarrow> (2 :: int) ^ Suc a \<le> 2 ^ (nat n - 1)" by (intro power_increasing) auto
      have last: "\<not> int a < n - 1 \<Longrightarrow> nat n - Suc 0 = a" using True by auto
      show ?thesis
        using "1.IH" [OF True f [symmetric]] f Inl True mono double last
        by (subst retry_loop.simps) (auto split: prod.splits)
    qed
  qed
qed

lemma retry_loop_keeps:
  "(\<And>k s. P s \<Longrightarrow> P (fst (fetch k s))) \<Longrightarrow> P s \<Longrightarrow> P (fst (retry_loop n fetch cancelled a last_exc s))"
proof (induction n fetch cancelled a last_exc s rule: retry_loop.induct)
  case (1 n fetch cancelled a last_exc s)
  obtain s1 r where f: "fetch a s = (s1, r)" by fastforce
  then have "P s1" using "1.prems"(1) [OF "1.prems"(2), of a] by simp
  moreover have "P (fst (retry_loop n fetch cancelled (Suc a) (Some e) s1))"
    if "r = Inl e" "is_Exception e" "int a < n" "\<not> (int a < n - 1 \<and> cancelled a)" for e
    using that "1.IH" f [symmetric] "1.prems"(1) \<open>P s1\<close> by (cases "int a < n - 1") auto
  ultimately show ?case
    using f "1.prems"(2) by (cases r) (auto simp: retry_loop.simps [of n fetch cancelled a] split: prod.splits)
qed

text \<open>Only this loop has a client, and of the two kinds of client only those allowed are open.\<close>

definition only_loop :: "'l \<Rightarrow> ('l, 'c) client_table \<Rightarrow> bool" where
  "only_loop loop t \<longleftrightarrow> fst ` set t \<subseteq> {loop}"

definition own_clients :: "('l, 'c, 'g) network \<Rightarrow> bool \<Rightarrow> bool \<Rightarrow> ('l, 'c, 'g) clients_state \<Rightarrow> bool" where
  "own_clients N httpx aio s \<longleftrightarrow>
     only_loop (this_loop N) (httpx_clients s) \<and> (httpx \<or> httpx_clients s = []) \<and> (aio \<or> aio_session s = None)"

lemma own_loop_kept: "only_loop loop t \<Longrightarrow> only_loop loop (snd (get_http_client loop new t))"
  by (auto simp: only_loop_def get_http_client_def dom_update split: option.split)

lemma own_loop_fetched: "only_loop loop t \<Longrightarrow> only_loop loop (fst (fetch_from_external_api h loop new b q url t))"
  using own_loop_kept [of loop t new]
  by (cases "get_http_client loop new t") (simp add: fetch_from_external_api_def)

lemma costs_httpx [cost_rules]:
  assumes "1 \<le> n"
  shows "costs (own_clients N True aio) (2 ^ (nat n - 1) - 1) (httpx_fetch N i url n)"
proof -
  let ?f = "fetch_with_retry (post_answer N i) (this_loop N) (fresh_client N) False (\<lambda>k. 0) (stopped N i) url n"
  have keep: "only_loop (this_loop N) t \<Longrightarrow> only_loop (this_loop N) (fst (?f t))" for t
    unfolding fetch_with_retry_def by (rule retry_loop_keeps [where P = "only_loop (this_loop N)", OF own_loop_fetched])
  have sleep: "sum_list (fst (snd (?f t))) \<le> 2 ^ (nat n - 1) - 1" for t
    unfolding fetch_with_retry_def using assms by (intro order_trans [OF retry_loop_sleeps]) simp
  have "own_clients N True aio s1 \<and> sum_list ds \<le> 2 ^ (nat n - 1) - 1"
    if "own_clients N True aio s" "httpx_fetch N i url n s = (s1, ls, ds, r)" for s s1 ls ds r
    using that keep [of "httpx_clients s"] sleep [of "httpx_clients s"]
    by (cases "?f (httpx_clients s)") (auto simp: httpx_fetch_def own_clients_def)
  then show ?thesis by (simp add: costs_def)
qed

lemma costs_aiohttp [cost_rules]:
  assumes "1 \<le> n"
  shows "costs (own_clients N httpx True) (2 ^ (nat n - 1) - 1) (aiohttp_fetch N i url n)"
proof -
  let ?f = "fetch_countries_with_retry (country_answer N i) (fresh_session N) False (\<lambda>k. 0) (stopped N i) url n"
  have sleep: "sum_list (fst (snd (?f g))) \<le> 2 ^ (nat n - 1) - 1" for g
    unfolding fetch_countries_with_retry_def using assms by (intro order_trans [OF retry_loop_sleeps]) simp
  have "own_clients N httpx True s1 \<and> sum_list ds \<le> 2 ^ (nat n - 1) - 1"
    if "own_clients N httpx True s" "aiohttp_fetch N i url n s = (s1, ls, ds, r)" for s s1 ls ds r
    using that sleep [of "aio_session s"]
    by (cases "?f (aio_session s)") (auto simp: aiohttp_fetch_def own_clients_def)
  then show ?thesis by (simp add: costs_def)
qed

lemma costs_gather:
  assumes "\<And>m. m \<in> set ms \<Longrightarrow> costs P 0 m"
  shows "costs P 0 (gather order ms)"
proof -
  have "P s \<Longrightarrow> start_all ms s = (s1, ds, rs) \<Longrightarrow> P s1 \<and> sum_list ds \<le> 0" for s s1 ds rs
    using assms
  proof (induction ms arbitrary: s s1 ds rs)
    case (Cons m ms)
    obtain s2 ls2 ds2 r2 where m: "m s = (s2, ls2, ds2, r2)" by (cases "m s") auto
    obtain s3 ds3 rs3 where ms: "start_all ms s2 = (s3, ds3, rs3)" by (cases "start_all ms s2") auto
    have "P s2 \<and> sum_list ds2 \<le> 0" using Cons.prems(1,3) m unfolding costs_def by fastforce
    moreover from this have "P s3 \<and> sum_list ds3 \<le> 0" using Cons.IH [OF _ ms] Cons.prems(3) by simp
    ultimately show ?case using Cons.prems(2) m ms by auto
  qed simp
  then show ?thesis by (auto simp: costs_def gather_def split: prod.splits)
qed

text \<open>The clean-up of a demonstration.\<close>

definition closes :: "('s \<Rightarrow> bool) \<Rightarrow> ('s, unit) demo \<Rightarrow> ('s \<Rightarrow> bool) \<Rightarrow> bool" where
  "closes P fin Q \<longleftrightarrow> (\<forall>s. P s \<longrightarrow> (\<exists>s1. Q s1 \<and> fin s = (s1, [Clients_Closed], [], Inr ())))"

lemma demo_outcome:
  assumes "costs P k m" and "closes P fin Q" and "P s"
  shows "\<exists>s1 ls ds r. demo_finally (log_errors m) fin s = (s1, ls, ds, r) \<and> Q s1 \<and> sum_list ds \<le> k \<and>
    (r = Inr () \<or> (\<exists>e. r = Inl e \<and> \<not> is_Exception e))"
proof -
  obtain s1 ls ds r where m: "m s = (s1, ls, ds, r)" by (cases "m s") auto
  then have "P s1" "sum_list ds \<le> k" using assms(1,3) unfolding costs_def by blast+
  moreover from this obtain s2 where "Q s2" "fin s1 = (s2, [Clients_Closed], [], Inr ())"
    using assms(2) by (auto simp: closes_def)
  ultimately show ?thesis
    using m by (cases r) (auto simp: demo_finally_def log_errors_def)
qed

text \<open>What closing raises: of an httpx client at most the \<open>RuntimeError\<close> that is suppressed, of the session nothing.\<close>

definition closes_cleanly :: "('l, 'c, 'g) network \<Rightarrow> bool" where
  "closes_cleanly N \<longleftrightarrow> (\<forall>c e. client_close N c = Inl e \<longrightarrow> (\<exists>m. e = RuntimeError m)) \<and> (\<forall>g. session_close N g = Inr ())"

lemma close_httpx_result:
  assumes "closes_cleanly N" and own: "own_clients N True aio s"
  shows "\<exists>s1. close_httpx N s = (s1, [], [], Inr ()) \<and> own_clients N False aio s1"
proof -
  have "AList.delete (this_loop N) (httpx_clients s) = []"
    using own by (auto simp: own_clients_def only_loop_def AList.delete_eq filter_empty_conv)
  moreover have "httpx_clients s = [] \<or> map_of (httpx_clients s) (this_loop N) \<noteq> None"
    using own by (cases "httpx_clients s") (auto simp: own_clients_def only_loop_def)
  ultimately show ?thesis
    using own assms(1) [unfolded closes_cleanly_def]
    by (auto simp: close_httpx_def close_http_client_def own_clients_def only_loop_def split: option.split sum.split py_exn.split)
qed

lemma close_aiohttp_result:
  "closes_cleanly N \<Longrightarrow> \<exists>s1. close_aiohttp N s = (s1, [], [], Inr ()) \<and> aio_session s1 = None \<and> httpx_clients s1 = httpx_clients s"
  by (auto simp: closes_cleanly_def close_aiohttp_def close_http_session_def split: option.split)

lemma httpx_cleanup:
  "closes_cleanly N \<Longrightarrow> closes (own_clients N True aio) (demo_bind (close_httpx N) (\<lambda>_. say Clients_Closed)) (own_clients N False aio)"
  using close_httpx_result by (fastforce simp: closes_def demo_bind_def say_def)

lemma aiohttp_cleanup:
  assumes "closes_cleanly N"
  shows "closes (own_clients N httpx True) (demo_bind (close_aiohttp N) (\<lambda>_. say Clients_Closed)) (own_clients N httpx False)"
proof -
  have "\<exists>s1. own_clients N httpx False s1 \<and> demo_bind (close_aiohttp N) (\<lambda>_. say Clients_Closed) s = (s1, [Clients_Closed], [], Inr ())"
    if "own_clients N httpx True s" for s
    using close_aiohttp_result [OF assms, of s] that by (auto simp: demo_bind_def say_def own_clients_def)
  then show ?thesis by (simp add: closes_def)
qed

lemma both_cleanup:
  assumes "closes_cleanly N"
  shows "closes (own_clients N True True)
     (demo_bind (close_httpx N) (\<lambda>_. demo_bind (close_aiohttp N) (\<lambda>_. say Clients_Closed))) (own_clients N False False)"
proof -
  have "\<exists>s1. own_clients N False False s1 \<and>
      demo_bind (close_httpx N) (\<lambda>_. demo_bind (close_aiohttp N) (\<lambda>_. say Clients_Closed)) s = (s1, [Clients_Closed], [], Inr ())"
    if own: "own_clients N True True s" for s
  proof -
    obtain s1 where 1: "close_httpx N s = (s1, [], [], Inr ())" "own_clients N False True s1"
      using close_httpx_result [OF assms own] by auto
    obtain s2 where "close_aiohttp N s1 = (s2, [], [], Inr ())" "aio_session s2 = None" "httpx_clients s2 = httpx_clients s1"
      using close_aiohttp_result [OF assms, of s1] by auto
    with 1 show ?thesis by (auto simp: demo_bind_def say_def own_clients_def)
  qed
  then show ?thesis by (simp add: closes_def)
qed

lemma scripts_cost:
  fixes N :: "('l, 'c, 'g) network"
  shows "costs (own_clients N True False) 2 (httpx_script N)"
  "costs (own_clients N False True) 2 (aiohttp_script N)"
  "costs (own_clients N True True) 0 (concurrent_script N)"
proof -
  have one: "costs (own_clients N True aio) 1 (httpx_fetch N i url 2)" "costs (own_clients N httpx True) 1 (aiohttp_fetch N i url 2)"
    "costs (own_clients N True aio) 0 (httpx_fetch N i url 1)" "costs (own_clients N httpx True) 0 (aiohttp_fetch N i url 1)" for aio httpx i url
    using costs_httpx [of 2 N aio i url] costs_aiohttp [of 2 N httpx i url] costs_httpx [of 1 N aio i url] costs_aiohttp [of 1 N httpx i url]
    by simp_all
  have name: "costs P 0 (say_country_name c)" for c and P :: "('l, 'c, 'g) clients_state \<Rightarrow> bool"
    unfolding say_country_name_def using costs_bind [OF costs_pass costs_say, of P] by simp
  have country: "costs P 0 (say_country c)" for c and P :: "('l, 'c, 'g) clients_state \<Rightarrow> bool"
    unfolding say_country_def
    by (rule costs_weaken [where j = "0 + (0 + (0 + (0 + 0)))"], (rule costs_bind costs_pass costs_say name)+) simp
  have first: "costs P 0 (if_first v f)" if "\<And>x. costs P 0 (f x)" for v f and P :: "('l, 'c, 'g) clients_state \<Rightarrow> bool"
    using that costs_pass [of P "Inr ()"] by (auto simp: if_first_def split: json.split list.split)
  show "costs (own_clients N True False) 2 (httpx_script N)"
    unfolding httpx_script_def
    by (rule costs_weaken [where j = "1 + (0 + (0 + (0 + (0 + (1 + (0 + 0))))))"], (rule costs_bind costs_pass costs_say one)+) simp
  show "costs (own_clients N False True) 2 (aiohttp_script N)"
    unfolding aiohttp_script_def
    by (rule costs_weaken [where j = "1 + (0 + (1 + 0))"], (rule costs_bind one first name country)+) simp
  have gathered: "costs (own_clients N True True) 0 (gather o1 (map (\<lambda>i. httpx_fetch N (f i) (g i) 1) xs))"
    "costs (own_clients N True True) 0 (gather o1 (map (\<lambda>(i, c). aiohttp_fetch N i (h c) 1) ys))" for o1 f g h xs ys
    by (rule costs_gather, auto simp: one)+
  show "costs (own_clients N True True) 0 (concurrent_script N)"
    unfolding concurrent_script_def
    by (rule costs_weaken [where j = "0 + (0 + (0 + 0))"], (rule costs_bind costs_say gathered)+) simp
qed

text \<open>
  The demonstrations clean up after themselves. Whatever the services answer and whichever sleeps are cancelled, as long as
  closing an httpx client raises at most the \<open>RuntimeError\<close> that is suppressed and closing the session raises nothing, the
  run ends without an open client, after at most four seconds of sleep, and with no error but a cancellation.
\<close>

theorem demos_leave_no_client:
  assumes "closes_cleanly N" and "run_demos N \<lparr>httpx_clients = [], aio_session = None\<rparr> = (s, ls, ds, r)"
  shows "s = \<lparr>httpx_clients = [], aio_session = None\<rparr> \<and> sum_list ds \<le> 4 \<and> (r = Inr () \<or> (\<exists>e. r = Inl e \<and> \<not> is_Exception e))"
proof -
  have empty: "own_clients N False False t \<longleftrightarrow> t = \<lparr>httpx_clients = [], aio_session = None\<rparr>" for t
    by (cases t) (auto simp: own_clients_def only_loop_def)
  have open_more: "own_clients N False False t \<Longrightarrow> own_clients N a b t" for a b t
    by (auto simp: own_clients_def)
  have h: "\<exists>s1 ls ds r. demo_httpx N t = (s1, ls, ds, r) \<and> own_clients N False False s1 \<and> sum_list ds \<le> 2 \<and>
      (r = Inr () \<or> (\<exists>e. r = Inl e \<and> \<not> is_Exception e))" if "own_clients N False False t" for t
    unfolding demo_httpx_def by (rule demo_outcome [OF scripts_cost(1) httpx_cleanup [OF assms(1)] open_more [OF that]])
  have a: "\<exists>s1 ls ds r. demo_aiohttp N t = (s1, ls, ds, r) \<and> own_clients N False False s1 \<and> sum_list ds \<le> 2 \<and>
      (r = Inr () \<or> (\<exists>e. r = Inl e \<and> \<not> is_Exception e))" if "own_clients N False False t" for t
    unfolding demo_aiohttp_def by (rule demo_outcome [OF scripts_cost(2) aiohttp_cleanup [OF assms(1)] open_more [OF that]])
  have c: "\<exists>s1 ls ds r. demo_concurrent_requests N t = (s1, ls, ds, r) \<and> own_clients N False False s1 \<and> sum_list ds \<le> 0 \<and>
      (r = Inr () \<or> (\<exists>e. r = Inl e \<and> \<not> is_Exception e))" if "own_clients N False False t" for t
    unfolding demo_concurrent_requests_def by (rule demo_outcome [OF scripts_cost(3) both_cleanup [OF assms(1)] open_more [OF that]])
  let ?s0 = "\<lparr>httpx_clients = [], aio_session = None\<rparr>"
  obtain l1 d1 r1 where 1: "demo_httpx N ?s0 = (?s0, l1, d1, r1)" "sum_list d1 \<le> 2"
    "r1 = Inr () \<or> (\<exists>e. r1 = Inl e \<and> \<not> is_Exception e)" using h unfolding empty by blast
  obtain l2 d2 r2 where 2: "demo_aiohttp N ?s0 = (?s0, l2, d2, r2)" "sum_list d2 \<le> 2"
    "r2 = Inr () \<or> (\<exists>e. r2 = Inl e \<and> \<not> is_Exception e)" using a unfolding empty by blast
  obtain l3 d3 r3 where 3: "demo_concurrent_requests N ?s0 = (?s0, l3, d3, r3)" "sum_list d3 \<le> 0"
    "r3 = Inr () \<or> (\<exists>e. r3 = Inl e \<and> \<not> is_Exception e)" using c unfolding empty by blast
  show ?thesis
    using assms(2) 1 2 3 by (auto simp: run_demos_def demo_bind_def)
qed

text \<open>A network whose services always time out and whose clients are already closed by their loop.\<close>

definition down_network :: "(nat, nat, nat) network" where
  "down_network = \<lparr>this_loop = 0, fresh_client = 1, fresh_session = 2, post_answer = (\<lambda>i k c u. Inl (HTTPError ''timeout'')),
     country_answer = (\<lambda>i k g u. Inl (TimeoutError ''timeout'')), stopped = (\<lambda>i k. False),
     client_close = (\<lambda>c. Inl (RuntimeError ''Event loop is closed'')), session_close = (\<lambda>g. Inr ()),
     finish_order = (\<lambda>i. [0, 1, 2])\<rparr>"

theorem demos_leave_no_client_witness:
  "\<exists>ls r. run_demos down_network \<lparr>httpx_clients = [], aio_session = None\<rparr> = (\<lparr>httpx_clients = [], aio_session = None\<rparr>, ls, r)"
proof -
  have c: "closes_cleanly down_network" by (simp add: closes_cleanly_def down_network_def)
  obtain s ls ds r where "run_demos down_network \<lparr>httpx_clients = [], aio_session = None\<rparr> = (s, ls, ds, r)"
    by (cases "run_demos down_network \<lparr>httpx_clients = [], aio_session = None\<rparr>") auto
  with demos_leave_no_client [OF c this] show ?thesis by auto
qed

end
