(* ===== verification/Task_Lifecycle.thy ===== *)
theory Task_Lifecycle
  imports Worker_Pool
begin

text \<open>
  The life of one task of \<open>ingestor/core/background_workers.py\<close>: the order of its states, what its fields hold in each of
  them, and that every run of the pool moves it forward only.
\<close>

subsection \<open>The order of the states\<close>

fun progress :: "task_state \<Rightarrow> nat" where
  "progress Queued = 0"
| "progress Running = 1"
| "progress st = 2"

instantiation task_state :: order
begin

definition less_eq_task_state :: "task_state \<Rightarrow> task_state \<Rightarrow> bool" where
  "s \<le> t \<longleftrightarrow> s = t \<or> progress s < progress t"

definition less_task_state :: "task_state \<Rightarrow> task_state \<Rightarrow> bool" where
  "s < t \<longleftrightarrow> progress s < progress t"

instance
  by standard (auto simp: less_eq_task_state_def less_task_state_def)

end

definition is_final :: "task_state \<Rightarrow> bool" where
  "is_final st \<longleftrightarrow> st \<in> {Succeeded, Failed, Cancelled}"

lemma final_maximal: "is_final s \<Longrightarrow> s \<le> t \<longleftrightarrow> s = t"
  by (cases s; cases t) (simp_all add: is_final_def less_eq_task_state_def)

lemma state_order [simp]: "Queued \<le> t" "Running \<le> t \<longleftrightarrow> t \<noteq> Queued" "is_final t \<longleftrightarrow> progress t = 2"
  by (cases t; simp add: less_eq_task_state_def is_final_def)+

subsection \<open>One task\<close>

text \<open>The fields say what the state says: the result and the error are those of the final states.\<close>

definition task_ok :: "'r task \<Rightarrow> bool" where
  "task_ok t \<longleftrightarrow>
     (task_st t = Queued \<longleftrightarrow> started_at t = None) \<and> (task_st t = Succeeded \<longleftrightarrow> task_result t \<noteq> None) \<and>
     (task_st t \<in> {Failed, Cancelled} \<longleftrightarrow> task_error t \<noteq> None) \<and> (finished_at t \<noteq> None \<longrightarrow> is_final (task_st t))"

definition later :: "'r task \<Rightarrow> 'r task \<Rightarrow> bool" where
  "later t u \<longleftrightarrow> task_id u = task_id t \<and> batch_size u = batch_size t \<and> queued_at u = queued_at t \<and>
     task_st t \<le> task_st u \<and> (is_final (task_st t) \<longrightarrow> task_result u = task_result t \<and> task_error u = task_error t)"

lemma later_refl [simp]: "later t t"
  by (simp add: later_def)

lemma later_trans: "later t u \<Longrightarrow> later u v \<Longrightarrow> later t v"
  unfolding later_def by (metis final_maximal order_trans)

definition moves :: "'r task list \<Rightarrow> 'r task list \<Rightarrow> bool" where
  "moves xs ys \<longleftrightarrow> length xs \<le> length ys \<and> (\<forall>a < length xs. later (xs ! a) (ys ! a))"

lemma moves_refl [simp]: "moves xs xs"
  by (simp add: moves_def)

lemma moves_trans: "moves xs ys \<Longrightarrow> moves ys zs \<Longrightarrow> moves xs zs"
  unfolding moves_def by (meson later_trans less_le_trans order_trans)

lemma moves_append: "moves xs (xs @ ys)"
  by (simp add: moves_def nth_append)

lemma moves_set: "later (xs ! a) t \<Longrightarrow> moves xs (xs[a := t])"
  unfolding moves_def by (metis later_refl length_list_update nth_list_update_eq nth_list_update_neq order_refl)

subsection \<open>The pool\<close>

definition life_inv :: "('a, 'r) pool \<Rightarrow> bool" where
  "life_inv p \<longleftrightarrow> list_all task_ok (objects p) \<and>
     (\<forall>i < length (workers p). \<forall>a. workers p ! i = Notifying a \<longrightarrow> task_st (objects p ! a) = Failed)"

text \<open>One worker and its own task are changed.\<close>

lemma life_set:
  assumes "life_inv p" and "i < length (workers p)" and "a < length (objects p)"
    and "\<forall>j < length (workers p). j \<noteq> i \<longrightarrow> busy_with (workers p ! j) \<noteq> Some a"
    and "later (objects p ! a) t" and "task_ok t" and "\<And>b. w = Notifying b \<Longrightarrow> b = a \<and> task_st t = Failed"
    and "objects p' = (objects p)[a := t]" and "workers p' = (workers p)[i := w]"
  shows "life_inv p' \<and> moves (objects p) (objects p')"
proof -
  have "list_all task_ok ((objects p)[a := t])"
    using assms(1,6) by (auto simp: life_inv_def list_all_iff dest!: set_update_subset_insert [THEN subsetD])
  moreover have "task_st ((objects p)[a := t] ! b) = Failed" if "j < length (workers p)" "(workers p)[i := w] ! j = Notifying b" for j b
  proof (cases "j = i")
    case True
    then show ?thesis using that assms(2,3,7) by simp
  next
    case False
    then have n: "workers p ! j = Notifying b" using that by simp
    then have "b \<noteq> a" using assms(4) that(1) False by fastforce
    then show ?thesis using assms(1) n that(1) by (simp add: life_inv_def)
  qed
  ultimately show ?thesis using assms(5,8,9) moves_set by (auto simp: life_inv_def)
qed

lemma ended_not_notifying: "j < length ws \<Longrightarrow> ws[i := Ended e] ! j = Notifying a \<Longrightarrow> ws ! j = Notifying a"
  by (cases "j = i") simp_all

lemma own_task:
  assumes "core_inv p" and "i < length (workers p)" and "busy_with (workers p ! i) = Some a"
  shows "a < length (objects p)" and "\<forall>j < length (workers p). j \<noteq> i \<longrightarrow> busy_with (workers p ! j) \<noteq> Some a"
proof -
  have w: "workers_ok (length (objects p) - length (queue p)) (objects p) (workers p)"
    using assms(1) by (simp add: core_inv_def)
  note only_worker [OF this assms(2,3)]
  then show "a < length (objects p)" "\<forall>j < length (workers p). j \<noteq> i \<longrightarrow> busy_with (workers p ! j) \<noteq> Some a"
    by (auto dest: less_le_trans)
qed

lemma take_life:
  assumes "core_inv p" and "life_inv p" and "i < length (workers p)" and "workers p ! i = Waiting" and "queue p \<noteq> []"
  shows "life_inv (worker_take i now p) \<and> moves (objects p) (objects (worker_take i now p))"
proof -
  obtain tid records q where q: "queue p = (tid, records) # q" using assms(5) by (metis list.exhaust surj_pair)
  let ?a = "length (objects p) - Suc (length q)"
  have t: "table_ok (max_tracked p) (objects p) ((tid, records) # q) (tracked p) (task_order p)"
    and w: "workers_ok ?a (objects p) (workers p)"
    using assms(1) q by (simp_all add: core_inv_def)
  note h = table_head [OF t]
  show ?thesis
  proof (cases "length q < nat (max_tracked p)")
    case True
    have st: "task_st (objects p ! ?a) = Queued" using t h(2) by (simp add: table_ok_def Let_def)
    have ok: "task_ok (objects p ! ?a)" using assms(2) h(2) by (simp add: life_inv_def list_all_length)
    have "\<forall>j < length (workers p). j \<noteq> i \<longrightarrow> busy_with (workers p ! j) \<noteq> Some ?a"
      using w unfolding workers_ok_def by blast
    then show ?thesis
      using q h(1) True st ok
      by (intro life_set [OF assms(2,3) h(2), where t = "(objects p ! ?a)\<lparr>task_st := Running, started_at := Some now\<rparr>"
            and w = "Processing ?a records"]) (auto simp: worker_take_def task_ok_def later_def)
  next
    case False
    then have "objects (worker_take i now p) = objects p" "workers (worker_take i now p) = (workers p)[i := Ended (KeyError tid)]"
      using q h(1) by (simp_all add: worker_take_def)
    then show ?thesis using assms(2) by (auto simp: life_inv_def dest: ended_not_notifying)
  qed
qed

lemma result_life:
  assumes "core_inv p" and "life_inv p" and "i < length (workers p)"
  shows "life_inv (worker_result i now res p) \<and> moves (objects p) (objects (worker_result i now res p))"
proof (cases "workers p ! i")
  case (Processing a records)
  have b: "busy_with (workers p ! i) = Some a" using Processing by simp
  note own = own_task [OF assms(1,3) b]
  have "processes (workers p ! i) = Some a" using Processing by simp
  then have st: "task_st (objects p ! a) = Running"
    using assms(1,3) own(1) unfolding core_inv_def workers_ok_def by blast
  have ok: "task_ok (objects p ! a)" using assms(2) own(1) by (simp add: life_inv_def list_all_length)
  note set = life_set [OF assms(2,3) own]
  show ?thesis
  proof (cases res)
    case (Inr r)
    show ?thesis
      by (rule set [where t = "(objects p ! a)\<lparr>task_st := Succeeded, task_result := Some r, finished_at := Some now\<rparr>" and w = Waiting])
        (use Inr Processing st ok own(1) in \<open>auto simp: worker_result_def worker_finally_def task_ok_def later_def\<close>)
  next
    case (Inl e)
    let ?f = "(objects p ! a)\<lparr>task_st := Failed, task_error := Some (exn_str e)\<rparr>"
    let ?c = "(objects p ! a)\<lparr>task_st := Cancelled, task_error := Some ''worker task cancelled''\<rparr>"
    have ops: "worker_result i now res p =
      (if is_Exception e
       then if has_callback p then p\<lparr>objects := (objects p)[a := ?f], workers := (workers p)[i := Notifying a]\<rparr>
            else worker_finally i now a Waiting (p\<lparr>objects := (objects p)[a := ?f]\<rparr>)
       else worker_finally i now a (Ended e) (p\<lparr>objects := (objects p)[a := ?c]\<rparr>))"
      using Inl Processing by (simp add: worker_result_def Let_def)
    consider "is_Exception e" "has_callback p" | "is_Exception e" "\<not> has_callback p" | "\<not> is_Exception e" by blast
    then show ?thesis
    proof cases
      case 1
      show ?thesis
        by (rule set [where t = ?f and w = "Notifying a"]) (use 1 st ok own(1) in \<open>auto simp: ops task_ok_def later_def\<close>)
    next
      case 2
      show ?thesis
        by (rule set [where t = "?f\<lparr>finished_at := Some now\<rparr>" and w = Waiting])
          (use 2 st ok own(1) in \<open>auto simp: ops worker_finally_def task_ok_def later_def\<close>)
    next
      case 3
      show ?thesis
        by (rule set [where t = "?c\<lparr>finished_at := Some now\<rparr>" and w = "Ended e"])
          (use 3 st ok own(1) in \<open>auto simp: ops worker_finally_def task_ok_def later_def\<close>)
    qed
  qed
qed (use assms in \<open>simp_all add: worker_result_def\<close>)

lemma callback_life:
  assumes "core_inv p" and "life_inv p" and "i < length (workers p)"
  shows "life_inv (worker_callback i now res p) \<and> moves (objects p) (objects (worker_callback i now res p))"
proof (cases "workers p ! i")
  case (Notifying a)
  have b: "busy_with (workers p ! i) = Some a" using Notifying by simp
  note own = own_task [OF assms(1,3) b]
  have st: "task_st (objects p ! a) = Failed" using assms(2,3) Notifying by (simp add: life_inv_def)
  have ok: "task_ok (objects p ! a)" using assms(2) own(1) by (simp add: life_inv_def list_all_length)
  have "life_inv (worker_finally i now a w p) \<and> moves (objects p) (objects (worker_finally i now a w p))"
    if "\<And>b. w \<noteq> Notifying b" for w
    by (rule life_set [OF assms(2,3) own, where t = "(objects p ! a)\<lparr>finished_at := Some now\<rparr>" and w = w])
      (use st ok that in \<open>auto simp: worker_finally_def task_ok_def later_def\<close>)
  then show ?thesis using Notifying by (auto simp: worker_callback_def split: sum.splits)
qed (use assms in \<open>simp_all add: worker_callback_def\<close>)

lemma cancel_life:
  assumes "core_inv p" and "life_inv p" and "i < length (workers p)"
  shows "life_inv (cancel_worker now i p) \<and> moves (objects p) (objects (cancel_worker now i p))"
proof (cases "workers p ! i")
  case Waiting
  then show ?thesis using assms(2) by (auto simp: cancel_worker_def life_inv_def dest: ended_not_notifying)
qed (use assms in \<open>simp_all add: cancel_worker_def result_life callback_life\<close>)

lemma step_life:
  assumes "pool_step p e p'" and "pool_inv p" and "life_inv p"
  shows "life_inv p' \<and> moves (objects p) (objects p')"
  using assms
proof (induction rule: pool_step.induct)
  case (step_start p)
  then show ?case by (auto simp: start_def life_inv_def)
next
  case (step_stop p)
  then show ?case by (simp add: stop_begin_def life_inv_def)
next
  case (step_cancel p i now)
  then show ?case by (simp add: pool_inv_def cancel_life)
next
  case (step_stopped p)
  then show ?case by (simp add: stop_end_def life_inv_def)
next
  case (step_submit tid p now records)
  then have w: "workers_ok (length (objects p) - length (queue p)) (objects p) (workers p)"
    by (simp add: pool_inv_def core_inv_def)
  have "a < length (objects p)" if "i < length (workers p)" "workers p ! i = Notifying a" for i a
    using only_worker [OF w that(1), of a] that(2) by (auto dest: less_le_trans)
  then show ?case
    using step_submit
    by (auto simp: submit_batch_ingest_def life_inv_def task_ok_def moves_append nth_append Let_def split: prod.splits sum.splits)
qed (simp_all add: pool_inv_def take_life result_life callback_life)

interpretation tl: invariant_system "\<lambda>p. \<exists>wc qs mt cb. 0 < qs \<and> 0 \<le> mt \<and> p = new_pool wc qs mt cb" pool_step
    "\<lambda>p. pool_inv p \<and> life_inv p"
  by unfold_locales (auto simp: new_pool_inv step_life intro: step_inv, simp add: life_inv_def new_pool_def)

lemma run_moves:
  assumes "reach (\<lambda>q. q = p) pool_step p'" and "pool_inv p" and "life_inv p"
  shows "moves (objects p) (objects p') \<and> pool_inv p' \<and> life_inv p'"
  using assms by induction (auto dest: step_life step_inv intro: moves_trans)

text \<open>
  C4. A task only moves forward. In every state that a pool can reach, each task has started unless it is queued, has a
  result exactly when it succeeded and an error exactly when it failed or was cancelled, and a finish time only in one of
  these states; and whatever the pool does from there, the task keeps its identity and its place in the store, its state
  never goes back, and once it is final it keeps its state, its result and its error.
\<close>

theorem tasks_move_forward:
  assumes "reach (\<lambda>p. p = new_pool wc qs mt cb) pool_step p" and "0 < qs" and "0 \<le> mt"
    and "reach (\<lambda>q. q = p) pool_step p'" and "a < length (objects p)"
  shows "task_ok (objects p ! a) \<and> a < length (objects p') \<and> task_ok (objects p' ! a) \<and>
    task_id (objects p' ! a) = task_id (objects p ! a) \<and> task_st (objects p ! a) \<le> task_st (objects p' ! a) \<and>
    (is_final (task_st (objects p ! a)) \<longrightarrow> task_st (objects p' ! a) = task_st (objects p ! a) \<and>
       task_result (objects p' ! a) = task_result (objects p ! a) \<and> task_error (objects p' ! a) = task_error (objects p ! a))"
proof -
  have "reach (\<lambda>p. \<exists>wc qs mt cb. 0 < qs \<and> 0 \<le> mt \<and> p = new_pool wc qs mt cb) pool_step p"
    using assms(1) by (rule reach_mono) (use assms(2,3) in auto)
  from tl.reachable_inv [OF this] have inv: "pool_inv p" "life_inv p" by simp_all
  with run_moves [OF assms(4)] have "moves (objects p) (objects p')" "life_inv p'" by simp_all
  then show ?thesis
    using assms(5) inv(2) final_maximal
    by (auto simp: moves_def life_inv_def list_all_length later_def simp del: state_order(3) dest: less_le_trans)
qed

theorem tasks_move_forward_witness:
  "task_st (objects (stop 9 (worker_take 0 5 (demo_pool 2 10 1))) ! 0) \<noteq> Queued"
proof -
  let ?p = "worker_take 0 5 (demo_pool 2 10 1)"
  have start: "0 < length (workers (demo_pool 2 10 1))" "workers (demo_pool 2 10 1) ! 0 = Waiting" "queue (demo_pool 2 10 1) \<noteq> []"
    and run: "task_st (objects ?p ! 0) = Running" "0 < length (objects ?p)"
    by code_simp+
  have "pool_step (demo_pool 2 10 1) (ETake 0 5) ?p" using start by (intro step_take)
  then have r: "reach (\<lambda>p. p = new_pool 1 2 10 False) pool_step ?p"
    using demo_reach [of 2 10 1] by (blast intro: reach.reach_step)
  from tasks_move_forward [OF r _ _ stop_run run(2), of 9] have "Running \<le> task_st (objects (stop 9 ?p) ! 0)"
    using run(1) by simp
  then show ?thesis by simp
qed

end
