(* ===== verification/Log_Lines.thy ===== *)
theory Log_Lines
  imports Http_App Json_Text Text_Lines
begin

text \<open>
  What the logging of \<open>ingestor/core/logging.py\<close> writes, through the handlers that \<open>setup_logging\<close> installs, and the
  demonstration \<open>scripts/testing/test_logging_formats.py\<close>. The library's part of a formatter is an argument: the formatted
  time, the relative path, the \<open>repr\<close> of a dict, and the fields that the base class of the JSON formatter collects. The
  rotation of the file is left out.
\<close>

subsection \<open>Handlers\<close>

record log_format =
  lf_stamp :: "log_record \<Rightarrow> string"
  lf_rel :: "log_record \<Rightarrow> string"
  lf_repr :: "(string \<times> json) list \<Rightarrow> string"
  lf_base :: "log_record \<Rightarrow> (string \<times> json) list"

record log_sinks =
  sk_stdout :: string
  sk_file :: string

text \<open>The integer attributes of the module \<open>logging\<close>.\<close>

definition std_level :: "string \<Rightarrow> int option" where
  "std_level = map_of [(''CRITICAL'', 50), (''FATAL'', 50), (''ERROR'', 40), (''WARNING'', 30), (''WARN'', 30), (''INFO'', 20),
     (''DEBUG'', 10), (''NOTSET'', 0)]"

definition json_fields :: "log_format \<Rightarrow> string option \<Rightarrow> string option \<Rightarrow> log_record \<Rightarrow> json" where
  "json_fields F cid trace r = JObj (add_fields cid trace (lf_base F r))"

fun handler_emit :: "log_format \<Rightarrow> string option \<Rightarrow> string option \<Rightarrow> log_record \<Rightarrow> log_handler \<Rightarrow> log_sinks \<Rightarrow> log_sinks" where
  "handler_emit F cid trace r Json_Stdout s =
     s\<lparr>sk_stdout := sk_stdout s @ json_dumps decimal_repr (json_fields F cid trace r) @ [CHR 0x0A]\<rparr>"
| "handler_emit F cid trace r Dev_Stdout s =
     s\<lparr>sk_stdout := sk_stdout s @ development_format (lf_repr F) (lf_stamp F r) (lf_rel F r) cid trace r @ [CHR 0x0A]\<rparr>"
| "handler_emit F cid trace r (Dev_File path limit backups) s =
     s\<lparr>sk_file := sk_file s @ development_format (lf_repr F) (lf_stamp F r) (lf_rel F r) cid trace r @ [CHR 0x0A]\<rparr>"

text \<open>
  \<open>getEffectiveLevel\<close>: the level of the logger, or of the nearest ancestor by its dotted name that has one, or of the root.
  Only \<open>setup_logging\<close> sets levels.
\<close>

definition logger_chain :: "string \<Rightarrow> string list" where
  "logger_chain name =
     (let parts = split_on (CHR ''.'') name in map (\<lambda>k. join_with ''.'' (take k parts)) (rev [1..<Suc (length parts)]))"

definition effective_level :: "logging_setup \<Rightarrow> string \<Rightarrow> int" where
  "effective_level setup name =
     (case List.find (\<lambda>l. l \<noteq> None \<and> l \<noteq> Some 0) (map (map_of (rev (ls_levels setup))) (logger_chain name)) of
        Some (Some l) \<Rightarrow> l
      | _ \<Rightarrow> ls_root setup)"

definition enabled_for :: "logging_setup \<Rightarrow> log_record \<Rightarrow> bool" where
  "enabled_for setup r \<longleftrightarrow> effective_level setup (lr_name r) \<le> level_of std_level (lr_levelname r) 0"

definition log_call :: "log_format \<Rightarrow> string option \<Rightarrow> string option \<Rightarrow> logging_setup \<Rightarrow> log_record \<Rightarrow> log_sinks \<Rightarrow> log_sinks" where
  "log_call F cid trace setup r s =
     (if enabled_for setup r then fold (handler_emit F cid trace r) (ls_handlers setup) s else s)"

subsection \<open>The demonstration\<close>

definition DEMO_CID :: string where
  "DEMO_CID = ''demo-cid-550e8400-e29b-41d4-a716-446655440000''"

definition log_examples :: "(string \<times> (string \<times> json) list \<times> string) list" where
  "log_examples =
     [(''debug'', [(''user'', JStr ''alice''), (''request_id'', JInt 123)], ''debug message with user context''),
      (''info'', [(''action'', JStr ''record_created''), (''record_id'', JInt 42)], ''info message about event''),
      (''warning'', [(''retry_count'', JInt 3), (''url'', JStr ''https://api.example.com'')], ''warning with retry info''),
      (''error'', [(''error_code'', JStr ''DB_CONNECTION_FAILED'')], ''error message with error code'')]"

definition example_record :: "string \<Rightarrow> nat \<Rightarrow> string \<times> (string \<times> json) list \<times> string \<Rightarrow> log_record" where
  "example_record func line ex =
     (case ex of (level, extra, message) \<Rightarrow>
        \<lparr>lr_name = ''root'', lr_levelname = upper level, lr_lineno = line, lr_func = func, lr_message = message, lr_dict = extra\<rparr>)"

definition log_environment :: "string \<Rightarrow> string \<Rightarrow> settings \<Rightarrow> settings" where
  "log_environment environment level st =
     AList.update ''log_level'' (SStr level) (AList.update ''environment'' (SStr environment) st)"

text \<open>\<open>readlines\<close> of a text file without the ends of the lines.\<close>

definition file_lines :: "string \<Rightarrow> string list" where
  "file_lines s =
     (let ps = split_on (CHR 0x0A) (map (\<lambda>c. if c = CHR 0x0D then CHR 0x0A else c) (unify_crlf s))
      in if last ps = [] then butlast ps else ps)"

definition demo_environment ::
  "log_format \<Rightarrow> string option \<Rightarrow> string \<Rightarrow> settings \<Rightarrow> log_sinks \<Rightarrow> settings \<times> log_sinks \<times> string list"
where
  "demo_environment F trace environment st s =
     (let st1 = log_environment environment ''DEBUG'' st;
          s1 = fold (log_call F (Some DEMO_CID) trace (setup_logging std_level st1))
                 (map (example_record ''demo_environment'' 83) log_examples) s;
          ls = file_lines (sk_file s1)
      in (st1, s1, if environment = ''development'' then map rstrip (drop (length ls - 20) ls) else []))"

datatype shown_line = Parsed json | Raw string

definition json_examples :: "log_record list" where
  "json_examples =
     [example_record ''demo_json_structure'' 118
        (''info'', [(''record_id'', JInt 42), (''user_id'', JInt 99), (''duration_ms'', JInt 150)], ''record_created''),
      example_record ''demo_json_structure'' 121
        (''warning'', [(''endpoint'', JStr ''/api/records''), (''duration_ms'', JInt 5200)], ''high_latency'')]"

definition show_line :: "string \<Rightarrow> shown_line" where
  "show_line line = (case json_loads line of Inr v \<Rightarrow> Parsed v | Inl e \<Rightarrow> Raw line)"

definition demo_json_structure :: "log_format \<Rightarrow> string option \<Rightarrow> settings \<Rightarrow> settings \<times> shown_line list" where
  "demo_json_structure F trace st =
     (let st1 = log_environment ''production'' ''INFO'' st;
          output = sk_stdout (fold (log_call F (Some ''demo-cid-12345'') trace (setup_logging std_level st1)) json_examples
                     \<lparr>sk_stdout = [], sk_file = []\<rparr>)
      in (st1, map show_line (filter (\<lambda>l. l \<noteq> []) (split_on (CHR 0x0A) (strip output)))))"

definition logging_demo :: "log_format \<Rightarrow> string option \<Rightarrow> settings \<Rightarrow> log_sinks \<Rightarrow> log_sinks \<times> string list \<times> shown_line list" where
  "logging_demo F trace st s =
     (case demo_environment F trace ''development'' st (s\<lparr>sk_file := []\<rparr>) of (st1, s1, tail) \<Rightarrow>
      case demo_environment F trace ''production'' st1 s1 of (st2, s2, _) \<Rightarrow>
        (s2, tail, snd (demo_json_structure F trace st2)))"

subsection \<open>Printed JSON has no line breaks\<close>

definition ascii_line :: "string \<Rightarrow> bool" where
  "ascii_line s \<longleftrightarrow> (\<forall>c \<in> set s. 32 \<le> (of_char c :: nat) \<and> (of_char c :: nat) < 127)"

lemma ascii_append [simp]: "ascii_line (s @ t) \<longleftrightarrow> ascii_line s \<and> ascii_line t"
  by (auto simp: ascii_line_def)

lemma ascii_Cons [simp]: "ascii_line (c # s) \<longleftrightarrow> 32 \<le> (of_char c :: nat) \<and> (of_char c :: nat) < 127 \<and> ascii_line s"
  by (auto simp: ascii_line_def)

lemma ascii_Nil [simp]: "ascii_line []"
  by (simp add: ascii_line_def)

lemma ascii_digits: "\<forall>c \<in> set s. is_digit c \<Longrightarrow> ascii_line s"
  by (auto simp: ascii_line_def is_digit_def Let_def)

lemma ascii_show_nat [simp]: "ascii_line (show_nat n)"
  using show_nat_digits by (rule ascii_digits)

lemma ascii_show_int [simp]: "ascii_line (show_int i)"
  by (simp add: show_int_def)

lemma ascii_hex: "d < 16 \<Longrightarrow> 32 \<le> (of_char (hex_char d) :: nat) \<and> (of_char (hex_char d) :: nat) < 127"
  by (simp add: hex_char_def)

lemma ascii_dump_char: "ascii_line (dump_char c)"
proof -
  have "(of_char c :: nat) < 256" by (rule of_char_bound)
  then have "(of_char c :: nat) div 16 < 16" by (simp add: less_mult_imp_div_less)
  then show ?thesis
    using ascii_hex [of "of_char c div 16"] ascii_hex [of "of_char c mod 16"] by (auto simp: dump_char_def Let_def)
qed

lemma ascii_dump_str [simp]: "ascii_line (dump_str s)"
  using ascii_dump_char by (auto simp: dump_str_def ascii_line_def)

lemma ascii_join: "ascii_line sep \<Longrightarrow> list_all ascii_line ss \<Longrightarrow> ascii_line (join_with sep ss)"
  by (induction sep ss rule: join_with.induct) auto

lemma ascii_decimal: "decimal q \<Longrightarrow> ascii_line (decimal_repr q)"
proof -
  assume q: "decimal q"
  let ?f = "\<bar>q\<bar> - of_int \<lfloor>\<bar>q\<bar>\<rfloor>"
  have f: "0 \<le> ?f" "?f < 1" by linarith+
  have "of_int (\<bar>\<lfloor>q * 10 ^ 17\<rfloor>\<bar> - \<lfloor>\<bar>q\<bar>\<rfloor> * 10 ^ 17) = ?f * 10 ^ 17"
    using q [unfolded decimal_def, THEN conjunct1]
    by (simp only: of_int_diff of_int_mult of_int_abs of_int_power of_int_numeral abs_mult left_diff_distrib) simp
  from frac_digits_scanned [OF f this] have "ascii_line (frac_digits 17 ?f)" by (auto intro: ascii_digits)
  then show ?thesis by (simp add: decimal_repr_def)
qed

lemma ascii_dumps: "proper_json decimal j \<Longrightarrow> ascii_line (json_dumps decimal_repr j)"
proof (induction j)
  case (JFloat q)
  then show ?case by (simp add: ascii_decimal)
next
  case (JList xs)
  then have "ascii_line (join_with '', '' (map (json_dumps decimal_repr) xs))"
    by (intro ascii_join) (auto simp: list_all_iff)
  then show ?case by simp
next
  case (JObj kvs)
  then have "ascii_line (join_with '', '' (map py_repr.member_text kvs))"
    by (intro ascii_join) (auto simp: list_all_iff py_repr.member_text_def snds.simps)
  moreover have "distinct (map fst kvs)" using JObj.prems by simp
  ultimately show ?case by (simp add: py_repr.dumps_object del: json_dumps.simps)
qed auto

lemma ascii_unbroken: "ascii_line s \<Longrightarrow> unbroken s"
  by (force simp: ascii_line_def unbroken_def list_all_iff is_break_def Let_def)

lemma ascii_no_newline: "ascii_line s \<Longrightarrow> CHR 0x0A \<notin> set s"
  by (auto simp: ascii_line_def)

subsection \<open>One record, one line\<close>

lemma list_all_update: "list_all P xs \<Longrightarrow> P (k, v) \<Longrightarrow> list_all P (AList.update k v xs)"
  by (induction xs) auto

lemma update_proper: "proper_json decimal (JObj d) \<Longrightarrow> proper_json decimal (JObj (AList.update k (JStr v) d))"
  by (simp add: AList.distinct_update list_all_update)

lemma fields_proper: "proper_json decimal (JObj (lf_base F r)) \<Longrightarrow> proper_json decimal (json_fields F cid trace r)"
  using update_proper
  by (auto simp: json_fields_def add_fields_def Let_def split: option.split simp del: proper_json.simps)

lemma fields_cid: "cid \<noteq> [] \<Longrightarrow> map_of (add_fields (Some cid) trace d) ''cid'' = Some (JStr cid)"
  by (simp add: add_fields_def Let_def AList.update_conv' split: option.split)

lemma production_output:
  assumes "str_of st ''environment'' = ''production''"
  shows "fold (log_call F cid trace (setup_logging std_level st)) rs s =
    s\<lparr>sk_stdout := sk_stdout s @ concat (map (\<lambda>r. json_dumps decimal_repr (json_fields F cid trace r) @ [CHR 0x0A])
       (filter (enabled_for (setup_logging std_level st)) rs))\<rparr>"
proof (induction rs arbitrary: s)
  case (Cons r rs)
  have "ls_handlers (setup_logging std_level st) = [Json_Stdout]" using assms by (simp add: setup_logging_def)
  then have "log_call F cid trace (setup_logging std_level st) r s =
    (if enabled_for (setup_logging std_level st) r
     then s\<lparr>sk_stdout := sk_stdout s @ json_dumps decimal_repr (json_fields F cid trace r) @ [CHR 0x0A]\<rparr> else s)"
    by (simp add: log_call_def)
  then show ?case by (simp add: Cons.IH)
qed simp

text \<open>
  C17. In production every record is one line, and the line holds the record. Whatever the messages and the extra fields
  are, line breaks included, standard output has one line for each enabled record, in their order, which reads back as the
  fields of the record with the request's correlation id among them, and no file is written.
\<close>

theorem production_logs_lines:
  assumes "str_of st ''environment'' = ''production''" and "cid \<noteq> []"
    and "\<And>r. r \<in> set rs \<Longrightarrow> proper_json decimal (JObj (lf_base F r))"
  shows "\<exists>out. fold (log_call F (Some cid) trace (setup_logging std_level st)) rs \<lparr>sk_stdout = [], sk_file = []\<rparr> =
      \<lparr>sk_stdout = out, sk_file = []\<rparr> \<and>
    map json_loads (splitlines out) =
      map (\<lambda>r. Inr (JObj (add_fields (Some cid) trace (lf_base F r)))) (filter (enabled_for (setup_logging std_level st)) rs) \<and>
    (\<forall>r. map_of (add_fields (Some cid) trace (lf_base F r)) ''cid'' = Some (JStr cid))"
proof -
  let ?on = "filter (enabled_for (setup_logging std_level st)) rs"
  let ?ls = "map (\<lambda>r. json_dumps decimal_repr (json_fields F (Some cid) trace r)) ?on"
  have proper: "proper_json decimal (json_fields F (Some cid) trace r)" if "r \<in> set ?on" for r
    using that assms(3) by (intro fields_proper) simp
  then have "list_all unbroken ?ls" by (auto simp: list_all_iff intro: ascii_unbroken ascii_dumps)
  from splitlines_unlines [OF this]
  have "splitlines (concat (map (\<lambda>r. json_dumps decimal_repr (json_fields F (Some cid) trace r) @ [CHR 0x0A]) ?on)) = ?ls"
    by (simp add: o_def)
  moreover have "map json_loads ?ls = map (\<lambda>r. Inr (json_fields F (Some cid) trace r)) ?on"
    using proper py_repr.loads_dumps by simp
  ultimately show ?thesis
    using production_output [OF assms(1), of F "Some cid" trace rs "\<lparr>sk_stdout = [], sk_file = []\<rparr>"] fields_cid [OF assms(2)]
    by (simp add: json_fields_def)
qed

lemma upper_levels: "upper ''INFO'' = ''INFO''" "upper ''WARNING'' = ''WARNING''" "upper ''info'' = ''INFO''"
  "upper ''warning'' = ''WARNING''"
  by code_simp+

lemma root_level: "effective_level (setup_logging attr st) ''root'' = ls_root (setup_logging attr st)"
proof -
  have "map_of (rev (ls_levels (setup_logging attr st))) ''root'' = None"
    by (auto simp: map_of_eq_None_iff setup_logging_def dependency_levels_def split: if_splits)
  then show ?thesis by (simp add: effective_level_def logger_chain_def)
qed

text \<open>A level set for a library holds for the loggers below it and for no other.\<close>

lemma sqlalchemy_level:
  assumes "opt_str_of st ''log_sqlalchemy_level'' = Some ''WARNING''"
  shows "effective_level (setup_logging std_level st) ''sqlalchemy.pool'' = 30"
proof -
  have "map_of (rev (ls_levels (setup_logging std_level st))) ''sqlalchemy.pool'' = None"
    by (auto simp: map_of_eq_None_iff setup_logging_def dependency_levels_def split: if_splits)
  moreover have "map_of (rev (ls_levels (setup_logging std_level st))) ''sqlalchemy'' = Some 30"
    using assms by (simp add: setup_logging_def dependency_levels_def level_of_def std_level_def upper_levels blank_def map_add_def)
  ultimately show ?thesis by (simp add: effective_level_def logger_chain_def)
qed

definition plain_format :: log_format where
  "plain_format =
     \<lparr>lf_stamp = (\<lambda>r. ''2026-04-15 10:30:45''), lf_rel = (\<lambda>r. ''app.py''), lf_repr = (\<lambda>d. ''{...}''),
      lf_base = (\<lambda>r. [(''message'', JStr (lr_message r))])\<rparr>"

theorem production_logs_lines_witness:
  "\<exists>out. fold (log_call plain_format (Some ''c1'') None (setup_logging std_level [(''environment'', SStr ''production'')]))
      [example_record ''f'' 1 (''info'', [], [CHR ''a'', CHR 0x0A, CHR ''b''])] \<lparr>sk_stdout = [], sk_file = []\<rparr> =
      \<lparr>sk_stdout = out, sk_file = []\<rparr> \<and>
    map json_loads (splitlines out) = [Inr (JObj [(''message'', JStr [CHR ''a'', CHR 0x0A, CHR ''b'']), (''cid'', JStr ''c1'')])]"
proof -
  let ?st = "[(''environment'', SStr ''production'')]" and ?r = "example_record ''f'' 1 (''info'', [], [CHR ''a'', CHR 0x0A, CHR ''b''])"
  have st: "str_of ?st ''environment'' = ''production''" by (simp add: str_of_def)
  have on: "enabled_for (setup_logging std_level ?st) ?r"
    using root_level [of std_level ?st]
    by (simp add: enabled_for_def setup_logging_def str_of_def level_of_def example_record_def std_level_def upper_levels)
  have f: "add_fields (Some ''c1'') None (lf_base plain_format ?r) =
      [(''message'', JStr [CHR ''a'', CHR 0x0A, CHR ''b'']), (''cid'', JStr ''c1'')]"
    by (simp add: add_fields_def plain_format_def example_record_def)
  let ?on = "filter (enabled_for (setup_logging std_level ?st)) [?r]"
  have b: "proper_json decimal (JObj (lf_base plain_format r))" for r by (simp add: plain_format_def)
  obtain out where out: "fold (log_call plain_format (Some ''c1'') None (setup_logging std_level ?st)) [?r] \<lparr>sk_stdout = [], sk_file = []\<rparr> =
      \<lparr>sk_stdout = out, sk_file = []\<rparr>"
    "map json_loads (splitlines out) = map (\<lambda>r. Inr (JObj (add_fields (Some ''c1'') None (lf_base plain_format r)))) ?on"
    using production_logs_lines [where st = ?st and cid = "''c1''" and rs = "[?r]" and F = plain_format and trace = None] st b by blast
  have only: "?on = [?r]" using on by simp
  show ?thesis by (rule exI [of _ out]) (rule conjI [OF out(1) out(2) [unfolded only list.map f]])
qed

text \<open>The demonstration's parser never meets a line that it must show raw.\<close>

lemma demo_parses:
  assumes "\<And>r. proper_json decimal (JObj (lf_base F r))"
  shows "snd (demo_json_structure F trace st) = map (\<lambda>r. Parsed (json_fields F (Some ''demo-cid-12345'') trace r)) json_examples"
proof -
  let ?st = "log_environment ''production'' ''INFO'' st" and ?j = "json_fields F (Some ''demo-cid-12345'') trace"
  have st: "str_of ?st ''environment'' = ''production''" "str_of ?st ''log_level'' = ''INFO''"
    by (simp_all add: log_environment_def str_of_def AList.update_conv')
  have on: "filter (enabled_for (setup_logging std_level ?st)) json_examples = json_examples"
    using root_level [of std_level ?st]
    by (simp add: json_examples_def example_record_def enabled_for_def setup_logging_def st level_of_def std_level_def
        upper_levels)
  let ?d = "\<lambda>r. json_dumps decimal_repr (?j r)"
  have p: "proper_json decimal (?j r)" for r using assms by (rule fields_proper)
  have ends: "\<exists>t. ?d r = CHR ''{'' # t @ ''}''" for r
    using p [of r] py_repr.dumps_object by (auto simp: json_fields_def simp del: json_dumps.simps)
  obtain a b where ab: "json_examples = [a, b]" by (simp add: json_examples_def)
  obtain s t where s: "?d a = CHR ''{'' # s @ ''}''" and t: "?d b = CHR ''{'' # t @ ''}''" using ends by metis
  have clean: "CHR 0x0A \<notin> set (?d r)" for r using p by (intro ascii_no_newline ascii_dumps)
  have "strip (?d a @ [CHR 0x0A] @ ?d b @ [CHR 0x0A]) = ?d a @ CHR 0x0A # ?d b"
    unfolding s t by (simp add: strip_def is_space_def)
  moreover have "split_on (CHR 0x0A) (?d a @ CHR 0x0A # ?d b) = [?d a, ?d b]"
    using clean by (simp add: split_on_append split_on_plain)
  moreover have shown: "show_line (?d r) = Parsed (?j r)" for r
    using p py_repr.loads_dumps by (simp add: show_line_def)
  moreover have "sk_stdout (fold (log_call F (Some ''demo-cid-12345'') trace (setup_logging std_level ?st)) json_examples
      \<lparr>sk_stdout = [], sk_file = []\<rparr>) = ?d a @ [CHR 0x0A] @ ?d b @ [CHR 0x0A]"
    by (simp only: production_output [OF st(1)] on) (simp add: ab)
  moreover have "filter (\<lambda>l. l \<noteq> []) [?d a, ?d b] = [?d a, ?d b]" using s t by simp
  ultimately have "snd (demo_json_structure F trace st) = map show_line [?d a, ?d b]"
    by (simp only: demo_json_structure_def Let_def snd_conv)
  with shown show ?thesis by (simp only: ab list.map)
qed

end
