(* ===== verification/Db_Session.thy ===== *)
theory Db_Session
  imports Settings
begin

text \<open>
  \<open>ingestor/database.py\<close>: the options of the engine and of the session factory, and the dependency \<open>get_db\<close> that gives a
  request its session. Sessions are a library's: opening one, its operations and closing it are the record
  \<open>session_factory\<close> with the documented laws, which a pool of private copies provides.
\<close>

subsection \<open>Options\<close>

record engine_options =
  eo_url :: string
  eo_pool_size :: int
  eo_max_overflow :: int
  eo_pool_timeout :: int
  eo_pool_recycle :: int
  eo_pool_pre_ping :: bool
  eo_echo :: bool

definition database_engine :: "settings \<Rightarrow> engine_options" where
  "database_engine st =
     \<lparr>eo_url = str_of st ''database_url'', eo_pool_size = int_of st ''db_pool_size'', eo_max_overflow = int_of st ''db_max_overflow'',
      eo_pool_timeout = int_of st ''db_pool_timeout'', eo_pool_recycle = int_of st ''db_pool_recycle'', eo_pool_pre_ping = True,
      eo_echo = bool_of st ''db_echo''\<rparr>"

record session_options =
  so_autoflush :: bool
  so_expire_on_commit :: bool
  so_autocommit :: bool

definition AsyncSessionLocal :: session_options where
  "AsyncSessionLocal = \<lparr>so_autoflush = False, so_expire_on_commit = False, so_autocommit = False\<rparr>"

subsection \<open>Sessions\<close>

record ('s, 'h, 'db) session_factory =
  sf_open :: "'s \<Rightarrow> 's \<times> 'h outcome"
  sf_execute :: "'h \<Rightarrow> ('db \<Rightarrow> 'db) \<Rightarrow> 's \<Rightarrow> 's"
  sf_commit :: "'h \<Rightarrow> 's \<Rightarrow> 's"
  sf_close :: "'h \<Rightarrow> 's \<Rightarrow> 's"

text \<open>\<open>get_db\<close> around an endpoint: \<open>async with\<close> closes the session on every way out.\<close>

definition with_db :: "('s, 'h, 'db) session_factory \<Rightarrow> ('h \<Rightarrow> 's \<Rightarrow> 's \<times> 'a outcome) \<Rightarrow> 's \<Rightarrow> 's \<times> 'a outcome" where
  "with_db F endpoint s =
     (case sf_open F s of
        (s1, Inl e) \<Rightarrow> (s1, Inl e)
      | (s1, Inr h) \<Rightarrow> (case endpoint h s1 of (s2, r) \<Rightarrow> (sf_close F h s2, r)))"

datatype 'db work_op = Execute "'db \<Rightarrow> 'db" | Commit

fun session_run :: "('s, 'h, 'db) session_factory \<Rightarrow> 'h \<Rightarrow> 'db work_op list \<Rightarrow> 's \<Rightarrow> 's" where
  "session_run F h [] s = s"
| "session_run F h (Execute f # ops) s = session_run F h ops (sf_execute F h f s)"
| "session_run F h (Commit # ops) s = session_run F h ops (sf_commit F h s)"

text \<open>An endpoint that runs statements and returns or raises after them.\<close>

definition request_on :: "('s, 'h, 'db) session_factory \<Rightarrow> 'db work_op list \<Rightarrow> 'a outcome \<Rightarrow> 's \<Rightarrow> 's \<times> 'a outcome" where
  "request_on F ops r = with_db F (\<lambda>h s. (session_run F h ops s, r))"

text \<open>
  The bound on the sessions that work at a time is the pool's, the size and the overflow of the options together. What the statements of a request leave: the work up to its last commit.
\<close>

fun effect_of :: "'db \<Rightarrow> 'db \<Rightarrow> 'db work_op list \<Rightarrow> 'db" where
  "effect_of kept seen [] = kept"
| "effect_of kept seen (Execute f # ops) = effect_of kept (f seen) ops"
| "effect_of kept seen (Commit # ops) = effect_of seen seen ops"

locale db_sessions =
  fixes F :: "('s, 'h, 'db) session_factory"
    and stored :: "'s \<Rightarrow> 'db"
    and view :: "'s \<Rightarrow> 'h \<Rightarrow> 'db option"
    and limit :: nat
  assumes opened: "sf_open F s = (t, Inr h) \<Longrightarrow> view s h = None \<and> stored t = stored s \<and> view t = (view s)(h \<mapsto> stored s)"
    and open_fails: "sf_open F s = (t, Inl e) \<Longrightarrow> t = s"
    and open_bound: "(\<exists>t h. sf_open F s = (t, Inr h)) \<longleftrightarrow> card (dom (view s)) < limit"
    and executed: "view s h = Some d \<Longrightarrow> stored (sf_execute F h f s) = stored s \<and> view (sf_execute F h f s) = (view s)(h \<mapsto> f d)"
    and committed: "view s h = Some d \<Longrightarrow> stored (sf_commit F h s) = d \<and> view (sf_commit F h s) = view s"
    and closed: "stored (sf_close F h s) = stored s \<and> view (sf_close F h s) = (view s)(h := None)"
begin

lemma session_run_effect:
  "view s h = Some d \<Longrightarrow> \<exists>d'. view (session_run F h ops s) = (view s)(h \<mapsto> d') \<and>
     stored (session_run F h ops s) = effect_of (stored s) d ops"
proof (induction ops arbitrary: s d)
  case Nil
  then show ?case by (intro exI [of _ d]) (auto simp: fun_eq_iff)
next
  case (Cons op ops)
  show ?case
  proof (cases op)
    case (Execute f)
    have e: "view (sf_execute F h f s) = (view s)(h \<mapsto> f d)" "stored (sf_execute F h f s) = stored s"
      using executed [OF Cons.prems] by simp_all
    then have "view (sf_execute F h f s) h = Some (f d)" by simp
    from Cons.IH [OF this] show ?thesis using Execute e by (auto simp: fun_upd_def [symmetric])
  next
    case Commit
    have e: "view (sf_commit F h s) = view s" "stored (sf_commit F h s) = d" using committed [OF Cons.prems] by simp_all
    with Cons.prems have "view (sf_commit F h s) h = Some d" by simp
    from Cons.IH [OF this] show ?thesis using Commit e by auto
  qed
qed

text \<open>
  A request leaves no session behind and keeps exactly what it committed: the sessions of the others are as before, an
  exception after a commit does not take it back, and what was not committed is gone whether or not an exception was raised.
\<close>

lemma request_isolated:
  assumes "card (dom (view s)) < limit"
  shows "\<exists>t. request_on F ops r s = (t, r) \<and> view t = view s \<and> stored t = effect_of (stored s) (stored s) ops"
proof -
  obtain s1 h where o: "sf_open F s = (s1, Inr h)" using assms open_bound by blast
  have h: "view s h = None" "stored s1 = stored s" "view s1 = (view s)(h \<mapsto> stored s)" using opened [OF o] by simp_all
  then have "view s1 h = Some (stored s)" by simp
  from session_run_effect [OF this, of ops] obtain d where
    "view (session_run F h ops s1) = (view s1)(h \<mapsto> d)" "stored (session_run F h ops s1) = effect_of (stored s1) (stored s) ops"
    by blast
  then show ?thesis
    using o h closed [of h "session_run F h ops s1"] by (auto simp: request_on_def with_db_def fun_upd_idem)
qed

lemma request_refused:
  assumes "limit \<le> card (dom (view s))"
  shows "\<exists>e. request_on F ops r s = (s, Inl e)"
proof -
  obtain t x where o: "sf_open F s = (t, x)" by (cases "sf_open F s")
  have "\<not> (\<exists>t h. sf_open F s = (t, Inr h))" using assms by (simp add: open_bound)
  then obtain e where "x = Inl e" using o by (cases x) auto
  then show ?thesis using o open_fails by (auto simp: request_on_def with_db_def)
qed

end

subsection \<open>A pool of private copies\<close>

record 'db copy_server =
  cs_data :: 'db
  cs_copies :: "'db option list"

definition copy_view :: "'db copy_server \<Rightarrow> nat \<Rightarrow> 'db option" where
  "copy_view s h = (if h < length (cs_copies s) then cs_copies s ! h else None)"

definition copy_factory :: "nat \<Rightarrow> ('db copy_server, nat, 'db) session_factory" where
  "copy_factory n =
     \<lparr>sf_open = (\<lambda>s. if length (filter (\<lambda>c. c \<noteq> None) (cs_copies s)) < n
                     then (s\<lparr>cs_copies := cs_copies s @ [Some (cs_data s)]\<rparr>, Inr (length (cs_copies s)))
                     else (s, Inl (OtherException ''TimeoutError''))),
      sf_execute = (\<lambda>h f s. s\<lparr>cs_copies := (cs_copies s)[h := map_option f (cs_copies s ! h)]\<rparr>),
      sf_commit = (\<lambda>h s. case cs_copies s ! h of None \<Rightarrow> s | Some d \<Rightarrow> s\<lparr>cs_data := d\<rparr>),
      sf_close = (\<lambda>h s. s\<lparr>cs_copies := (cs_copies s)[h := None]\<rparr>)\<rparr>"

lemma copy_view_card: "card (dom (copy_view s)) = length (filter (\<lambda>c. c \<noteq> None) (cs_copies s))"
proof -
  have "dom (copy_view s) = {i. i < length (cs_copies s) \<and> cs_copies s ! i \<noteq> None}"
    by (auto simp: copy_view_def dom_def split: if_splits)
  then show ?thesis by (simp add: length_filter_conv_card)
qed

interpretation cf: db_sessions "copy_factory n" cs_data copy_view n for n
  by unfold_locales
    (auto simp: copy_factory_def copy_view_card, auto simp: copy_view_def fun_eq_iff nth_append nth_list_update split: if_splits)

end
