(* ===== verification/Spec2Isabelle.thy ===== *)
theory Spec2Isabelle
  imports Circuit_Breaker Records_Routes Records_V2 Background_Routes Scheduler Processed_Events
    Processor Notifications Fetch Scrape_Routes Vector_Search Query_Api
    Lifecycle Http_App Dashboard_Ingestor Pipeline Repo_Checks Repo_Tools Seed_Data
    Migrations Query_Service Load_Test Telemetry Client_Demos
    Task_Lifecycle Log_Lines Db_Session
begin

text \<open>
  A model of the data pipeline: the ingestor (records API, background work, scheduled jobs, scrapers, analytics), the
  event processor, the AI gateway, the read service, the dashboard, and the scripts and migrations of the repository.
  Paths are relative to \<open>src/\<close>.

  \<^bold>\<open>The program.\<close> The ingestor accepts records over HTTP (\<open>ingestor/routers/\<close>), checks them against its schemas, stores them
  through \<open>ingestor/crud.py\<close>, caches single records in Redis and publishes events to Kafka behind a circuit breaker. Large
  batches go to an in-process worker pool, and a scheduler runs ingestion jobs. The processor consumes the events and moves
  what it cannot process to a dead letter topic. The AI gateway embeds texts and keeps them in a vector store; the ingestor
  indexes and searches records through it. The read service answers analytics from the same database, the dashboard reads
  the ingestor's API.

  \<^bold>\<open>Conventions.\<close> \<open>Prelude\<close> holds the vocabulary: exceptions are the constructors of \<open>py_exn\<close>, a call that may raise has type
  \<open>'a outcome = py_exn + 'a\<close>, \<open>except Exception\<close> is \<open>is_Exception\<close> (all but a cancellation), a \<open>datetime\<close> is its number of
  microseconds, a Python \<open>float\<close> is a rational (its rounding is not modelled), \<open>int\<close> is \<open>int\<close>, \<open>str\<close> a list of code points
  below 256. Objects are records and methods return the updated record. Clocks, random draws, generated ids and the
  answers of networks are arguments; one reading of the clock serves a database statement, where SQLAlchemy evaluates the
  defaults of the timestamps for each row and column. Interleavings of coroutines are step relations whose steps end where the code awaits.
  The state of a third-party service and its operations are a record of functions; what the code relies on is a locale, and
  each locale is interpreted on a concrete instance, which the witnesses use: \<open>record_store\<close> (the records table through
  SQLAlchemy), \<open>event_store\<close> (the table of processed events), \<open>jwt_provider\<close>, \<open>redis_server\<close>, \<open>apscheduler\<close>,
  \<open>document_store\<close> (MongoDB), \<open>embedding_model\<close> and \<open>text_model\<close>, \<open>vector_db\<close> (Qdrant), \<open>ddl_catalog\<close> (a database server
  that runs migrations), \<open>float_printer\<close> (Python's \<open>repr\<close> of a float),
  \<open>db_sessions\<close> (the sessions of SQLAlchemy), \<open>kafka_broker\<close> (a Kafka producer and the partitioned log of a topic),
  \<open>form_reader\<close> (how a browser and the framework read the query of a URL). Inside the program, \<open>keyed_limiter\<close>, \<open>dedup_tracker\<close>, \<open>url_filter\<close> and \<open>invariant_system\<close> are the
  contracts of the limiters, the idempotency tracker, the Bloom filter and the step relations, interpreted on the models.

  \<^bold>\<open>Theories, in the order of the layers.\<close>
  \<^item> Shared code. \<open>Circuit_Breaker\<close> (\<open>libs/platform/circuit_breaker.py\<close>): the breaker, its calls and their interleaving.
    \<open>Retry\<close> (\<open>libs/platform/retry.py\<close>): the backoff loop and the idempotency tracker. \<open>Rate_Limits\<close>
    (\<open>ingestor/rate_limiting_advanced.py\<close>). \<open>Codec\<close>: JSON, base64, UTF-8 and ISO times as the standard library has them.
    \<open>Json_Access\<close>, \<open>Json_Text\<close> and \<open>Text_Lines\<close>: Python's operations on decoded JSON, the printing of JSON and lines of text.
  \<^item> Data. \<open>Schemas\<close> (\<open>ingestor/schemas.py\<close>), \<open>Store\<close> (\<open>ingestor/models.py\<close>, queries and the engine), \<open>Crud\<close>
    (\<open>ingestor/crud.py\<close>, one definition per function) with its laws in \<open>Crud_Laws\<close> and \<open>Cursor_Pages\<close>, \<open>Migrations\<close>
    (\<open>alembic/versions/\<close> and \<open>alembic/env.py\<close> against the models), \<open>Processed_Events\<close> (\<open>ingestor/storage/events.py\<close>).
  \<^item> The ingestor's services. \<open>Auth\<close>, \<open>Cache\<close>, \<open>Events\<close>, \<open>Jobs\<close>, \<open>Worker_Pool\<close> and \<open>Task_Lifecycle\<close>
    (\<open>ingestor/core/background_workers.py\<close>), \<open>Db_Session\<close> (\<open>ingestor/database.py\<close>),
    \<open>Scheduler\<close> (\<open>ingestor/core/scheduler.py\<close>, \<open>handlers.py\<close>, the registry and the health API), \<open>Notifications\<close>, \<open>Fetch\<close>
    (both HTTP clients), \<open>Scrapers\<close> and \<open>Scraper_Backends\<close> (\<open>ingestor/scrapers/\<close>), \<open>Settings\<close> (\<open>ingestor/config.py\<close>),
    \<open>Telemetry\<close> (metrics and tracing), \<open>Log_Lines\<close> (what the logging writes, and its demonstration).
  \<^item> The ingestor's endpoints. \<open>Records_Routes\<close>, \<open>Records_V2\<close>, \<open>Background_Routes\<close>, \<open>Scrape_Routes\<close>, \<open>Vector_Search\<close>,
    \<open>Analytics\<close>; \<open>Http_App\<close> (middlewares, documentation, probes, logging) and \<open>Lifecycle\<close> (startup and shutdown, composed
    of the operations of the services). \<open>Api_Contracts\<close>: the response models of \<open>libs/contracts/schemas.py\<close> and
    \<open>ingestor/schemas.py\<close> as shapes, and that the responses of the endpoints conform to them.
  \<^item> The other services. \<open>Processor\<close>, \<open>Embeddings\<close> and \<open>AI_Gateway\<close>, \<open>Query_Api\<close> and \<open>Query_Service\<close>, \<open>Dashboard\<close> and
    \<open>Dashboard_App\<close>. \<open>Pipeline\<close> composes the record routes, the producer and the consumer over any Kafka broker;
    \<open>Dashboard_Ingestor\<close> puts the list route of the ingestor behind the dashboard's pages.
  \<^item> Scripts. \<open>Repo_Checks\<close> (the boundary and documentation checks), \<open>Repo_Tools\<close> (age gate, audit wrapper, weekly report),
    \<open>Seed_Data\<close> and \<open>Load_Test\<close> (\<open>scripts/testing/\<close>, run against the model of the ingestor), \<open>Client_Demos\<close>
    (\<open>scripts/tools/http-clients-demo.py\<close> over both HTTP clients).

  \<^bold>\<open>What the lemmas show.\<close>
  \<^item> Invariants over all interleavings: the breaker's state, and the worker pool, which loses no task as long as it may
    track as many tasks as its queue holds (and one that dies where it may not), and whose tasks only move forward.
  \<^item> Refinements: the tracker, the sliding window, the sessions and the event store answer as functions of their
    history; indexing stores exactly the embeddings of the active records; the migrations give the declared tables.
  \<^item> Equivalences: the two batch inserts, the two analytics summaries, the boundary check and what it promises.
  \<^item> Round trips: cursors, downgrades, log lines, and as lemmas the printing of JSON, the metrics text, notification channels and trace ids.
  \<^item> Termination and liveness: the retry loops, cursor walks and the load test's user, the recovery of the breaker.
  \<^item> Compositions: caching over a lawful engine and a healthy Redis, notifications under the pool, seeding through the
    batch route, indexing through the gateway, startup and shutdown over all services, every created record through
    the partitions of a broker into the processor, the dashboard's scrolling over the ingestor's database, and the
    demonstrations that leave no client open.
  Each property is a theorem with a numbered text before it. Several state what goes wrong rather than what holds (stale
  reads after an update, a read service that cannot start or answer, searches that the vector store's client refuses,
  clients that survive a shutdown that failed, a source that the dashboard's link cuts at an ampersand, tasks evicted while
  queued), because the code does so.

  \<^bold>\<open>Bounds and fuel.\<close> The JSON parser of \<open>Codec\<close> recurses on twice the length of its text, which every step shortens.
  \<open>replace_upto\<close> and \<open>link_targets\<close> recurse on the length of the text that is left. \<open>chain\<close> follows as many revisions as there are
  files. \<open>client_walk\<close> takes the list of databases its requests meet: one more than there are rows is enough, which
  \<open>cursor_walk_complete\<close> proves. \<open>scroll_on n\<close> makes at most \<open>n\<close> requests; its theorem says how many reach the end.
  \<open>browse n\<close> is \<open>n\<close> tasks of a virtual user. The backoff loops recurse on the attempts that are left, \<open>seed_loop\<close> on the batches.
  Words: the Bloom filter's bits are a byte array, a trace id is a word of 128 bits; other numbers are unbounded in Python.

  \<^bold>\<open>Not modelled.\<close> Floating-point rounding; code points from 256 on; the text of log lines (except the formatters);
  templates other than the rows of the record table; the normalisation that Qdrant applies to vectors of a cosine collection; the limiter of \<open>ingestor/rate_limiting.py\<close> (one instance of a library class); the mount of the dashboard's
  static files; re-exports;
  infrastructure files. How pydantic, FastAPI and the drivers work inside is a parameter or a law.
\<close>

end
